(* ===== verification/Prelude.thy ===== *)
theory Prelude
  imports Main "HOL-Library.Word" "HOL-Library.Monad_Syntax"
begin

text \<open>
  Shared vocabulary of the development: the machine integers of the C++ code, undefined behaviour
  as a value, little-endian byte images of integers (what a \<open>memcpy\<close> of an integer moves on the
  platforms the program is built for), C strings, and the two collections of rewrite rules the
  component theories extend.
\<close>

unbundle bit_operations_syntax

named_theorems wire_simps \<open>lengths and decoded values of byte images\<close>
named_theorems size_simps \<open>sizes of serialised items, as machine words\<close>

section \<open>Machine integers\<close>

type_synonym byte = "8 word"
type_synonym u16 = "16 word"
type_synonym u32 = "32 word"
type_synonym u64 = "64 word"
type_synonym cstring = "byte list"

text \<open>
  An operation of the code that C++ leaves undefined for some arguments (an access outside a
  vector or a buffer) returns \<open>None\<close> there.
\<close>

type_synonym 'a defined = "'a option"

definition nth_def :: "'a list \<Rightarrow> nat \<Rightarrow> 'a defined" where
  "nth_def xs i = (if i < length xs then Some (xs ! i) else None)"

definition upd_def :: "'a list \<Rightarrow> nat \<Rightarrow> 'a \<Rightarrow> 'a list defined" where
  "upd_def xs i v = (if i < length xs then Some (xs[i := v]) else None)"

lemma nth_def_Some [simp]: "i < length xs \<Longrightarrow> nth_def xs i = Some (xs ! i)"
  by (simp add: nth_def_def)

lemma nth_def_None [simp]: "length xs \<le> i \<Longrightarrow> nth_def xs i = None"
  by (simp add: nth_def_def)

lemma nth_def_eq_Some_iff: "nth_def xs i = Some v \<longleftrightarrow> i < length xs \<and> v = xs ! i"
  by (auto simp: nth_def_def)

lemma upd_def_Some [simp]: "i < length xs \<Longrightarrow> upd_def xs i v = Some (xs[i := v])"
  by (simp add: upd_def_def)

lemma upd_def_None [simp]: "length xs \<le> i \<Longrightarrow> upd_def xs i v = None"
  by (simp add: upd_def_def)

lemma upd_def_eq_Some_iff: "upd_def xs i v = Some ys \<longleftrightarrow> i < length xs \<and> ys = xs[i := v]"
  by (auto simp: upd_def_def)

text \<open>A loop over \<open>xs\<close> whose body may be undefined.\<close>

fun fold_def :: "('a \<Rightarrow> 's \<Rightarrow> 's defined) \<Rightarrow> 'a list \<Rightarrow> 's \<Rightarrow> 's defined" where
  "fold_def f [] s = Some s"
| "fold_def f (x # xs) s = Option.bind (f x s) (fold_def f xs)"

lemma fold_def_append: "fold_def f (xs @ ys) s = Option.bind (fold_def f xs s) (fold_def f ys)"
  by (induction xs arbitrary: s) (auto split: Option.bind_splits)

lemma fold_def_invariant:
  assumes "I s" and "\<And>x s. x \<in> set xs \<Longrightarrow> I s \<Longrightarrow> \<exists>s'. f x s = Some s' \<and> I s'"
  shows "\<exists>s'. fold_def f xs s = Some s' \<and> I s'"
  using assms
proof (induction xs arbitrary: s)
  case Nil
  then show ?case by simp
next
  case (Cons x xs)
  from Cons.prems obtain s1 where s1: "f x s = Some s1" "I s1" by auto
  then have "\<exists>s'. fold_def f xs s1 = Some s' \<and> I s'"
    using Cons.prems(2) by (intro Cons.IH) auto
  with s1 show ?case by simp
qed

text \<open>\<open>std::vector::resize\<close>: truncate, or append value-initialised elements.\<close>

definition vec_resize :: "nat \<Rightarrow> 'a \<Rightarrow> 'a list \<Rightarrow> 'a list" where
  "vec_resize n d xs = take n xs @ replicate (n - length xs) d"

lemma length_vec_resize [simp]: "length (vec_resize n d xs) = n"
  by (simp add: vec_resize_def min_def)

lemma vec_resize_length [simp]: "vec_resize (length xs) d xs = xs"
  by (simp add: vec_resize_def)

text \<open>A signed \<open>int\<close> used as a container index is converted to \<open>size_t\<close> with sign extension.\<close>

definition size_t_of_int :: "32 word \<Rightarrow> nat" where
  "size_t_of_int i = unat (scast i :: 64 word)"

lemma unat_add_no_wrap:
  fixes x y :: "'a::len word"
  shows "unat x + unat y < 2 ^ LENGTH('a) \<Longrightarrow> unat (x + y) = unat x + unat y"
  by (simp add: unat_add_lem [symmetric])

lemma unat_of_nat_small [simp]:
  "n < 2 ^ LENGTH('a) \<Longrightarrow> unat (of_nat n :: 'a::len word) = n"
  by (simp add: unat_of_nat take_bit_nat_eq_self)

lemma unat_ucast_up [simp]:
  "LENGTH('a) \<le> LENGTH('b) \<Longrightarrow> unat (ucast (x :: 'a::len word) :: 'b::len word) = unat x"
  by (simp add: unsigned_ucast_eq take_bit_nat_eq_self_iff order_less_le_trans [OF unsigned_less])

lemma size_t_of_int_of_nat [simp]: "i < 2 ^ 31 \<Longrightarrow> size_t_of_int (of_nat i) = i"
proof -
  assume i: "i < 2 ^ 31"
  have "sint (of_nat i :: 32 word) = int i"
    using i by (simp add: signed_of_nat signed_take_bit_int_eq_self)
  then have "(scast (of_nat i :: 32 word) :: 64 word) = of_nat i"
    by (metis of_int_of_nat_eq of_int_sint)
  then show ?thesis using i by (simp add: size_t_of_int_def)
qed

lemma of_nat_unat_ucast: "of_nat (unat (x :: 'a::len word)) = (ucast x :: 'b::len word)"
  by (simp add: of_nat_unat)

section \<open>Little-endian byte images\<close>

definition le_bytes :: "nat \<Rightarrow> 'a::len word \<Rightarrow> byte list" where
  "le_bytes n w = map (\<lambda>i. ucast (drop_bit (8 * i) w)) [0..<n]"

definition le_word :: "byte list \<Rightarrow> 'a::len word" where
  "le_word bs = foldr (\<lambda>b w. push_bit 8 w OR ucast b) bs 0"

lemma length_le_bytes [simp, wire_simps]: "length (le_bytes n w) = n"
  by (simp add: le_bytes_def)

lemma le_bytes_Suc: "le_bytes (Suc n) w = ucast w # le_bytes n (drop_bit 8 w)"
  by (simp add: le_bytes_def upt_conv_Cons map_Suc_upt [symmetric] add.commute
      del: upt_Suc map_Suc_upt)

lemma le_word_Cons: "le_word (b # bs) = push_bit 8 (le_word bs) OR ucast b"
  by (simp add: le_word_def)

lemma le_word_Nil [simp]: "le_word [] = 0"
  by (simp add: le_word_def)

lemma le_word_le_bytes_take_bit:
  "le_word (le_bytes n w) = take_bit (8 * n) (w :: 'a::len word)"
proof (induction n arbitrary: w)
  case 0
  show ?case by (simp add: le_bytes_def)
next
  case (Suc n)
  have "push_bit 8 (take_bit (8 * n) (drop_bit 8 w)) OR ucast (ucast w :: byte)
        = take_bit (8 * Suc n) w"
    by (rule bit_word_eqI) (auto simp: bit_simps)
  with Suc show ?case by (simp add: le_bytes_Suc le_word_Cons)
qed

lemma le_word_le_bytes [wire_simps]:
  "LENGTH('a) \<le> 8 * n \<Longrightarrow> le_word (le_bytes n (w :: 'a::len word)) = w"
  by (simp add: le_word_le_bytes_take_bit take_bit_word_eq_self)

section \<open>C strings\<close>

text \<open>\<open>c_str s\<close> is what \<open>strlen\<close> and \<open>strcpy\<close> see of a \<open>std::string\<close>: the bytes before the first NUL.\<close>

definition c_str :: "cstring \<Rightarrow> cstring" where
  "c_str s = takeWhile (\<lambda>b. b \<noteq> 0) s"

lemma zero_notin_c_str [simp]: "0 \<notin> set (c_str s)"
  by (auto simp: c_str_def dest: set_takeWhileD)

lemma c_str_c_str [simp]: "c_str (c_str s) = c_str s"
  by (simp add: c_str_def)

lemma c_str_id: "0 \<notin> set s \<Longrightarrow> c_str s = s"
  by (simp add: c_str_def takeWhile_eq_all_conv) metis

lemma c_str_append_NUL [simp]: "c_str (c_str s @ 0 # r) = c_str s"
proof -
  have "takeWhile (\<lambda>b. b \<noteq> 0) (c_str s @ 0 # r) = c_str s"
    by (subst takeWhile_append2) (auto simp: c_str_def dest: set_takeWhileD)
  then show ?thesis by (simp add: c_str_def)
qed

text \<open>\<open>std::to_string\<close> of an unsigned number.\<close>

fun decimal :: "nat \<Rightarrow> cstring" where
  "decimal n = (if n < 10 then [48 + of_nat n] else decimal (n div 10) @ [48 + of_nat (n mod 10)])"

end
