(* ===== verification/Wire.thy ===== *)
theory Wire
  imports Prelude
begin

text \<open>
  The two idioms every description packet of \<open>RGBController.cpp\<close> is built from.

  Writing: \<open>memcpy(&data_buf[data_ptr], &x, sizeof(x)); data_ptr += sizeof(x)\<close> is the action
  \<open>Memcpy\<close>, and \<open>strcpy((char*)&data_buf[data_ptr], s.c_str()); data_ptr += len\<close> the action
  \<open>Strcpy\<close>; a writer is the list of its actions in program order, run by \<open>exec_writes\<close> on the
  allocated buffer. A write past the end of the buffer is undefined (\<open>None\<close>).

  Reading: a reader takes the buffer and \<open>data_ptr\<close> and returns the value and the advanced
  \<open>data_ptr\<close>; a read past the end of the buffer is undefined (\<open>None\<close>). The interface
  \<open>codec\<close> relates a byte image to its reader; every item of a packet provides one.
\<close>

section \<open>Writing\<close>

datatype wact = Memcpy "byte list" | Strcpy cstring u16 | Undefined_read

definition blit :: "byte list \<Rightarrow> nat \<Rightarrow> byte list \<Rightarrow> byte list defined" where
  "blit buf i bs = (if i + length bs \<le> length buf
     then Some (take i buf @ bs @ drop (i + length bs) buf) else None)"

fun exec_write :: "wact \<Rightarrow> byte list \<times> u32 \<Rightarrow> (byte list \<times> u32) defined" where
  "exec_write (Memcpy bs) (buf, p) = map_option (\<lambda>b. (b, p + of_nat (length bs))) (blit buf (unat p) bs)"
| "exec_write (Strcpy s n) (buf, p) = map_option (\<lambda>b. (b, p + ucast n)) (blit buf (unat p) (c_str s @ [0]))"
| "exec_write Undefined_read _ = None"

fun exec_writes :: "wact list \<Rightarrow> byte list \<times> u32 \<Rightarrow> (byte list \<times> u32) defined" where
  "exec_writes [] st = Some st"
| "exec_writes (w # ws) st = Option.bind (exec_write w st) (exec_writes ws)"

text \<open>\<open>new unsigned char[n]\<close> leaves the bytes indeterminate: \<open>junk\<close> is what they happen to hold.\<close>

definition new_buf :: "(nat \<Rightarrow> byte) \<Rightarrow> u32 \<Rightarrow> byte list" where
  "new_buf junk n = map junk [0..<unat n]"

lemma length_new_buf [simp]: "length (new_buf junk n) = unat n"
  by (simp add: new_buf_def)

definition run_writer :: "(nat \<Rightarrow> byte) \<Rightarrow> u32 \<Rightarrow> wact list \<Rightarrow> byte list defined" where
  "run_writer junk n ws = map_option fst (exec_writes ws (new_buf junk n, 0))"

subsection \<open>What a writer leaves in the buffer\<close>

fun wbytes :: "wact \<Rightarrow> byte list" where
  "wbytes (Memcpy bs) = bs"
| "wbytes (Strcpy s n) = c_str s @ [0]"
| "wbytes Undefined_read = []"

definition wimage :: "wact list \<Rightarrow> byte list" where
  "wimage ws = concat (map wbytes ws)"

text \<open>An action is tight when it advances \<open>data_ptr\<close> by exactly what it wrote.\<close>

fun tight :: "wact \<Rightarrow> bool" where
  "tight (Memcpy bs) = True"
| "tight (Strcpy s n) = (unat n = length (c_str s) + 1)"
| "tight Undefined_read = False"

lemma wimage_simps [simp]:
  "wimage [] = []" "wimage (w # ws) = wbytes w @ wimage ws" "wimage (ws @ vs) = wimage ws @ wimage vs"
  by (simp_all add: wimage_def)

lemma wimage_concat: "wimage (concat (map f xs)) = concat (map (\<lambda>x. wimage (f x)) xs)"
  by (induction xs) simp_all

lemma exec_write_tight:
  assumes "tight w" "unat p = length pre" "length pre + length (wbytes w) + length suf < 2 ^ 32"
    and "length mid = length (wbytes w)"
  shows "\<exists>p'. exec_write w (pre @ mid @ suf, p) = Some (pre @ wbytes w @ suf, p') \<and>
              unat p' = length pre + length (wbytes w)"
proof (cases w)
  case (Memcpy bs)
  have "unat (p + of_nat (length bs)) = length pre + length bs"
    using assms Memcpy by (subst unat_add_no_wrap) auto
  with assms Memcpy show ?thesis by (simp add: blit_def)
next
  case (Strcpy s n)
  have "unat (ucast n :: u32) = length (c_str s) + 1"
    using assms(1) Strcpy by simp
  then have "unat (p + ucast n) = length pre + length (c_str s) + 1"
    using assms Strcpy by (subst unat_add_no_wrap) auto
  with assms Strcpy show ?thesis by (simp add: blit_def)
next
  case Undefined_read
  with assms show ?thesis by simp
qed

lemma exec_writes_tight:
  assumes "list_all tight ws" "unat p = length pre"
    and "length pre + length (wimage ws) + length suf < 2 ^ 32"
    and "length mid = length (wimage ws)"
  shows "\<exists>p'. exec_writes ws (pre @ mid @ suf, p) = Some (pre @ wimage ws @ suf, p') \<and>
              unat p' = length pre + length (wimage ws)"
  using assms
proof (induction ws arbitrary: pre mid p)
  case Nil
  then show ?case by simp
next
  case (Cons w ws)
  let ?a = "take (length (wbytes w)) mid" and ?b = "drop (length (wbytes w)) mid"
  have len: "length ?a = length (wbytes w)" "length ?b = length (wimage ws)"
    using Cons.prems by auto
  obtain p1 where p1: "exec_write w (pre @ ?a @ (?b @ suf), p) = Some (pre @ wbytes w @ (?b @ suf), p1)"
      "unat p1 = length (pre @ wbytes w)"
    using exec_write_tight [of w p pre "?b @ suf" ?a] Cons.prems len by auto
  obtain p2 where "exec_writes ws ((pre @ wbytes w) @ ?b @ suf, p1)
        = Some ((pre @ wbytes w) @ wimage ws @ suf, p2)"
      "unat p2 = length (pre @ wbytes w) + length (wimage ws)"
    using Cons.IH [of p1 "pre @ wbytes w" ?b] Cons.prems p1 len by auto
  moreover have "exec_write w (pre @ mid @ suf, p) = exec_write w (pre @ ?a @ (?b @ suf), p)"
    by (simp add: append_assoc [symmetric] del: append_assoc)
  ultimately show ?case using p1 by auto
qed

text \<open>
  The writer contract: when the computed size is the length of what the actions write, the
  buffer ends up holding exactly those bytes, whatever it held before.
\<close>

lemma run_writer_wimage:
  assumes "list_all tight ws" "n = of_nat (length (wimage ws))" "length (wimage ws) < 2 ^ 32"
  shows "run_writer junk n ws = Some (wimage ws)"
proof -
  have "unat n = length (wimage ws)"
    using assms(2,3) by simp
  then show ?thesis
    using exec_writes_tight [of ws 0 "[]" "[]" "new_buf junk n"] assms
    by (auto simp: run_writer_def)
qed

section \<open>Reading\<close>

type_synonym 'a rd = "byte list \<Rightarrow> u32 \<Rightarrow> ('a \<times> u32) defined"

definition rd_word :: "nat \<Rightarrow> 'a::len word rd" where
  "rd_word n buf p = (if unat p + n \<le> length buf
     then Some (le_word (take n (drop (unat p) buf)), p + of_nat n) else None)"

definition rd_u16 :: "u16 rd" where "rd_u16 = rd_word 2"
definition rd_u32 :: "u32 rd" where "rd_u32 = rd_word 4"

text \<open>
  \<open>s = (char*)&data_buf[data_ptr]; data_ptr += len\<close>: the string runs to the first NUL of the
  buffer, whatever \<open>len\<close> says.
\<close>

definition rd_cstr :: "u16 \<Rightarrow> cstring rd" where
  "rd_cstr len buf p = (let t = drop (unat p) buf in
     if 0 \<in> set t then Some (c_str t, p + ucast len) else None)"

text \<open>The size and the data of a string: two bytes of length, then the characters.\<close>

definition rd_string :: "cstring rd" where
  "rd_string buf p = do { (len, p) \<leftarrow> rd_u16 buf p; rd_cstr len buf p }"

primrec rd_n :: "nat \<Rightarrow> 'a rd \<Rightarrow> 'a list rd" where
  "rd_n 0 f buf p = Some ([], p)"
| "rd_n (Suc n) f buf p = do { (x, p) \<leftarrow> f buf p; (xs, p) \<leftarrow> rd_n n f buf p; Some (x # xs, p) }"

text \<open>\<open>at_pos buf p r\<close>: the rest of the buffer at position \<open>p\<close> is \<open>r\<close>.\<close>

definition at_pos :: "byte list \<Rightarrow> u32 \<Rightarrow> byte list \<Rightarrow> bool" where
  "at_pos buf p r \<longleftrightarrow> unat p \<le> length buf \<and> length buf < 2 ^ 32 \<and> drop (unat p) buf = r"

definition decodes :: "'a rd \<Rightarrow> byte list \<Rightarrow> 'a \<Rightarrow> bool" where
  "decodes f e v \<longleftrightarrow>
     (\<forall>buf p r. at_pos buf p (e @ r) \<longrightarrow> (\<exists>p'. f buf p = Some (v, p') \<and> at_pos buf p' r))"

lemma decodesI:
  "(\<And>buf p r. at_pos buf p (e @ r) \<Longrightarrow> \<exists>p'. f buf p = Some (v, p') \<and> at_pos buf p' r) \<Longrightarrow> decodes f e v"
  by (simp add: decodes_def)

lemma decodesE:
  assumes "decodes f e v" "at_pos buf p (e @ r)"
  obtains p' where "f buf p = Some (v, p')" "at_pos buf p' r"
  using assms unfolding decodes_def by blast

lemma at_pos_advance:
  assumes "at_pos buf p (e @ r)" "n = length e"
  shows "at_pos buf (p + of_nat n) r" "unat p + n \<le> length buf" "take n (drop (unat p) buf) = e"
proof -
  from assms have len: "unat p + n \<le> length buf"
    unfolding at_pos_def
    by (metis add_le_cancel_left drop_eq_Nil le_add_diff_inverse length_append length_drop le_add1)
  from assms len have u: "unat (p + of_nat n) = unat p + n"
    by (subst unat_add_no_wrap) (auto simp: at_pos_def)
  have "drop (unat p + n) buf = drop n (drop (unat p) buf)"
    by (simp add: add.commute)
  with assms len u show "at_pos buf (p + of_nat n) r"
    by (simp add: at_pos_def)
  from len show "unat p + n \<le> length buf" .
  from assms show "take n (drop (unat p) buf) = e"
    by (simp add: at_pos_def)
qed

lemma decodes_return: "v = w \<Longrightarrow> decodes (\<lambda>buf p. Some (v, p)) [] w"
  by (auto simp: decodes_def)

lemma decodes_bind:
  assumes "decodes f e1 x" "decodes (g x) e2 y"
  shows "decodes (\<lambda>buf p. Option.bind (f buf p) (\<lambda>(x, p). g x buf p)) (e1 @ e2) y"
  by (rule decodesI) (auto elim!: decodesE [OF assms(1)] decodesE [OF assms(2)] simp: append_assoc)

lemma decodes_rd_word:
  "LENGTH('a) \<le> 8 * n \<Longrightarrow> decodes (rd_word n) (le_bytes n (w :: 'a::len word)) w"
  by (rule decodesI) (auto simp: rd_word_def wire_simps dest: at_pos_advance [where n = n])

lemma decodes_u16: "decodes rd_u16 (le_bytes 2 w) w"
  by (simp add: rd_u16_def decodes_rd_word)

lemma decodes_u32: "decodes rd_u32 (le_bytes 4 w) w"
  by (simp add: rd_u32_def decodes_rd_word)

lemma decodes_cstr:
  assumes "unat len = length (c_str s) + 1"
  shows "decodes (rd_cstr len) (c_str s @ [0]) (c_str s)"
proof (rule decodesI)
  fix buf p r
  assume at: "at_pos buf p ((c_str s @ [0]) @ r)"
  have "at_pos buf (p + of_nat (unat len)) r"
    using at_pos_advance(1) [OF at] assms by simp
  moreover have "(of_nat (unat len) :: u32) = ucast len"
    by (rule of_nat_unat_ucast)
  moreover have "rd_cstr len buf p = Some (c_str s, p + ucast len)"
    using at by (simp add: rd_cstr_def at_pos_def Let_def)
  ultimately show "\<exists>p'. rd_cstr len buf p = Some (c_str s, p') \<and> at_pos buf p' r"
    by simp
qed

lemmas decodes_intros = decodes_bind decodes_u16 decodes_u32

section \<open>The codec interface\<close>

text \<open>
  \<open>enc\<close> is the byte image of an item, \<open>dec\<close> its reader; reading back an item that satisfies
  \<open>ok\<close> returns \<open>norm\<close> of it and consumes exactly its image.
\<close>

locale codec =
  fixes enc :: "'a \<Rightarrow> byte list" and dec :: "'b rd" and ok :: "'a \<Rightarrow> bool" and norm :: "'a \<Rightarrow> 'b"
  assumes dec_enc: "ok x \<Longrightarrow> decodes dec (enc x) (norm x)"
begin

lemma dec_list: "(\<And>x. x \<in> set xs \<Longrightarrow> ok x) \<Longrightarrow>
    decodes (rd_n (length xs) dec) (concat (map enc xs)) (map norm xs)"
proof (induction xs)
  case Nil
  show ?case by (auto simp: decodes_def)
next
  case (Cons x xs)
  have "decodes (\<lambda>buf p. do { (y, p) \<leftarrow> dec buf p; (ys, p) \<leftarrow> rd_n (length xs) dec buf p; Some (y # ys, p) })
          (enc x @ concat (map enc xs) @ []) (norm x # map norm xs)"
    using Cons by (intro decodes_bind [where x = "norm x"] decodes_bind [where x = "map norm xs"]
        decodes_return dec_enc) auto
  moreover have "rd_n (length (x # xs)) dec =
      (\<lambda>buf p. do { (y, p) \<leftarrow> dec buf p; (ys, p) \<leftarrow> rd_n (length xs) dec buf p; Some (y # ys, p) })"
    by (intro ext) simp
  ultimately show ?case by simp
qed

lemma dec_list_n:
  "n = length xs \<Longrightarrow> (\<And>x. x \<in> set xs \<Longrightarrow> ok x) \<Longrightarrow>
    decodes (rd_n n dec) (concat (map enc xs)) (map norm xs)"
  using dec_list by simp

end

interpretation word32: codec "le_bytes 4" rd_u32 "\<lambda>_. True" "\<lambda>w. w"
  by unfold_locales (rule decodes_u32)

definition str_ok :: "cstring \<Rightarrow> bool" where
  "str_ok s \<longleftrightarrow> length (c_str s) < 65535"

text \<open>The length field the code computes: \<open>(unsigned short)strlen(s.c_str()) + 1\<close>, at 16 bits.\<close>

definition name_len :: "cstring \<Rightarrow> u16" where
  "name_len s = of_nat (length (c_str s)) + 1"

definition string_writes :: "cstring \<Rightarrow> wact list" where
  "string_writes s = [Memcpy (le_bytes 2 (name_len s)), Strcpy s (name_len s)]"

lemma unat_name_len: "str_ok s \<Longrightarrow> unat (name_len s) = length (c_str s) + 1"
  unfolding str_ok_def name_len_def by (subst unat_add_no_wrap) auto

lemma ucast_name_len [size_simps]: "str_ok s \<Longrightarrow> ucast (name_len s) = (of_nat (length (c_str s)) + 1 :: u32)"
  by (simp add: of_nat_unat_ucast [symmetric] unat_name_len)

lemma tight_string_writes [simp]: "str_ok s \<Longrightarrow> list_all tight (string_writes s)"
  by (simp add: string_writes_def unat_name_len)

lemma wimage_string_writes:
  "wimage (string_writes s) = le_bytes 2 (name_len s) @ c_str s @ [0]"
  by (simp add: string_writes_def)

lemma decodes_string: "str_ok s \<Longrightarrow> decodes rd_string (wimage (string_writes s)) (c_str s)"
  unfolding rd_string_def [abs_def] wimage_string_writes
  by (rule decodes_bind [OF decodes_u16]) (rule decodes_cstr [OF unat_name_len])

interpretation str: codec "\<lambda>s. wimage (string_writes s)" rd_string str_ok c_str
  by unfold_locales (rule decodes_string)

end
