(* ===== verification/Rgb_Controller.thy ===== *)
theory Rgb_Controller
  imports Prelude
begin

text \<open>
  \<open>RGBController/RGBController.h\<close> and the non-protocol part of \<open>RGBController.cpp\<close>: the data model
  of a device (modes, LEDs, zones with segments and a matrix, the color buffer) and the operations
  on colors and zones. A zone's \<open>colors\<close> and \<open>leds\<close> pointers point into the controller's own
  vectors; they are modelled as optional indices into them (\<open>None\<close> for \<open>NULL\<close>).
\<close>

section \<open>Colors\<close>

type_synonym RGBColor = u32

definition RGBGetRValue :: "RGBColor \<Rightarrow> u32" where
  "RGBGetRValue rgb = rgb AND 0x000000FF"

definition RGBGetGValue :: "RGBColor \<Rightarrow> u32" where
  "RGBGetGValue rgb = drop_bit 8 rgb AND 0x000000FF"

definition RGBGetBValue :: "RGBColor \<Rightarrow> u32" where
  "RGBGetBValue rgb = drop_bit 16 rgb AND 0x000000FF"

definition ToRGBColor :: "u32 \<Rightarrow> u32 \<Rightarrow> u32 \<Rightarrow> RGBColor" where
  "ToRGBColor r g b = push_bit 16 b OR push_bit 8 g OR r"

definition RGBToBGRColor :: "RGBColor \<Rightarrow> RGBColor" where
  "RGBToBGRColor rgb = push_bit 16 (rgb AND 0xFF) OR (rgb AND 0xFF00) OR drop_bit 16 (rgb AND 0xFF0000)"

section \<open>Data model\<close>

text \<open>\<open>MODE_COLORS_PER_LED\<close>, \<open>MODE_COLORS_MODE_SPECIFIC\<close>, \<open>ZONE_FLAG_RESIZE_EFFECTS_ONLY\<close>.\<close>

definition MODE_COLORS_PER_LED :: u32 where "MODE_COLORS_PER_LED = 1"
definition MODE_COLORS_MODE_SPECIFIC :: u32 where "MODE_COLORS_MODE_SPECIFIC = 2"
definition ZONE_FLAG_RESIZE_EFFECTS_ONLY :: u32 where "ZONE_FLAG_RESIZE_EFFECTS_ONLY = 1"

record mode =
  mode_name :: cstring
  mode_value :: u32
  mode_flags :: u32
  mode_speed_min :: u32
  mode_speed_max :: u32
  mode_brightness_min :: u32
  mode_brightness_max :: u32
  mode_colors_min :: u32
  mode_colors_max :: u32
  mode_speed :: u32
  mode_brightness :: u32
  mode_direction :: u32
  mode_color_mode :: u32
  mode_colors :: "RGBColor list"

text \<open>The constructor \<open>mode::mode()\<close>.\<close>

definition new_mode :: mode where
  "new_mode = \<lparr>mode_name = [], mode_value = 0, mode_flags = 0, mode_speed_min = 0, mode_speed_max = 0,
     mode_brightness_min = 0, mode_brightness_max = 0, mode_colors_min = 0, mode_colors_max = 0,
     mode_speed = 0, mode_brightness = 0, mode_direction = 0, mode_color_mode = 0, mode_colors = []\<rparr>"

record led =
  led_name :: cstring
  led_value :: u32

record matrix_map_type =
  mm_height :: u32
  mm_width :: u32
  mm_map :: "u32 list"

record segment =
  seg_name :: cstring
  seg_type :: u32
  seg_start_idx :: u32
  seg_leds_count :: u32

record zone =
  zone_name :: cstring
  zone_type :: u32
  zone_leds :: "nat option"
  zone_colors :: "nat option"
  zone_start_idx :: u32
  zone_leds_count :: u32
  zone_leds_min :: u32
  zone_leds_max :: u32
  zone_matrix_map :: "matrix_map_type option"
  zone_segments :: "segment list"
  zone_flags :: u32

text \<open>The constructor \<open>zone::zone()\<close>.\<close>

definition new_zone :: zone where
  "new_zone = \<lparr>zone_name = [], zone_type = 0, zone_leds = None, zone_colors = None, zone_start_idx = 0,
     zone_leds_count = 0, zone_leds_min = 0, zone_leds_max = 0, zone_matrix_map = None,
     zone_segments = [], zone_flags = 0\<rparr>"

record controller =
  name :: cstring
  vendor :: cstring
  description :: cstring
  version :: cstring
  serial :: cstring
  location :: cstring
  leds :: "led list"
  zones :: "zone list"
  modes :: "mode list"
  colors :: "RGBColor list"
  type :: u32
  active_mode :: u32
  led_alt_names :: "cstring list"
  flags :: u32

section \<open>Operations\<close>

definition GetModeName :: "controller \<Rightarrow> u32 \<Rightarrow> cstring defined" where
  "GetModeName c i = map_option mode_name (nth_def (modes c) (unat i))"

definition GetZoneName :: "controller \<Rightarrow> u32 \<Rightarrow> cstring defined" where
  "GetZoneName c i = map_option zone_name (nth_def (zones c) (unat i))"

definition GetLEDName :: "controller \<Rightarrow> u32 \<Rightarrow> cstring defined" where
  "GetLEDName c i = (if unat i < length (led_alt_names c) \<and> led_alt_names c ! unat i \<noteq> []
     then Some (led_alt_names c ! unat i)
     else map_option led_name (nth_def (leds c) (unat i)))"

text \<open>A resizable effects-only zone counts as at most one LED.\<close>

definition leds_in_zone :: "zone \<Rightarrow> u32" where
  "leds_in_zone z = (if zone_flags z AND ZONE_FLAG_RESIZE_EFFECTS_ONLY \<noteq> 0
     then (if zone_leds_count z > 1 then 1 else zone_leds_count z)
     else zone_leds_count z)"

definition GetLEDsInZone :: "controller \<Rightarrow> u32 \<Rightarrow> u32 defined" where
  "GetLEDsInZone c i = map_option leds_in_zone (nth_def (zones c) (unat i))"

subsection \<open>Laying the zones out over the color buffer\<close>

definition total_leds :: "zone list \<Rightarrow> u32" where
  "total_leds zs = foldl (\<lambda>t z. t + leds_in_zone z) 0 zs"

fun assign_zones :: "nat \<Rightarrow> nat \<Rightarrow> u32 \<Rightarrow> zone list \<Rightarrow> zone list" where
  "assign_zones ncolors nleds t [] = []"
| "assign_zones ncolors nleds t (z # zs) =
     z\<lparr>zone_start_idx := t,
       zone_colors := (if ncolors > 0 \<and> leds_in_zone z > 0 then Some (unat t) else None),
       zone_leds := (if nleds > 0 \<and> leds_in_zone z > 0 then Some (unat t) else None)\<rparr>
     # assign_zones ncolors nleds (t + leds_in_zone z) zs"

definition SetupColors :: "controller \<Rightarrow> controller" where
  "SetupColors c =
    (let cs = vec_resize (unat (total_leds (zones c))) 0 (colors c)
     in c\<lparr>colors := cs, zones := assign_zones (length cs) (length (leds c)) 0 (zones c)\<rparr>)"

subsection \<open>Reading and writing colors\<close>

definition GetLED :: "controller \<Rightarrow> u32 \<Rightarrow> RGBColor" where
  "GetLED c led = (if unat led < length (colors c) then colors c ! unat led else 0)"

definition SetLED :: "controller \<Rightarrow> u32 \<Rightarrow> RGBColor \<Rightarrow> controller" where
  "SetLED c led col = (if unat led < length (colors c) then c\<lparr>colors := (colors c)[unat led := col]\<rparr> else c)"

text \<open>\<open>zones[zone].colors[i] = col\<close>: through the zone's pointer into the color buffer.\<close>

definition store_zone_color :: "nat \<Rightarrow> nat \<Rightarrow> RGBColor \<Rightarrow> controller \<Rightarrow> controller defined" where
  "store_zone_color zone i col c = do {
     z \<leftarrow> nth_def (zones c) zone;
     base \<leftarrow> zone_colors z;
     cs \<leftarrow> upd_def (colors c) (base + i) col;
     Some (c\<lparr>colors := cs\<rparr>) }"

definition SetAllZoneLEDs :: "u32 \<Rightarrow> RGBColor \<Rightarrow> controller \<Rightarrow> controller defined" where
  "SetAllZoneLEDs zone col c = do {
     n \<leftarrow> GetLEDsInZone c zone;
     fold_def (\<lambda>i. store_zone_color (unat zone) i col) [0..<unat n] c }"

definition SetAllLEDs :: "RGBColor \<Rightarrow> controller \<Rightarrow> controller defined" where
  "SetAllLEDs col c = fold_def (\<lambda>i. SetAllZoneLEDs (of_nat i) col) [0..<length (zones c)] c"

subsection \<open>Segments\<close>

definition ClearSegments :: "nat \<Rightarrow> controller \<Rightarrow> controller defined" where
  "ClearSegments i c = do {
     z \<leftarrow> nth_def (zones c) i;
     Some (c\<lparr>zones := (zones c)[i := z\<lparr>zone_segments := []\<rparr>]\<rparr>) }"

definition AddSegment :: "nat \<Rightarrow> segment \<Rightarrow> controller \<Rightarrow> controller defined" where
  "AddSegment i s c = do {
     z \<leftarrow> nth_def (zones c) i;
     Some (c\<lparr>zones := (zones c)[i := z\<lparr>zone_segments := zone_segments z @ [s]\<rparr>]\<rparr>) }"

subsection \<open>Selecting the per-LED mode\<close>

definition str8 :: "string \<Rightarrow> cstring" where
  "str8 s = map of_char s"

definition custom_mode_names :: "cstring list" where
  "custom_mode_names = [str8 ''Direct'', str8 ''Custom'', str8 ''Static'']"

definition is_custom_mode :: "cstring \<Rightarrow> mode \<Rightarrow> bool" where
  "is_custom_mode nm m \<longleftrightarrow> mode_name m = nm \<and>
     (mode_color_mode m = MODE_COLORS_PER_LED \<or> mode_color_mode m = MODE_COLORS_MODE_SPECIFIC)"

fun first_index :: "('a \<Rightarrow> bool) \<Rightarrow> nat \<Rightarrow> 'a list \<Rightarrow> nat option" where
  "first_index P i [] = None"
| "first_index P i (x # xs) = (if P x then Some i else first_index P (Suc i) xs)"

fun search_custom_mode :: "cstring list \<Rightarrow> mode list \<Rightarrow> nat option" where
  "search_custom_mode [] ms = None"
| "search_custom_mode (nm # nms) ms =
     (case first_index (is_custom_mode nm) 0 ms of Some i \<Rightarrow> Some i | None \<Rightarrow> search_custom_mode nms ms)"

definition SetCustomMode :: "controller \<Rightarrow> controller" where
  "SetCustomMode c = (case search_custom_mode custom_mode_names (modes c) of
     Some i \<Rightarrow> c\<lparr>active_mode := of_nat i\<rparr> | None \<Rightarrow> c)"

section \<open>Device types\<close>

definition device_type_names :: "string list" where
  "device_type_names = [''Motherboard'', ''DRAM'', ''GPU'', ''Cooler'', ''LED Strip'', ''Keyboard'',
     ''Mouse'', ''Mousemat'', ''Headset'', ''Headset Stand'', ''Gamepad'', ''Light'', ''Speaker'',
     ''Virtual'', ''Storage'', ''Case'', ''Microphone'', ''Accessory'', ''Keypad'', ''Laptop'', ''Monitor'']"

definition device_type_to_str :: "u32 \<Rightarrow> string" where
  "device_type_to_str t =
     (if unat t < length device_type_names then device_type_names ! unat t else ''Unknown'')"

end
