(* ===== verification/Rgb_Protocol.thy ===== *)
theory Rgb_Protocol
  imports Wire Rgb_Controller
begin

text \<open>
  The description packets of \<open>RGBController.cpp\<close>: what a server sends of a device, a mode, the
  colors or a segment, and how the receiving side reads it. Each writer computes its size first
  (\<open>data_size\<close>, at 32 bits), allocates, and copies the items in; each reader is sequential. The
  protocol version of the connection decides which fields are present.
\<close>

section \<open>Byte images of the items\<close>

definition put_u32 :: "u32 \<Rightarrow> wact" where
  "put_u32 w = Memcpy (le_bytes 4 w)"

definition put_u16 :: "u16 \<Rightarrow> wact" where
  "put_u16 w = Memcpy (le_bytes 2 w)"

text \<open>The number of elements of a container as the \<open>unsigned short\<close> the packets carry.\<close>

definition count16 :: "'a list \<Rightarrow> u16" where
  "count16 xs = of_nat (length xs)"

definition counted :: "'a list \<Rightarrow> 'a list" where
  "counted xs = take (unat (count16 xs)) xs"

definition color_writes :: "RGBColor list \<Rightarrow> wact list" where
  "color_writes cs = map put_u32 (counted cs)"

subsection \<open>Modes\<close>

definition mode_size :: "u32 \<Rightarrow> mode \<Rightarrow> u32" where
  "mode_size pv m = ucast (name_len (mode_name m)) + 2
     + 4 + 4 + 4 + 4
     + (if pv \<ge> 3 then 4 + 4 else 0)
     + 4 + 4 + 4
     + (if pv \<ge> 3 then 4 else 0)
     + 4 + 4 + 2 + ucast (count16 (mode_colors m)) * 4"

definition mode_writes :: "u32 \<Rightarrow> mode \<Rightarrow> wact list" where
  "mode_writes pv m = string_writes (mode_name m)
     @ [put_u32 (mode_value m), put_u32 (mode_flags m), put_u32 (mode_speed_min m), put_u32 (mode_speed_max m)]
     @ (if pv \<ge> 3 then [put_u32 (mode_brightness_min m), put_u32 (mode_brightness_max m)] else [])
     @ [put_u32 (mode_colors_min m), put_u32 (mode_colors_max m), put_u32 (mode_speed m)]
     @ (if pv \<ge> 3 then [put_u32 (mode_brightness m)] else [])
     @ [put_u32 (mode_direction m), put_u32 (mode_color_mode m), put_u16 (count16 (mode_colors m))]
     @ color_writes (mode_colors m)"

definition rd_if :: "bool \<Rightarrow> 'a \<Rightarrow> 'a rd \<Rightarrow> 'a rd" where
  "rd_if b d f buf p = (if b then f buf p else Some (d, p))"

text \<open>The fields of a mode in the order of the packet, into a \<open>mode\<close> that starts as \<open>m0\<close>.\<close>

definition read_mode_into :: "u32 \<Rightarrow> mode \<Rightarrow> mode rd" where
  "read_mode_into pv m0 buf p = do {
     (nm, p) \<leftarrow> rd_string buf p;
     (value, p) \<leftarrow> rd_u32 buf p;
     (fl, p) \<leftarrow> rd_u32 buf p;
     (speed_min, p) \<leftarrow> rd_u32 buf p;
     (speed_max, p) \<leftarrow> rd_u32 buf p;
     (brightness_min, p) \<leftarrow> rd_if (pv \<ge> 3) (mode_brightness_min m0) rd_u32 buf p;
     (brightness_max, p) \<leftarrow> rd_if (pv \<ge> 3) (mode_brightness_max m0) rd_u32 buf p;
     (colors_min, p) \<leftarrow> rd_u32 buf p;
     (colors_max, p) \<leftarrow> rd_u32 buf p;
     (speed, p) \<leftarrow> rd_u32 buf p;
     (brightness, p) \<leftarrow> rd_if (pv \<ge> 3) (mode_brightness m0) rd_u32 buf p;
     (direction, p) \<leftarrow> rd_u32 buf p;
     (color_mode, p) \<leftarrow> rd_u32 buf p;
     (num, p) \<leftarrow> rd_u16 buf p;
     (cols, p) \<leftarrow> rd_n (unat num) rd_u32 buf p;
     Some (\<lparr>mode_name = nm, mode_value = value, mode_flags = fl, mode_speed_min = speed_min,
       mode_speed_max = speed_max, mode_brightness_min = brightness_min,
       mode_brightness_max = brightness_max, mode_colors_min = colors_min,
       mode_colors_max = colors_max, mode_speed = speed, mode_brightness = brightness,
       mode_direction = direction, mode_color_mode = color_mode, mode_colors = cols\<rparr>, p) }"

definition read_mode :: "u32 \<Rightarrow> mode rd" where
  "read_mode pv = read_mode_into pv new_mode"

subsection \<open>Segments\<close>

definition segment_size :: "segment \<Rightarrow> u32" where
  "segment_size s = 2 + (of_nat (length (c_str (seg_name s))) + 1) + 4 + 4 + 4"

definition segment_writes :: "segment \<Rightarrow> wact list" where
  "segment_writes s = string_writes (seg_name s)
     @ [put_u32 (seg_type s), put_u32 (seg_start_idx s), put_u32 (seg_leds_count s)]"

definition read_segment :: "segment rd" where
  "read_segment buf p = do {
     (nm, p) \<leftarrow> rd_string buf p;
     (ty, p) \<leftarrow> rd_u32 buf p;
     (start, p) \<leftarrow> rd_u32 buf p;
     (count, p) \<leftarrow> rd_u32 buf p;
     Some (\<lparr>seg_name = nm, seg_type = ty, seg_start_idx = start, seg_leds_count = count\<rparr>, p) }"

subsection \<open>Zones\<close>

definition zone_matrix_len :: "zone \<Rightarrow> u16" where
  "zone_matrix_len z = (case zone_matrix_map z of None \<Rightarrow> 0
     | Some mm \<Rightarrow> ucast (2 * 4 + (ucast (mm_height mm * mm_width mm) :: u64) * 4))"

definition matrix_writes :: "matrix_map_type \<Rightarrow> wact list" where
  "matrix_writes mm = put_u32 (mm_height mm) # put_u32 (mm_width mm)
     # map (\<lambda>i. case nth_def (mm_map mm) i of Some w \<Rightarrow> put_u32 w | None \<Rightarrow> Undefined_read)
         [0..<unat (mm_height mm * mm_width mm)]"

definition zone_size :: "u32 \<Rightarrow> zone \<Rightarrow> u32" where
  "zone_size pv z = ucast (name_len (zone_name z)) + 2
     + 4 + 4 + 4 + 4
     + 2 + ucast (zone_matrix_len z)
     + (if pv \<ge> 4 then 2 + sum_list (map segment_size (zone_segments z)) else 0)
     + (if pv \<ge> 5 then 4 else 0)"

text \<open>For a client older than version 5 a resizable effects-only zone is shown as one fixed LED.\<close>

definition zone_writes :: "u32 \<Rightarrow> zone \<Rightarrow> wact list" where
  "zone_writes pv z = string_writes (zone_name z)
     @ [put_u32 (zone_type z)]
     @ (if zone_flags z AND ZONE_FLAG_RESIZE_EFFECTS_ONLY \<noteq> 0 \<and> pv < 5
        then [put_u32 1, put_u32 1, put_u32 1]
        else [put_u32 (zone_leds_min z), put_u32 (zone_leds_max z), put_u32 (zone_leds_count z)])
     @ [put_u16 (zone_matrix_len z)]
     @ (if zone_matrix_len z > 0
        then (case zone_matrix_map z of None \<Rightarrow> [Undefined_read] | Some mm \<Rightarrow> matrix_writes mm) else [])
     @ (if pv \<ge> 4 then put_u16 (count16 (zone_segments z))
          # concat (map segment_writes (counted (zone_segments z))) else [])
     @ (if pv \<ge> 5 then [put_u32 (zone_flags z)] else [])"

definition read_matrix :: "u16 \<Rightarrow> matrix_map_type option rd" where
  "read_matrix len buf p = (if len > 0 then do {
     (h, p) \<leftarrow> rd_u32 buf p;
     (w, p) \<leftarrow> rd_u32 buf p;
     (ws, p) \<leftarrow> rd_n (unat (h * w)) rd_u32 buf p;
     Some (Some \<lparr>mm_height = h, mm_width = w, mm_map = ws\<rparr>, p) } else Some (None, p))"

definition read_segments :: "segment list rd" where
  "read_segments buf p = do { (num, p) \<leftarrow> rd_u16 buf p; rd_n (unat num) read_segment buf p }"

definition read_zone :: "u32 \<Rightarrow> zone rd" where
  "read_zone pv buf p = do {
     (nm, p) \<leftarrow> rd_string buf p;
     (ty, p) \<leftarrow> rd_u32 buf p;
     (lmin, p) \<leftarrow> rd_u32 buf p;
     (lmax, p) \<leftarrow> rd_u32 buf p;
     (lcount, p) \<leftarrow> rd_u32 buf p;
     (mlen, p) \<leftarrow> rd_u16 buf p;
     (mm, p) \<leftarrow> read_matrix mlen buf p;
     (segs, p) \<leftarrow> rd_if (pv \<ge> 4) [] read_segments buf p;
     (fl, p) \<leftarrow> rd_if (pv \<ge> 5) (zone_flags new_zone) rd_u32 buf p;
     Some (new_zone\<lparr>zone_name := nm, zone_type := ty, zone_leds_min := lmin, zone_leds_max := lmax,
       zone_leds_count := lcount, zone_matrix_map := mm, zone_segments := segs, zone_flags := fl\<rparr>, p) }"

subsection \<open>LEDs\<close>

definition led_size :: "led \<Rightarrow> u32" where
  "led_size l = ucast (name_len (led_name l)) + 2 + 4"

definition led_writes :: "led \<Rightarrow> wact list" where
  "led_writes l = string_writes (led_name l) @ [put_u32 (led_value l)]"

definition read_led :: "led rd" where
  "read_led buf p = do {
     (nm, p) \<leftarrow> rd_string buf p;
     (v, p) \<leftarrow> rd_u32 buf p;
     Some (\<lparr>led_name = nm, led_value = v\<rparr>, p) }"

section \<open>The device description\<close>

definition device_size :: "u32 \<Rightarrow> controller \<Rightarrow> u32" where
  "device_size pv c = 4 + 4
     + (ucast (name_len (name c)) + 2)
     + (if pv \<ge> 1 then ucast (name_len (vendor c)) + 2 else 0)
     + (ucast (name_len (description c)) + 2)
     + (ucast (name_len (version c)) + 2)
     + (ucast (name_len (serial c)) + 2)
     + (ucast (name_len (location c)) + 2)
     + 2 + 4
     + sum_list (map (mode_size pv) (counted (modes c)))
     + 2 + sum_list (map (zone_size pv) (counted (zones c)))
     + 2 + sum_list (map led_size (counted (leds c)))
     + (if pv \<ge> 5 then 2 + sum_list (map (\<lambda>s. 2 + (of_nat (length (c_str s)) + 1)) (led_alt_names c)) else 0)
     + (if pv \<ge> 5 then 4 else 0)
     + 2 + ucast (count16 (colors c)) * 4"

definition device_writes :: "u32 \<Rightarrow> controller \<Rightarrow> wact list" where
  "device_writes pv c = [put_u32 (device_size pv c), put_u32 (type c)]
     @ string_writes (name c)
     @ (if pv \<ge> 1 then string_writes (vendor c) else [])
     @ string_writes (description c)
     @ string_writes (version c)
     @ string_writes (serial c)
     @ string_writes (location c)
     @ [put_u16 (count16 (modes c)), put_u32 (active_mode c)]
     @ concat (map (mode_writes pv) (counted (modes c)))
     @ [put_u16 (count16 (zones c))]
     @ concat (map (zone_writes pv) (counted (zones c)))
     @ [put_u16 (count16 (leds c))]
     @ concat (map led_writes (counted (leds c)))
     @ [put_u16 (count16 (colors c))]
     @ color_writes (colors c)
     @ (if pv \<ge> 5 then put_u16 (count16 (led_alt_names c)) # concat (map string_writes (led_alt_names c)) else [])
     @ (if pv \<ge> 5 then [put_u32 (flags c)] else [])"

definition GetDeviceDescription :: "(nat \<Rightarrow> byte) \<Rightarrow> u32 \<Rightarrow> controller \<Rightarrow> byte list defined" where
  "GetDeviceDescription junk pv c = run_writer junk (device_size pv c) (device_writes pv c)"

definition read_names :: "cstring list rd" where
  "read_names buf p = do { (num, p) \<leftarrow> rd_u16 buf p; rd_n (unat num) rd_string buf p }"

text \<open>
  The reader fills an existing controller: scalars are overwritten, the vectors are appended to.
\<close>

definition read_device :: "u32 \<Rightarrow> controller \<Rightarrow> controller rd" where
  "read_device pv c buf p = do {
     (ty, p) \<leftarrow> rd_u32 buf p;
     (nm, p) \<leftarrow> rd_string buf p;
     (ven, p) \<leftarrow> rd_if (pv \<ge> 1) (vendor c) rd_string buf p;
     (desc, p) \<leftarrow> rd_string buf p;
     (ver, p) \<leftarrow> rd_string buf p;
     (ser, p) \<leftarrow> rd_string buf p;
     (loc, p) \<leftarrow> rd_string buf p;
     (num_modes, p) \<leftarrow> rd_u16 buf p;
     (act, p) \<leftarrow> rd_u32 buf p;
     (ms, p) \<leftarrow> rd_n (unat num_modes) (read_mode pv) buf p;
     (num_zones, p) \<leftarrow> rd_u16 buf p;
     (zs, p) \<leftarrow> rd_n (unat num_zones) (read_zone pv) buf p;
     (num_leds, p) \<leftarrow> rd_u16 buf p;
     (ls, p) \<leftarrow> rd_n (unat num_leds) read_led buf p;
     (num_colors, p) \<leftarrow> rd_u16 buf p;
     (cs, p) \<leftarrow> rd_n (unat num_colors) rd_u32 buf p;
     (alts, p) \<leftarrow> rd_if (pv \<ge> 5) [] read_names buf p;
     (fl, p) \<leftarrow> rd_if (pv \<ge> 5) (flags c) rd_u32 buf p;
     Some (SetupColors (c\<lparr>type := ty, name := nm, vendor := ven, description := desc, version := ver,
       serial := ser, location := loc, active_mode := act, modes := modes c @ ms,
       zones := zones c @ zs, leds := leds c @ ls, colors := colors c @ cs,
       led_alt_names := led_alt_names c @ alts, flags := fl\<rparr>), p) }"

text \<open>The reader skips the leading \<open>data_size\<close>.\<close>

definition ReadDeviceDescription :: "byte list \<Rightarrow> u32 \<Rightarrow> controller \<Rightarrow> controller defined" where
  "ReadDeviceDescription buf pv c = map_option fst (read_device pv c buf 4)"

end
