(* ===== verification/Rgb_Roundtrip.thy ===== *)
theory Rgb_Roundtrip
  imports Rgb_Protocol
begin

text \<open>
  The packets of \<open>Rgb_Protocol\<close> are sound: for a device within the limits of the 16-bit length
  fields the computed size is the number of bytes written, no write leaves the buffer, and the
  reader recovers the device up to what the protocol version does not carry (\<open>norm\<close>).
\<close>

section \<open>Within the limits of the packet\<close>

definition fits16 :: "'a list \<Rightarrow> bool" where
  "fits16 xs \<longleftrightarrow> length xs < 65536"

lemma counted_fits [simp]: "fits16 xs \<Longrightarrow> counted xs = xs"
  by (simp add: fits16_def counted_def count16_def)

lemma unat_count16 [simp]: "fits16 xs \<Longrightarrow> unat (count16 xs) = length xs"
  by (simp add: fits16_def count16_def)

lemma ucast_count16: "fits16 xs \<Longrightarrow> ucast (count16 xs) = (of_nat (length xs) :: u32)"
  by (simp add: of_nat_unat_ucast [symmetric])

definition mode_ok :: "mode \<Rightarrow> bool" where
  "mode_ok m \<longleftrightarrow> str_ok (mode_name m) \<and> fits16 (mode_colors m)"

definition segment_ok :: "segment \<Rightarrow> bool" where
  "segment_ok s \<longleftrightarrow> str_ok (seg_name s)"

definition matrix_ok :: "matrix_map_type \<Rightarrow> bool" where
  "matrix_ok mm \<longleftrightarrow> length (mm_map mm) = unat (mm_height mm) * unat (mm_width mm) \<and>
     8 + 4 * length (mm_map mm) < 65536"

definition zone_ok :: "zone \<Rightarrow> bool" where
  "zone_ok z \<longleftrightarrow> str_ok (zone_name z) \<and> fits16 (zone_segments z) \<and>
     list_all segment_ok (zone_segments z) \<and> pred_option matrix_ok (zone_matrix_map z)"

definition led_ok :: "led \<Rightarrow> bool" where
  "led_ok l \<longleftrightarrow> str_ok (led_name l)"

definition device_ok :: "controller \<Rightarrow> bool" where
  "device_ok c \<longleftrightarrow> str_ok (name c) \<and> str_ok (vendor c) \<and> str_ok (description c) \<and>
     str_ok (version c) \<and> str_ok (serial c) \<and> str_ok (location c) \<and>
     fits16 (modes c) \<and> list_all mode_ok (modes c) \<and>
     fits16 (zones c) \<and> list_all zone_ok (zones c) \<and>
     fits16 (leds c) \<and> list_all led_ok (leds c) \<and>
     fits16 (colors c) \<and> fits16 (led_alt_names c) \<and> list_all str_ok (led_alt_names c)"

section \<open>Sizes\<close>

lemma wbytes_put [simp]:
  "wbytes (put_u32 w) = le_bytes 4 w" "wbytes (put_u16 v) = le_bytes 2 v"
  "tight (put_u32 w)" "tight (put_u16 v)"
  by (simp_all add: put_u32_def put_u16_def)

lemma length_wimage_string [simp]: "length (wimage (string_writes s)) = length (c_str s) + 3"
  by (simp add: wimage_string_writes)

lemma length_concat_words:
  "(of_nat (length (concat (map f xs))) :: 'w::semiring_1) = sum_list (map (\<lambda>x. of_nat (length (f x))) xs)"
  by (induction xs) simp_all

lemma wimage_map_put_u32: "wimage (map put_u32 cs) = concat (map (le_bytes 4) cs)"
  by (induction cs) simp_all

lemma length_color_writes: "fits16 cs \<Longrightarrow> length (wimage (color_writes cs)) = 4 * length cs"
  by (simp add: color_writes_def wimage_map_put_u32 length_concat comp_def sum_list_triv)

lemma sum_list_map_cong:
  "(\<And>x. x \<in> set xs \<Longrightarrow> f x = g x) \<Longrightarrow> sum_list (map f xs) = sum_list (map g xs)"
  by (simp cong: map_cong)

lemma mode_size_wimage: "mode_ok m \<Longrightarrow> mode_size pv m = of_nat (length (wimage (mode_writes pv m)))"
  by (simp add: mode_ok_def mode_size_def mode_writes_def ucast_name_len ucast_count16 length_color_writes)

lemma segment_size_wimage: "segment_size s = of_nat (length (wimage (segment_writes s)))"
  by (simp add: segment_size_def segment_writes_def)

lemma led_size_wimage: "led_ok l \<Longrightarrow> led_size l = of_nat (length (wimage (led_writes l)))"
  by (simp add: led_ok_def led_size_def led_writes_def ucast_name_len)

lemma matrix_unat:
  assumes "matrix_ok mm"
  shows "unat (mm_height mm * mm_width mm) = length (mm_map mm)"
proof -
  have "unat (mm_height mm) * unat (mm_width mm) < 2 ^ 32"
    using assms by (simp add: matrix_ok_def)
  then show ?thesis
    using assms by (simp add: matrix_ok_def unat_word_ariths)
qed

lemma matrix_writes_ok:
  assumes "matrix_ok mm"
  shows "matrix_writes mm = put_u32 (mm_height mm) # put_u32 (mm_width mm) # map put_u32 (mm_map mm)"
proof -
  have "map (\<lambda>i. case nth_def (mm_map mm) i of Some w \<Rightarrow> put_u32 w | None \<Rightarrow> Undefined_read)
          [0..<length (mm_map mm)] = map put_u32 (mm_map mm)"
    by (rule nth_equalityI) auto
  then show ?thesis by (simp add: matrix_writes_def matrix_unat [OF assms])
qed

lemma unat_zone_matrix_len:
  assumes "pred_option matrix_ok (zone_matrix_map z)"
  shows "unat (zone_matrix_len z) = (case zone_matrix_map z of None \<Rightarrow> 0 | Some mm \<Rightarrow> 8 + 4 * length (mm_map mm))"
proof (cases "zone_matrix_map z")
  case None
  then show ?thesis by (simp add: zone_matrix_len_def)
next
  case (Some mm)
  let ?n = "length (mm_map mm)"
  have mm: "matrix_ok mm" using assms Some by simp
  have "(ucast (mm_height mm * mm_width mm) :: u64) = of_nat ?n"
    by (simp add: matrix_unat [OF mm] of_nat_unat_ucast [symmetric])
  then have len: "zone_matrix_len z = ucast (of_nat (8 + 4 * ?n) :: u64)"
    using Some by (simp add: zone_matrix_len_def algebra_simps)
  have "unat (of_nat (8 + 4 * ?n) :: u64) = 8 + 4 * ?n"
    using mm by (intro unat_of_nat_small) (simp add: matrix_ok_def)
  then have u64: "unat (ucast (of_nat (8 + 4 * ?n) :: u64) :: u16) = take_bit 16 (8 + 4 * ?n)"
    by (simp only: unsigned_ucast_eq) simp
  have "take_bit 16 (8 + 4 * ?n) = 8 + 4 * ?n"
    using mm by (intro take_bit_nat_eq_self) (simp add: matrix_ok_def)
  then show ?thesis by (simp only: len u64 Some option.case)
qed

lemma ucast_zone_matrix_len:
  assumes "pred_option matrix_ok (zone_matrix_map z)"
  shows "(ucast (zone_matrix_len z) :: u32) =
    (case zone_matrix_map z of None \<Rightarrow> 0 | Some mm \<Rightarrow> of_nat (8 + 4 * length (mm_map mm)))"
  by (simp only: of_nat_unat_ucast [symmetric] unat_zone_matrix_len [OF assms] split: option.split) simp

text \<open>The matrix part of a zone, under the guard on the length field.\<close>

definition matrix_part :: "zone \<Rightarrow> wact list" where
  "matrix_part z = (if zone_matrix_len z > 0
     then (case zone_matrix_map z of None \<Rightarrow> [Undefined_read] | Some mm \<Rightarrow> matrix_writes mm) else [])"

lemma matrix_part_ok:
  assumes "pred_option matrix_ok (zone_matrix_map z)"
  shows "matrix_part z = (case zone_matrix_map z of None \<Rightarrow> [] | Some mm \<Rightarrow> matrix_writes mm)"
  using unat_zone_matrix_len [OF assms]
  by (cases "zone_matrix_map z") (auto simp: matrix_part_def word_neq_0_conv [symmetric] unat_eq_0 [symmetric])

lemma length_matrix_part:
  assumes "pred_option matrix_ok (zone_matrix_map z)"
  shows "(of_nat (length (wimage (matrix_part z))) :: u32) = ucast (zone_matrix_len z)"
  using assms
  by (cases "zone_matrix_map z")
    (simp_all add: matrix_part_ok ucast_zone_matrix_len matrix_writes_ok wimage_map_put_u32
      length_concat comp_def sum_list_triv)

lemma sizes_wimage:
  assumes "\<And>x. x \<in> set xs \<Longrightarrow> f x = of_nat (length (wimage (g x)))"
  shows "sum_list (map f xs) = of_nat (length (wimage (concat (map g xs))))"
  using assms by (simp add: wimage_concat length_concat_words cong: map_cong)

lemma segments_size_wimage:
  "sum_list (map segment_size ss) = of_nat (length (wimage (concat (map segment_writes ss))))"
  by (rule sizes_wimage) (rule segment_size_wimage)

lemma zone_size_wimage:
  assumes "zone_ok z"
  shows "zone_size pv z = of_nat (length (wimage (zone_writes pv z)))"
proof -
  have len: "(of_nat (length (wimage (if zone_matrix_len z > 0
     then (case zone_matrix_map z of None \<Rightarrow> [Undefined_read] | Some mm \<Rightarrow> matrix_writes mm) else []))) :: u32)
     = ucast (zone_matrix_len z)"
    using length_matrix_part [of z] assms by (simp only: zone_ok_def matrix_part_def)
  show ?thesis
    using assms
    by (simp add: zone_size_def zone_writes_def zone_ok_def ucast_name_len segments_size_wimage
        len del: word_greater_zero_iff)
qed

lemma names_size_wimage:
  "sum_list (map (\<lambda>s. 3 + of_nat (length (c_str s))) ss)
     = (of_nat (length (wimage (concat (map string_writes ss)))) :: u32)"
  by (rule sizes_wimage) simp

lemma device_size_wimage:
  assumes "device_ok c"
  shows "device_size pv c = of_nat (length (wimage (device_writes pv c)))"
proof -
  have m: "sum_list (map (mode_size pv) (modes c)) = of_nat (length (wimage (concat (map (mode_writes pv) (modes c)))))"
    using assms by (intro sizes_wimage mode_size_wimage) (simp add: device_ok_def list_all_iff)
  have z: "sum_list (map (zone_size pv) (zones c)) = of_nat (length (wimage (concat (map (zone_writes pv) (zones c)))))"
    using assms by (intro sizes_wimage zone_size_wimage) (simp add: device_ok_def list_all_iff)
  have l: "sum_list (map led_size (leds c)) = of_nat (length (wimage (concat (map led_writes (leds c)))))"
    using assms by (intro sizes_wimage led_size_wimage) (simp add: device_ok_def list_all_iff)
  have cols: "length (wimage (color_writes (colors c))) = 4 * length (colors c)"
    using assms by (intro length_color_writes) (simp add: device_ok_def)
  have alts: "sum_list (map (\<lambda>s. 3 + of_nat (length (c_str s))) (led_alt_names c))
     = (of_nat (length (wimage (concat (map string_writes (led_alt_names c))))) :: u32)"
    by (rule names_size_wimage)
  show ?thesis
    unfolding device_size_def device_writes_def
    using assms
    by (simp add: device_ok_def ucast_name_len ucast_count16 cols m z l alts)
qed

section \<open>Every write stays inside and fills its place\<close>

lemma tight_color_writes [simp]: "list_all tight (color_writes cs)"
  by (simp add: color_writes_def list_all_iff)

lemma tight_mode_writes: "mode_ok m \<Longrightarrow> list_all tight (mode_writes pv m)"
  by (simp add: mode_ok_def mode_writes_def)

lemma tight_segment_writes: "segment_ok s \<Longrightarrow> list_all tight (segment_writes s)"
  by (simp add: segment_ok_def segment_writes_def)

lemma tight_led_writes: "led_ok l \<Longrightarrow> list_all tight (led_writes l)"
  by (simp add: led_ok_def led_writes_def)

lemma tight_matrix_part:
  assumes "pred_option matrix_ok (zone_matrix_map z)"
  shows "list_all tight (matrix_part z)"
  using assms
  by (cases "zone_matrix_map z") (simp_all add: matrix_part_ok matrix_writes_ok list_all_iff)

lemma tight_concat: "(\<And>x. x \<in> set xs \<Longrightarrow> list_all tight (f x)) \<Longrightarrow> list_all tight (concat (map f xs))"
  by (induction xs) simp_all

text \<open>The writer of a zone, with its matrix part named.\<close>

lemma zone_writes_parts:
  "zone_writes pv z = string_writes (zone_name z)
     @ [put_u32 (zone_type z)]
     @ (if zone_flags z AND ZONE_FLAG_RESIZE_EFFECTS_ONLY \<noteq> 0 \<and> pv < 5
        then [put_u32 1, put_u32 1, put_u32 1]
        else [put_u32 (zone_leds_min z), put_u32 (zone_leds_max z), put_u32 (zone_leds_count z)])
     @ [put_u16 (zone_matrix_len z)]
     @ matrix_part z
     @ (if pv \<ge> 4 then put_u16 (count16 (zone_segments z))
          # concat (map segment_writes (counted (zone_segments z))) else [])
     @ (if pv \<ge> 5 then [put_u32 (zone_flags z)] else [])"
  by (simp add: zone_writes_def matrix_part_def)

lemma tight_zone_writes: "zone_ok z \<Longrightarrow> list_all tight (zone_writes pv z)"
  unfolding zone_writes_parts
  by (auto simp: zone_ok_def tight_matrix_part list_all_iff [of segment_ok]
      intro!: tight_concat tight_segment_writes)

lemma tight_device_writes: "device_ok c \<Longrightarrow> list_all tight (device_writes pv c)"
  unfolding device_writes_def
  by (auto simp: device_ok_def list_all_iff [of mode_ok] list_all_iff [of zone_ok]
      list_all_iff [of led_ok] list_all_iff [of str_ok]
      intro!: tight_concat tight_mode_writes tight_zone_writes tight_led_writes tight_string_writes)

section \<open>Reading an image back\<close>

subsection \<open>What survives the packet\<close>

text \<open>
  Strings end at their first NUL; fields a protocol version does not carry read as the
  constructor left them.
\<close>

definition norm_mode_into :: "u32 \<Rightarrow> mode \<Rightarrow> mode \<Rightarrow> mode" where
  "norm_mode_into pv m0 m = (if pv \<ge> 3 then m else m\<lparr>mode_brightness_min := mode_brightness_min m0,
     mode_brightness_max := mode_brightness_max m0, mode_brightness := mode_brightness m0\<rparr>)
     \<lparr>mode_name := c_str (mode_name m)\<rparr>"

definition norm_mode :: "u32 \<Rightarrow> mode \<Rightarrow> mode" where
  "norm_mode pv = norm_mode_into pv new_mode"

definition norm_segment :: "segment \<Rightarrow> segment" where
  "norm_segment s = s\<lparr>seg_name := c_str (seg_name s)\<rparr>"

definition norm_led :: "led \<Rightarrow> led" where
  "norm_led l = l\<lparr>led_name := c_str (led_name l)\<rparr>"

definition hides_size :: "u32 \<Rightarrow> zone \<Rightarrow> bool" where
  "hides_size pv z \<longleftrightarrow> zone_flags z AND ZONE_FLAG_RESIZE_EFFECTS_ONLY \<noteq> 0 \<and> pv < 5"

definition norm_zone :: "u32 \<Rightarrow> zone \<Rightarrow> zone" where
  "norm_zone pv z = new_zone\<lparr>zone_name := c_str (zone_name z), zone_type := zone_type z,
     zone_leds_min := (if hides_size pv z then 1 else zone_leds_min z),
     zone_leds_max := (if hides_size pv z then 1 else zone_leds_max z),
     zone_leds_count := (if hides_size pv z then 1 else zone_leds_count z),
     zone_matrix_map := zone_matrix_map z,
     zone_segments := (if pv \<ge> 4 then map norm_segment (zone_segments z) else []),
     zone_flags := (if pv \<ge> 5 then zone_flags z else 0)\<rparr>"

subsection \<open>The readers decode the images\<close>

lemma decodes_if:
  assumes "b \<Longrightarrow> decodes f e x"
  shows "decodes (rd_if b d f) (if b then e else []) (if b then x else d)"
  using assms by (cases b) (auto simp: decodes_def rd_if_def)

lemmas wimage_unfold = wimage_simps wbytes_put append_assoc append_Nil append_Cons [symmetric]

lemma decodes_colors:
  "fits16 cs \<Longrightarrow> decodes (rd_n (unat (count16 cs)) rd_u32) (wimage (color_writes cs)) cs"
  using word32.dec_list [of cs]
  by (simp add: color_writes_def wimage_map_put_u32)

lemma decodes_mode_into:
  assumes "mode_ok m"
  shows "decodes (read_mode_into pv m0) (wimage (mode_writes pv m)) (norm_mode_into pv m0 m)"
proof -
  have "decodes (read_mode_into pv m0) (wimage (string_writes (mode_name m)) @ le_bytes 4 (mode_value m)
      @ le_bytes 4 (mode_flags m) @ le_bytes 4 (mode_speed_min m) @ le_bytes 4 (mode_speed_max m)
      @ (if pv \<ge> 3 then le_bytes 4 (mode_brightness_min m) else [])
      @ (if pv \<ge> 3 then le_bytes 4 (mode_brightness_max m) else [])
      @ le_bytes 4 (mode_colors_min m) @ le_bytes 4 (mode_colors_max m) @ le_bytes 4 (mode_speed m)
      @ (if pv \<ge> 3 then le_bytes 4 (mode_brightness m) else [])
      @ le_bytes 4 (mode_direction m) @ le_bytes 4 (mode_color_mode m)
      @ le_bytes 2 (count16 (mode_colors m)) @ wimage (color_writes (mode_colors m)) @ [])
      (norm_mode_into pv m0 m)"
    unfolding read_mode_into_def [abs_def]
    by (rule decodes_bind decodes_string decodes_u32 decodes_u16 decodes_if decodes_colors decodes_return
        mode.equality | use assms in \<open>simp add: mode_ok_def norm_mode_into_def\<close>)+
  then show ?thesis
    by (cases "pv \<ge> 3") (simp_all add: mode_writes_def)
qed

interpretation mode: codec "\<lambda>m. wimage (mode_writes pv m)" "read_mode pv" mode_ok "norm_mode pv" for pv
  by unfold_locales (simp add: read_mode_def norm_mode_def decodes_mode_into)

lemma decodes_segment:
  assumes "segment_ok s"
  shows "decodes read_segment (wimage (segment_writes s)) (norm_segment s)"
proof -
  have "decodes read_segment (wimage (string_writes (seg_name s)) @ le_bytes 4 (seg_type s)
      @ le_bytes 4 (seg_start_idx s) @ le_bytes 4 (seg_leds_count s) @ []) (norm_segment s)"
    unfolding read_segment_def [abs_def]
    by (rule decodes_bind decodes_string decodes_u32 decodes_return segment.equality
        | use assms in \<open>simp add: segment_ok_def norm_segment_def\<close>)+
  then show ?thesis by (simp add: segment_writes_def)
qed

interpretation segment: codec "\<lambda>s. wimage (segment_writes s)" read_segment segment_ok norm_segment
  by unfold_locales (rule decodes_segment)

lemma decodes_led:
  assumes "led_ok l"
  shows "decodes read_led (wimage (led_writes l)) (norm_led l)"
proof -
  have "decodes read_led (wimage (string_writes (led_name l)) @ le_bytes 4 (led_value l) @ []) (norm_led l)"
    unfolding read_led_def [abs_def]
    by (rule decodes_bind decodes_string decodes_u32 decodes_return led.equality
        | use assms in \<open>simp add: led_ok_def norm_led_def\<close>)+
  then show ?thesis by (simp add: led_writes_def)
qed

interpretation led: codec "\<lambda>l. wimage (led_writes l)" read_led led_ok norm_led
  by unfold_locales (rule decodes_led)

lemma decodes_matrix:
  assumes "pred_option matrix_ok (zone_matrix_map z)"
  shows "decodes (read_matrix (zone_matrix_len z)) (wimage (matrix_part z)) (zone_matrix_map z)"
proof (cases "zone_matrix_map z")
  case None
  then show ?thesis
    by (simp add: matrix_part_ok zone_matrix_len_def read_matrix_def [abs_def] decodes_return)
next
  case (Some mm)
  then have mm: "matrix_ok mm" using assms by simp
  have len: "zone_matrix_len z > 0"
    using unat_zone_matrix_len [OF assms] Some by (simp add: word_less_nat_alt)
  have "decodes (read_matrix (zone_matrix_len z)) (le_bytes 4 (mm_height mm) @ le_bytes 4 (mm_width mm)
      @ concat (map (le_bytes 4) (mm_map mm)) @ []) (Some mm)"
    unfolding read_matrix_def [abs_def] if_P [OF len]
    by (rule decodes_bind decodes_u32 word32.dec_list_n [where xs = "mm_map mm"] decodes_return
        | simp add: matrix_unat [OF mm])+
  then show ?thesis
    using Some by (simp add: matrix_part_ok [OF assms] matrix_writes_ok [OF mm] wimage_map_put_u32)
qed

lemma decodes_segments:
  assumes "fits16 ss" "list_all segment_ok ss"
  shows "decodes read_segments (le_bytes 2 (count16 ss) @ wimage (concat (map segment_writes ss)))
           (map norm_segment ss)"
  unfolding read_segments_def [abs_def] wimage_concat
  by (rule decodes_bind decodes_u16 segment.dec_list_n | use assms in \<open>simp add: list_all_iff\<close>)+

lemma decodes_names:
  assumes "fits16 ss" "list_all str_ok ss"
  shows "decodes read_names (le_bytes 2 (count16 ss) @ wimage (concat (map string_writes ss))) (map c_str ss)"
  unfolding read_names_def [abs_def] wimage_concat
  by (rule decodes_bind decodes_u16 str.dec_list_n | use assms in \<open>simp add: list_all_iff\<close>)+

lemma wimage_zone_writes:
  assumes "fits16 (zone_segments z)"
  shows "wimage (zone_writes pv z) = wimage (string_writes (zone_name z)) @ le_bytes 4 (zone_type z)
      @ le_bytes 4 (if hides_size pv z then 1 else zone_leds_min z)
      @ le_bytes 4 (if hides_size pv z then 1 else zone_leds_max z)
      @ le_bytes 4 (if hides_size pv z then 1 else zone_leds_count z)
      @ le_bytes 2 (zone_matrix_len z) @ wimage (matrix_part z)
      @ (if pv \<ge> 4 then le_bytes 2 (count16 (zone_segments z))
            @ wimage (concat (map segment_writes (zone_segments z))) else [])
      @ (if pv \<ge> 5 then le_bytes 4 (zone_flags z) else []) @ []"
  using assms by (auto simp: zone_writes_parts hides_size_def)

lemma decodes_zone:
  assumes "zone_ok z"
  shows "decodes (read_zone pv) (wimage (zone_writes pv z)) (norm_zone pv z)"
proof -
  have ok: "str_ok (zone_name z)" "fits16 (zone_segments z)" "list_all segment_ok (zone_segments z)"
      "pred_option matrix_ok (zone_matrix_map z)"
    using assms by (auto simp: zone_ok_def)
  have "decodes (read_zone pv) (wimage (string_writes (zone_name z)) @ le_bytes 4 (zone_type z)
      @ le_bytes 4 (if hides_size pv z then 1 else zone_leds_min z)
      @ le_bytes 4 (if hides_size pv z then 1 else zone_leds_max z)
      @ le_bytes 4 (if hides_size pv z then 1 else zone_leds_count z)
      @ le_bytes 2 (zone_matrix_len z) @ wimage (matrix_part z)
      @ (if pv \<ge> 4 then le_bytes 2 (count16 (zone_segments z))
            @ wimage (concat (map segment_writes (zone_segments z))) else [])
      @ (if pv \<ge> 5 then le_bytes 4 (zone_flags z) else []) @ []) (norm_zone pv z)"
    unfolding read_zone_def [abs_def]
    by (rule decodes_bind decodes_string decodes_u32 decodes_u16 decodes_if decodes_matrix decodes_segments
        decodes_return ok zone.equality | simp add: norm_zone_def new_zone_def)+
  then show ?thesis by (simp only: wimage_zone_writes [OF ok(2)])
qed

interpretation zone: codec "\<lambda>z. wimage (zone_writes pv z)" "read_zone pv" zone_ok "norm_zone pv" for pv
  by unfold_locales (rule decodes_zone)

section \<open>The device description\<close>

definition norm_device :: "u32 \<Rightarrow> controller \<Rightarrow> controller \<Rightarrow> controller" where
  "norm_device pv c0 c = SetupColors (c0\<lparr>type := type c, name := c_str (name c),
     vendor := (if pv \<ge> 1 then c_str (vendor c) else vendor c0), description := c_str (description c),
     version := c_str (version c), serial := c_str (serial c), location := c_str (location c),
     active_mode := active_mode c, modes := modes c0 @ map (norm_mode pv) (modes c),
     zones := zones c0 @ map (norm_zone pv) (zones c), leds := leds c0 @ map norm_led (leds c),
     colors := colors c0 @ colors c,
     led_alt_names := led_alt_names c0 @ (if pv \<ge> 5 then map c_str (led_alt_names c) else []),
     flags := (if pv \<ge> 5 then flags c else flags c0)\<rparr>)"

lemma wimage_device_writes:
  assumes "device_ok c"
  shows "wimage (device_writes pv c) = le_bytes 4 (device_size pv c) @ le_bytes 4 (type c) @ wimage (string_writes (name c))
      @ (if pv \<ge> 1 then wimage (string_writes (vendor c)) else [])
      @ wimage (string_writes (description c)) @ wimage (string_writes (version c))
      @ wimage (string_writes (serial c)) @ wimage (string_writes (location c))
      @ le_bytes 2 (count16 (modes c)) @ le_bytes 4 (active_mode c)
      @ concat (map (\<lambda>m. wimage (mode_writes pv m)) (modes c))
      @ le_bytes 2 (count16 (zones c)) @ concat (map (\<lambda>z. wimage (zone_writes pv z)) (zones c))
      @ le_bytes 2 (count16 (leds c)) @ concat (map (\<lambda>l. wimage (led_writes l)) (leds c))
      @ le_bytes 2 (count16 (colors c)) @ wimage (color_writes (colors c))
      @ (if pv \<ge> 5 then le_bytes 2 (count16 (led_alt_names c)) @ wimage (concat (map string_writes (led_alt_names c))) else [])
      @ (if pv \<ge> 5 then le_bytes 4 (flags c) else []) @ []"
  using assms
  by (cases "pv \<ge> 1"; cases "pv \<ge> 5")
    (simp_all add: device_ok_def device_writes_def wimage_concat)

lemma decodes_device:
  assumes ok: "device_ok c"
  shows "decodes (read_device pv c0) (drop 4 (wimage (device_writes pv c))) (norm_device pv c0 c)"
proof -
  have oks: "fits16 (modes c)" "fits16 (zones c)" "fits16 (leds c)" "fits16 (colors c)" "fits16 (led_alt_names c)"
      "str_ok (name c)" "str_ok (vendor c)" "str_ok (description c)" "str_ok (version c)" "str_ok (serial c)"
      "str_ok (location c)" "list_all str_ok (led_alt_names c)"
    using ok by (simp_all add: device_ok_def)
  have els: "\<And>m. m \<in> set (modes c) \<Longrightarrow> mode_ok m" "\<And>z. z \<in> set (zones c) \<Longrightarrow> zone_ok z"
      "\<And>l. l \<in> set (leds c) \<Longrightarrow> led_ok l"
    using ok by (simp_all add: device_ok_def list_all_iff)
  have "decodes (read_device pv c0) (le_bytes 4 (type c) @ wimage (string_writes (name c))
      @ (if pv \<ge> 1 then wimage (string_writes (vendor c)) else [])
      @ wimage (string_writes (description c)) @ wimage (string_writes (version c))
      @ wimage (string_writes (serial c)) @ wimage (string_writes (location c))
      @ le_bytes 2 (count16 (modes c)) @ le_bytes 4 (active_mode c)
      @ concat (map (\<lambda>m. wimage (mode_writes pv m)) (modes c))
      @ le_bytes 2 (count16 (zones c)) @ concat (map (\<lambda>z. wimage (zone_writes pv z)) (zones c))
      @ le_bytes 2 (count16 (leds c)) @ concat (map (\<lambda>l. wimage (led_writes l)) (leds c))
      @ le_bytes 2 (count16 (colors c)) @ wimage (color_writes (colors c))
      @ (if pv \<ge> 5 then le_bytes 2 (count16 (led_alt_names c)) @ wimage (concat (map string_writes (led_alt_names c))) else [])
      @ (if pv \<ge> 5 then le_bytes 4 (flags c) else []) @ []) (norm_device pv c0 c)"
    unfolding read_device_def [abs_def]
    by (rule decodes_bind decodes_string decodes_u32 decodes_u16 decodes_colors decodes_if decodes_names
        mode.dec_list_n zone.dec_list_n led.dec_list_n decodes_return oks els | assumption
        | simp add: oks norm_device_def)+
  then show ?thesis
    unfolding wimage_device_writes [OF ok] by simp
qed

lemma at_pos_start: "length (e @ r) < 2 ^ 32 \<Longrightarrow> n = of_nat (length e) \<Longrightarrow> at_pos (e @ r) n r"
  by (simp add: at_pos_def)

lemma device_roundtrip_lemma:
  assumes ok: "device_ok c" and size: "length (wimage (device_writes pv c)) < 2 ^ 32"
  shows "GetDeviceDescription junk pv c = Some (wimage (device_writes pv c))"
    and "ReadDeviceDescription (wimage (device_writes pv c)) pv c0 = Some (norm_device pv c0 c)"
proof -
  show "GetDeviceDescription junk pv c = Some (wimage (device_writes pv c))"
    unfolding GetDeviceDescription_def
    by (rule run_writer_wimage [OF tight_device_writes device_size_wimage size]) (rule ok)+
  let ?w = "wimage (device_writes pv c)" and ?r = "drop 4 (wimage (device_writes pv c))"
  have split: "?w = le_bytes 4 (device_size pv c) @ ?r"
    by (simp add: wimage_device_writes [OF ok])
  have "at_pos (le_bytes 4 (device_size pv c) @ ?r) 4 (?r @ [])"
    using size split by (subst append_Nil2, intro at_pos_start) simp_all
  then have "at_pos ?w 4 (?r @ [])" using split by simp
  then obtain p' where "read_device pv c0 ?w 4 = Some (norm_device pv c0 c, p')"
    by (rule decodesE [OF decodes_device [OF ok]])
  then show "ReadDeviceDescription ?w pv c0 = Some (norm_device pv c0 c)"
    by (simp add: ReadDeviceDescription_def)
qed

end
