(* ===== verification/Rgb_Layout.thy ===== *)
theory Rgb_Layout
  imports Rgb_Controller
begin

text \<open>
  How \<open>SetupColors\<close> lays the zones of a device over its one color buffer, and what the writers that
  go through a zone's pointer do under that layout. The interface \<open>color_view\<close> is what a writer of
  consecutive colors needs of its target; the whole buffer and the slice of a zone both provide it.
\<close>

section \<open>The layout invariant\<close>

definition zone_offset :: "zone list \<Rightarrow> nat \<Rightarrow> nat" where
  "zone_offset zs i = sum_list (map (\<lambda>z. unat (leds_in_zone z)) (take i zs))"

definition layout_ok :: "controller \<Rightarrow> bool" where
  "layout_ok c \<longleftrightarrow> length (colors c) = zone_offset (zones c) (length (zones c)) \<and>
     (\<forall>i < length (zones c).
        zone_colors (zones c ! i) =
          (if leds_in_zone (zones c ! i) = 0 then None else Some (zone_offset (zones c) i)) \<and>
        unat (zone_start_idx (zones c ! i)) = zone_offset (zones c) i)"

lemma leds_in_zone_update [simp]:
  "leds_in_zone (z\<lparr>zone_start_idx := a\<rparr>) = leds_in_zone z"
  "leds_in_zone (z\<lparr>zone_colors := p\<rparr>) = leds_in_zone z"
  "leds_in_zone (z\<lparr>zone_leds := q\<rparr>) = leds_in_zone z"
  "leds_in_zone (z\<lparr>zone_segments := s\<rparr>) = leds_in_zone z"
  by (simp_all add: leds_in_zone_def)

lemma zone_offset_0 [simp]: "zone_offset zs 0 = 0"
  by (simp add: zone_offset_def)

lemma zone_offset_Suc:
  "i < length zs \<Longrightarrow> zone_offset zs (Suc i) = zone_offset zs i + unat (leds_in_zone (zs ! i))"
  by (simp add: zone_offset_def take_Suc_conv_app_nth)

lemma zone_offset_Cons [simp]:
  "zone_offset (z # zs) (Suc i) = unat (leds_in_zone z) + zone_offset zs i"
  by (simp add: zone_offset_def)

lemma zone_offset_mono: "i \<le> j \<Longrightarrow> zone_offset zs i \<le> zone_offset zs j"
proof (induction zs arbitrary: i j)
  case Nil
  then show ?case by (simp add: zone_offset_def)
next
  case (Cons z zs)
  then show ?case by (cases i; cases j) auto
qed

lemma zone_end_le: "i < length zs \<Longrightarrow>
    zone_offset zs i + unat (leds_in_zone (zs ! i)) \<le> zone_offset zs (length zs)"
  using zone_offset_mono [of "Suc i" "length zs" zs] by (simp add: zone_offset_Suc)

lemma zones_disjoint: "i < j \<Longrightarrow> i < length zs \<Longrightarrow>
    zone_offset zs i + unat (leds_in_zone (zs ! i)) \<le> zone_offset zs j"
  using zone_offset_mono [of "Suc i" j zs] by (simp add: zone_offset_Suc)

lemma length_assign_zones [simp]: "length (assign_zones nc nl t zs) = length zs"
  by (induction zs arbitrary: t) auto

lemma map_leds_assign_zones [simp]:
  "map leds_in_zone (assign_zones nc nl t zs) = map leds_in_zone zs"
  by (induction zs arbitrary: t) auto

lemma zone_offset_cong: "map leds_in_zone zs = map leds_in_zone zs' \<Longrightarrow> zone_offset zs i = zone_offset zs' i"
  by (simp add: zone_offset_def flip: take_map map_map [unfolded comp_def, of unat leds_in_zone])

lemma assign_zones_nth:
  assumes "i < length zs" "unat t + zone_offset zs (length zs) < 2 ^ 32"
  shows "assign_zones nc nl t zs ! i = (zs ! i)\<lparr>zone_start_idx := t + of_nat (zone_offset zs i),
    zone_colors := (if nc > 0 \<and> leds_in_zone (zs ! i) > 0 then Some (unat t + zone_offset zs i) else None),
    zone_leds := (if nl > 0 \<and> leds_in_zone (zs ! i) > 0 then Some (unat t + zone_offset zs i) else None)\<rparr>"
  using assms
proof (induction zs arbitrary: t i)
  case Nil
  then show ?case by simp
next
  case (Cons z zs)
  have t': "unat (t + leds_in_zone z) = unat t + unat (leds_in_zone z)"
    using Cons.prems by (intro unat_add_no_wrap) simp
  show ?case
  proof (cases i)
    case 0
    then show ?thesis by simp
  next
    case (Suc j)
    then show ?thesis
      using Cons.prems Cons.IH [of j "t + leds_in_zone z"] t' by (simp add: add.assoc)
  qed
qed

lemma total_leds_unat:
  assumes "zone_offset zs (length zs) < 2 ^ 32"
  shows "unat (total_leds zs) = zone_offset zs (length zs)"
proof -
  have "foldl (\<lambda>t z. t + leds_in_zone z) t zs = t + of_nat (zone_offset zs (length zs))" for t
    by (induction zs arbitrary: t) (simp_all add: add.assoc)
  then show ?thesis using assms by (simp add: total_leds_def)
qed

lemma layout_ok_SetupColors:
  assumes "zone_offset (zones c) (length (zones c)) < 2 ^ 32"
  shows "layout_ok (SetupColors c)"
proof -
  let ?n = "zone_offset (zones c) (length (zones c))"
  have off: "zone_offset (assign_zones nc nl t (zones c)) i = zone_offset (zones c) i" for nc nl t i
    by (rule zone_offset_cong) simp
  have "unat (of_nat (zone_offset (zones c) i) :: u32) = zone_offset (zones c) i" if "i < length (zones c)" for i
    using zone_offset_mono [of i "length (zones c)" "zones c"] that assms by simp
  moreover have "leds_in_zone (zones c ! i) > 0 \<Longrightarrow> ?n > 0" if "i < length (zones c)" for i
    using zone_end_le [OF that] by (simp add: word_less_nat_alt)
  ultimately show ?thesis
    using assms by (auto simp: layout_ok_def SetupColors_def Let_def off total_leds_unat assign_zones_nth
        word_gt_0)
qed

lemma layout_ok_same_zones:
  "layout_ok c \<Longrightarrow> length cs = length (colors c) \<Longrightarrow> layout_ok (c\<lparr>colors := cs\<rparr>)"
  by (simp add: layout_ok_def)

section \<open>Writing consecutive colors\<close>

lemma upd_list_append_take: "b \<le> length xs \<Longrightarrow> xs[b + i := x] = take b xs @ (drop b xs)[i := x]"
  by (metis append_take_drop_id le_add1 length_take list_update_append add_diff_cancel_left' min.absorb2 not_less)

locale color_view =
  fixes valid :: "'s \<Rightarrow> bool" and view :: "'s \<Rightarrow> RGBColor list"
    and put :: "RGBColor list \<Rightarrow> 's \<Rightarrow> 's" and store :: "nat \<Rightarrow> RGBColor \<Rightarrow> 's \<Rightarrow> 's defined"
  assumes store_in: "valid s \<Longrightarrow> i < length (view s) \<Longrightarrow> store i col s = Some (put ((view s)[i := col]) s)"
    and view_put: "valid s \<Longrightarrow> length cs = length (view s) \<Longrightarrow> view (put cs s) = cs"
    and put_put: "valid s \<Longrightarrow> length cs = length (view s) \<Longrightarrow> length ds = length (view s) \<Longrightarrow>
      put ds (put cs s) = put ds s"
    and put_view: "valid s \<Longrightarrow> put (view s) s = s"
    and valid_put: "valid s \<Longrightarrow> length cs = length (view s) \<Longrightarrow> valid (put cs s)"
begin

lemma store_run:
  "valid s \<Longrightarrow> k + length cs \<le> length (view s) \<Longrightarrow>
   fold_def (\<lambda>(i, col). store i col) (zip [k..<k + length cs] cs) s
     = Some (put (take k (view s) @ cs @ drop (k + length cs) (view s)) s)"
proof (induction cs arbitrary: k s)
  case Nil
  then show ?case by (simp add: put_view)
next
  case (Cons x cs)
  let ?v = "(view s)[k := x]"
  have up: "[k..<k + length (x # cs)] = k # [Suc k..<Suc k + length cs]"
    by (subst upt_conv_Cons) auto
  have tk: "take (Suc k) ?v = take k (view s) @ [x]"
    using Cons.prems by (simp add: take_Suc_conv_app_nth)
  have "fold_def (\<lambda>(i, col). store i col) (zip [Suc k..<Suc k + length cs] cs) (put ?v s)
      = Some (put (take (Suc k) ?v @ cs @ drop (Suc k + length cs) ?v) (put ?v s))"
    using Cons.prems Cons.IH [of "put ?v s" "Suc k"] by (simp add: valid_put view_put)
  with up tk show ?case
    using Cons.prems by (simp add: store_in put_put)
qed

lemma store_all:
  "valid s \<Longrightarrow> length cs \<le> length (view s) \<Longrightarrow>
   fold_def (\<lambda>(i, col). store i col) (zip [0..<length cs] cs) s
     = Some (put (cs @ drop (length cs) (view s)) s)"
  using store_run [of s 0 cs] by simp

lemma store_const:
  assumes "valid s" "n \<le> length (view s)"
  shows "fold_def (\<lambda>i. store i col) [0..<n] s = Some (put (replicate n col @ drop n (view s)) s)"
proof -
  have "fold_def (\<lambda>i. store i col) xs s = fold_def (\<lambda>(i, col). store i col) (zip xs (replicate (length xs) col)) s"
    for xs s
    by (induction xs arbitrary: s) (auto split: Option.bind_splits)
  then show ?thesis using store_all [of s "replicate n col"] assms by simp
qed

end

text \<open>A target that refuses every index outside its view.\<close>

locale exact_view = color_view +
  assumes store_out: "valid s \<Longrightarrow> length (view s) \<le> i \<Longrightarrow> store i col s = None"
begin

lemma store_overrun:
  "valid s \<Longrightarrow> k \<le> length (view s) \<Longrightarrow> length (view s) < k + length cs \<Longrightarrow>
   fold_def (\<lambda>(i, col). store i col) (zip [k..<k + length cs] cs) s = None"
proof (induction cs arbitrary: k s)
  case Nil
  then show ?case by simp
next
  case (Cons x cs)
  have up: "[k..<k + length (x # cs)] = k # [Suc k..<Suc k + length cs]"
    by (subst upt_conv_Cons) auto
  show ?case
  proof (cases "k < length (view s)")
    case True
    let ?s = "put ((view s)[k := x]) s"
    have "fold_def (\<lambda>(i, col). store i col) (zip [Suc k..<Suc k + length cs] cs) ?s = None"
      using Cons.prems True by (intro Cons.IH) (simp_all add: valid_put view_put)
    with up True Cons.prems show ?thesis by (simp add: store_in)
  next
    case False
    with up Cons.prems show ?thesis by (simp add: store_out)
  qed
qed

lemma store_all_overrun:
  "valid s \<Longrightarrow> length (view s) < length cs \<Longrightarrow>
   fold_def (\<lambda>(i, col). store i col) (zip [0..<length cs] cs) s = None"
  using store_overrun [of s 0 cs] by simp

end

definition store_color :: "nat \<Rightarrow> RGBColor \<Rightarrow> controller \<Rightarrow> controller defined" where
  "store_color i col c = map_option (\<lambda>cs. c\<lparr>colors := cs\<rparr>) (upd_def (colors c) i col)"

interpretation buffer: exact_view "\<lambda>_. True" colors "\<lambda>cs c. c\<lparr>colors := cs\<rparr>" store_color
  by unfold_locales (simp_all add: store_color_def)

text \<open>What the code can reach through the pointer \<open>b\<close> of zone \<open>i\<close>: all of the buffer from there on.\<close>

definition points_to :: "nat \<Rightarrow> nat \<Rightarrow> controller \<Rightarrow> bool" where
  "points_to i b c \<longleftrightarrow> i < length (zones c) \<and> zone_colors (zones c ! i) = Some b \<and> b \<le> length (colors c)"

interpretation tail: exact_view "points_to i b" "\<lambda>c. drop b (colors c)"
    "\<lambda>cs c. c\<lparr>colors := take b (colors c) @ cs\<rparr>" "store_zone_color i" for i b
  by unfold_locales
    (auto simp: points_to_def store_zone_color_def drop_update_swap list_update_append upd_list_append_take
      intro!: controller.equality)

text \<open>The slice of zone \<open>i\<close>.\<close>

definition zone_slice :: "nat \<Rightarrow> controller \<Rightarrow> RGBColor list" where
  "zone_slice i c = take (unat (leds_in_zone (zones c ! i))) (drop (zone_offset (zones c) i) (colors c))"

definition put_zone_slice :: "nat \<Rightarrow> RGBColor list \<Rightarrow> controller \<Rightarrow> controller" where
  "put_zone_slice i cs c = c\<lparr>colors := take (zone_offset (zones c) i) (colors c) @ cs
     @ drop (zone_offset (zones c) i + unat (leds_in_zone (zones c ! i))) (colors c)\<rparr>"

definition zone_valid :: "nat \<Rightarrow> controller \<Rightarrow> bool" where
  "zone_valid i c \<longleftrightarrow> layout_ok c \<and> i < length (zones c)"

lemma zone_valid_end: "zone_valid i c \<Longrightarrow>
    zone_offset (zones c) i + unat (leds_in_zone (zones c ! i)) \<le> length (colors c)"
  using zone_end_le [of i "zones c"] by (simp add: zone_valid_def layout_ok_def)

lemma length_zone_slice: "zone_valid i c \<Longrightarrow> length (zone_slice i c) = unat (leds_in_zone (zones c ! i))"
  using zone_valid_end [of i c] by (simp add: zone_slice_def)

lemma store_zone_color_eq:
  assumes "zone_valid i c" "k < unat (leds_in_zone (zones c ! i))"
  shows "store_zone_color i k col c = store_color (zone_offset (zones c) i + k) col c"
proof -
  have "leds_in_zone (zones c ! i) \<noteq> 0" using assms(2) by auto
  then show ?thesis
    using assms by (auto simp: zone_valid_def layout_ok_def store_zone_color_def store_color_def
        split: Option.bind_splits)
qed

lemma slice_split:
  "zone_valid i c \<Longrightarrow> colors c = take (zone_offset (zones c) i) (colors c) @ zone_slice i c
     @ drop (zone_offset (zones c) i + unat (leds_in_zone (zones c ! i))) (colors c)"
proof -
  have "drop (k + n) xs = drop n (drop k xs)" for k n and xs :: "RGBColor list"
    by (simp add: add.commute)
  then show ?thesis by (simp only: zone_slice_def append_take_drop_id)
qed

lemma slice_update:
  assumes "zone_valid i c" "k < unat (leds_in_zone (zones c ! i))"
  shows "(colors c)[zone_offset (zones c) i + k := col] = take (zone_offset (zones c) i) (colors c)
     @ (zone_slice i c)[k := col] @ drop (zone_offset (zones c) i + unat (leds_in_zone (zones c ! i))) (colors c)"
proof -
  let ?o = "zone_offset (zones c) i"
  have "?o \<le> length (colors c)" using zone_valid_end [OF assms(1)] by simp
  then have "(take ?o (colors c) @ zone_slice i c
      @ drop (?o + unat (leds_in_zone (zones c ! i))) (colors c))[?o + k := col]
    = take ?o (colors c) @ (zone_slice i c)[k := col] @ drop (?o + unat (leds_in_zone (zones c ! i))) (colors c)"
    using assms length_zone_slice [OF assms(1)] by (simp add: list_update_append min_def)
  then show ?thesis using slice_split [OF assms(1)] by simp
qed

interpretation slice: color_view "zone_valid i" "zone_slice i" "put_zone_slice i" "store_zone_color i" for i
proof
  fix s k col
  assume v: "zone_valid i s" and k: "k < length (zone_slice i s)"
  then have k': "k < unat (leds_in_zone (zones s ! i))" by (simp add: length_zone_slice)
  then have "zone_offset (zones s) i + k < length (colors s)" using zone_valid_end [OF v] by simp
  then show "store_zone_color i k col s = Some (put_zone_slice i ((zone_slice i s)[k := col]) s)"
    by (simp add: store_zone_color_eq [OF v k'] store_color_def put_zone_slice_def slice_update [OF v k'])
next
  fix s and cs :: "RGBColor list"
  assume v: "zone_valid i s" and l: "length cs = length (zone_slice i s)"
  let ?o = "zone_offset (zones s) i" and ?n = "unat (leds_in_zone (zones s ! i))"
  have n: "length cs = ?n" and e: "?o + ?n \<le> length (colors s)"
    using zone_valid_end [OF v] l by (simp_all add: length_zone_slice [OF v])
  show "zone_slice i (put_zone_slice i cs s) = cs"
    using e n by (simp add: zone_slice_def put_zone_slice_def)
  show "zone_valid i (put_zone_slice i cs s)"
    using e n v by (simp add: zone_valid_def put_zone_slice_def layout_ok_same_zones)
  fix ds :: "RGBColor list"
  assume "length ds = length (zone_slice i s)"
  then have "length ds = ?n" by (simp add: length_zone_slice [OF v])
  then show "put_zone_slice i ds (put_zone_slice i cs s) = put_zone_slice i ds s"
    using e n by (simp add: put_zone_slice_def)
next
  fix s
  assume "zone_valid i s"
  then show "put_zone_slice i (zone_slice i s) s = s"
    using slice_split [of i s] by (simp add: put_zone_slice_def)
qed

text \<open>Replacing the slice of one zone leaves the slices of the others.\<close>

lemma zone_slice_other:
  assumes v: "zone_valid i c" and len: "length cs = length (zone_slice i c)"
    and j: "j < length (zones c)" "j \<noteq> i"
  shows "zone_slice j (put_zone_slice i cs c) = zone_slice j c"
proof -
  let ?o = "zone_offset (zones c)" and ?n = "\<lambda>k. unat (leds_in_zone (zones c ! k))"
  have n: "length cs = ?n i" and e: "?o i + ?n i \<le> length (colors c)"
    using zone_valid_end [OF v] len by (simp_all add: length_zone_slice [OF v])
  have i: "i < length (zones c)" using v by (simp add: zone_valid_def)
  have "?o j + ?n j \<le> ?o i \<or> ?o i + ?n i \<le> ?o j"
    using zones_disjoint [of i j "zones c"] zones_disjoint [of j i "zones c"] i j by (cases "i < j") auto
  then show ?thesis
  proof
    assume "?o j + ?n j \<le> ?o i"
    then show ?thesis using e n
      by (simp add: zone_slice_def put_zone_slice_def take_drop min_def)
  next
    assume "?o i + ?n i \<le> ?o j"
    then show ?thesis using e n
      by (simp add: zone_slice_def put_zone_slice_def)
  qed
qed

section \<open>Setting whole zones\<close>

lemma SetAllZoneLEDs_slice:
  assumes "zone_valid i c" "i < 2 ^ 32"
  shows "SetAllZoneLEDs (of_nat i) col c
    = Some (put_zone_slice i (replicate (unat (leds_in_zone (zones c ! i))) col) c)"
  using assms slice.store_const [of i c "unat (leds_in_zone (zones c ! i))" col] length_zone_slice [of i c]
  by (simp add: SetAllZoneLEDs_def GetLEDsInZone_def zone_valid_def)

lemma SetAllLEDs_prefix:
  assumes "layout_ok c" "k \<le> length (zones c)" "length (zones c) < 2 ^ 32"
  shows "fold_def (\<lambda>i. SetAllZoneLEDs (of_nat i) col) [0..<k] c
    = Some (c\<lparr>colors := replicate (zone_offset (zones c) k) col @ drop (zone_offset (zones c) k) (colors c)\<rparr>)"
  using assms(2)
proof (induction k)
  case 0
  show ?case by simp
next
  case (Suc k)
  let ?o = "zone_offset (zones c) k" and ?n = "unat (leds_in_zone (zones c ! k))"
  let ?c = "c\<lparr>colors := replicate ?o col @ drop ?o (colors c)\<rparr>"
  have "?o + ?n \<le> length (colors c)"
    using zone_end_le [of k "zones c"] Suc.prems assms(1) by (simp add: layout_ok_def)
  then have v: "zone_valid k ?c"
    using Suc.prems assms(1) by (simp add: zone_valid_def layout_ok_same_zones)
  have "SetAllZoneLEDs (of_nat k) col ?c = Some (put_zone_slice k (replicate ?n col) ?c)"
    using SetAllZoneLEDs_slice [OF v, of col] Suc.prems assms(3) by simp
  moreover have "put_zone_slice k (replicate ?n col) ?c
      = c\<lparr>colors := replicate (?o + ?n) col @ drop (?o + ?n) (colors c)\<rparr>"
    by (simp add: put_zone_slice_def replicate_add add.commute)
  ultimately show ?case
    using Suc by (simp add: fold_def_append zone_offset_Suc)
qed

end
