(* ===== verification/Rgb_Packets.thy ===== *)
theory Rgb_Packets
  imports Rgb_Roundtrip Rgb_Layout
begin

text \<open>
  The packets that change a device after it has been described: one mode, the whole color buffer,
  the colors of one zone, the color of one LED, and a new segment. The setters run on bytes that
  came over the network, so what they check before they index a vector matters.
\<close>

section \<open>Mode packets\<close>

definition mode_desc_size :: "u32 \<Rightarrow> mode \<Rightarrow> u32" where
  "mode_desc_size pv m = 4 + 4 + mode_size pv m"

definition GetModeDescription :: "(nat \<Rightarrow> byte) \<Rightarrow> u32 \<Rightarrow> u32 \<Rightarrow> controller \<Rightarrow> byte list defined" where
  "GetModeDescription junk i pv c = do {
     m \<leftarrow> nth_def (modes c) (size_t_of_int i);
     run_writer junk (mode_desc_size pv m)
       ([put_u32 (mode_desc_size pv m), put_u32 i] @ mode_writes pv m) }"

text \<open>
  The guard compares with \<open>>\<close>: an index equal to the number of modes passes it and the
  reference to \<open>modes[mode_idx]\<close> is outside the vector.
\<close>

definition SetModeDescription :: "byte list \<Rightarrow> u32 \<Rightarrow> controller \<Rightarrow> controller defined" where
  "SetModeDescription buf pv c = do {
     (mode_idx, p) \<leftarrow> rd_u32 buf 4;
     if size_t_of_int mode_idx > length (modes c) then Some c
     else do {
       m0 \<leftarrow> nth_def (modes c) (size_t_of_int mode_idx);
       (m, p) \<leftarrow> read_mode_into pv m0 buf p;
       Some (c\<lparr>active_mode := mode_idx, modes := (modes c)[size_t_of_int mode_idx := m]\<rparr>) } }"

section \<open>Color packets\<close>

definition color_desc_size :: "controller \<Rightarrow> u32" where
  "color_desc_size c = 4 + 2 + ucast (count16 (colors c)) * 4"

definition GetColorDescription :: "(nat \<Rightarrow> byte) \<Rightarrow> controller \<Rightarrow> byte list defined" where
  "GetColorDescription junk c = run_writer junk (color_desc_size c)
     ([put_u32 (color_desc_size c), put_u16 (count16 (colors c))] @ color_writes (colors c))"

text \<open>Read one color per index of the loop and store it.\<close>

fun rd_store :: "nat list \<Rightarrow> (nat \<Rightarrow> RGBColor \<Rightarrow> 's \<Rightarrow> 's defined) \<Rightarrow> byte list \<Rightarrow> u32 \<Rightarrow> 's \<Rightarrow> 's defined" where
  "rd_store [] store buf p s = Some s"
| "rd_store (i # is) store buf p s = do {
     (col, p) \<leftarrow> rd_u32 buf p;
     s \<leftarrow> store i col s;
     rd_store is store buf p s }"

definition SetColorDescription :: "byte list \<Rightarrow> controller \<Rightarrow> controller defined" where
  "SetColorDescription buf c = do {
     (num_colors, p) \<leftarrow> rd_u16 buf 4;
     if unat num_colors > length (colors c) then Some c
     else rd_store [0..<unat num_colors] store_color buf p c }"

subsection \<open>One zone\<close>

definition zone_color_size :: "u16 \<Rightarrow> u32" where
  "zone_color_size n = 4 + 4 + 2 + ucast n * 4"

definition read_zone_color :: "controller \<Rightarrow> zone \<Rightarrow> nat \<Rightarrow> wact" where
  "read_zone_color c z i = (case zone_colors z of None \<Rightarrow> Undefined_read
     | Some b \<Rightarrow> (case nth_def (colors c) (b + i) of Some w \<Rightarrow> put_u32 w | None \<Rightarrow> Undefined_read))"

text \<open>The number of colors is \<open>leds_count\<close> of the zone, not \<open>GetLEDsInZone\<close>.\<close>

definition GetZoneColorDescription :: "(nat \<Rightarrow> byte) \<Rightarrow> u32 \<Rightarrow> controller \<Rightarrow> byte list defined" where
  "GetZoneColorDescription junk i c = do {
     z \<leftarrow> nth_def (zones c) (size_t_of_int i);
     let n = (ucast (zone_leds_count z) :: u16);
     run_writer junk (zone_color_size n)
       ([put_u32 (zone_color_size n), put_u32 i, put_u16 n] @ map (read_zone_color c z) [0..<unat n]) }"

definition SetZoneColorDescription :: "byte list \<Rightarrow> controller \<Rightarrow> controller defined" where
  "SetZoneColorDescription buf c = do {
     (zone_idx, p) \<leftarrow> rd_u32 buf 4;
     if unat zone_idx > length (zones c) then Some c
     else do {
       (num_colors, p) \<leftarrow> rd_u16 buf p;
       rd_store [0..<unat num_colors] (store_zone_color (unat zone_idx)) buf p c } }"

subsection \<open>One LED\<close>

definition GetSingleLEDColorDescription :: "(nat \<Rightarrow> byte) \<Rightarrow> u32 \<Rightarrow> controller \<Rightarrow> byte list defined" where
  "GetSingleLEDColorDescription junk i c = do {
     col \<leftarrow> nth_def (colors c) (size_t_of_int i);
     run_writer junk (4 + 4) [put_u32 i, put_u32 col] }"

text \<open>The index is checked against the LEDs, with \<open>>\<close>, and used on the colors.\<close>

definition SetSingleLEDColorDescription :: "byte list \<Rightarrow> controller \<Rightarrow> controller defined" where
  "SetSingleLEDColorDescription buf c = do {
     (led_idx, p) \<leftarrow> rd_u32 buf 0;
     if size_t_of_int led_idx > length (leds c) then Some c
     else do {
       (col, p) \<leftarrow> rd_u32 buf p;
       store_color (size_t_of_int led_idx) col c } }"

section \<open>Segment packets\<close>

definition segment_desc_size :: "segment \<Rightarrow> u32" where
  "segment_desc_size s = 4 + 4 + segment_size s"

definition GetSegmentDescription :: "(nat \<Rightarrow> byte) \<Rightarrow> u32 \<Rightarrow> segment \<Rightarrow> byte list defined" where
  "GetSegmentDescription junk i s = run_writer junk (segment_desc_size s)
     ([put_u32 (segment_desc_size s), put_u32 i] @ segment_writes s)"

definition rd_bytes :: "nat \<Rightarrow> byte list rd" where
  "rd_bytes n buf p = (if unat p + n \<le> length buf
     then Some (take n (drop (unat p) buf), p + of_nat n) else None)"

text \<open>
  The name is copied into an allocation of \<open>segment_name_length\<close> bytes and read from there as a
  C string, so it has to hold a NUL.
\<close>

definition SetSegmentDescription :: "byte list \<Rightarrow> controller \<Rightarrow> controller defined" where
  "SetSegmentDescription buf c = do {
     (zone_idx, p) \<leftarrow> rd_u32 buf 4;
     (len, p) \<leftarrow> rd_u16 buf p;
     (segment_name, p) \<leftarrow> rd_bytes (unat len) buf p;
     (ty, p) \<leftarrow> rd_u32 buf p;
     (start, p) \<leftarrow> rd_u32 buf p;
     (count, p) \<leftarrow> rd_u32 buf p;
     if 0 \<in> set segment_name
     then AddSegment (size_t_of_int zone_idx) \<lparr>seg_name = c_str segment_name, seg_type = ty,
            seg_start_idx = start, seg_leds_count = count\<rparr> c
     else None }"

section \<open>Lemmas\<close>

lemma at_pos_4: "length (a @ e) < 2 ^ 32 \<Longrightarrow> length a = 4 \<Longrightarrow> at_pos (a @ e) 4 e"
  using at_pos_start [of a e 4] by simp

lemma rd_u32_at:
  assumes "at_pos buf p (le_bytes 4 w @ r)"
  obtains p' where "rd_u32 buf p = Some (w, p')" "at_pos buf p' r"
  using assms by (rule decodesE [OF decodes_u32])

lemma rd_u16_at:
  assumes "at_pos buf p (le_bytes 2 w @ r)"
  obtains p' where "rd_u16 buf p = Some (w, p')" "at_pos buf p' r"
  using assms by (rule decodesE [OF decodes_u16])

lemma rd_store_at:
  assumes "at_pos buf p (concat (map (le_bytes 4) cs) @ r)" "length is = length cs"
  shows "rd_store is store buf p s = fold_def (\<lambda>(i, col). store i col) (zip is cs) s"
  using assms
proof (induction "is" cs arbitrary: p s rule: list_induct2')
  case (4 i "is" col cs)
  then obtain p' where "rd_u32 buf p = Some (col, p')"
      and at: "at_pos buf p' (concat (map (le_bytes 4) cs) @ r)"
    by (auto elim: rd_u32_at)
  with 4 show ?case by (auto split: Option.bind_splits)
qed simp_all

end
