(* ===== verification/Rgb_Properties.thy ===== *)
theory Rgb_Properties
  imports Rgb_Packets
begin

text \<open>
  The properties of the device model: the device description survives the wire, each setter packet
  changes exactly what it names, the layout of the zones over the color buffer, and the inputs for
  which the setters index outside their vectors.
\<close>

section \<open>Shared lemmas\<close>

lemma wimage_words: "wimage (map put_u32 cs) = concat (map (le_bytes 4) cs)"
  by (rule wimage_map_put_u32)

lemma length_words [simp]: "length (concat (map (le_bytes 4) (cs :: u32 list))) = 4 * length cs"
  by (induction cs) simp_all

text \<open>A packet that starts with its size, and a reader that skips it.\<close>

lemma packet_image:
  assumes "list_all tight ws" "n = of_nat (4 + length (wimage ws))" "4 + length (wimage ws) < 2 ^ 32"
  shows "run_writer junk n (put_u32 n # ws) = Some (le_bytes 4 n @ wimage ws)"
    and "at_pos (le_bytes 4 n @ wimage ws) 4 (wimage ws)"
    and "unat n = length (le_bytes 4 n @ wimage ws)"
proof -
  show "run_writer junk n (put_u32 n # ws) = Some (le_bytes 4 n @ wimage ws)"
    using assms run_writer_wimage [of "put_u32 n # ws" n junk] by simp
  show "at_pos (le_bytes 4 n @ wimage ws) 4 (wimage ws)"
    using assms by (intro at_pos_4) simp_all
  have "unat (of_nat (4 + length (wimage ws)) :: u32) = 4 + length (wimage ws)"
    using assms(3) by (intro unat_of_nat_small) simp
  then show "unat n = length (le_bytes 4 n @ wimage ws)"
    by (simp only: assms(2) length_append length_le_bytes)
qed

lemma length_mode_writes:
  assumes "mode_ok m"
  shows "length (wimage (mode_writes pv m)) < 2 ^ 20"
proof -
  have "length (c_str (mode_name m)) < 65535" "length (mode_colors m) < 65536"
    using assms by (simp_all add: mode_ok_def str_ok_def fits16_def)
  moreover have "length (wimage (color_writes (mode_colors m))) = 4 * length (mode_colors m)"
    using assms by (intro length_color_writes) (simp add: mode_ok_def)
  ultimately show ?thesis by (simp add: mode_writes_def)
qed

lemma mode_packet:
  assumes "i < length (modes c)" "i < 2 ^ 31" "mode_ok (modes c ! i)"
    and "i < length (modes c2)"
  shows "\<exists>buf. GetModeDescription junk (of_nat i) pv c = Some buf \<and>
    SetModeDescription buf pv c2 = Some (c2\<lparr>active_mode := of_nat i,
      modes := (modes c2)[i := norm_mode_into pv (modes c2 ! i) (modes c ! i)]\<rparr>)"
proof -
  let ?m = "modes c ! i" and ?n = "mode_desc_size pv (modes c ! i)"
  let ?ws = "put_u32 (of_nat i) # mode_writes pv ?m"
  have t: "list_all tight ?ws" using assms by (simp add: tight_mode_writes)
  have n: "?n = of_nat (4 + length (wimage ?ws))"
    using assms by (simp add: mode_desc_size_def mode_size_wimage)
  have b: "4 + length (wimage ?ws) < 2 ^ 32"
    using length_mode_writes [OF assms(3), of pv] by simp
  note pk = packet_image [OF t n b]
  obtain p1 where p1: "rd_u32 (le_bytes 4 ?n @ wimage ?ws) 4 = Some (of_nat i, p1)"
      "at_pos (le_bytes 4 ?n @ wimage ?ws) p1 (wimage (mode_writes pv ?m) @ [])"
    using pk(2) by (auto elim: rd_u32_at)
  obtain p2 where "read_mode_into pv (modes c2 ! i) (le_bytes 4 ?n @ wimage ?ws) p1
      = Some (norm_mode_into pv (modes c2 ! i) ?m, p2)"
    by (rule decodesE [OF decodes_mode_into [OF assms(3)] p1(2)])
  with p1(1) have "SetModeDescription (le_bytes 4 ?n @ wimage ?ws) pv c2
      = Some (c2\<lparr>active_mode := of_nat i, modes := (modes c2)[i := norm_mode_into pv (modes c2 ! i) ?m]\<rparr>)"
    using assms by (simp add: SetModeDescription_def)
  moreover have "GetModeDescription junk (of_nat i) pv c = Some (le_bytes 4 ?n @ wimage ?ws)"
    using pk(1) assms by (simp add: GetModeDescription_def)
  ultimately show ?thesis by blast
qed

text \<open>The bytes of a zone color packet for zone \<open>i\<close> that carries the colors \<open>cs\<close>.\<close>

definition zone_color_packet :: "u32 \<Rightarrow> nat \<Rightarrow> RGBColor list \<Rightarrow> byte list" where
  "zone_color_packet n i cs = le_bytes 4 n @ le_bytes 4 (of_nat i :: u32)
     @ le_bytes 2 (of_nat (length cs) :: u16) @ concat (map (le_bytes 4) cs)"

lemma SetZoneColor_packet:
  assumes "i < length (zones c)" "i < 2 ^ 32" "length cs < 65536"
  shows "SetZoneColorDescription (zone_color_packet n i cs) c
    = fold_def (\<lambda>(k, col). store_zone_color i k col) (zip [0..<length cs] cs) c"
proof -
  let ?buf = "zone_color_packet n i cs"
  have "at_pos ?buf 4 (le_bytes 4 (of_nat i :: u32) @ le_bytes 2 (of_nat (length cs) :: u16)
      @ concat (map (le_bytes 4) cs) @ [])"
    unfolding zone_color_packet_def append_Nil2
    by (rule at_pos_4) (use assms in simp_all)
  then obtain p1 where p1: "rd_u32 ?buf 4 = Some (of_nat i, p1)"
      "at_pos ?buf p1 (le_bytes 2 (of_nat (length cs) :: u16) @ concat (map (le_bytes 4) cs) @ [])"
    by (auto elim: rd_u32_at)
  then obtain p2 where p2: "rd_u16 ?buf p1 = Some (of_nat (length cs), p2)"
      "at_pos ?buf p2 (concat (map (le_bytes 4) cs) @ [])"
    by (auto elim: rd_u16_at)
  have "rd_store [0..<length cs] (store_zone_color i) ?buf p2 c
      = fold_def (\<lambda>(k, col). store_zone_color i k col) (zip [0..<length cs] cs) c"
    by (rule rd_store_at [OF p2(2)]) simp
  with p1 p2 assms show ?thesis by (simp add: SetZoneColorDescription_def)
qed

lemma zone_valid_points_to:
  assumes "zone_valid i c" "leds_in_zone (zones c ! i) \<noteq> 0"
  shows "points_to i (zone_offset (zones c) i) c"
  using assms zone_valid_end [OF assms(1)] by (auto simp: zone_valid_def layout_ok_def points_to_def)

lemma assign_zones_map:
  assumes "\<And>z nc nl t. (f z)\<lparr>zone_start_idx := t, zone_colors := nc, zone_leds := nl\<rparr>
      = z\<lparr>zone_start_idx := t, zone_colors := nc, zone_leds := nl\<rparr>"
    and "\<And>z. leds_in_zone (f z) = leds_in_zone z"
  shows "assign_zones nc nl t (map f zs) = assign_zones nc nl t zs"
  using assms by (induction zs arbitrary: t) simp_all

section \<open>The description of a device\<close>

text \<open>C3: for a device within the 16-bit limits of the packet, \<open>GetDeviceDescription\<close> writes inside its
  buffer and fills it, the packet starts with its own length, and \<open>ReadDeviceDescription\<close> recovers the
  device up to the fields the protocol version does not carry.\<close>

theorem device_description_roundtrip:
  assumes "device_ok c" and "length (wimage (device_writes pv c)) < 2 ^ 32"
  shows "\<exists>buf. GetDeviceDescription junk pv c = Some buf \<and>
    take 4 buf = le_bytes 4 (of_nat (length buf) :: u32) \<and>
    ReadDeviceDescription buf pv c0 = Some (norm_device pv c0 c)"
proof -
  let ?w = "wimage (device_writes pv c)"
  have "take 4 ?w = le_bytes 4 (device_size pv c)"
    by (simp add: wimage_device_writes [OF assms(1)])
  then have "take 4 ?w = le_bytes 4 (of_nat (length ?w) :: u32)"
    by (simp add: device_size_wimage [OF assms(1)])
  with device_roundtrip_lemma [OF assms] show ?thesis by blast
qed

text \<open>The sample devices of the witnesses: two zones, one with a matrix, one with a segment.\<close>

definition sample_mode :: mode where
  "sample_mode = new_mode\<lparr>mode_name := str8 ''Direct'', mode_color_mode := 1, mode_brightness := 7, mode_colors := [5, 6]\<rparr>"

definition sample_zones :: "zone list" where
  "sample_zones = [new_zone\<lparr>zone_name := str8 ''Keys'', zone_type := 2, zone_leds_count := 2,
      zone_matrix_map := Some \<lparr>mm_height = 1, mm_width = 2, mm_map = [0, 1]\<rparr>\<rparr>,
    new_zone\<lparr>zone_name := str8 ''Bar'', zone_type := 1, zone_leds_count := 1,
      zone_segments := [\<lparr>seg_name = str8 ''S'', seg_type = 1, seg_start_idx = 0, seg_leds_count = 1\<rparr>]\<rparr>]"

definition empty_device :: controller where
  "empty_device = \<lparr>name = [], vendor = [], description = [], version = [], serial = [], location = [],
     leds = [], zones = [], modes = [], colors = [], type = 0, active_mode = 0, led_alt_names = [], flags = 0\<rparr>"

definition sample_device :: controller where
  "sample_device = SetupColors (empty_device\<lparr>name := str8 ''Kbd'', vendor := str8 ''V'', zones := sample_zones,
     modes := [sample_mode], leds := [\<lparr>led_name = str8 ''A'', led_value = 1\<rparr>, \<lparr>led_name = str8 ''B'', led_value = 2\<rparr>,
       \<lparr>led_name = str8 ''C'', led_value = 3\<rparr>], led_alt_names := [[], str8 ''x'', []]\<rparr>)"

lemmas sample_defs = sample_device_def empty_device_def sample_zones_def sample_mode_def new_mode_def
  new_zone_def str8_def SetupColors_def Let_def total_leds_def leds_in_zone_def
  ZONE_FLAG_RESIZE_EFFECTS_ONLY_def vec_resize_def

lemma sample_device_ok: "device_ok sample_device"
  by (simp add: sample_defs device_ok_def str_ok_def c_str_def fits16_def mode_ok_def zone_ok_def
      segment_ok_def matrix_ok_def led_ok_def)

lemma length_zone_image:
  assumes "zone_ok z"
  shows "length (wimage (zone_writes pv z)) = length (c_str (zone_name z)) + 21
    + (case zone_matrix_map z of None \<Rightarrow> 0 | Some mm \<Rightarrow> 8 + 4 * length (mm_map mm))
    + (if pv \<ge> 4 then 2 + sum_list (map (\<lambda>s. length (c_str (seg_name s)) + 15) (zone_segments z)) else 0)
    + (if pv \<ge> 5 then 4 else 0)"
proof -
  have ok: "fits16 (zone_segments z)" "pred_option matrix_ok (zone_matrix_map z)"
    using assms by (simp_all add: zone_ok_def)
  have "length (wimage (matrix_part z))
      = (case zone_matrix_map z of None \<Rightarrow> 0 | Some mm \<Rightarrow> 8 + 4 * length (mm_map mm))"
    using ok(2) by (cases "zone_matrix_map z")
      (simp_all add: matrix_part_ok matrix_writes_ok wimage_words)
  moreover have "length (wimage (concat (map segment_writes ss))) =
      sum_list (map (\<lambda>s. length (c_str (seg_name s)) + 15) ss)" for ss
    by (induction ss) (simp_all add: segment_writes_def)
  ultimately show ?thesis
    by (simp add: wimage_zone_writes [OF ok(1)])
qed

lemma sample_device_below: "length (wimage (device_writes 5 sample_device)) < 2 ^ 31"
proof -
  have z: "\<And>z. z \<in> set (zones sample_device) \<Longrightarrow> length (wimage (zone_writes 5 z)) < 1000"
    using sample_device_ok
    by (subst length_zone_image) (auto simp: device_ok_def list_all_iff sample_defs c_str_def)
  have m: "\<And>m. m \<in> set (modes sample_device) \<Longrightarrow> length (wimage (mode_writes 5 m)) < 2 ^ 20"
    using sample_device_ok by (intro length_mode_writes) (simp add: device_ok_def list_all_iff)
  have c: "length (wimage (color_writes (colors sample_device))) = 12"
    using sample_device_ok by (subst length_color_writes) (simp_all add: device_ok_def sample_defs)
  obtain z1 z2 m1 where e: "zones sample_device = [z1, z2]" "modes sample_device = [m1]"
    by (simp add: sample_defs)
  show ?thesis
    using z [of z1] z [of z2] m [of m1] e c
    by (simp add: wimage_device_writes [OF sample_device_ok])
      (simp add: sample_defs led_writes_def c_str_def)
qed

lemma sample_device_small: "length (wimage (device_writes 5 sample_device)) < 2 ^ 32"
  using sample_device_below by simp

theorem device_description_roundtrip_witness:
  "\<exists>buf. GetDeviceDescription (\<lambda>_. 0) 5 sample_device = Some buf \<and>
    take 4 buf = le_bytes 4 (of_nat (length buf) :: u32) \<and>
    ReadDeviceDescription buf 5 empty_device = Some (norm_device 5 empty_device sample_device)"
  by (rule device_description_roundtrip [OF sample_device_ok sample_device_small])

text \<open>At protocol version 5 nothing is lost: a device whose strings hold no NUL and whose zones are
  laid out by \<open>SetupColors\<close> is recovered exactly by a reader that starts from an empty device.\<close>

definition clean :: "cstring \<Rightarrow> bool" where
  "clean s \<longleftrightarrow> c_str s = s"

definition device_clean :: "controller \<Rightarrow> bool" where
  "device_clean c \<longleftrightarrow> list_all clean [name c, vendor c, description c, version c, serial c, location c] \<and>
     list_all clean (led_alt_names c) \<and> list_all (\<lambda>m. clean (mode_name m)) (modes c) \<and>
     list_all (\<lambda>l. clean (led_name l)) (leds c) \<and>
     list_all (\<lambda>z. clean (zone_name z) \<and> list_all (\<lambda>s. clean (seg_name s)) (zone_segments z)) (zones c)"

definition blank :: "controller \<Rightarrow> bool" where
  "blank c \<longleftrightarrow> modes c = [] \<and> zones c = [] \<and> leds c = [] \<and> colors c = [] \<and> led_alt_names c = []"

definition strip_zone :: "zone \<Rightarrow> zone" where
  "strip_zone z = z\<lparr>zone_start_idx := 0, zone_colors := None, zone_leds := None\<rparr>"

lemma norm_zone_5: "clean (zone_name z) \<Longrightarrow> list_all (\<lambda>s. clean (seg_name s)) (zone_segments z) \<Longrightarrow>
    norm_zone 5 z = strip_zone z"
  by (cases z) (auto simp: norm_zone_def hides_size_def strip_zone_def new_zone_def norm_segment_def clean_def
      list_all_iff intro: map_idI)

lemma norm_device_5:
  assumes "device_clean c" "blank c0"
  shows "norm_device 5 c0 c = SetupColors (c\<lparr>zones := map strip_zone (zones c)\<rparr>)"
proof -
  have "map (norm_mode 5) (modes c) = modes c" "map norm_led (leds c) = leds c"
      "map c_str (led_alt_names c) = led_alt_names c"
    using assms(1) by (auto simp: device_clean_def list_all_iff clean_def norm_mode_def norm_mode_into_def
        norm_led_def intro!: map_idI)
  moreover have "map (norm_zone 5) (zones c) = map strip_zone (zones c)"
    using assms(1) by (auto simp: device_clean_def list_all_iff intro!: norm_zone_5)
  ultimately show ?thesis
    using assms by (auto simp: norm_device_def blank_def device_clean_def clean_def
        intro!: arg_cong [where f = SetupColors] controller.equality)
qed

lemma SetupColors_strip:
  "SetupColors (c\<lparr>zones := map strip_zone (zones c)\<rparr>) = SetupColors c"
proof -
  have leds: "leds_in_zone (strip_zone z) = leds_in_zone z" for z
    by (simp add: strip_zone_def)
  have "assign_zones nc nl t (map strip_zone zs) = assign_zones nc nl t zs" for nc nl t zs
    by (rule assign_zones_map) (simp_all add: leds, simp add: strip_zone_def)
  moreover have "foldl (\<lambda>t z. t + leds_in_zone z) t (map strip_zone zs) = foldl (\<lambda>t z. t + leds_in_zone z) t zs"
    for t zs
    by (induction zs arbitrary: t) (simp_all add: leds)
  ultimately show ?thesis by (simp add: SetupColors_def total_leds_def Let_def)
qed

theorem device_description_lossless_v5:
  assumes "device_ok c" "length (wimage (device_writes 5 c)) < 2 ^ 32"
    and "device_clean c" "SetupColors c = c" "blank c0"
  shows "\<exists>buf. GetDeviceDescription junk 5 c = Some buf \<and> ReadDeviceDescription buf 5 c0 = Some c"
  using device_roundtrip_lemma(1) [OF assms(1,2), of junk] device_roundtrip_lemma(2) [OF assms(1,2), of c0] assms(3-)
  by (simp add: norm_device_5 SetupColors_strip)

theorem device_description_lossless_v5_witness:
  "\<exists>buf. GetDeviceDescription (\<lambda>_. 1) 5 sample_device = Some buf \<and>
    ReadDeviceDescription buf 5 empty_device = Some sample_device"
proof (rule device_description_lossless_v5 [OF sample_device_ok sample_device_small])
  show "device_clean sample_device" "SetupColors sample_device = sample_device" "blank empty_device"
    by (simp_all add: device_clean_def clean_def blank_def sample_defs c_str_def)
qed

section \<open>Mode packets\<close>

text \<open>The packet for mode \<open>i\<close> of one device, applied to another that has a mode \<open>i\<close>, replaces that
  mode (keeping its brightness fields before protocol version 3), makes it active and changes nothing else.\<close>

theorem mode_description_roundtrip:
  assumes "i < length (modes c)" "i < 2 ^ 31" "mode_ok (modes c ! i)" "i < length (modes c2)"
  shows "\<exists>buf. GetModeDescription junk (of_nat i) pv c = Some buf \<and>
    SetModeDescription buf pv c2 = Some (c2\<lparr>active_mode := of_nat i,
      modes := (modes c2)[i := norm_mode_into pv (modes c2 ! i) (modes c ! i)]\<rparr>)"
  by (rule mode_packet [OF assms])

theorem mode_description_roundtrip_witness:
  "\<exists>buf. GetModeDescription (\<lambda>_. 0) (of_nat 0) 2 sample_device = Some buf \<and>
    SetModeDescription buf 2 (empty_device\<lparr>modes := [new_mode]\<rparr>) = Some ((empty_device\<lparr>modes := [new_mode]\<rparr>)
      \<lparr>active_mode := of_nat 0, modes := (modes (empty_device\<lparr>modes := [new_mode]\<rparr>))
        [0 := norm_mode_into 2 (modes (empty_device\<lparr>modes := [new_mode]\<rparr>) ! 0) (modes sample_device ! 0)]\<rparr>)"
  by (rule mode_description_roundtrip)
    (simp_all add: sample_defs mode_ok_def str_ok_def c_str_def fits16_def)

section \<open>Color packets\<close>

lemma color_packet:
  assumes "length (colors c) < 65536"
  shows "\<exists>buf. GetColorDescription junk c = Some buf \<and> length buf = 6 + 4 * length (colors c) \<and>
    take 4 buf = le_bytes 4 (of_nat (length buf) :: u32) \<and>
    (\<forall>c2. SetColorDescription buf c2 = Some (if length (colors c) \<le> length (colors c2)
      then c2\<lparr>colors := colors c @ drop (length (colors c)) (colors c2)\<rparr> else c2))"
proof -
  let ?cs = "colors c" and ?n = "color_desc_size c"
  let ?ws = "put_u16 (count16 ?cs) # color_writes ?cs"
  have f: "fits16 ?cs" using assms by (simp add: fits16_def)
  have n: "?n = of_nat (4 + length (wimage ?ws))"
    using f by (simp add: color_desc_size_def ucast_count16 length_color_writes)
  have b: "4 + length (wimage ?ws) < 2 ^ 32"
    using f assms by (simp add: length_color_writes)
  have t: "list_all tight ?ws" by simp
  note pk = packet_image [OF t n b]
  let ?buf = "le_bytes 4 ?n @ wimage ?ws"
  obtain p1 where p1: "rd_u16 ?buf 4 = Some (count16 ?cs, p1)"
      "at_pos ?buf p1 (concat (map (le_bytes 4) ?cs) @ [])"
    using pk(2) f by (auto simp: color_writes_def wimage_words elim: rd_u16_at)
  have "rd_store [0..<length ?cs] store_color ?buf p1 c2
      = fold_def (\<lambda>(i, col). store_color i col) (zip [0..<length ?cs] ?cs) c2" for c2
    by (rule rd_store_at [OF p1(2)]) simp
  with p1(1) f have "SetColorDescription ?buf c2 = Some (if length ?cs \<le> length (colors c2)
      then c2\<lparr>colors := ?cs @ drop (length ?cs) (colors c2)\<rparr> else c2)" for c2
    by (simp add: SetColorDescription_def buffer.store_all)
  moreover have "GetColorDescription junk c = Some ?buf"
    using pk(1) by (simp add: GetColorDescription_def)
  moreover have "length ?buf = 6 + 4 * length ?cs"
    using f by (simp add: length_color_writes)
  moreover from this have "take 4 ?buf = le_bytes 4 (of_nat (length ?buf) :: u32)"
    using n f by (simp add: length_color_writes)
  ultimately show ?thesis by blast
qed

text \<open>The packet of a color buffer replaces a prefix of the receiver's buffer of that length, and is
  ignored by a receiver with fewer colors.\<close>

theorem color_description_roundtrip:
  assumes "length (colors c) < 65536"
  shows "\<exists>buf. GetColorDescription junk c = Some buf \<and>
    SetColorDescription buf c2 = Some (if length (colors c) \<le> length (colors c2)
      then c2\<lparr>colors := colors c @ drop (length (colors c)) (colors c2)\<rparr> else c2)"
  using color_packet [OF assms, of junk] by blast

theorem color_description_roundtrip_witness:
  "\<exists>buf. GetColorDescription (\<lambda>_. 0) sample_device = Some buf \<and>
    SetColorDescription buf (empty_device\<lparr>colors := [9, 9, 9, 9]\<rparr>) = Some (if length (colors sample_device)
      \<le> length (colors (empty_device\<lparr>colors := [9, 9, 9, 9]\<rparr>))
      then (empty_device\<lparr>colors := [9, 9, 9, 9]\<rparr>)\<lparr>colors := colors sample_device
        @ drop (length (colors sample_device)) (colors (empty_device\<lparr>colors := [9, 9, 9, 9]\<rparr>))\<rparr>
      else empty_device\<lparr>colors := [9, 9, 9, 9]\<rparr>)"
  by (rule color_description_roundtrip) (simp add: sample_defs)

text \<open>A zone color packet with at most as many colors as the zone has LEDs writes those colors at the
  start of the zone's slice; no other zone's colors change.\<close>

theorem zone_color_packet_in_zone:
  assumes "layout_ok c" "i < length (zones c)" "i < 2 ^ 32"
    and "length cs \<le> unat (leds_in_zone (zones c ! i))" "length cs < 65536"
  shows "\<exists>c'. SetZoneColorDescription (zone_color_packet n i cs) c = Some c' \<and>
    zone_slice i c' = cs @ drop (length cs) (zone_slice i c) \<and> zones c' = zones c \<and>
    (\<forall>j. j < length (zones c) \<longrightarrow> j \<noteq> i \<longrightarrow> zone_slice j c' = zone_slice j c)"
proof -
  have v: "zone_valid i c" using assms by (simp add: zone_valid_def)
  let ?v = "cs @ drop (length cs) (zone_slice i c)"
  have len: "length ?v = length (zone_slice i c)"
    using assms(4) by (simp add: length_zone_slice [OF v])
  have "SetZoneColorDescription (zone_color_packet n i cs) c = Some (put_zone_slice i ?v c)"
    using assms v by (simp add: SetZoneColor_packet slice.store_all length_zone_slice)
  moreover have "zone_slice i (put_zone_slice i ?v c) = ?v"
    by (rule slice.view_put [OF v len])
  moreover have "zone_slice j (put_zone_slice i ?v c) = zone_slice j c"
    if "j < length (zones c)" "j \<noteq> i" for j
    using zone_slice_other [OF v _ that] len by simp
  moreover have "zones (put_zone_slice i ?v c) = zones c" by (simp add: put_zone_slice_def)
  ultimately show ?thesis by blast
qed

lemma sample_layout: "layout_ok sample_device"
  unfolding sample_device_def
  by (rule layout_ok_SetupColors) (simp add: sample_defs zone_offset_def)

theorem zone_color_packet_in_zone_witness:
  "\<exists>c'. SetZoneColorDescription (zone_color_packet 0 0 [1, 2]) sample_device = Some c' \<and>
    zone_slice 0 c' = [1, 2] @ drop (length [1, 2 :: u32]) (zone_slice 0 sample_device) \<and>
    zones c' = zones sample_device \<and>
    (\<forall>j. j < length (zones sample_device) \<longrightarrow> j \<noteq> 0 \<longrightarrow> zone_slice j c' = zone_slice j sample_device)"
  by (rule zone_color_packet_in_zone [OF sample_layout]) (simp_all add: sample_defs)

text \<open>The packet's color count is never compared with the size of the zone. With more colors than the
  zone has LEDs the setter writes on into the colors of the zones that follow, and past the end of the
  color buffer the write is undefined.\<close>

theorem zone_color_packet_overruns:
  assumes "layout_ok c" "i < length (zones c)" "i < 2 ^ 32" "leds_in_zone (zones c ! i) \<noteq> 0"
    and "length cs < 65536"
  shows "SetZoneColorDescription (zone_color_packet n i cs) c =
    (let b = zone_offset (zones c) i in
      if b + length cs \<le> length (colors c)
      then Some (c\<lparr>colors := take b (colors c) @ cs @ drop (b + length cs) (colors c)\<rparr>) else None)"
proof -
  have v: "zone_valid i c" using assms by (simp add: zone_valid_def)
  note pt = zone_valid_points_to [OF v assms(4)]
  let ?b = "zone_offset (zones c) i"
  note set = SetZoneColor_packet [OF assms(2,3,5), of n]
  have b: "?b \<le> length (colors c)" using zone_valid_end [OF v] by simp
  show ?thesis
  proof (cases "?b + length cs \<le> length (colors c)")
    case True
    have "drop (length cs) (drop ?b (colors c)) = drop (?b + length cs) (colors c)"
      by (simp add: add.commute)
    with True b tail.store_all [OF pt, of cs] show ?thesis
      unfolding set by (simp only: Let_def if_True) simp
  next
    case False
    with b have "fold_def (\<lambda>(k, col). store_zone_color i k col) (zip [0..<length cs] cs) c = None"
      by (intro tail.store_all_overrun [OF pt]) simp
    with False show ?thesis unfolding set by (simp only: Let_def if_False)
  qed
qed

theorem zone_color_packet_overruns_witness:
  "SetZoneColorDescription (zone_color_packet 0 0 [1, 2, 3]) sample_device =
    (let b = zone_offset (zones sample_device) 0 in
      if b + length [1, 2, 3 :: u32] \<le> length (colors sample_device)
      then Some (sample_device\<lparr>colors := take b (colors sample_device) @ [1, 2, 3]
        @ drop (b + length [1, 2, 3 :: u32]) (colors sample_device)\<rparr>) else None)"
proof (rule zone_color_packet_overruns [OF sample_layout])
  show "0 < length (zones sample_device)" by (simp add: sample_defs)
  show "(0::nat) < 2 ^ 32" by simp
  show "leds_in_zone (zones sample_device ! 0) \<noteq> 0" by (simp add: sample_defs)
  show "length [1, 2, 3 :: u32] < 65536" by simp
qed

text \<open>An index equal to the number of elements passes the guard of each indexed setter, which then
  accesses its vector one past the end.\<close>

theorem setter_index_at_end_undefined:
  assumes "rd_u32 buf 4 = Some (idx, p)" "rd_u32 buf 0 = Some (led, q)" "rd_u16 buf p = Some (num, r)"
    and "size_t_of_int idx = length (modes c)" "unat idx = length (zones c)" "num \<noteq> 0"
    and "size_t_of_int led = length (leds c)" "length (leds c) = length (colors c)"
  shows "SetModeDescription buf pv c = None \<and> SetZoneColorDescription buf c = None \<and>
    SetSingleLEDColorDescription buf c = None"
proof -
  have "[0..<unat num] = 0 # [1..<unat num]"
    using assms(6) by (simp add: upt_conv_Cons word_neq_0_conv word_less_nat_alt)
  moreover have "store_zone_color (unat idx) k col c = None" for k col
    using assms(5) by (simp add: store_zone_color_def)
  ultimately have "rd_store [0..<unat num] (store_zone_color (unat idx)) buf r c = None"
    by (auto split: Option.bind_splits)
  then show ?thesis
    using assms by (auto simp: SetModeDescription_def SetZoneColorDescription_def
        SetSingleLEDColorDescription_def store_color_def split: Option.bind_splits)
qed

definition edge_device :: controller where
  "edge_device = empty_device\<lparr>modes := [new_mode], zones := [new_zone]\<rparr>"

lemmas reader_defs = rd_u32_def rd_u16_def rd_word_def le_word_def

theorem setter_index_at_end_undefined_witness:
  "SetModeDescription [0, 0, 0, 0, 1, 0, 0, 0, 1, 0] 5 edge_device = None \<and>
   SetZoneColorDescription [0, 0, 0, 0, 1, 0, 0, 0, 1, 0] edge_device = None \<and>
   SetSingleLEDColorDescription [0, 0, 0, 0, 1, 0, 0, 0, 1, 0] edge_device = None"
  by (rule setter_index_at_end_undefined [where idx = 1 and p = 8 and led = 0 and q = 4 and num = 1 and r = 10])
    (simp_all add: reader_defs edge_device_def empty_device_def size_t_of_int_def)

text \<open>An index beyond that is rejected: the setters return with the device unchanged.\<close>

theorem setter_index_beyond_ignored:
  assumes "rd_u32 buf 4 = Some (idx, p)" "rd_u32 buf 0 = Some (led, q)"
    and "size_t_of_int idx > length (modes c)" "unat idx > length (zones c)"
    and "size_t_of_int led > length (leds c)"
  shows "SetModeDescription buf pv c = Some c \<and> SetZoneColorDescription buf c = Some c \<and>
    SetSingleLEDColorDescription buf c = Some c"
  using assms by (simp add: SetModeDescription_def SetZoneColorDescription_def SetSingleLEDColorDescription_def)

theorem setter_index_beyond_ignored_witness:
  "SetModeDescription [1, 0, 0, 0, 2, 0, 0, 0, 1, 0] 5 edge_device = Some edge_device \<and>
   SetZoneColorDescription [1, 0, 0, 0, 2, 0, 0, 0, 1, 0] edge_device = Some edge_device \<and>
   SetSingleLEDColorDescription [1, 0, 0, 0, 2, 0, 0, 0, 1, 0] edge_device = Some edge_device"
  by (rule setter_index_beyond_ignored [where idx = 2 and p = 8 and led = 1 and q = 4])
    (simp_all add: reader_defs edge_device_def empty_device_def size_t_of_int_def)

text \<open>The packet of one LED sets exactly that LED's color on a receiver that has it.\<close>

theorem single_led_roundtrip:
  assumes "i < length (colors c)" "i < 2 ^ 31" "i \<le> length (leds c2)" "i < length (colors c2)"
  shows "\<exists>buf. GetSingleLEDColorDescription junk (of_nat i) c = Some buf \<and> length buf = 8 \<and>
    SetSingleLEDColorDescription buf c2 = Some (c2\<lparr>colors := (colors c2)[i := colors c ! i]\<rparr>)"
proof -
  let ?buf = "le_bytes 4 (of_nat i :: u32) @ le_bytes 4 (colors c ! i)"
  have "at_pos ?buf 0 (le_bytes 4 (of_nat i :: u32) @ le_bytes 4 (colors c ! i) @ [])"
    by (simp add: at_pos_def)
  then obtain p where p: "rd_u32 ?buf 0 = Some (of_nat i, p)" "at_pos ?buf p (le_bytes 4 (colors c ! i) @ [])"
    by (auto elim: rd_u32_at)
  obtain q where "rd_u32 ?buf p = Some (colors c ! i, q)"
    using p(2) by (rule rd_u32_at)
  with p(1) have "SetSingleLEDColorDescription ?buf c2 = Some (c2\<lparr>colors := (colors c2)[i := colors c ! i]\<rparr>)"
    using assms by (simp add: SetSingleLEDColorDescription_def store_color_def)
  moreover have "GetSingleLEDColorDescription junk (of_nat i) c = Some ?buf"
    using assms run_writer_wimage [of "[put_u32 (of_nat i), put_u32 (colors c ! i)]" 8 junk]
    by (simp add: GetSingleLEDColorDescription_def)
  ultimately show ?thesis by (intro exI [of _ ?buf]) simp
qed

theorem single_led_roundtrip_witness:
  "\<exists>buf. GetSingleLEDColorDescription (\<lambda>_. 0) (of_nat 1) (sample_device\<lparr>colors := [7, 8, 9]\<rparr>) = Some buf \<and>
    length buf = 8 \<and> SetSingleLEDColorDescription buf sample_device
      = Some (sample_device\<lparr>colors := (colors sample_device)[1 := colors (sample_device\<lparr>colors := [7, 8, 9]\<rparr>) ! 1]\<rparr>)"
  by (rule single_led_roundtrip) (simp_all add: sample_defs)

text \<open>The packet of a segment appends that segment to the zone it names on a receiver that has the zone,
  and is undefined when the receiver has not.\<close>

theorem segment_description_roundtrip:
  assumes "segment_ok s" "i < 2 ^ 31"
  shows "\<exists>buf. GetSegmentDescription junk (of_nat i) s = Some buf \<and>
    SetSegmentDescription buf c = (if i < length (zones c)
      then Some (c\<lparr>zones := (zones c)[i := (zones c ! i)\<lparr>zone_segments := zone_segments (zones c ! i) @ [norm_segment s]\<rparr>]\<rparr>)
      else None)"
proof -
  let ?n = "segment_desc_size s" and ?ws = "put_u32 (of_nat i) # segment_writes s"
  let ?nm = "c_str (seg_name s) @ [0]"
  have str: "str_ok (seg_name s)" using assms(1) by (simp add: segment_ok_def)
  have t: "list_all tight ?ws" using assms by (simp add: tight_segment_writes)
  have n: "?n = of_nat (4 + length (wimage ?ws))"
    by (simp add: segment_desc_size_def segment_size_wimage)
  have b: "4 + length (wimage ?ws) < 2 ^ 32"
    using str by (simp add: segment_writes_def str_ok_def)
  note pk = packet_image [OF t n b]
  define buf where "buf = le_bytes 4 ?n @ wimage ?ws"
  have im: "wimage ?ws = le_bytes 4 (of_nat i :: u32) @ le_bytes 2 (name_len (seg_name s)) @ ?nm
      @ le_bytes 4 (seg_type s) @ le_bytes 4 (seg_start_idx s) @ le_bytes 4 (seg_leds_count s) @ []"
    by (simp add: segment_writes_def wimage_string_writes)
  have at0: "at_pos buf 4 (le_bytes 4 (of_nat i :: u32) @ le_bytes 2 (name_len (seg_name s)) @ ?nm
      @ le_bytes 4 (seg_type s) @ le_bytes 4 (seg_start_idx s) @ le_bytes 4 (seg_leds_count s) @ [])"
    using pk(2) unfolding buf_def im .
  obtain p1 where p1: "rd_u32 buf 4 = Some (of_nat i, p1)" "at_pos buf p1 (le_bytes 2 (name_len (seg_name s)) @ ?nm
      @ le_bytes 4 (seg_type s) @ le_bytes 4 (seg_start_idx s) @ le_bytes 4 (seg_leds_count s) @ [])"
    using at0 by (rule rd_u32_at)
  obtain p2 where p2: "rd_u16 buf p1 = Some (name_len (seg_name s), p2)" "at_pos buf p2 (?nm
      @ le_bytes 4 (seg_type s) @ le_bytes 4 (seg_start_idx s) @ le_bytes 4 (seg_leds_count s) @ [])"
    using p1(2) by (rule rd_u16_at)
  have len: "unat (name_len (seg_name s)) = length ?nm"
    by (simp add: unat_name_len [OF str])
  obtain p3 where p3: "rd_bytes (unat (name_len (seg_name s))) buf p2 = Some (?nm, p3)"
      "at_pos buf p3 (le_bytes 4 (seg_type s) @ le_bytes 4 (seg_start_idx s) @ le_bytes 4 (seg_leds_count s) @ [])"
    using at_pos_advance [OF p2(2) len] by (auto simp: rd_bytes_def)
  obtain p4 where p4: "rd_u32 buf p3 = Some (seg_type s, p4)"
      "at_pos buf p4 (le_bytes 4 (seg_start_idx s) @ le_bytes 4 (seg_leds_count s) @ [])"
    using p3(2) by (rule rd_u32_at)
  obtain p5 where p5: "rd_u32 buf p4 = Some (seg_start_idx s, p5)" "at_pos buf p5 (le_bytes 4 (seg_leds_count s) @ [])"
    using p4(2) by (rule rd_u32_at)
  obtain p6 where p6: "rd_u32 buf p5 = Some (seg_leds_count s, p6)"
    using p5(2) by (rule rd_u32_at)
  have s: "\<lparr>seg_name = c_str (seg_name s), seg_type = seg_type s, seg_start_idx = seg_start_idx s,
      seg_leds_count = seg_leds_count s\<rparr> = norm_segment s"
    by (simp add: norm_segment_def)
  have "SetSegmentDescription buf c = AddSegment i (norm_segment s) c"
    using assms(2) c_str_append_NUL [of "seg_name s" "[]"]
    by (simp add: SetSegmentDescription_def p1(1) p2(1) p3(1) p4(1) p5(1) p6 s)
  moreover have "GetSegmentDescription junk (of_nat i) s = Some buf"
    using pk(1) by (simp add: GetSegmentDescription_def buf_def)
  ultimately show ?thesis by (auto simp: AddSegment_def)
qed

theorem segment_description_roundtrip_witness:
  "\<exists>buf. GetSegmentDescription (\<lambda>_. 0) (of_nat 1) \<lparr>seg_name = str8 ''T'', seg_type = 1, seg_start_idx = 0, seg_leds_count = 1\<rparr>
      = Some buf \<and> SetSegmentDescription buf sample_device = (if 1 < length (zones sample_device)
      then Some (sample_device\<lparr>zones := (zones sample_device)[1 := (zones sample_device ! 1)\<lparr>zone_segments :=
        zone_segments (zones sample_device ! 1) @ [norm_segment \<lparr>seg_name = str8 ''T'', seg_type = 1, seg_start_idx = 0,
          seg_leds_count = 1\<rparr>]\<rparr>]\<rparr>) else None)"
  by (rule segment_description_roundtrip) (simp_all add: segment_ok_def str_ok_def c_str_def str8_def)

section \<open>Zones over the color buffer\<close>

lemma zones_SetupColors [simp]:
  "length (zones (SetupColors c)) = length (zones c)"
  "zone_offset (zones (SetupColors c)) i = zone_offset (zones c) i"
  by (simp_all add: SetupColors_def Let_def, rule zone_offset_cong, simp)

lemma concat_zone_slices:
  "k \<le> length (zones c) \<Longrightarrow>
    concat (map (\<lambda>i. zone_slice i c) [0..<k]) = take (zone_offset (zones c) k) (colors c)"
proof (induction k)
  case (Suc k)
  then have "concat (map (\<lambda>i. zone_slice i c) [0..<Suc k]) =
      take (zone_offset (zones c) k) (colors c) @ zone_slice k c" by simp
  also have "\<dots> = take (zone_offset (zones c) (Suc k)) (colors c)"
    using Suc.prems by (simp add: zone_slice_def zone_offset_Suc take_add)
  finally show ?case .
qed simp

lemma SetupColors_keeps_prefix:
  "take (length (colors c)) (colors (SetupColors c)) = take (length (colors (SetupColors c))) (colors c)"
  by (simp add: SetupColors_def Let_def vec_resize_def min_def)

text \<open>\<open>SetupColors\<close> sizes the color buffer to the LEDs of all zones and lays the zones over it without
  gap or overlap: zone \<open>i\<close> starts where the zones before it end, its pointer is there (or \<open>NULL\<close> when it
  has no LED), and two zones share no color.\<close>

theorem SetupColors_partitions:
  assumes "zone_offset (zones c) (length (zones c)) < 2 ^ 32"
  shows "layout_ok (SetupColors c) \<and>
    length (colors (SetupColors c)) = zone_offset (zones c) (length (zones c)) \<and>
    concat (map (\<lambda>i. zone_slice i (SetupColors c)) [0..<length (zones c)]) = colors (SetupColors c) \<and>
    take (length (colors c)) (colors (SetupColors c)) = take (length (colors (SetupColors c))) (colors c)"
proof -
  have lo: "layout_ok (SetupColors c)" by (rule layout_ok_SetupColors [OF assms])
  then have len: "length (colors (SetupColors c)) = zone_offset (zones c) (length (zones c))"
    unfolding layout_ok_def by simp
  have "concat (map (\<lambda>i. zone_slice i (SetupColors c)) [0..<length (zones c)]) = colors (SetupColors c)"
    using concat_zone_slices [of "length (zones c)" "SetupColors c"] len by simp
  then show ?thesis using lo len SetupColors_keeps_prefix by blast
qed

theorem SetupColors_partitions_witness:
  "layout_ok (SetupColors (empty_device\<lparr>zones := sample_zones, colors := [4]\<rparr>)) \<and>
    length (colors (SetupColors (empty_device\<lparr>zones := sample_zones, colors := [4]\<rparr>)))
      = zone_offset (zones (empty_device\<lparr>zones := sample_zones, colors := [4]\<rparr>))
          (length (zones (empty_device\<lparr>zones := sample_zones, colors := [4]\<rparr>))) \<and>
    concat (map (\<lambda>i. zone_slice i (SetupColors (empty_device\<lparr>zones := sample_zones, colors := [4]\<rparr>)))
      [0..<length (zones (empty_device\<lparr>zones := sample_zones, colors := [4]\<rparr>))])
      = colors (SetupColors (empty_device\<lparr>zones := sample_zones, colors := [4]\<rparr>)) \<and>
    take (length (colors (empty_device\<lparr>zones := sample_zones, colors := [4]\<rparr>)))
      (colors (SetupColors (empty_device\<lparr>zones := sample_zones, colors := [4]\<rparr>)))
      = take (length (colors (SetupColors (empty_device\<lparr>zones := sample_zones, colors := [4]\<rparr>))))
          (colors (empty_device\<lparr>zones := sample_zones, colors := [4]\<rparr>))"
  by (rule SetupColors_partitions) (simp add: sample_defs zone_offset_def)

text \<open>On a laid-out device \<open>SetAllLEDs\<close> is defined and gives every LED of the device the color, and
  changes nothing else.\<close>

theorem SetAllLEDs_sets_all:
  assumes "layout_ok c" "length (zones c) < 2 ^ 32"
  shows "SetAllLEDs col c = Some (c\<lparr>colors := replicate (length (colors c)) col\<rparr>)"
  using SetAllLEDs_prefix [OF assms(1) le_refl assms(2), of col] assms
  by (simp add: SetAllLEDs_def layout_ok_def)

theorem SetAllLEDs_sets_all_witness:
  "SetAllLEDs 255 sample_device = Some (sample_device\<lparr>colors := replicate (length (colors sample_device)) 255\<rparr>)"
  by (rule SetAllLEDs_sets_all [OF sample_layout]) (simp add: sample_defs)

section \<open>Selecting the per-LED mode\<close>

lemma first_index_Some:
  "first_index P k xs = Some i \<Longrightarrow> k \<le> i \<and> i < k + length xs \<and> P (xs ! (i - k)) \<and> (\<forall>j < i - k. \<not> P (xs ! j))"
proof (induction xs arbitrary: k)
  case (Cons x xs)
  show ?case
  proof (cases "P x")
    case True
    with Cons.prems show ?thesis by auto
  next
    case False
    with Cons.IH [of "Suc k"] Cons.prems
    have IH: "Suc k \<le> i" "i < Suc k + length xs" "P (xs ! (i - Suc k))" "\<forall>j < i - Suc k. \<not> P (xs ! j)"
      by auto
    have "\<not> P ((x # xs) ! j)" if "j < i - k" for j
      using that IH False by (cases j) auto
    with IH show ?thesis by (auto simp: nth_Cons')
  qed
qed simp

lemma first_index_None: "first_index P k xs = None \<longleftrightarrow> (\<forall>x \<in> set xs. \<not> P x)"
  by (induction xs arbitrary: k) auto

definition best_custom_mode :: "cstring list \<Rightarrow> mode list \<Rightarrow> nat \<Rightarrow> nat \<Rightarrow> bool" where
  "best_custom_mode nms ms k i \<longleftrightarrow> k < length nms \<and> i < length ms \<and> is_custom_mode (nms ! k) (ms ! i) \<and>
     (\<forall>k' < k. \<forall>m \<in> set ms. \<not> is_custom_mode (nms ! k') m) \<and>
     (\<forall>j < i. \<not> is_custom_mode (nms ! k) (ms ! j))"


definition no_custom_mode :: "cstring list \<Rightarrow> mode list \<Rightarrow> bool" where
  "no_custom_mode nms ms \<longleftrightarrow> (\<forall>nm \<in> set nms. \<forall>m \<in> set ms. \<not> is_custom_mode nm m)"

lemma search_custom_mode_Some:
  "search_custom_mode nms ms = Some i \<Longrightarrow> \<exists>k. best_custom_mode nms ms k i"
proof (induction nms)
  case (Cons nm nms)
  show ?case
  proof (cases "first_index (is_custom_mode nm) 0 ms")
    case None
    then have no: "\<forall>m \<in> set ms. \<not> is_custom_mode nm m" by (simp add: first_index_None)
    from Cons None obtain k where k: "best_custom_mode nms ms k i" by auto
    have "\<not> is_custom_mode ((nm # nms) ! k') m" if "k' < Suc k" "m \<in> set ms" for k' m
      using that no k by (cases k') (auto simp: best_custom_mode_def)
    with k have "best_custom_mode (nm # nms) ms (Suc k) i" by (simp add: best_custom_mode_def)
    then show ?thesis ..
  next
    case (Some j)
    with Cons.prems have "j = i" by simp
    with first_index_Some [OF Some] have "best_custom_mode (nm # nms) ms 0 i" by (simp add: best_custom_mode_def)
    then show ?thesis ..
  qed
qed simp

lemma search_custom_mode_None: "search_custom_mode nms ms = None \<longleftrightarrow> no_custom_mode nms ms"
proof (induction nms)
  case (Cons nm nms)
  show ?case
  proof (cases "first_index (is_custom_mode nm) 0 ms")
    case None
    then have "\<forall>m \<in> set ms. \<not> is_custom_mode nm m" by (simp add: first_index_None)
    with Cons show ?thesis by (simp add: None no_custom_mode_def)
  next
    case (Some i)
    then have "\<exists>m \<in> set ms. is_custom_mode nm m" using first_index_None [of "is_custom_mode nm" 0 ms] by auto
    with Some show ?thesis by (auto simp: no_custom_mode_def)
  qed
qed (simp add: no_custom_mode_def)

text \<open>\<open>SetCustomMode\<close> activates the first mode with the best-ranked name (\<open>Direct\<close>, then \<open>Custom\<close>, then
  \<open>Static\<close>) whose colors are per LED or mode specific, and leaves the device alone when there is none.\<close>

theorem SetCustomMode_best:
  "(\<exists>k i. best_custom_mode custom_mode_names (modes c) k i \<and> SetCustomMode c = c\<lparr>active_mode := of_nat i\<rparr>) \<or>
   (no_custom_mode custom_mode_names (modes c) \<and> SetCustomMode c = c)"
proof (cases "search_custom_mode custom_mode_names (modes c)")
  case None
  then have "SetCustomMode c = c" by (simp add: SetCustomMode_def)
  with None show ?thesis by (simp add: search_custom_mode_None)
next
  case (Some i)
  with search_custom_mode_Some [OF Some] show ?thesis by (auto simp: SetCustomMode_def)
qed

section \<open>Colors\<close>

lemma color_masks:
  "(0xFF :: u32) = mask 8" "(0xFF00 :: u32) = push_bit 8 (mask 8)" "(0xFF0000 :: u32) = push_bit 16 (mask 8)"
  by (simp_all add: mask_eq_exp_minus_1 push_bit_eq_mult)

lemma bit_less_256:
  fixes x :: u32
  assumes "x < 256" "bit x n"
  shows "n < 8"
proof -
  have "take_bit 8 (unat x) = unat x"
    using assms(1) by (simp add: take_bit_nat_eq_self_iff word_less_nat_alt)
  moreover have "bit (unat x) n" using assms(2) by (simp add: bit_unsigned_iff bit_imp_le_length)
  ultimately show ?thesis by (metis bit_take_bit_iff)
qed

lemma bit_ToRGBColor:
  assumes "r < 256" "g < 256" "b < 256"
  shows "bit (ToRGBColor r g b) n \<longleftrightarrow>
    n < 8 \<and> bit r n \<or> 8 \<le> n \<and> n < 16 \<and> bit g (n - 8) \<or> 16 \<le> n \<and> n < 24 \<and> bit b (n - 16)"
  using bit_less_256 [OF assms(1), of n] bit_less_256 [OF assms(2), of "n - 8"]
    bit_less_256 [OF assms(3), of "n - 16"] bit_imp_le_length [of r n]
  by (auto simp: ToRGBColor_def bit_simps)

lemma bit_components:
  "bit (RGBGetRValue c) n \<longleftrightarrow> n < 8 \<and> bit c n"
  "bit (RGBGetGValue c) n \<longleftrightarrow> n < 8 \<and> bit c (n + 8)"
  "bit (RGBGetBValue c) n \<longleftrightarrow> n < 8 \<and> bit c (n + 16)"
  by (auto simp: RGBGetRValue_def RGBGetGValue_def RGBGetBValue_def color_masks bit_simps add.commute
      dest: bit_imp_le_length)

lemma bit_RGBToBGRColor:
  "bit (RGBToBGRColor c) n \<longleftrightarrow>
    n < 8 \<and> bit c (n + 16) \<or> 8 \<le> n \<and> n < 16 \<and> bit c n \<or> 16 \<le> n \<and> n < 24 \<and> bit c (n - 16)"
  unfolding RGBToBGRColor_def color_masks
  by (simp add: bit_simps add.commute) (auto dest: bit_imp_le_length)

text \<open>A color built from three components below 256 gives each of them back, and \<open>RGBToBGRColor\<close> is the
  color with red and blue exchanged.\<close>

theorem color_components:
  assumes "r < 256" "g < 256" "b < 256"
  shows "RGBGetRValue (ToRGBColor r g b) = r \<and> RGBGetGValue (ToRGBColor r g b) = g \<and>
    RGBGetBValue (ToRGBColor r g b) = b \<and> RGBToBGRColor (ToRGBColor r g b) = ToRGBColor b g r"
proof (intro conjI bit_word_eqI)
  fix n
  note bits = bit_less_256 [OF assms(1), of n] bit_less_256 [OF assms(2), of n] bit_less_256 [OF assms(3), of n]
  show "bit (RGBGetRValue (ToRGBColor r g b)) n = bit r n"
    using bits by (auto simp: bit_components bit_ToRGBColor [OF assms])
  show "bit (RGBGetGValue (ToRGBColor r g b)) n = bit g n"
    using bits by (auto simp: bit_components bit_ToRGBColor [OF assms])
  show "bit (RGBGetBValue (ToRGBColor r g b)) n = bit b n"
    using bits by (auto simp: bit_components bit_ToRGBColor [OF assms])
  show "bit (RGBToBGRColor (ToRGBColor r g b)) n = bit (ToRGBColor b g r) n"
    unfolding bit_RGBToBGRColor bit_ToRGBColor [OF assms] bit_ToRGBColor [OF assms(3,2,1)]
    using bits by auto
qed

theorem color_components_witness:
  "RGBGetRValue (ToRGBColor 1 2 255) = 1 \<and> RGBGetGValue (ToRGBColor 1 2 255) = 2 \<and>
    RGBGetBValue (ToRGBColor 1 2 255) = 255 \<and> RGBToBGRColor (ToRGBColor 1 2 255) = ToRGBColor 255 2 1"
  by (rule color_components) simp_all

section \<open>Names longer than the length field\<close>

lemma unat_name_len_mod: "unat (name_len s) = (length (c_str s) + 1) mod 65536"
proof -
  have "name_len s = of_nat (length (c_str s) + 1)" by (simp add: name_len_def)
  then show ?thesis by (simp only: unat_of_nat) simp
qed

lemma mode_desc_size_le:
  assumes "mode_colors m = []"
  shows "unat (mode_desc_size pv m) \<le> unat (name_len (mode_name m)) + 64"
proof -
  define n where "n = (ucast (name_len (mode_name m)) :: u32)"
  have n: "unat n = unat (name_len (mode_name m))" "unat n < 65536"
    using unsigned_less [of "name_len (mode_name m)"] by (simp_all add: n_def unat_ucast_up)
  have add: "unat (n + k) = unat n + unat k" if "unat k < 65536" for k
    using n that by (intro unat_add_no_wrap) simp
  have "mode_desc_size pv m = n + (if pv \<ge> 3 then 64 else 52) \<or> mode_desc_size pv m = n + (if pv \<ge> 3 then 60 else 48)
    \<or> mode_desc_size pv m = n + (if pv \<ge> 3 then 62 else 50)"
    by (simp add: mode_desc_size_def mode_size_def n_def assms count16_def)
  then show ?thesis using n by (auto simp: add split: if_splits)
qed

lemma blit_length: "blit buf i bs = Some b \<Longrightarrow> length b = length buf"
  by (auto simp: blit_def split: if_splits)

lemma exec_write_Memcpy_None_or:
  "exec_write (Memcpy bs) (buf, p) = None \<or>
   (\<exists>b. exec_write (Memcpy bs) (buf, p) = Some (b, p + of_nat (length bs)) \<and> length b = length buf)"
  by (auto simp: blit_def)

lemma exec_writes_overflow:
  assumes "list_all (\<lambda>w. \<exists>bs. w = Memcpy bs) ws" "length buf < k + length (wimage ws) + length (c_str s) + 1"
    and "unat p = k" "k + length (wimage ws) < 2 ^ 32"
  shows "exec_writes (ws @ Strcpy s n # vs) (buf, p) = None"
  using assms
proof (induction ws arbitrary: buf p k)
  case Nil
  then show ?case by (auto simp: blit_def)
next
  case (Cons w ws)
  then obtain bs where w: "w = Memcpy bs" by auto
  have p: "unat (p + of_nat (length bs)) = k + length bs"
    using Cons.prems w by (subst unat_add_no_wrap) auto
  show ?case
  proof (cases "blit buf (unat p) bs")
    case None
    then show ?thesis by (simp add: w)
  next
    case (Some b)
    have "exec_writes (ws @ Strcpy s n # vs) (b, p + of_nat (length bs)) = None"
      using Cons.prems w blit_length [OF Some] by (intro Cons.IH [OF _ _ p]) auto
    with Some show ?thesis by (simp add: w)
  qed
qed

text \<open>Nothing bounds the name of a mode: the length field wraps at 16 bits while \<open>strcpy\<close> copies the whole
  name, so a name of 65535 bytes or more overruns the buffer that was sized from the field.\<close>

theorem long_mode_name_overflows:
  assumes "i < length (modes c)" "i < 2 ^ 31" "mode_colors (modes c ! i) = []"
    and "65535 \<le> length (c_str (mode_name (modes c ! i)))"
  shows "GetModeDescription junk (of_nat i) pv c = None"
proof -
  define m where "m = modes c ! i"
  have r: "n mod 65536 + 65536 \<le> n" if "65536 \<le> n" for n :: nat
    using that by (simp add: le_mod_geq)
  have "unat (mode_desc_size pv m) < 10 + length (c_str (mode_name m)) + 1"
    using mode_desc_size_le [of m pv] assms(3,4) r [of "length (c_str (mode_name m)) + 1"]
    by (simp add: m_def unat_name_len_mod)
  then have "exec_writes ([put_u32 (mode_desc_size pv m), put_u32 (of_nat i), Memcpy (le_bytes 2 (name_len (mode_name m)))]
      @ Strcpy (mode_name m) (name_len (mode_name m)) # vs) (new_buf junk (mode_desc_size pv m), 0) = None" for vs
    by (intro exec_writes_overflow [where k = 0]) (simp_all add: put_u32_def)
  then have "exec_writes ([put_u32 (mode_desc_size pv m), put_u32 (of_nat i)] @ mode_writes pv m)
      (new_buf junk (mode_desc_size pv m), 0) = None"
    unfolding mode_writes_def string_writes_def by simp
  then show ?thesis
    using assms(1,2) by (simp add: GetModeDescription_def nth_def_def m_def run_writer_def)
qed

theorem long_mode_name_overflows_witness:
  "GetModeDescription (\<lambda>_. 0) (of_nat 0) 5 (empty_device\<lparr>modes := [new_mode\<lparr>mode_name := replicate 65535 65\<rparr>]\<rparr>) = None"
  by (rule long_mode_name_overflows) (simp_all add: empty_device_def new_mode_def c_str_def)
end
