(* ===== verification/Rgb_Thread.thy ===== *)
theory Rgb_Thread
  imports Rgb_Controller
begin

text \<open>
  The concurrent part of \<open>RGBController\<close>: the update thread every device runs
  (\<open>DeviceCallThreadFunction\<close>), the requests other threads make through the two atomic flags
  (\<open>UpdateLEDs\<close>, \<open>UpdateMode\<close>), the double-checked initialisation (\<open>EnsureInitializedForControl\<close>),
  and the update callbacks. A schedule is a list of actions: one atomic access of the update thread, or
  one operation of another thread.
\<close>

section \<open>Requests\<close>

text \<open>
  One flag and the data it announces. The data (the color buffer, or the active mode) is represented by
  its version: \<open>current\<close> counts the writes, \<open>wanted\<close> is the version of the last request and \<open>shown\<close> the
  version the device was last given.
\<close>

record channel =
  call_flag :: bool
  current :: nat
  wanted :: nat
  shown :: nat

definition ch_write :: "channel \<Rightarrow> channel" where
  "ch_write ch = ch\<lparr>current := Suc (current ch)\<rparr>"

definition ch_request :: "channel \<Rightarrow> channel" where
  "ch_request ch = ch\<lparr>call_flag := True, wanted := current ch\<rparr>"

definition ch_clear :: "channel \<Rightarrow> channel" where
  "ch_clear ch = ch\<lparr>call_flag := False\<rparr>"

definition ch_send :: "channel \<Rightarrow> channel" where
  "ch_send ch = ch\<lparr>shown := current ch\<rparr>"

section \<open>The update thread\<close>

datatype pc = Start_leds | Start_mode | Test_running
  | Test_mode | Mode_clear_first | Mode_init | Mode_send | Mode_clear_last
  | Test_leds | Leds_clear_first | Leds_init | Leds_send | Leds_clear_last
  | Sleeping | Exited

record device =
  mode_ch :: channel
  led_ch :: channel
  running :: bool
  initialized :: bool
  init_runs :: nat
  at_pc :: pc

text \<open>
  One access of \<open>DeviceCallThreadFunction\<close>; \<open>r\<close> is \<open>flags & CONTROLLER_FLAG_RESET_BEFORE_UPDATE\<close>. The
  call of \<open>EnsureInitializedForControl\<close> is one step here; its own accesses are modelled below.
\<close>

definition ensure_initialized :: "device \<Rightarrow> device" where
  "ensure_initialized d = (if initialized d then d else d\<lparr>initialized := True, init_runs := Suc (init_runs d)\<rparr>)"

fun thread_at :: "bool \<Rightarrow> pc \<Rightarrow> device \<Rightarrow> device" where
  "thread_at r Start_leds d = d\<lparr>led_ch := ch_clear (led_ch d), at_pc := Start_mode\<rparr>"
| "thread_at r Start_mode d = d\<lparr>mode_ch := ch_clear (mode_ch d), at_pc := Test_running\<rparr>"
| "thread_at r Test_running d = d\<lparr>at_pc := (if running d then Test_mode else Exited)\<rparr>"
| "thread_at r Test_mode d = d\<lparr>at_pc := (if call_flag (mode_ch d)
     then (if r then Mode_clear_first else Mode_init) else Test_leds)\<rparr>"
| "thread_at r Mode_clear_first d = d\<lparr>mode_ch := ch_clear (mode_ch d), at_pc := Mode_init\<rparr>"
| "thread_at r Mode_init d = (ensure_initialized d)\<lparr>at_pc := Mode_send\<rparr>"
| "thread_at r Mode_send d = d\<lparr>mode_ch := ch_send (mode_ch d), at_pc := (if r then Test_leds else Mode_clear_last)\<rparr>"
| "thread_at r Mode_clear_last d = d\<lparr>mode_ch := ch_clear (mode_ch d), at_pc := Test_leds\<rparr>"
| "thread_at r Test_leds d = d\<lparr>at_pc := (if call_flag (led_ch d)
     then (if r then Leds_clear_first else Leds_init) else Sleeping)\<rparr>"
| "thread_at r Leds_clear_first d = d\<lparr>led_ch := ch_clear (led_ch d), at_pc := Leds_init\<rparr>"
| "thread_at r Leds_init d = (ensure_initialized d)\<lparr>at_pc := Leds_send\<rparr>"
| "thread_at r Leds_send d = d\<lparr>led_ch := ch_send (led_ch d), at_pc := (if r then Test_running else Leds_clear_last)\<rparr>"
| "thread_at r Leds_clear_last d = d\<lparr>led_ch := ch_clear (led_ch d), at_pc := Test_running\<rparr>"
| "thread_at r Sleeping d = d\<lparr>at_pc := Test_running\<rparr>"
| "thread_at r Exited d = d"

definition thread_step :: "bool \<Rightarrow> device \<Rightarrow> device" where
  "thread_step r d = thread_at r (at_pc d) d"

text \<open>What the other threads do: write colors, \<open>UpdateLEDs\<close>, change the mode, \<open>UpdateMode\<close>,
  \<open>ResetDeviceInitialization\<close>, and the destructor's \<open>DeviceThreadRunning = false\<close>.\<close>

datatype action = Thread | Write_colors | UpdateLEDs | Write_mode | UpdateMode | ResetInit | Stop

fun act :: "bool \<Rightarrow> action \<Rightarrow> device \<Rightarrow> device" where
  "act r Thread d = thread_step r d"
| "act r Write_colors d = d\<lparr>led_ch := ch_write (led_ch d)\<rparr>"
| "act r UpdateLEDs d = d\<lparr>led_ch := ch_request (led_ch d)\<rparr>"
| "act r Write_mode d = d\<lparr>mode_ch := ch_write (mode_ch d)\<rparr>"
| "act r UpdateMode d = d\<lparr>mode_ch := ch_request (mode_ch d)\<rparr>"
| "act r ResetInit d = d\<lparr>initialized := False\<rparr>"
| "act r Stop d = d\<lparr>running := False\<rparr>"

definition run_schedule :: "bool \<Rightarrow> action list \<Rightarrow> device \<Rightarrow> device" where
  "run_schedule r as d = fold (act r) as d"

definition new_channel :: channel where
  "new_channel = \<lparr>call_flag = False, current = 0, wanted = 0, shown = 0\<rparr>"

text \<open>The constructor starts the thread; the two flags hold whatever they held. The thread first clears
  both, and with them every request made until then.\<close>

definition constructed :: "bool \<Rightarrow> bool \<Rightarrow> device" where
  "constructed f g = \<lparr>mode_ch = new_channel\<lparr>call_flag := f\<rparr>, led_ch = new_channel\<lparr>call_flag := g\<rparr>,
     running = True, initialized = False, init_runs = 0, at_pc = Start_leds\<rparr>"

definition started :: device where
  "started = \<lparr>mode_ch = new_channel, led_ch = new_channel,
     running = True, initialized = False, init_runs = 0, at_pc = Test_running\<rparr>"

lemma started_constructed: "run_schedule r [Thread, Thread] (constructed f g) = started"
  by (simp add: run_schedule_def thread_step_def constructed_def started_def ch_clear_def new_channel_def)

text \<open>\<open>SetMode\<close> writes the mode and requests the update; a client that shows new colors writes them first.\<close>

definition SetMode :: "action list" where
  "SetMode = [Write_mode, UpdateMode]"

section \<open>Reachable states\<close>

text \<open>From the constructor on, with any schedule.\<close>

inductive reachable :: "bool \<Rightarrow> device \<Rightarrow> bool" for r where
  start: "reachable r (constructed f g)"
| step: "reachable r d \<Longrightarrow> reachable r (act r a d)"

lemma reachable_run: "reachable r d \<Longrightarrow> reachable r (run_schedule r as d)"
  unfolding run_schedule_def by (induction as arbitrary: d) (auto intro: reachable.step)

lemma reachable_thread: "reachable r d \<Longrightarrow> reachable r (thread_step r d)"
  using reachable.step [of r d Thread] by simp

subsection \<open>No request is lost when the flag is reset before the update\<close>

text \<open>The request for version \<open>v\<close> is served, or pending: the flag is up, or the thread is between the reset
  and the update.\<close>

definition ch_versions :: "nat \<Rightarrow> channel \<Rightarrow> bool" where
  "ch_versions v ch \<longleftrightarrow> v \<le> current ch \<and> shown ch \<le> current ch"

definition ch_served :: "nat \<Rightarrow> bool \<Rightarrow> channel \<Rightarrow> bool" where
  "ch_served v busy ch \<longleftrightarrow> ch_versions v ch \<and> (v \<le> shown ch \<or> call_flag ch \<or> busy)"

named_theorems ch_simps \<open>operations and invariants of a channel\<close>

lemmas [ch_simps] = ch_write_def ch_request_def ch_clear_def ch_send_def ch_versions_def ch_served_def new_channel_def

lemma ch_served_ops [intro]:
  "ch_served v b ch \<Longrightarrow> ch_served v b (ch_write ch)"
  "ch_served v b ch \<Longrightarrow> ch_served v b (ch_request ch)"
  "ch_served v b ch \<Longrightarrow> ch_served v True (ch_clear ch)"
  "ch_served v b ch \<Longrightarrow> ch_served v b' (ch_send ch)"
  by (auto simp: ch_simps)

text \<open>\<open>u\<close> is the version requested of the mode, \<open>v\<close> that of the LEDs; 0 stands for no request.\<close>

definition thread_inv :: "nat \<Rightarrow> nat \<Rightarrow> device \<Rightarrow> bool" where
  "thread_inv u v d \<longleftrightarrow> ch_served u (at_pc d \<in> {Mode_init, Mode_send}) (mode_ch d) \<and>
     ch_served v (at_pc d \<in> {Leds_init, Leds_send}) (led_ch d) \<and>
     at_pc d \<notin> {Start_leds, Start_mode, Mode_clear_last, Leds_clear_last}"

lemma ensure_initialized_simps [simp]:
  "mode_ch (ensure_initialized d) = mode_ch d" "led_ch (ensure_initialized d) = led_ch d"
  "running (ensure_initialized d) = running d" "at_pc (ensure_initialized d) = at_pc d"
  by (simp_all add: ensure_initialized_def)

lemma thread_inv_thread: "thread_inv u v d \<Longrightarrow> thread_inv u v (thread_step True d)"
  by (cases "at_pc d") (auto simp: thread_inv_def thread_step_def ch_simps)

lemma thread_inv_act: "thread_inv u v d \<Longrightarrow> thread_inv u v (act True a d)"
  by (cases a) (auto simp: thread_inv_thread, auto simp: thread_inv_def)

lemma thread_inv_run: "thread_inv u v d \<Longrightarrow> thread_inv u v (run_schedule True as d)"
  unfolding run_schedule_def by (induction as arbitrary: d) (auto intro: thread_inv_act)

lemma starting_thread:
  "at_pc d \<in> {Start_leds, Start_mode} \<Longrightarrow> ch_versions 0 (mode_ch d) \<Longrightarrow> ch_versions 0 (led_ch d) \<Longrightarrow>
    ch_versions 0 (mode_ch (act True a d)) \<and> ch_versions 0 (led_ch (act True a d)) \<and>
    (at_pc (act True a d) \<in> {Start_leds, Start_mode} \<or> thread_inv 0 0 (act True a d))"
  by (cases a) (auto simp: thread_step_def thread_inv_def ch_simps)

lemma reachable_versions:
  "reachable True d \<Longrightarrow> (at_pc d \<in> {Start_leds, Start_mode} \<and> ch_versions 0 (mode_ch d) \<and> ch_versions 0 (led_ch d)) \<or>
    thread_inv 0 0 d"
proof (induction rule: reachable.induct)
  case (start f g)
  show ?case by (simp add: constructed_def ch_simps)
next
  case (step d a)
  then show ?case using starting_thread [of d a] thread_inv_act [of 0 0 d a] by blast
qed

text \<open>The thread has started when it has cleared both flags.\<close>

definition has_started :: "device \<Rightarrow> bool" where
  "has_started d \<longleftrightarrow> at_pc d \<notin> {Start_leds, Start_mode}"

lemma leds_requested:
  "reachable True d \<Longrightarrow> has_started d \<Longrightarrow> thread_inv 0 (current (led_ch d)) (act True UpdateLEDs d)"
  using reachable_versions [of d] by (auto simp: has_started_def thread_inv_def ch_simps)

lemma mode_requested:
  "reachable True d \<Longrightarrow> has_started d \<Longrightarrow> thread_inv (current (mode_ch d)) 0 (act True UpdateMode d)"
  using reachable_versions [of d] by (auto simp: has_started_def thread_inv_def ch_simps)

text \<open>C18: on a device with \<open>CONTROLLER_FLAG_RESET_BEFORE_UPDATE\<close> whose update thread has cleared its two flags, a request for
  an update of the LEDs or of the mode is never lost: whatever the threads do afterwards, the device has been shown what was
  requested or something newer, or the request is still announced by its flag, or the thread has taken it and is about to
  update the device.\<close>

theorem no_request_lost:
  assumes "reachable True d" "has_started d"
  shows "(let d' = run_schedule True as (act True UpdateLEDs d) in
      current (led_ch d) \<le> shown (led_ch d') \<or> call_flag (led_ch d') \<or> at_pc d' \<in> {Leds_init, Leds_send}) \<and>
    (let d' = run_schedule True as (act True UpdateMode d) in
      current (mode_ch d) \<le> shown (mode_ch d') \<or> call_flag (mode_ch d') \<or> at_pc d' \<in> {Mode_init, Mode_send})"
  using thread_inv_run [OF leds_requested [OF assms], of as] thread_inv_run [OF mode_requested [OF assms], of as]
  by (simp add: Let_def thread_inv_def ch_served_def)

text \<open>A device whose colors are written twice while its thread runs, and two requests.\<close>

definition busy_device :: device where
  "busy_device = run_schedule True [Thread, UpdateLEDs, Thread, Write_colors, UpdateLEDs, Thread, Thread, Write_colors, Write_mode]
     (constructed True False)"

lemma busy_device_reachable: "reachable True busy_device" "has_started busy_device"
  unfolding busy_device_def by (rule reachable_run [OF reachable.start])
    (simp add: run_schedule_def thread_step_def constructed_def has_started_def ch_simps)

theorem no_request_lost_witness:
  "(let d' = run_schedule True [Thread, Write_colors, Thread] (act True UpdateLEDs busy_device) in
      current (led_ch busy_device) \<le> shown (led_ch d') \<or> call_flag (led_ch d') \<or> at_pc d' \<in> {Leds_init, Leds_send}) \<and>
    (let d' = run_schedule True [Thread, Write_colors, Thread] (act True UpdateMode busy_device) in
      current (mode_ch busy_device) \<le> shown (mode_ch d') \<or> call_flag (mode_ch d') \<or> at_pc d' \<in> {Mode_init, Mode_send})"
  by (rule no_request_lost [OF busy_device_reachable])

subsection \<open>Every request is served\<close>

text \<open>The thread alone reaches, within \<open>n\<close> accesses, a state in which version \<open>v\<close> of the colors has been shown.\<close>

fun shows_leds_within :: "nat \<Rightarrow> nat \<Rightarrow> device \<Rightarrow> bool" where
  "shows_leds_within v 0 d = (v \<le> shown (led_ch d))"
| "shows_leds_within v (Suc n) d = (v \<le> shown (led_ch d) \<or> shows_leds_within v n (thread_step True d))"

lemma shows_leds_mono: "shows_leds_within v m d \<Longrightarrow> m \<le> n \<Longrightarrow> shows_leds_within v n d"
proof (induction n arbitrary: m d)
  case (Suc n)
  then show ?case by (cases m) auto
qed simp

lemma shows_leds_step: "shows_leds_within v m (thread_step True d) \<Longrightarrow> m < n \<Longrightarrow> shows_leds_within v n d"
  by (cases n) (auto intro: shows_leds_mono)

lemma thread_step_keeps:
  "running (thread_step r d) = running d"
  by (cases "at_pc d"; simp add: thread_step_def ch_simps)

lemma next_pc:
  "at_pc d = Leds_init \<Longrightarrow> at_pc (thread_step r d) = Leds_send"
  "at_pc d = Leds_clear_first \<Longrightarrow> at_pc (thread_step r d) = Leds_init"
  "at_pc d = Mode_send \<Longrightarrow> at_pc (thread_step True d) = Test_leds"
  "at_pc d = Mode_init \<Longrightarrow> at_pc (thread_step r d) = Mode_send"
  "at_pc d = Mode_clear_first \<Longrightarrow> at_pc (thread_step r d) = Mode_init"
  "at_pc d = Test_running \<Longrightarrow> running d \<Longrightarrow> at_pc (thread_step r d) = Test_mode"
  "at_pc d = Sleeping \<Longrightarrow> at_pc (thread_step r d) = Test_running"
  by (simp_all add: thread_step_def)

lemma next_pc_flag:
  "at_pc d = Test_leds \<Longrightarrow> call_flag (led_ch d) \<Longrightarrow> at_pc (thread_step True d) = Leds_clear_first"
  "at_pc d = Test_mode \<Longrightarrow> at_pc (thread_step True d) = (if call_flag (mode_ch d) then Mode_clear_first else Test_leds)"
  by (simp_all add: thread_step_def)

lemma leds_send_shows:
  assumes "at_pc d = Leds_send" "thread_inv u v d" shows "shows_leds_within v 1 d"
proof -
  have "shows_leds_within v 0 (thread_step True d)"
    using assms by (simp add: thread_inv_def thread_step_def ch_simps)
  then show ?thesis by (rule shows_leds_step) simp
qed

lemma shows_leds_1: "at_pc d = Leds_init \<Longrightarrow> thread_inv u v d \<Longrightarrow> shows_leds_within v 2 d"
  by (rule shows_leds_step [OF leds_send_shows [OF next_pc(1) thread_inv_thread]]) simp_all

lemma shows_leds_2: "at_pc d = Leds_clear_first \<Longrightarrow> thread_inv u v d \<Longrightarrow> shows_leds_within v 3 d"
  by (rule shows_leds_step [OF shows_leds_1 [OF next_pc(2) thread_inv_thread]]) simp_all

lemma shows_leds_3:
  assumes "at_pc d = Test_leds" "thread_inv u v d" shows "shows_leds_within v 4 d"
proof (cases "call_flag (led_ch d) \<or> v \<le> shown (led_ch d)")
  case True
  then show ?thesis
    using shows_leds_step [OF shows_leds_2 [OF next_pc_flag(1) [OF assms(1)] thread_inv_thread [OF assms(2)]], of 4]
      shows_leds_mono [of v 0 d 4] by auto
next
  case False
  then show ?thesis using assms by (simp add: thread_inv_def ch_served_def)
qed

lemma shows_leds_4: "at_pc d = Mode_send \<Longrightarrow> thread_inv u v d \<Longrightarrow> shows_leds_within v 5 d"
  by (rule shows_leds_step [OF shows_leds_3 [OF next_pc(3) thread_inv_thread]]) simp_all

lemma shows_leds_5: "at_pc d = Mode_init \<Longrightarrow> thread_inv u v d \<Longrightarrow> shows_leds_within v 6 d"
  by (rule shows_leds_step [OF shows_leds_4 [OF next_pc(4) thread_inv_thread]]) simp_all

lemma shows_leds_6: "at_pc d = Mode_clear_first \<Longrightarrow> thread_inv u v d \<Longrightarrow> shows_leds_within v 7 d"
  by (rule shows_leds_step [OF shows_leds_5 [OF next_pc(5) thread_inv_thread]]) simp_all

lemma shows_leds_7:
  assumes "at_pc d = Test_mode" "thread_inv u v d" shows "shows_leds_within v 8 d"
proof (cases "call_flag (mode_ch d)")
  case True
  then have "at_pc (thread_step True d) = Mode_clear_first" using next_pc_flag(2) [OF assms(1)] by simp
  from shows_leds_6 [OF this thread_inv_thread [OF assms(2)]] show ?thesis by (rule shows_leds_step) simp
next
  case False
  then have "at_pc (thread_step True d) = Test_leds" using next_pc_flag(2) [OF assms(1)] by simp
  from shows_leds_3 [OF this thread_inv_thread [OF assms(2)]] show ?thesis by (rule shows_leds_step) simp
qed

lemma shows_leds_8: "at_pc d = Test_running \<Longrightarrow> running d \<Longrightarrow> thread_inv u v d \<Longrightarrow> shows_leds_within v 9 d"
  by (rule shows_leds_step [OF shows_leds_7 [OF next_pc(6) thread_inv_thread]]) simp_all

lemma shows_leds_9: "at_pc d = Sleeping \<Longrightarrow> running d \<Longrightarrow> thread_inv u v d \<Longrightarrow> shows_leds_within v 10 d"
  by (rule shows_leds_step [OF shows_leds_8 [OF next_pc(7) _ thread_inv_thread]]) (simp_all add: thread_step_keeps)

lemma shows_leds_anywhere:
  assumes inv: "thread_inv u v d" and run: "running d" and "at_pc d \<noteq> Exited"
  shows "shows_leds_within v 10 d"
proof -
  have ten: "shows_leds_within v m d \<Longrightarrow> m \<le> 10 \<Longrightarrow> shows_leds_within v 10 d" for m
    by (rule shows_leds_mono)
  show ?thesis
  proof (cases "at_pc d")
    case Leds_send
    show ?thesis by (rule ten [OF leds_send_shows [OF Leds_send inv]]) simp
  next
    case Leds_init
    show ?thesis by (rule ten [OF shows_leds_1 [OF Leds_init inv]]) simp
  next
    case Leds_clear_first
    show ?thesis by (rule ten [OF shows_leds_2 [OF Leds_clear_first inv]]) simp
  next
    case Test_leds
    show ?thesis by (rule ten [OF shows_leds_3 [OF Test_leds inv]]) simp
  next
    case Mode_send
    show ?thesis by (rule ten [OF shows_leds_4 [OF Mode_send inv]]) simp
  next
    case Mode_init
    show ?thesis by (rule ten [OF shows_leds_5 [OF Mode_init inv]]) simp
  next
    case Mode_clear_first
    show ?thesis by (rule ten [OF shows_leds_6 [OF Mode_clear_first inv]]) simp
  next
    case Test_mode
    show ?thesis by (rule ten [OF shows_leds_7 [OF Test_mode inv]]) simp
  next
    case Test_running
    show ?thesis by (rule ten [OF shows_leds_8 [OF Test_running run inv]]) simp
  next
    case Sleeping
    show ?thesis by (rule ten [OF shows_leds_9 [OF Sleeping run inv]]) simp
  qed (use assms in \<open>simp_all add: thread_inv_def\<close>)
qed



subsection \<open>A request is lost when the flag is reset after the update\<close>

text \<open>The default, without the controller flag: a request that arrives while the device is being updated is
  wiped by the reset that follows.\<close>

definition overlapping_updates :: "action list" where
  "overlapping_updates = [Write_colors, UpdateLEDs, Thread, Thread, Thread, Thread, Thread,
     Write_colors, UpdateLEDs, Thread]"

definition idle :: "device \<Rightarrow> bool" where
  "idle d \<longleftrightarrow> \<not> call_flag (led_ch d) \<and> at_pc d \<notin> {Leds_clear_first, Leds_init, Leds_send, Leds_clear_last}"

lemma idle_thread: "idle d \<Longrightarrow> idle (thread_step False d) \<and> shown (led_ch (thread_step False d)) = shown (led_ch d)"
  by (cases "at_pc d") (auto simp: idle_def thread_step_def ch_simps)

lemma idle_threads:
  "idle d \<Longrightarrow> shown (led_ch (run_schedule False (replicate n Thread) d)) = shown (led_ch d)"
proof (induction n arbitrary: d)
  case 0
  then show ?case by (simp add: run_schedule_def)
next
  case (Suc n)
  then show ?case using idle_thread [of d] by (simp add: run_schedule_def)
qed

lemma overlapping_updates_state:
  "idle (run_schedule False overlapping_updates started) \<and>
   wanted (led_ch (run_schedule False overlapping_updates started)) = 2 \<and>
   shown (led_ch (run_schedule False overlapping_updates started)) = 1"
  by (simp add: overlapping_updates_def run_schedule_def thread_step_def started_def ch_simps idle_def
      ensure_initialized_def)

text \<open>Without \<open>CONTROLLER_FLAG_RESET_BEFORE_UPDATE\<close> there is a schedule after which the last requested
  colors have not been shown and never will be, however long the thread runs.\<close>

theorem overlapping_request_lost:
  "shown (led_ch (run_schedule False (replicate n Thread) (run_schedule False overlapping_updates started)))
     < wanted (led_ch (run_schedule False overlapping_updates started))"
  using overlapping_updates_state idle_threads [of "run_schedule False overlapping_updates started" n] by simp

text \<open>A request made between the constructor and the first accesses of the thread is wiped by the two
  resets the thread starts with, with or without the controller flag.\<close>

theorem early_request_lost:
  "let d = run_schedule r [Write_colors, UpdateLEDs, Thread, Thread] (constructed f g) in
     wanted (led_ch d) = 1 \<and> shown (led_ch d) = 0 \<and> \<not> call_flag (led_ch d) \<and> at_pc d = Test_running"
  by (simp add: Let_def run_schedule_def thread_step_def constructed_def ch_simps)

section \<open>Initialising a device once\<close>

text \<open>
  \<open>EnsureInitializedForControl\<close> by any number of threads (the update thread and the clients that save a
  mode), against \<open>ResetDeviceInitialization\<close>: the unlocked test, the lock, the second test, the
  initializer, the store and the unlock are separate accesses. \<open>runs\<close> and \<open>resets\<close> count the calls of
  \<open>DeviceInitialize\<close> and the resets.
\<close>

datatype init_pc = Outside | Wait_lock | Recheck | Initialize | Set_flag | Unlock | Returned
  | Reset_wait | Reset_flag | Reset_unlock

record init_state =
  flag :: bool
  holder :: "nat option"
  pcs :: "nat \<Rightarrow> init_pc"
  runs :: nat
  resets :: nat

definition goto :: "nat \<Rightarrow> init_pc \<Rightarrow> init_state \<Rightarrow> init_state" where
  "goto t p s = s\<lparr>pcs := (pcs s)(t := p)\<rparr>"

inductive init_step :: "init_state \<Rightarrow> init_state \<Rightarrow> bool" where
  test: "pcs s t \<in> {Outside, Returned} \<Longrightarrow> init_step s (goto t (if flag s then Returned else Wait_lock) s)"
| lock: "pcs s t = Wait_lock \<Longrightarrow> holder s = None \<Longrightarrow> init_step s (goto t Recheck s\<lparr>holder := Some t\<rparr>)"
| recheck: "pcs s t = Recheck \<Longrightarrow> init_step s (goto t (if flag s then Unlock else Initialize) s)"
| initialize: "pcs s t = Initialize \<Longrightarrow> init_step s (goto t Set_flag s\<lparr>runs := Suc (runs s)\<rparr>)"
| set_flag: "pcs s t = Set_flag \<Longrightarrow> init_step s (goto t Unlock s\<lparr>flag := True\<rparr>)"
| unlock: "pcs s t = Unlock \<Longrightarrow> init_step s (goto t Returned s\<lparr>holder := None\<rparr>)"
| reset: "pcs s t \<in> {Outside, Returned} \<Longrightarrow> init_step s (goto t Reset_wait s)"
| reset_lock: "pcs s t = Reset_wait \<Longrightarrow> holder s = None \<Longrightarrow> init_step s (goto t Reset_flag s\<lparr>holder := Some t\<rparr>)"
| reset_flag: "pcs s t = Reset_flag \<Longrightarrow>
    init_step s (goto t Reset_unlock s\<lparr>flag := False, resets := Suc (resets s)\<rparr>)"
| reset_unlock: "pcs s t = Reset_unlock \<Longrightarrow> init_step s (goto t Outside s\<lparr>holder := None\<rparr>)"

inductive_cases init_stepE: "init_step s s'"

definition init_start :: init_state where
  "init_start = \<lparr>flag = False, holder = None, pcs = (\<lambda>_. Outside), runs = 0, resets = 0\<rparr>"

inductive init_reachable :: "init_state \<Rightarrow> bool" where
  init_reachable_start: "init_reachable init_start"
| init_reachable_step: "init_reachable s \<Longrightarrow> init_step s s' \<Longrightarrow> init_reachable s'"

fun holds_lock :: "init_pc \<Rightarrow> bool" where
  "holds_lock Outside = False" | "holds_lock Wait_lock = False" | "holds_lock Returned = False"
| "holds_lock Reset_wait = False" | "holds_lock Recheck = True" | "holds_lock Initialize = True"
| "holds_lock Set_flag = True" | "holds_lock Unlock = True" | "holds_lock Reset_flag = True"
| "holds_lock Reset_unlock = True"

definition mutex_inv :: "init_state \<Rightarrow> bool" where
  "mutex_inv s \<longleftrightarrow> (\<forall>t. holds_lock (pcs s t) \<longleftrightarrow> holder s = Some t)"

lemma mutex_inv_goto:
  "mutex_inv s \<Longrightarrow> holds_lock p = holds_lock (pcs s t) \<Longrightarrow> mutex_inv (goto t p s)"
  "mutex_inv s \<Longrightarrow> holder s = None \<Longrightarrow> holds_lock p \<Longrightarrow> mutex_inv (goto t p s\<lparr>holder := Some t\<rparr>)"
  "mutex_inv s \<Longrightarrow> holds_lock (pcs s t) \<Longrightarrow> \<not> holds_lock p \<Longrightarrow> mutex_inv (goto t p s\<lparr>holder := None\<rparr>)"
  by (auto simp: mutex_inv_def goto_def split: if_splits)

lemma mutex_inv_updates [simp]:
  "mutex_inv (s\<lparr>flag := f\<rparr>) = mutex_inv s" "mutex_inv (s\<lparr>runs := n\<rparr>) = mutex_inv s"
  "mutex_inv (s\<lparr>resets := n\<rparr>) = mutex_inv s"
  by (simp_all add: mutex_inv_def)

lemma mutex_inv_step:
  assumes "init_step s s'" "mutex_inv s"
  shows "mutex_inv s'"
  using assms by cases (auto intro!: mutex_inv_goto)

lemma only_holder:
  assumes "mutex_inv s" "holds_lock (pcs s t)" "holds_lock (pcs s t')"
  shows "t' = t"
  using assms by (auto simp: mutex_inv_def)

text \<open>Each run of the initializer is paid for by the start or by a reset.\<close>

definition owed :: "init_state \<Rightarrow> nat" where
  "owed s = (if flag s \<or> (\<exists>t. pcs s t = Set_flag) then 0 else 1)"

definition runs_inv :: "init_state \<Rightarrow> bool" where
  "runs_inv s \<longleftrightarrow> runs s + owed s \<le> Suc (resets s) \<and>
     (\<forall>t. pcs s t \<in> {Initialize, Set_flag} \<longrightarrow> \<not> flag s) \<and>
     (flag s \<longrightarrow> 0 < runs s) \<and> (\<forall>t. pcs s t \<in> {Set_flag, Unlock, Returned} \<longrightarrow> 0 < runs s)"

lemma pcs_goto [simp]: "pcs (goto t p s) u = (if u = t then p else pcs s u)"
  by (simp add: goto_def)

lemma goto_sel [simp]: "flag (goto t p s) = flag s" "runs (goto t p s) = runs s"
  "resets (goto t p s) = resets s" "holder (goto t p s) = holder s"
  by (simp_all add: goto_def)

lemma owed_goto: "p \<noteq> Set_flag \<Longrightarrow> pcs s t \<noteq> Set_flag \<Longrightarrow> owed (goto t p s) = owed s"
  by (auto simp: owed_def)

lemma owed_holder [simp]: "owed (s\<lparr>holder := h\<rparr>) = owed s"
  by (simp add: owed_def)

lemma runs_inv_goto:
  "runs_inv s \<Longrightarrow> pcs s t \<noteq> Set_flag \<Longrightarrow> p \<noteq> Set_flag \<Longrightarrow> (p = Initialize \<longrightarrow> \<not> flag s) \<Longrightarrow>
    (p \<in> {Unlock, Returned} \<longrightarrow> 0 < runs s) \<Longrightarrow> runs_inv (goto t p s)"
  by (auto simp: runs_inv_def owed_goto split: if_splits)

lemma runs_inv_holder [simp]: "runs_inv (s\<lparr>holder := h\<rparr>) = runs_inv s"
  by (simp add: runs_inv_def)

lemma runs_inv_step:
  assumes "init_step s s'" "mutex_inv s" "runs_inv s"
  shows "runs_inv s'"
  using assms(1)
proof cases
  case (initialize t)
  have "pcs s u \<noteq> Set_flag" for u
    using only_holder [OF assms(2), of t u] initialize by auto
  moreover have "\<not> flag s" using assms(3) initialize by (auto simp: runs_inv_def)
  ultimately show ?thesis using assms(3) initialize by (auto simp: runs_inv_def owed_def split: if_splits)
next
  case (set_flag t)
  have "pcs s u \<notin> {Initialize, Set_flag}" if "u \<noteq> t" for u
    using only_holder [OF assms(2), of t u] set_flag that by auto
  then show ?thesis using assms(3) set_flag by (auto simp: runs_inv_def owed_def split: if_splits)
next
  case (reset_flag t)
  have "pcs s u \<notin> {Initialize, Set_flag}" if "u \<noteq> t" for u
    using only_holder [OF assms(2), of t u] reset_flag that by auto
  then show ?thesis using assms(3) reset_flag by (auto simp: runs_inv_def owed_def split: if_splits)
qed (use assms(3) in \<open>auto intro!: runs_inv_goto simp: runs_inv_def [of s]\<close>)

lemma init_reachable_inv: "init_reachable s \<Longrightarrow> mutex_inv s \<and> runs_inv s"
proof (induction rule: init_reachable.induct)
  case init_reachable_start
  show ?case by (simp add: init_start_def mutex_inv_def runs_inv_def owed_def)
next
  case (init_reachable_step s s')
  then show ?case using mutex_inv_step runs_inv_step by blast
qed

text \<open>\<open>EnsureInitializedForControl\<close> runs the initializer at most once, plus once for every reset, whatever
  the interleaving; two threads are never in the critical section together; and a thread it has returned
  to finds the device initialised.\<close>

theorem initializer_runs_once:
  assumes "init_reachable s"
  shows "runs s \<le> Suc (resets s) \<and>
    (holds_lock (pcs s t) \<and> holds_lock (pcs s u) \<longrightarrow> t = u) \<and> (pcs s t = Returned \<longrightarrow> 0 < runs s)"
  using init_reachable_inv [OF assms] only_holder [of s u t] by (auto simp: runs_inv_def)

lemma init_reachable_example: "init_reachable (goto 1 Wait_lock (goto 0 Wait_lock init_start))"
proof -
  have "init_reachable (goto 0 Wait_lock init_start)"
    using init_reachable_step [OF init_reachable_start init_step.test [of init_start 0]]
    by (simp add: init_start_def)
  from init_reachable_step [OF this init_step.test [of _ 1]] show ?thesis
    by (simp add: init_start_def)
qed

theorem initializer_runs_once_witness:
  "let s = goto 1 Wait_lock (goto 0 Wait_lock init_start) in runs s \<le> Suc (resets s) \<and>
    (holds_lock (pcs s 0) \<and> holds_lock (pcs s 1) \<longrightarrow> 0 = (1::nat)) \<and> (pcs s 0 = Returned \<longrightarrow> 0 < runs s)"
  unfolding Let_def by (rule initializer_runs_once [OF init_reachable_example])

section \<open>Update callbacks\<close>

text \<open>Two vectors in step: the functions and their arguments.\<close>

record ('f, 'a) callbacks =
  UpdateCallbacks :: "'f list"
  UpdateCallbackArgs :: "'a list"

definition RegisterUpdateCallback :: "'f \<Rightarrow> 'a \<Rightarrow> ('f, 'a) callbacks \<Rightarrow> ('f, 'a) callbacks" where
  "RegisterUpdateCallback f a s =
     \<lparr>UpdateCallbacks = UpdateCallbacks s @ [f], UpdateCallbackArgs = UpdateCallbackArgs s @ [a]\<rparr>"

definition erase_at :: "nat \<Rightarrow> 'x list \<Rightarrow> 'x list" where
  "erase_at i xs = take i xs @ drop (Suc i) xs"

definition UnregisterUpdateCallback :: "'a \<Rightarrow> ('f, 'a) callbacks \<Rightarrow> ('f, 'a) callbacks" where
  "UnregisterUpdateCallback a s = (case first_index (\<lambda>x. x = a) 0 (UpdateCallbackArgs s) of
     Some i \<Rightarrow> \<lparr>UpdateCallbacks = erase_at i (UpdateCallbacks s), UpdateCallbackArgs = erase_at i (UpdateCallbackArgs s)\<rparr>
   | None \<Rightarrow> s)"

definition ClearCallbacks :: "('f, 'a) callbacks \<Rightarrow> ('f, 'a) callbacks" where
  "ClearCallbacks s = \<lparr>UpdateCallbacks = [], UpdateCallbackArgs = []\<rparr>"

text \<open>The calls \<open>SignalUpdate\<close> makes, in order; it indexes the arguments by the functions.\<close>

definition SignalUpdate :: "('f, 'a) callbacks \<Rightarrow> ('f \<times> 'a) list defined" where
  "SignalUpdate s = (if length (UpdateCallbacks s) \<le> length (UpdateCallbackArgs s)
     then Some (zip (UpdateCallbacks s) (UpdateCallbackArgs s)) else None)"

text \<open>What is promised: a list of registrations, from which removing takes the first one of its argument.\<close>

fun remove_first :: "'a \<Rightarrow> ('f \<times> 'a) list \<Rightarrow> ('f \<times> 'a) list" where
  "remove_first a [] = []"
| "remove_first a ((f, b) # rs) = (if b = a then rs else (f, b) # remove_first a rs)"

definition registrations :: "('f, 'a) callbacks \<Rightarrow> ('f \<times> 'a) list" where
  "registrations s = zip (UpdateCallbacks s) (UpdateCallbackArgs s)"

definition paired :: "('f, 'a) callbacks \<Rightarrow> bool" where
  "paired s \<longleftrightarrow> length (UpdateCallbacks s) = length (UpdateCallbackArgs s)"

lemma first_index_shift: "first_index P (Suc k) xs = map_option Suc (first_index P k xs)"
  by (induction xs arbitrary: k) auto

lemma erase_first:
  "length fs = length as \<Longrightarrow> (case first_index (\<lambda>x. x = a) 0 as of
     Some i \<Rightarrow> zip (erase_at i fs) (erase_at i as) | None \<Rightarrow> zip fs as) = remove_first a (zip fs as)"
  by (induction fs as rule: list_induct2)
    (auto simp: first_index_shift erase_at_def split: option.splits)

text \<open>The two vectors stay in step, registering appends a callback, unregistering removes exactly the
  first one registered with the argument, and \<open>SignalUpdate\<close> calls those that are left in the order of their
  registration.\<close>

theorem callbacks_refine_list:
  assumes "paired s"
  shows "paired (RegisterUpdateCallback f a s) \<and> paired (UnregisterUpdateCallback a s) \<and> paired (ClearCallbacks s) \<and>
    registrations (RegisterUpdateCallback f a s) = registrations s @ [(f, a)] \<and>
    registrations (UnregisterUpdateCallback a s) = remove_first a (registrations s) \<and>
    registrations (ClearCallbacks s) = [] \<and>
    SignalUpdate s = Some (registrations s)"
  using assms erase_first [of "UpdateCallbacks s" "UpdateCallbackArgs s" a]
  by (auto simp: paired_def registrations_def RegisterUpdateCallback_def UnregisterUpdateCallback_def
      ClearCallbacks_def SignalUpdate_def erase_at_def split: option.splits)

theorem callbacks_refine_list_witness:
  "let s = \<lparr>UpdateCallbacks = ''ab'', UpdateCallbackArgs = [1, 2 :: nat]\<rparr> in
    paired (RegisterUpdateCallback CHR ''c'' 2 s) \<and> paired (UnregisterUpdateCallback 2 s) \<and> paired (ClearCallbacks s) \<and>
    registrations (RegisterUpdateCallback CHR ''c'' 2 s) = registrations s @ [(CHR ''c'', 2)] \<and>
    registrations (UnregisterUpdateCallback 2 s) = remove_first 2 (registrations s) \<and>
    registrations (ClearCallbacks s) = [] \<and>
    SignalUpdate s = Some (registrations s)"
  unfolding Let_def by (rule callbacks_refine_list) (simp add: paired_def)

end
