(* ===== verification/Amx_Memory.thy ===== *)
theory Amx_Memory
  imports Prelude
begin

text \<open>
  The memory of the Pawn abstract machine (\<open>PawnPP/amx.h\<close>): how a virtual address of the script is
  translated to a cell of a host buffer. A host pointer is a buffer and an index in cells; \<open>nullptr\<close> is
  \<open>None\<close>. The driver instantiates the machine at 64-bit cells with a contiguous buffer for the code and
  32 pages for the data. The interface \<open>memory_backing\<close> states what the loader and the calls of the
  driver rely on; both backings provide it.
\<close>

section \<open>Cells and host pointers\<close>

type_synonym cell = u64

record hptr =
  block :: nat
  cell_at :: nat

definition hplus :: "hptr \<Rightarrow> nat \<Rightarrow> hptr" where
  "hplus p i = p\<lparr>cell_at := cell_at p + i\<rparr>"

definition cell_bytes :: cell where "cell_bytes = 8"

definition misalign_mask :: cell where "misalign_mask = cell_bytes - 1"

lemma unat_cell_bytes: "unat cell_bytes = 8"
  by (simp add: cell_bytes_def)

lemma hplus_0 [simp]: "hplus p 0 = p"
  by (simp add: hplus_def)

lemma hplus_hplus [simp]: "hplus (hplus p i) j = hplus p (i + j)"
  by (simp add: hplus_def)

lemma hplus_eq [simp]: "hplus p i = hplus p j \<longleftrightarrow> i = j"
  by (cases p) (simp add: hplus_def)

lemma block_hplus [simp]: "block (hplus p i) = block p" "cell_at (hplus p i) = cell_at p + i"
  by (simp_all add: hplus_def)

section \<open>Pages\<close>

record mapping =
  buf :: "hptr option"
  msize :: u64

type_synonym paged = "mapping list"

definition no_mapping :: mapping where "no_mapping = \<lparr>buf = None, msize = 0\<rparr>"

definition index_bits :: nat where "index_bits = 5"
definition offset_bits :: nat where "offset_bits = 64 - index_bits"
definition page_count :: nat where "page_count = 2 ^ index_bits"
definition page_size :: cell where "page_size = push_bit offset_bits 1"

definition no_pages :: paged where "no_pages = replicate page_count no_mapping"

definition page_index :: "cell \<Rightarrow> cell" where
  "page_index va = drop_bit offset_bits va"

definition page_offset :: "cell \<Rightarrow> cell" where
  "page_offset va = va AND drop_bit index_bits (push_bit index_bits (NOT 0))"

definition make_va :: "cell \<Rightarrow> cell \<Rightarrow> cell" where
  "make_va index offset = push_bit offset_bits index OR offset"

definition paged_translate :: "paged \<Rightarrow> cell \<Rightarrow> hptr option" where
  "paged_translate ms va =
     (if va mod cell_bytes \<noteq> 0 then None
      else let m = ms ! unat (page_index va) in
        case buf m of None \<Rightarrow> None
        | Some b \<Rightarrow> let off = page_offset va in
            if off \<ge> msize m then None else Some (hplus b (unat (off div cell_bytes))))"

text \<open>The pages a mapping of \<open>size\<close> bytes takes.\<close>

definition pages_of :: "u64 \<Rightarrow> cell" where
  "pages_of sz = page_index (sz + page_size - 1)"

text \<open>The search for a run of free pages; it stops at the last page of the run and returns its index.\<close>

fun find_run :: "cell \<Rightarrow> cell \<Rightarrow> nat \<Rightarrow> paged \<Rightarrow> nat option" where
  "find_run count row i [] = None"
| "find_run count row i (m # ms) =
     (let row' = (if buf m \<noteq> None then 0 else row + 1) in
      if row' = count then Some i else find_run count row' (Suc i) ms)"

text \<open>The result of \<open>map\<close>: the \<open>bool\<close> it returns (\<open>false\<close> is \<open>None\<close>) with the address it stored. The stores
  into \<open>_mappings\<close> may fall outside the array.\<close>

definition fill_page :: "hptr \<Rightarrow> u64 \<Rightarrow> nat \<Rightarrow> nat \<Rightarrow> paged \<Rightarrow> paged defined" where
  "fill_page b sz index i ms = upd_def ms (index + i)
     \<lparr>buf = Some (hplus b (unat (page_size div cell_bytes * of_nat i))), msize = sz - page_size * of_nat i\<rparr>"

definition paged_map :: "hptr \<Rightarrow> u64 \<Rightarrow> paged \<Rightarrow> (cell \<times> paged) option defined" where
  "paged_map b n ms =
     (if n = 0 then Some (Some (NOT misalign_mask, ms))
      else let sz = n * cell_bytes; count = pages_of sz in
        case find_run count 0 0 ms of None \<Rightarrow> Some None
        | Some index \<Rightarrow> do {
            ms' \<leftarrow> fold_def (fill_page b sz index) [0..<unat count] ms;
            Some (Some (make_va (of_nat index) 0, ms')) })"

definition paged_unmap :: "cell \<Rightarrow> u64 \<Rightarrow> paged \<Rightarrow> paged defined" where
  "paged_unmap va n ms =
     (let m = unat (page_index va); count = pages_of (n * cell_bytes) in
      fold_def (\<lambda>i ms. upd_def ms (m + i) no_mapping) [0..<unat count] ms)"

section \<open>One contiguous buffer\<close>

record contiguous =
  cbuf :: "hptr option"
  csize :: u64

definition no_buffer :: contiguous where "no_buffer = \<lparr>cbuf = None, csize = 0\<rparr>"

text \<open>There is no test of \<open>_buf\<close>: a null buffer has size 0.\<close>

definition contiguous_translate :: "contiguous \<Rightarrow> cell \<Rightarrow> hptr option" where
  "contiguous_translate c va =
     (if va \<ge> csize c then None else map_option (\<lambda>b. hplus b (unat (va div cell_bytes))) (cbuf c))"

definition contiguous_map :: "hptr \<Rightarrow> u64 \<Rightarrow> contiguous \<Rightarrow> (cell \<times> contiguous) option defined" where
  "contiguous_map b n c =
     (if cbuf c \<noteq> None then Some None else Some (Some (0, \<lparr>cbuf = Some b, csize = n * cell_bytes\<rparr>)))"

definition contiguous_unmap :: "cell \<Rightarrow> u64 \<Rightarrow> contiguous \<Rightarrow> contiguous defined" where
  "contiguous_unmap va n c = Some no_buffer"

section \<open>Part of the host's address space\<close>

text \<open>The third backing of the header, not used by the driver: the low \<open>valid_bits\<close> of an address are an
  offset into an aligned host region, given by the remaining bits of its address.\<close>

definition offset_mask :: "nat \<Rightarrow> cell" where
  "offset_mask valid_bits = drop_bit (64 - valid_bits) (push_bit (64 - valid_bits) (NOT 0))"

definition offset_mask_align :: "nat \<Rightarrow> cell" where
  "offset_mask_align valid_bits = offset_mask valid_bits AND NOT misalign_mask"

definition partial_translate :: "nat \<Rightarrow> u64 \<Rightarrow> cell \<Rightarrow> u64" where
  "partial_translate valid_bits backing va = (va AND offset_mask_align valid_bits) OR backing"

definition partial_map :: "nat \<Rightarrow> u64 \<Rightarrow> u64 \<Rightarrow> (cell \<times> u64) option" where
  "partial_map valid_bits b backing =
     (if backing \<noteq> 0 then None else Some (0, b AND offset_mask_align valid_bits))"

section \<open>The interface of a backing\<close>

text \<open>
  Mapping a buffer of \<open>n\<close> cells gives an address from which every cell of the buffer is reached, keeps what
  was mapped before reachable, and unmapping it takes the backing back to where it was. \<open>fits n\<close> bounds the
  buffers the code maps.
\<close>

locale memory_backing =
  fixes valid :: "'m \<Rightarrow> bool" and fits :: "u64 \<Rightarrow> bool"
    and translate :: "'m \<Rightarrow> cell \<Rightarrow> hptr option"
    and map_mem :: "hptr \<Rightarrow> u64 \<Rightarrow> 'm \<Rightarrow> (cell \<times> 'm) option defined"
    and unmap_mem :: "cell \<Rightarrow> u64 \<Rightarrow> 'm \<Rightarrow> 'm defined"
  assumes map_defined: "valid m \<Longrightarrow> fits n \<Longrightarrow> map_mem b n m \<noteq> None"
    and map_valid: "valid m \<Longrightarrow> fits n \<Longrightarrow> map_mem b n m = Some (Some (va, m')) \<Longrightarrow> valid m'"
    and map_reaches: "valid m \<Longrightarrow> fits n \<Longrightarrow> map_mem b n m = Some (Some (va, m')) \<Longrightarrow> i < unat n \<Longrightarrow>
      translate m' (va + of_nat i * cell_bytes) = Some (hplus b i)"
    and map_keeps: "valid m \<Longrightarrow> fits n \<Longrightarrow> map_mem b n m = Some (Some (va, m')) \<Longrightarrow>
      translate m a = Some p \<Longrightarrow> translate m' a = Some p"
    and map_only: "valid m \<Longrightarrow> fits n \<Longrightarrow> map_mem b n m = Some (Some (va, m')) \<Longrightarrow>
      translate m' a = Some p \<Longrightarrow> translate m a = Some p \<or> (\<exists>i < unat n. p = hplus b i)"
    and unmap_map: "valid m \<Longrightarrow> fits n \<Longrightarrow> map_mem b n m = Some (Some (va, m')) \<Longrightarrow> unmap_mem va n m' = Some m"
begin

text \<open>The driver maps an input and an output buffer around a call and unmaps them in the opposite order.\<close>

lemma nested_maps:
  assumes "valid m" "fits n1" "fits n2"
    and "map_mem b1 n1 m = Some (Some (va1, m1))" "map_mem b2 n2 m1 = Some (Some (va2, m2))"
  shows "i < unat n1 \<Longrightarrow> translate m2 (va1 + of_nat i * cell_bytes) = Some (hplus b1 i)"
    and "i < unat n2 \<Longrightarrow> translate m2 (va2 + of_nat i * cell_bytes) = Some (hplus b2 i)"
    and "Option.bind (unmap_mem va2 n2 m2) (unmap_mem va1 n1) = Some m"
proof -
  have v1: "valid m1" by (rule map_valid [OF assms(1,2,4)])
  show "i < unat n1 \<Longrightarrow> translate m2 (va1 + of_nat i * cell_bytes) = Some (hplus b1 i)"
    by (rule map_keeps [OF v1 assms(3,5) map_reaches [OF assms(1,2,4)]])
  show "i < unat n2 \<Longrightarrow> translate m2 (va2 + of_nat i * cell_bytes) = Some (hplus b2 i)"
    by (rule map_reaches [OF v1 assms(3,5)])
  show "Option.bind (unmap_mem va2 n2 m2) (unmap_mem va1 n1) = Some m"
    by (simp add: unmap_map [OF v1 assms(3,5)] unmap_map [OF assms(1,2,4)])
qed

lemma nested_only:
  assumes "valid m" "fits n1" "fits n2"
    and "map_mem b1 n1 m = Some (Some (va1, m1))" "map_mem b2 n2 m1 = Some (Some (va2, m2))"
    and "translate m2 a = Some p"
  shows "translate m a = Some p \<or> block p \<in> {block b1, block b2}"
  using map_only [OF map_valid [OF assms(1,2,4)] assms(3,5,6)] map_only [OF assms(1,2,4)] by fastforce

end

section \<open>The pages provide the interface\<close>

lemma page_geometry: "offset_bits = 59" "page_count = 32" "index_bits = 5"
  by (simp_all add: offset_bits_def index_bits_def page_count_def)

lemma unat_page_size: "unat page_size = 2 ^ 59"
  by (simp add: page_size_def page_geometry)

lemma unat_page_index: "unat (page_index va) = unat va div 2 ^ 59"
  unfolding page_index_def page_geometry unat_drop_bit_eq by (rule drop_bit_eq_div)

lemma unat_page_offset: "unat (page_offset va) = unat va mod 2 ^ 59"
proof -
  have "drop_bit index_bits (push_bit index_bits (NOT 0)) = (mask 59 :: cell)"
    by (rule bit_word_eqI) (auto simp: bit_simps page_geometry)
  then have "page_offset va = take_bit 59 va" by (simp add: page_offset_def take_bit_eq_mask)
  then have "unat (page_offset va) = take_bit 59 (unat va)" by (simp only: unsigned_take_bit_eq)
  then show ?thesis by (simp only: take_bit_eq_mod)
qed

lemma aligned_iff: "va mod cell_bytes = 0 \<longleftrightarrow> unat va mod 8 = 0"
  by (simp add: cell_bytes_def unat_mod_distrib flip: unat_eq_0)

definition page_of :: "paged \<Rightarrow> nat \<Rightarrow> nat \<Rightarrow> hptr option" where
  "page_of ms i off = (case buf (ms ! i) of None \<Rightarrow> None
     | Some b \<Rightarrow> if off < unat (msize (ms ! i)) then Some (hplus b (off div 8)) else None)"

lemma paged_translate_nat:
  "paged_translate ms va = (if unat va mod 8 = 0 then page_of ms (unat va div 2 ^ 59) (unat va mod 2 ^ 59) else None)"
proof -
  have "unat (page_offset va div cell_bytes) = unat va mod 2 ^ 59 div 8"
    by (simp add: unat_div_distrib unat_page_offset cell_bytes_def)
  then show ?thesis
    by (simp add: paged_translate_def page_of_def Let_def unat_page_index aligned_iff word_le_nat_alt
        unat_page_offset not_le split: option.split)
qed

definition pages_ok :: "paged \<Rightarrow> bool" where
  "pages_ok ms \<longleftrightarrow> length ms = page_count \<and> (\<forall>m \<in> set ms. buf m = None \<longrightarrow> msize m = 0)"

text \<open>Buffers of at most one page: \<open>2 ^ 56\<close> cells.\<close>

definition one_page :: "u64 \<Rightarrow> bool" where
  "one_page n \<longleftrightarrow> 0 < n \<and> unat n \<le> 2 ^ 56"

lemma one_page_bytes: "one_page n \<Longrightarrow> unat (n * cell_bytes) = 8 * unat n"
  by (simp add: one_page_def cell_bytes_def unat_mult_lem [THEN iffD1] mult.commute)

lemma pages_of_one_page:
  assumes "one_page n"
  shows "pages_of (n * cell_bytes) = 1"
proof -
  define w where "w = n * cell_bytes"
  have w: "0 < unat w" "unat w \<le> 2 ^ 59"
    using assms one_page_bytes [OF assms] by (auto simp: w_def one_page_def unat_gt_0)
  have "unat (w + page_size) = unat w + 2 ^ 59"
    using w by (subst unat_add_no_wrap) (simp_all add: unat_page_size)
  then have "unat (w + page_size - 1) = unat w + 2 ^ 59 - 1"
    using w by (subst unat_sub) (simp_all add: word_le_nat_alt)
  then have "unat (pages_of w) = (unat w + 2 ^ 59 - 1) div 2 ^ 59"
    by (simp only: pages_of_def unat_page_index)
  also have "\<dots> = 1" using w by (intro div_nat_eqI) simp_all
  finally show ?thesis unfolding w_def by (metis unat_1 word_unat_eq_iff)
qed

lemma find_run_1:
  "find_run 1 0 i ms = Some j \<Longrightarrow> i \<le> j \<and> j < i + length ms \<and> buf (ms ! (j - i)) = None"
proof (induction ms arbitrary: i)
  case (Cons m ms)
  then show ?case
  proof (cases "buf m = None")
    case True
    with Cons.prems show ?thesis by simp
  next
    case False
    with Cons.prems have "find_run 1 0 (Suc i) ms = Some j" by simp
    from Cons.IH [OF this] show ?thesis by (auto simp: nth_Cons')
  qed
qed simp

lemma paged_map_one:
  assumes "pages_ok ms" "one_page n"
  shows "paged_map b n ms = Some None \<or>
    (\<exists>i < 32. buf (ms ! i) = None \<and>
      paged_map b n ms = Some (Some (make_va (of_nat i) 0, ms[i := \<lparr>buf = Some b, msize = n * cell_bytes\<rparr>])))"
proof (cases "find_run 1 0 0 ms")
  case None
  moreover have "n \<noteq> 0" using assms(2) by (simp add: one_page_def word_gt_0)
  ultimately show ?thesis
    using assms by (simp add: paged_map_def pages_of_one_page Let_def)
next
  case (Some i)
  with find_run_1 [OF Some] assms have i: "i < 32" "buf (ms ! i) = None" "length ms = 32"
    by (simp_all add: pages_ok_def page_geometry)
  have n: "n \<noteq> 0" using assms(2) by (simp add: one_page_def word_gt_0)
  have "paged_map b n ms = Some (Some (make_va (of_nat i) 0, ms[i := \<lparr>buf = Some b, msize = n * cell_bytes\<rparr>]))"
    using i n Some by (simp add: paged_map_def pages_of_one_page [OF assms(2)] Let_def fill_page_def)
  with i show ?thesis by blast
qed

lemma unat_make_va:
  assumes "i < 32"
  shows "unat (make_va (of_nat i) 0) = i * 2 ^ 59"
  using assms by (simp add: make_va_def page_geometry push_bit_eq_mult unat_mult_lem [THEN iffD1])

lemma page_of_update:
  "page_of (ms[i := m]) j off = (if i = j \<and> i < length ms then
     (case buf m of None \<Rightarrow> None | Some b \<Rightarrow> if off < unat (msize m) then Some (hplus b (off div 8)) else None)
   else page_of ms j off)"
  by (cases "i < length ms"; cases "i = j") (simp_all add: page_of_def list_update_beyond cong: option.case_cong)

lemma paged_map_cases:
  assumes "pages_ok ms" "one_page n" "paged_map b n ms = Some (Some (va, ms'))"
  obtains i where "i < 32" "length ms = 32" "ms ! i = no_mapping" "unat va = i * 2 ^ 59"
    "ms' = ms[i := \<lparr>buf = Some b, msize = n * cell_bytes\<rparr>]"
proof -
  obtain i where i: "i < 32" "buf (ms ! i) = None" "va = make_va (of_nat i) 0"
      "ms' = ms[i := \<lparr>buf = Some b, msize = n * cell_bytes\<rparr>]"
    using paged_map_one [OF assms(1,2), of b] assms(3) by auto
  moreover have len: "length ms = 32" using assms(1) by (simp add: pages_ok_def page_geometry)
  moreover have "ms ! i = no_mapping"
    using assms(1) i(1,2) nth_mem [of i ms] len by (cases "ms ! i") (auto simp: pages_ok_def no_mapping_def)
  ultimately show ?thesis using that unat_make_va [OF i(1)] by blast
qed

interpretation pages: memory_backing pages_ok one_page paged_translate paged_map paged_unmap
proof
  fix ms b n va ms' i a p
  assume ok: "pages_ok ms" and n: "one_page n"
  show "paged_map b n ms \<noteq> None" using paged_map_one [OF ok n, of b] by auto
  assume m: "paged_map b n ms = Some (Some (va, ms'))"
  obtain k where k: "k < 32" "length ms = 32" "ms ! k = no_mapping" "unat va = k * 2 ^ 59"
      "ms' = ms[k := \<lparr>buf = Some b, msize = n * cell_bytes\<rparr>]"
    using paged_map_cases [OF ok n m] .
  have bytes: "unat (n * cell_bytes) = 8 * unat n" by (rule one_page_bytes [OF n])
  have none: "page_of ms k off = None" for off by (simp add: page_of_def k(3) no_mapping_def)
  show "pages_ok ms'" using ok by (auto simp: pages_ok_def k(5) set_update_memI dest!: set_update_subset_insert [THEN subsetD])
  show "paged_unmap va n ms' = Some ms"
  proof -
    have "unat (page_index va) = k" by (simp add: unat_page_index k(4))
    moreover have "ms[k := no_mapping] = ms" by (metis k(3) list_update_id)
    ultimately show ?thesis using k(1,2) by (simp add: paged_unmap_def pages_of_one_page [OF n] Let_def k(5))
  qed
  {
    assume i: "i < unat n"
    have "unat (of_nat i * cell_bytes) = 8 * i"
      using i n by (simp add: one_page_def cell_bytes_def unat_mult_lem [THEN iffD1] unat_of_nat_small)
    moreover have "k * 2 ^ 59 + 8 * i < 2 ^ 64" using k(1) i n by (simp add: one_page_def)
    ultimately have u: "unat (va + of_nat i * cell_bytes) = k * 2 ^ 59 + 8 * i"
      using k(4) by (subst unat_add_no_wrap) simp_all
    have "8 * i < 2 ^ 59" using i n by (simp add: one_page_def)
    then have "(k * 2 ^ 59 + 8 * i) div 2 ^ 59 = k" "(k * 2 ^ 59 + 8 * i) mod 2 ^ 59 = 8 * i" by simp_all
    then show "paged_translate ms' (va + of_nat i * cell_bytes) = Some (hplus b i)"
      unfolding paged_translate_nat u using i k(1,2)
      by (simp add: k(5) page_of_update bytes mod_simps)
  }
  {
    assume "paged_translate ms a = Some p"
    then show "paged_translate ms' a = Some p"
      using none by (auto simp: paged_translate_nat k(5) page_of_update split: if_splits)
  }
  {
    assume "paged_translate ms' a = Some p"
    then show "paged_translate ms a = Some p \<or> (\<exists>i < unat n. p = hplus b i)"
      using k(1,2) by (auto simp: paged_translate_nat k(5) page_of_update bytes split: if_splits)
  }
qed

definition buffer_ok :: "contiguous \<Rightarrow> bool" where
  "buffer_ok c \<longleftrightarrow> (cbuf c = None \<longrightarrow> csize c = 0)"

definition buffer_size :: "u64 \<Rightarrow> bool" where
  "buffer_size n \<longleftrightarrow> unat n < 2 ^ 61"

interpretation code_buffer: memory_backing buffer_ok buffer_size contiguous_translate contiguous_map contiguous_unmap
proof
  fix c b n va c' i a p
  assume ok: "buffer_ok c" and n: "buffer_size n"
  show "contiguous_map b n c \<noteq> None" by (simp add: contiguous_map_def)
  assume m: "contiguous_map b n c = Some (Some (va, c'))"
  then have c: "cbuf c = None" "va = 0" "c' = \<lparr>cbuf = Some b, csize = n * cell_bytes\<rparr>"
    by (auto simp: contiguous_map_def split: if_splits)
  have bytes: "unat (n * cell_bytes) = 8 * unat n"
    using n by (simp add: buffer_size_def cell_bytes_def unat_mult_lem [THEN iffD1] mult.commute)
  show "buffer_ok c'" by (simp add: buffer_ok_def c)
  show "contiguous_unmap va n c' = Some c"
    using ok c(1) by (cases c) (simp add: contiguous_unmap_def no_buffer_def buffer_ok_def)
  {
    assume i: "i < unat n"
    have "unat (of_nat i * cell_bytes) = 8 * i"
      using i n by (simp add: buffer_size_def cell_bytes_def unat_mult_lem [THEN iffD1] unat_of_nat_small)
    then show "contiguous_translate c' (va + of_nat i * cell_bytes) = Some (hplus b i)"
      using i by (simp add: contiguous_translate_def c word_le_nat_alt bytes unat_div_distrib)
        (simp add: cell_bytes_def)
  }
  show "contiguous_translate c a = Some p \<Longrightarrow> contiguous_translate c' a = Some p"
    by (simp add: contiguous_translate_def c split: if_splits)
  {
    assume "contiguous_translate c' a = Some p"
    then have "unat a < 8 * unat n" "p = hplus b (unat a div 8)"
      by (auto simp: contiguous_translate_def c not_le word_less_nat_alt bytes unat_div_distrib unat_cell_bytes
          split: if_splits)
    then show "contiguous_translate c a = Some p \<or> (\<exists>i < unat n. p = hplus b i)" by auto
  }
qed
section \<open>Properties of the mappings\<close>

text \<open>Around a call the driver maps two buffers of at most a page each: every cell of both is then reachable
  from its address, everything mapped before still is, no other cell becomes reachable, and unmapping them in
  the opposite order restores the mappings exactly.\<close>

theorem paged_nested_maps:
  assumes "pages_ok ms" "one_page n1" "one_page n2"
    and "paged_map b1 n1 ms = Some (Some (va1, ms1))" "paged_map b2 n2 ms1 = Some (Some (va2, ms2))"
  shows "(\<forall>i < unat n1. paged_translate ms2 (va1 + of_nat i * cell_bytes) = Some (hplus b1 i)) \<and>
    (\<forall>i < unat n2. paged_translate ms2 (va2 + of_nat i * cell_bytes) = Some (hplus b2 i)) \<and>
    (\<forall>a p. paged_translate ms a = Some p \<longrightarrow> paged_translate ms2 a = Some p) \<and>
    (\<forall>a p. paged_translate ms2 a = Some p \<longrightarrow>
       paged_translate ms a = Some p \<or> block p \<in> {block b1, block b2}) \<and>
    Option.bind (paged_unmap va2 n2 ms2) (paged_unmap va1 n1) = Some ms"
  using pages.nested_maps [OF assms] pages.nested_only [OF assms]
    pages.map_keeps [OF assms(1,2,4)] pages.map_keeps [OF pages.map_valid [OF assms(1,2,4)] assms(3,5)]
  by blast

definition host_buffer :: "nat \<Rightarrow> hptr" where
  "host_buffer b = \<lparr>block = b, cell_at = 0\<rparr>"

lemma no_pages_ok: "pages_ok no_pages"
  by (simp add: pages_ok_def no_pages_def no_mapping_def)

lemma no_pages_Cons: "no_pages = no_mapping # no_mapping # no_mapping # replicate 29 no_mapping"
  by (simp add: no_pages_def page_geometry numeral_eq_Suc)

lemma map_first_page:
  assumes "one_page n"
  shows "paged_map b n no_pages = Some (Some (0, no_pages[0 := \<lparr>buf = Some b, msize = n * cell_bytes\<rparr>]))"
  using assms
  by (simp add: paged_map_def pages_of_one_page Let_def no_pages_Cons no_mapping_def fill_page_def make_va_def
      one_page_def word_gt_0)

lemma map_second_page:
  assumes "one_page n"
  shows "paged_map b n (no_pages[0 := \<lparr>buf = Some b0, msize = k\<rparr>]) =
    Some (Some (2 ^ 59, no_pages[0 := \<lparr>buf = Some b0, msize = k\<rparr>, 1 := \<lparr>buf = Some b, msize = n * cell_bytes\<rparr>]))"
  using assms
  by (simp add: paged_map_def pages_of_one_page Let_def no_pages_Cons no_mapping_def fill_page_def make_va_def
      one_page_def word_gt_0 page_geometry)

theorem paged_nested_maps_witness:
  "let ms1 = no_pages[0 := \<lparr>buf = Some (host_buffer 1), msize = 3 * cell_bytes\<rparr>];
       ms2 = no_pages[0 := \<lparr>buf = Some (host_buffer 1), msize = 3 * cell_bytes\<rparr>,
               1 := \<lparr>buf = Some (host_buffer 2), msize = 2 * cell_bytes\<rparr>] in
    (\<forall>i < unat (3 :: u64). paged_translate ms2 (0 + of_nat i * cell_bytes) = Some (hplus (host_buffer 1) i)) \<and>
    (\<forall>i < unat (2 :: u64). paged_translate ms2 (2 ^ 59 + of_nat i * cell_bytes) = Some (hplus (host_buffer 2) i)) \<and>
    (\<forall>a p. paged_translate no_pages a = Some p \<longrightarrow> paged_translate ms2 a = Some p) \<and>
    (\<forall>a p. paged_translate ms2 a = Some p \<longrightarrow>
       paged_translate no_pages a = Some p \<or> block p \<in> {block (host_buffer 1), block (host_buffer 2)}) \<and>
    Option.bind (paged_unmap (2 ^ 59) 2 ms2) (paged_unmap 0 3) = Some no_pages"
  unfolding Let_def
  by (rule paged_nested_maps [OF no_pages_ok _ _ map_first_page map_second_page]) (simp_all add: one_page_def)

text \<open>For a mapping of more than one page \<open>map\<close> starts at the last page of the free run it found, not at the
  first: with the first two pages free and the third taken, a mapping of two pages leaves the first page free
  and overwrites the third.\<close>

theorem multi_page_map_overwrites:
  "let ms = no_pages[2 := \<lparr>buf = Some (host_buffer 7), msize = 8\<rparr>] in
   (\<exists>ms'. paged_map (host_buffer 1) (2 ^ 57) ms = Some (Some (2 ^ 59, ms')) \<and>
      paged_translate ms 0x1000000000000000 = Some (host_buffer 7) \<and>
      paged_translate ms' 0x1000000000000000 = Some (hplus (host_buffer 1) (2 ^ 56)) \<and>
      paged_translate ms' 0 = None)"
proof -
  define ms where "ms = no_pages[2 := \<lparr>buf = Some (host_buffer 7), msize = 8\<rparr>]"
  have ms: "ms = no_mapping # no_mapping # \<lparr>buf = Some (host_buffer 7), msize = 8\<rparr> # replicate 29 no_mapping"
    by (simp add: ms_def no_pages_Cons numeral_2_eq_2)
  have pages: "pages_of (2 ^ 60) = 2"
    by (simp add: pages_of_def page_index_def page_size_def page_geometry)
  have find: "find_run 2 0 0 ms = Some 1" by (simp add: ms no_mapping_def)
  have geom: "page_size = 2 ^ 59" by (simp add: page_size_def page_geometry)
  have two: "[0..<unat (2 :: cell)] = [0, Suc 0]" by (simp add: upt_rec)
  have fold: "fold_def (fill_page (host_buffer 1) (2 ^ 60) 1) [0, Suc 0] ms =
      Some (no_mapping # \<lparr>buf = Some (host_buffer 1), msize = 2 ^ 60\<rparr> #
        \<lparr>buf = Some (hplus (host_buffer 1) (2 ^ 56)), msize = 2 ^ 59\<rparr> # replicate 29 no_mapping)"
    by (simp add: ms fill_page_def geom unat_div_distrib unat_cell_bytes)
  have bytes: "(2 ^ 57 :: u64) * cell_bytes = 2 ^ 60" by (simp add: cell_bytes_def)
  have va: "make_va (of_nat 1) 0 = 2 ^ 59" by (simp add: make_va_def page_geometry)
  have nz: "(2 ^ 57 :: u64) \<noteq> 0" by simp
  have "paged_map (host_buffer 1) (2 ^ 57) ms = Some (Some (2 ^ 59,
      no_mapping # \<lparr>buf = Some (host_buffer 1), msize = 2 ^ 60\<rparr> #
      \<lparr>buf = Some (hplus (host_buffer 1) (2 ^ 56)), msize = 2 ^ 59\<rparr> # replicate 29 no_mapping))"
    by (simp only: paged_map_def Let_def nz if_False bytes pages find two option.case fold va bind.bind_lunit)
  then show ?thesis
    unfolding Let_def ms_def [symmetric]
    by (simp add: ms paged_translate_nat page_of_def no_mapping_def)
qed

end
