(* ===== verification/Amx_Machine.thy ===== *)
theory Amx_Machine
  imports Amx_Memory "HOL-Library.Signed_Division"
begin

text \<open>
  The Pawn abstract machine of \<open>PawnPP/amx.h\<close> at 64-bit cells, as the driver instantiates it: registers,
  memory, one definition per opcode, the instruction step, the callback and the call of a function.
  The host's buffers are part of the state, because the script reads and writes them through the mappings.
\<close>

section \<open>State and outcomes\<close>

datatype error = Access_violation | Access_violation_code | Invalid_instruction | Invalid_operand
  | Division_with_zero | Halt | Bounds | Callback_abort

text \<open>What C++ leaves undefined here: an access outside a host buffer, a shift by the width or more, a signed
  result that does not fit. \<open>Fast_fail\<close> is the driver stopping the system by \<open>__fastfail\<close>.\<close>

datatype ub = Bad_access | Bad_shift | Signed_overflow | Zero_divisor | Fast_fail

text \<open>\<open>Ok\<close> is \<open>error::success\<close>; an error keeps the state it left behind, which the caller can see.\<close>

datatype 's outcome = Ok 's | Err error 's | Undefined ub | Diverges

record 'w amx =
  PRI :: cell
  ALT :: cell
  FRM :: cell
  CIP :: cell
  DAT :: cell
  COD :: cell
  STP :: cell
  STK :: cell
  HEA :: cell
  code_mem :: contiguous
  data_mem :: paged
  host :: "nat \<Rightarrow> cell list option"
  world :: 'w

definition data_v2p :: "'w amx \<Rightarrow> cell \<Rightarrow> hptr option" where
  "data_v2p s v = paged_translate (data_mem s) (DAT s + v)"

definition code_v2p :: "'w amx \<Rightarrow> cell \<Rightarrow> hptr option" where
  "code_v2p s v = contiguous_translate (code_mem s) (COD s + v)"

definition host_read :: "'w amx \<Rightarrow> hptr \<Rightarrow> cell defined" where
  "host_read s p = Option.bind (host s (block p)) (\<lambda>xs. nth_def xs (cell_at p))"

definition host_write :: "hptr \<Rightarrow> cell \<Rightarrow> 'w amx \<Rightarrow> 'w amx defined" where
  "host_write p v s = Option.bind (host s (block p)) (\<lambda>xs.
     map_option (\<lambda>ys. s\<lparr>host := (host s)(block p \<mapsto> ys)\<rparr>) (upd_def xs (cell_at p) v))"

section \<open>The macros of the instruction step\<close>

text \<open>Each takes the rest of the instruction as its last argument.\<close>

definition deref :: "hptr \<Rightarrow> 'w amx \<Rightarrow> (cell \<Rightarrow> 'w amx outcome) \<Rightarrow> 'w amx outcome" where
  "deref p s k = (case host_read s p of Some x \<Rightarrow> k x | None \<Rightarrow> Undefined Bad_access)"

definition assign :: "hptr \<Rightarrow> cell \<Rightarrow> 'w amx \<Rightarrow> ('w amx \<Rightarrow> 'w amx outcome) \<Rightarrow> 'w amx outcome" where
  "assign p v s k = (case host_write p v s of Some s' \<Rightarrow> k s' | None \<Rightarrow> Undefined Bad_access)"

definition OPERAND :: "'w amx \<Rightarrow> (cell \<Rightarrow> 'w amx \<Rightarrow> 'w amx outcome) \<Rightarrow> 'w amx outcome" where
  "OPERAND s k = (let s' = s\<lparr>CIP := CIP s + cell_bytes\<rparr> in
     case code_v2p s (CIP s) of None \<Rightarrow> Err Access_violation_code s' | Some p \<Rightarrow> deref p s' (\<lambda>x. k x s'))"

definition DATA :: "cell \<Rightarrow> 'w amx \<Rightarrow> (hptr \<Rightarrow> 'w amx outcome) \<Rightarrow> 'w amx outcome" where
  "DATA v s k = (case data_v2p s v of None \<Rightarrow> Err Access_violation s | Some p \<Rightarrow> k p)"

definition CODEDATA :: "cell \<Rightarrow> 'w amx \<Rightarrow> (hptr \<Rightarrow> 'w amx outcome) \<Rightarrow> 'w amx outcome" where
  "CODEDATA v s k = (case code_v2p s v of None \<Rightarrow> Err Access_violation s | Some p \<Rightarrow> k p)"

definition PUSH :: "cell \<Rightarrow> 'w amx \<Rightarrow> ('w amx \<Rightarrow> 'w amx outcome) \<Rightarrow> 'w amx outcome" where
  "PUSH v s k = (let s' = s\<lparr>STK := STK s - cell_bytes\<rparr> in DATA (STK s') s' (\<lambda>p. assign p v s' k))"

definition POP :: "'w amx \<Rightarrow> (cell \<Rightarrow> 'w amx \<Rightarrow> 'w amx outcome) \<Rightarrow> 'w amx outcome" where
  "POP s k = DATA (STK s) s (\<lambda>p. deref p s (\<lambda>x. k x (s\<lparr>STK := STK s + cell_bytes\<rparr>)))"

text \<open>\<open>DATA(v)\<close> followed by reading, or by writing, \<open>RESULT()\<close>.\<close>

definition load :: "cell \<Rightarrow> 'w amx \<Rightarrow> (cell \<Rightarrow> 'w amx outcome) \<Rightarrow> 'w amx outcome" where
  "load v s k = DATA v s (\<lambda>p. deref p s k)"

definition store :: "cell \<Rightarrow> cell \<Rightarrow> 'w amx \<Rightarrow> ('w amx \<Rightarrow> 'w amx outcome) \<Rightarrow> 'w amx outcome" where
  "store v x s k = DATA v s (\<lambda>p. assign p x s k)"

section \<open>Loads and stores\<close>

definition op_load_pri :: "'w amx \<Rightarrow> 'w amx outcome" where
  "op_load_pri s = OPERAND s (\<lambda>a s. load a s (\<lambda>x. Ok (s\<lparr>PRI := x\<rparr>)))"

definition op_load_alt :: "'w amx \<Rightarrow> 'w amx outcome" where
  "op_load_alt s = OPERAND s (\<lambda>a s. load a s (\<lambda>x. Ok (s\<lparr>ALT := x\<rparr>)))"

definition op_load_s_pri :: "'w amx \<Rightarrow> 'w amx outcome" where
  "op_load_s_pri s = OPERAND s (\<lambda>a s. load (FRM s + a) s (\<lambda>x. Ok (s\<lparr>PRI := x\<rparr>)))"

definition op_load_s_alt :: "'w amx \<Rightarrow> 'w amx outcome" where
  "op_load_s_alt s = OPERAND s (\<lambda>a s. load (FRM s + a) s (\<lambda>x. Ok (s\<lparr>ALT := x\<rparr>)))"

definition op_lref_s_pri :: "'w amx \<Rightarrow> 'w amx outcome" where
  "op_lref_s_pri s = OPERAND s (\<lambda>a s. load (FRM s + a) s (\<lambda>r. load r s (\<lambda>x. Ok (s\<lparr>PRI := x\<rparr>))))"

definition op_lref_s_alt :: "'w amx \<Rightarrow> 'w amx outcome" where
  "op_lref_s_alt s = OPERAND s (\<lambda>a s. load (FRM s + a) s (\<lambda>r. load r s (\<lambda>x. Ok (s\<lparr>ALT := x\<rparr>))))"

definition op_load_i :: "'w amx \<Rightarrow> 'w amx outcome" where
  "op_load_i s = load (PRI s) s (\<lambda>x. Ok (s\<lparr>PRI := x\<rparr>))"

text \<open>Parts of a cell: 1, 2 or 4 bytes, that must lie within one cell.\<close>

definition subcell_mask :: "cell \<Rightarrow> cell option" where
  "subcell_mask n = (if n = 1 then Some 0xFF else if n = 2 then Some 0xFFFF
     else if n = 4 then Some 0xFFFFFFFF else None)"

definition subcell_bits :: "cell \<Rightarrow> nat" where
  "subcell_bits a = unat ((a AND misalign_mask) * 8)"

definition subcell :: "cell \<Rightarrow> cell \<Rightarrow> 'w amx \<Rightarrow> (hptr \<Rightarrow> cell \<Rightarrow> 'w amx outcome) \<Rightarrow> 'w amx outcome" where
  "subcell a n s k = (let aligned = a AND NOT misalign_mask in
     if aligned \<noteq> (a + n - 1) AND NOT misalign_mask then Err Invalid_operand s
     else DATA aligned s (\<lambda>p. case subcell_mask n of None \<Rightarrow> Err Invalid_operand s | Some m \<Rightarrow> k p m))"

definition op_lodb_i :: "'w amx \<Rightarrow> 'w amx outcome" where
  "op_lodb_i s = OPERAND s (\<lambda>n s. subcell (PRI s) n s (\<lambda>p m. deref p s (\<lambda>r.
     Ok (s\<lparr>PRI := drop_bit (subcell_bits (PRI s)) r AND m\<rparr>))))"

definition op_strb_i :: "'w amx \<Rightarrow> 'w amx outcome" where
  "op_strb_i s = OPERAND s (\<lambda>n s. subcell (ALT s) n s (\<lambda>p m. deref p s (\<lambda>r.
     let b = subcell_bits (ALT s) in
     assign p ((r AND NOT (push_bit b m)) OR push_bit b (PRI s AND m)) s Ok)))"

definition op_const_pri :: "'w amx \<Rightarrow> 'w amx outcome" where
  "op_const_pri s = OPERAND s (\<lambda>a s. Ok (s\<lparr>PRI := a\<rparr>))"

definition op_const_alt :: "'w amx \<Rightarrow> 'w amx outcome" where
  "op_const_alt s = OPERAND s (\<lambda>a s. Ok (s\<lparr>ALT := a\<rparr>))"

definition op_addr_pri :: "'w amx \<Rightarrow> 'w amx outcome" where
  "op_addr_pri s = OPERAND s (\<lambda>a s. Ok (s\<lparr>PRI := FRM s + a\<rparr>))"

definition op_addr_alt :: "'w amx \<Rightarrow> 'w amx outcome" where
  "op_addr_alt s = OPERAND s (\<lambda>a s. Ok (s\<lparr>ALT := FRM s + a\<rparr>))"

definition op_stor :: "'w amx \<Rightarrow> 'w amx outcome" where
  "op_stor s = OPERAND s (\<lambda>a s. store a (PRI s) s Ok)"

definition op_stor_s :: "'w amx \<Rightarrow> 'w amx outcome" where
  "op_stor_s s = OPERAND s (\<lambda>a s. store (FRM s + a) (PRI s) s Ok)"

definition op_sref_s :: "'w amx \<Rightarrow> 'w amx outcome" where
  "op_sref_s s = OPERAND s (\<lambda>a s. load (FRM s + a) s (\<lambda>r. store r (PRI s) s Ok))"

definition op_stor_i :: "'w amx \<Rightarrow> 'w amx outcome" where
  "op_stor_i s = store (ALT s) (PRI s) s Ok"

definition op_align_pri :: "'w amx \<Rightarrow> 'w amx outcome" where
  "op_align_pri s = OPERAND s (\<lambda>n s.
     Ok (if n < cell_bytes then s\<lparr>PRI := PRI s XOR (cell_bytes - n)\<rparr> else s))"

section \<open>Registers and the stack\<close>

definition op_lctrl :: "'w amx \<Rightarrow> 'w amx outcome" where
  "op_lctrl s = OPERAND s (\<lambda>n s.
     if n = 0 then Ok (s\<lparr>PRI := COD s\<rparr>) else if n = 1 then Ok (s\<lparr>PRI := DAT s\<rparr>)
     else if n = 2 then Ok (s\<lparr>PRI := HEA s\<rparr>) else if n = 3 then Ok (s\<lparr>PRI := STP s\<rparr>)
     else if n = 4 then Ok (s\<lparr>PRI := STK s\<rparr>) else if n = 5 then Ok (s\<lparr>PRI := FRM s\<rparr>)
     else if n = 6 then Ok (s\<lparr>PRI := CIP s\<rparr>) else Err Invalid_operand s)"

definition op_sctrl :: "'w amx \<Rightarrow> 'w amx outcome" where
  "op_sctrl s = OPERAND s (\<lambda>n s.
     if n = 2 then Ok (s\<lparr>HEA := PRI s\<rparr>) else if n = 4 then Ok (s\<lparr>STK := PRI s\<rparr>)
     else if n = 5 then Ok (s\<lparr>FRM := PRI s\<rparr>) else if n = 6 then Ok (s\<lparr>CIP := PRI s\<rparr>)
     else Err Invalid_operand s)"

definition op_xchg :: "'w amx \<Rightarrow> 'w amx outcome" where
  "op_xchg s = Ok (s\<lparr>ALT := PRI s, PRI := ALT s\<rparr>)"

definition op_push_pri :: "'w amx \<Rightarrow> 'w amx outcome" where
  "op_push_pri s = PUSH (PRI s) s Ok"

definition op_push_alt :: "'w amx \<Rightarrow> 'w amx outcome" where
  "op_push_alt s = PUSH (ALT s) s Ok"

definition op_pushr_pri :: "'w amx \<Rightarrow> 'w amx outcome" where
  "op_pushr_pri s = PUSH (PRI s + DAT s) s Ok"

definition op_pop_pri :: "'w amx \<Rightarrow> 'w amx outcome" where
  "op_pop_pri s = POP s (\<lambda>x s. Ok (s\<lparr>PRI := x\<rparr>))"

definition op_pop_alt :: "'w amx \<Rightarrow> 'w amx outcome" where
  "op_pop_alt s = POP s (\<lambda>x s. Ok (s\<lparr>ALT := x\<rparr>))"

definition op_pick :: "'w amx \<Rightarrow> 'w amx outcome" where
  "op_pick s = OPERAND s (\<lambda>a s. load (STK s + a) s (\<lambda>x. Ok (s\<lparr>PRI := x\<rparr>)))"

definition op_stack :: "'w amx \<Rightarrow> 'w amx outcome" where
  "op_stack s = OPERAND s (\<lambda>a s. Ok (s\<lparr>STK := STK s + a, ALT := STK s + a\<rparr>))"

definition op_heap :: "'w amx \<Rightarrow> 'w amx outcome" where
  "op_heap s = OPERAND s (\<lambda>a s. Ok (s\<lparr>ALT := HEA s, HEA := HEA s + a\<rparr>))"

definition op_swap_pri :: "'w amx \<Rightarrow> 'w amx outcome" where
  "op_swap_pri s = DATA (STK s) s (\<lambda>p. deref p s (\<lambda>x. assign p (PRI s) s (\<lambda>s. Ok (s\<lparr>PRI := x\<rparr>))))"

definition op_swap_alt :: "'w amx \<Rightarrow> 'w amx outcome" where
  "op_swap_alt s = DATA (STK s) s (\<lambda>p. deref p s (\<lambda>x. assign p (ALT s) s (\<lambda>s. Ok (s\<lparr>ALT := x\<rparr>))))"

section \<open>Control flow\<close>

definition op_proc :: "'w amx \<Rightarrow> 'w amx outcome" where
  "op_proc s = PUSH (FRM s) s (\<lambda>s. Ok (s\<lparr>FRM := STK s\<rparr>))"

definition op_ret :: "'w amx \<Rightarrow> 'w amx outcome" where
  "op_ret s = POP s (\<lambda>x s. POP (s\<lparr>FRM := x\<rparr>) (\<lambda>x s. Ok (s\<lparr>CIP := x\<rparr>)))"

definition op_retn :: "'w amx \<Rightarrow> 'w amx outcome" where
  "op_retn s = POP s (\<lambda>x s. POP (s\<lparr>FRM := x\<rparr>) (\<lambda>x s. let s = s\<lparr>CIP := x\<rparr> in
     load (STK s) s (\<lambda>n. Ok (s\<lparr>STK := STK s + (n + cell_bytes)\<rparr>))))"

text \<open>Jumps are relative to the instruction, whose two cells \<open>CIP\<close> has passed.\<close>

definition jump_by :: "cell \<Rightarrow> 'w amx \<Rightarrow> 'w amx" where
  "jump_by a s = s\<lparr>CIP := CIP s - 2 * cell_bytes + a\<rparr>"

definition op_call :: "'w amx \<Rightarrow> 'w amx outcome" where
  "op_call s = OPERAND s (\<lambda>a s. PUSH (CIP s) s (\<lambda>s. Ok (jump_by a s)))"

definition op_jump :: "'w amx \<Rightarrow> 'w amx outcome" where
  "op_jump s = OPERAND s (\<lambda>a s. Ok (jump_by a s))"

definition op_jzer :: "'w amx \<Rightarrow> 'w amx outcome" where
  "op_jzer s = OPERAND s (\<lambda>a s. Ok (if PRI s = 0 then jump_by a s else s))"

definition op_jnz :: "'w amx \<Rightarrow> 'w amx outcome" where
  "op_jnz s = OPERAND s (\<lambda>a s. Ok (if PRI s \<noteq> 0 then jump_by a s else s))"

definition op_halt :: "'w amx \<Rightarrow> 'w amx outcome" where
  "op_halt s = OPERAND s (\<lambda>a s. Err Halt (s\<lparr>PRI := a\<rparr>))"

definition op_bounds :: "'w amx \<Rightarrow> 'w amx outcome" where
  "op_bounds s = OPERAND s (\<lambda>a s. if PRI s > a then Err Bounds s else Ok s)"

definition OP_CASETBL :: cell where "OP_CASETBL = 74"

function switch_loop :: "cell \<Rightarrow> cell \<Rightarrow> 'w amx \<Rightarrow> 'w amx outcome" where
  "switch_loop count t s = (if count = 0 then Ok s
     else CODEDATA t s (\<lambda>p. deref p s (\<lambda>test_val.
       CODEDATA (t + cell_bytes) s (\<lambda>p. deref p s (\<lambda>match_cip.
         let t = t + 2 * cell_bytes in
         if PRI s = test_val then Ok (s\<lparr>CIP := t - cell_bytes * 2 + match_cip\<rparr>)
         else switch_loop (count - 1) t s)))))"
  by pat_completeness auto
termination
  by (relation "measure (\<lambda>(count, _). unat count)") (auto simp: unat_gt_0 measure_unat)

definition op_switch :: "'w amx \<Rightarrow> 'w amx outcome" where
  "op_switch s = OPERAND s (\<lambda>a s.
     let t = CIP s - 2 * cell_bytes + a in
     CODEDATA t s (\<lambda>p. deref p s (\<lambda>x. if x \<noteq> OP_CASETBL then Err Invalid_operand s else
       CODEDATA (t + cell_bytes) s (\<lambda>p. deref p s (\<lambda>record_count.
         CODEDATA (t + 2 * cell_bytes) s (\<lambda>p. deref p s (\<lambda>no_match.
           let t = t + 3 * cell_bytes in
           switch_loop record_count t (s\<lparr>CIP := t - cell_bytes * 2 + no_match\<rparr>))))))))"

section \<open>Arithmetic\<close>

definition cell_bits :: nat where "cell_bits = 64"

definition min_scell :: cell where "min_scell = push_bit 63 1"

text \<open>\<open>(cell)i\<close> for a signed result, which must fit the signed cell.\<close>

definition from_scell :: "int \<Rightarrow> (cell \<Rightarrow> 'w amx outcome) \<Rightarrow> 'w amx outcome" where
  "from_scell i k = (if - (2 ^ 63) \<le> i \<and> i < 2 ^ 63 then k (word_of_int i) else Undefined Signed_overflow)"

definition shift_by :: "cell \<Rightarrow> (nat \<Rightarrow> 'w amx outcome) \<Rightarrow> 'w amx outcome" where
  "shift_by n k = (if unat n < cell_bits then k (unat n) else Undefined Bad_shift)"

definition op_shl :: "'w amx \<Rightarrow> 'w amx outcome" where
  "op_shl s = shift_by (ALT s) (\<lambda>n. Ok (s\<lparr>PRI := push_bit n (PRI s)\<rparr>))"

definition op_shr :: "'w amx \<Rightarrow> 'w amx outcome" where
  "op_shr s = shift_by (ALT s) (\<lambda>n. Ok (s\<lparr>PRI := drop_bit n (PRI s)\<rparr>))"

definition op_sshr :: "'w amx \<Rightarrow> 'w amx outcome" where
  "op_sshr s = shift_by (ALT s) (\<lambda>n. Ok (s\<lparr>PRI := signed_drop_bit n (PRI s)\<rparr>))"

definition op_shl_c_pri :: "'w amx \<Rightarrow> 'w amx outcome" where
  "op_shl_c_pri s = OPERAND s (\<lambda>a s. shift_by a (\<lambda>n. Ok (s\<lparr>PRI := push_bit n (PRI s)\<rparr>)))"

definition op_shl_c_alt :: "'w amx \<Rightarrow> 'w amx outcome" where
  "op_shl_c_alt s = OPERAND s (\<lambda>a s. shift_by a (\<lambda>n. Ok (s\<lparr>ALT := push_bit n (ALT s)\<rparr>)))"

definition op_smul :: "'w amx \<Rightarrow> 'w amx outcome" where
  "op_smul s = from_scell (sint (PRI s) * sint (ALT s)) (\<lambda>r. Ok (s\<lparr>PRI := r\<rparr>))"

text \<open>Quotient and remainder of C++, towards zero; both are undefined for a zero divisor, and where the quotient does not fit.\<close>

definition div_scell :: "cell \<Rightarrow> cell \<Rightarrow> (cell \<Rightarrow> 'w amx outcome) \<Rightarrow> 'w amx outcome" where
  "div_scell a d k = (if d = 0 then Undefined Zero_divisor else from_scell (sint a sdiv sint d) k)"

definition mod_scell :: "cell \<Rightarrow> cell \<Rightarrow> (cell \<Rightarrow> 'w amx outcome) \<Rightarrow> 'w amx outcome" where
  "mod_scell a d k = (if d = 0 then Undefined Zero_divisor
     else from_scell (sint a sdiv sint d) (\<lambda>_. k (word_of_int (sint a smod sint d))))"

text \<open>A remainder of the wrong sign is corrected.\<close>

definition op_sdiv :: "'w amx \<Rightarrow> 'w amx outcome" where
  "op_sdiv s = (if PRI s = 0 then Err Division_with_zero s
     else let d = PRI s in
       div_scell (ALT s) d (\<lambda>q. let s = s\<lparr>PRI := q\<rparr> in
       mod_scell (ALT s) d (\<lambda>r. let s = s\<lparr>ALT := r\<rparr> in
         if ALT s \<noteq> 0 \<and> sint (ALT s XOR d) < 0 then Ok (s\<lparr>PRI := PRI s - 1, ALT := ALT s + d\<rparr>) else Ok s)))"

definition op_add :: "'w amx \<Rightarrow> 'w amx outcome" where "op_add s = Ok (s\<lparr>PRI := PRI s + ALT s\<rparr>)"
definition op_sub :: "'w amx \<Rightarrow> 'w amx outcome" where "op_sub s = Ok (s\<lparr>PRI := ALT s - PRI s\<rparr>)"
definition op_and :: "'w amx \<Rightarrow> 'w amx outcome" where "op_and s = Ok (s\<lparr>PRI := PRI s AND ALT s\<rparr>)"
definition op_or :: "'w amx \<Rightarrow> 'w amx outcome" where "op_or s = Ok (s\<lparr>PRI := PRI s OR ALT s\<rparr>)"
definition op_xor :: "'w amx \<Rightarrow> 'w amx outcome" where "op_xor s = Ok (s\<lparr>PRI := PRI s XOR ALT s\<rparr>)"

definition op_not :: "'w amx \<Rightarrow> 'w amx outcome" where
  "op_not s = Ok (s\<lparr>PRI := of_bool (PRI s = 0)\<rparr>)"

definition op_neg :: "'w amx \<Rightarrow> 'w amx outcome" where
  "op_neg s = from_scell (- sint (PRI s)) (\<lambda>r. Ok (s\<lparr>PRI := r\<rparr>))"

definition op_invert :: "'w amx \<Rightarrow> 'w amx outcome" where "op_invert s = Ok (s\<lparr>PRI := NOT (PRI s)\<rparr>)"

definition op_eq :: "'w amx \<Rightarrow> 'w amx outcome" where "op_eq s = Ok (s\<lparr>PRI := of_bool (PRI s = ALT s)\<rparr>)"
definition op_neq :: "'w amx \<Rightarrow> 'w amx outcome" where "op_neq s = Ok (s\<lparr>PRI := of_bool (PRI s \<noteq> ALT s)\<rparr>)"
definition op_sless :: "'w amx \<Rightarrow> 'w amx outcome" where "op_sless s = Ok (s\<lparr>PRI := of_bool (sint (PRI s) < sint (ALT s))\<rparr>)"
definition op_sleq :: "'w amx \<Rightarrow> 'w amx outcome" where "op_sleq s = Ok (s\<lparr>PRI := of_bool (sint (PRI s) \<le> sint (ALT s))\<rparr>)"
definition op_sgrtr :: "'w amx \<Rightarrow> 'w amx outcome" where "op_sgrtr s = Ok (s\<lparr>PRI := of_bool (sint (PRI s) > sint (ALT s))\<rparr>)"
definition op_sgeq :: "'w amx \<Rightarrow> 'w amx outcome" where "op_sgeq s = Ok (s\<lparr>PRI := of_bool (sint (PRI s) \<ge> sint (ALT s))\<rparr>)"

definition op_inc_pri :: "'w amx \<Rightarrow> 'w amx outcome" where "op_inc_pri s = Ok (s\<lparr>PRI := PRI s + 1\<rparr>)"
definition op_inc_alt :: "'w amx \<Rightarrow> 'w amx outcome" where "op_inc_alt s = Ok (s\<lparr>ALT := ALT s + 1\<rparr>)"
definition op_dec_pri :: "'w amx \<Rightarrow> 'w amx outcome" where "op_dec_pri s = Ok (s\<lparr>PRI := PRI s - 1\<rparr>)"
definition op_dec_alt :: "'w amx \<Rightarrow> 'w amx outcome" where "op_dec_alt s = Ok (s\<lparr>ALT := ALT s - 1\<rparr>)"

definition op_inc_i :: "'w amx \<Rightarrow> 'w amx outcome" where
  "op_inc_i s = DATA (PRI s) s (\<lambda>p. deref p s (\<lambda>x. assign p (x + 1) s Ok))"

definition op_dec_i :: "'w amx \<Rightarrow> 'w amx outcome" where
  "op_dec_i s = DATA (PRI s) s (\<lambda>p. deref p s (\<lambda>x. assign p (x - 1) s Ok))"

section \<open>Block operations\<close>

text \<open>
  \<open>for (cell i = 0; go && i < n; i += cell_bytes) body\<close>. When \<open>n\<close> is within a cell of \<open>2 ^ 64\<close> the counter
  wraps to 0 instead of reaching it. A full pass has then succeeded at every address, and whether an access
  succeeds does not depend on the contents, so the loop does not end: \<open>Diverges\<close>.
\<close>

function block_loop :: "('w amx \<Rightarrow> bool) \<Rightarrow> (cell \<Rightarrow> 'w amx \<Rightarrow> 'w amx outcome) \<Rightarrow> cell \<Rightarrow> cell \<Rightarrow> 'w amx \<Rightarrow> 'w amx outcome" where
  "block_loop go body n i s = (if go s \<and> i < n then
     (case body i s of
        Ok s' \<Rightarrow> if i + cell_bytes < i then (if go s' then Diverges else Ok s')
                 else block_loop go body n (i + cell_bytes) s'
      | out \<Rightarrow> out)
   else Ok s)"
  by pat_completeness auto
termination
proof (relation "measure (\<lambda>(go, body, n, i, s). 2 ^ 64 - unat i)")
  fix go :: "'w amx \<Rightarrow> bool" and body n i s s'
  assume "\<not> i + cell_bytes < i"
  then have "i < i + cell_bytes" by (simp add: cell_bytes_def order.strict_iff_order not_less)
  then show "((go, body, n, i + cell_bytes, s'), (go, body, n, i, s)) \<in> measure (\<lambda>(go, body, n, i, s). 2 ^ 64 - unat i)"
    using unsigned_less [where 'a = nat, of "i + cell_bytes"] by (simp add: word_less_nat_alt)
qed simp

declare block_loop.simps [simp del] switch_loop.simps [simp del]

definition op_movs :: "'w amx \<Rightarrow> 'w amx outcome" where
  "op_movs s = OPERAND s (\<lambda>n s. block_loop (\<lambda>_. True)
     (\<lambda>i s. load (PRI s + i) s (\<lambda>tmp. store (ALT s + i) tmp s Ok)) n 0 s)"

text \<open>\<open>PRI\<close> is the result and the address of the first block at once.\<close>

definition op_cmps :: "'w amx \<Rightarrow> 'w amx outcome" where
  "op_cmps s = OPERAND s (\<lambda>n s. block_loop (\<lambda>s. PRI s = 0)
     (\<lambda>i s. load (PRI s + i) s (\<lambda>tmp. load (ALT s + i) s (\<lambda>x. Ok (s\<lparr>PRI := x - tmp\<rparr>)))) n 0 (s\<lparr>PRI := 0\<rparr>))"

definition op_fill :: "'w amx \<Rightarrow> 'w amx outcome" where
  "op_fill s = OPERAND s (\<lambda>n s. block_loop (\<lambda>_. True) (\<lambda>i s. store (ALT s + i) (PRI s) s Ok) n 0 s)"

section \<open>Callbacks\<close>

text \<open>The callback is the driver's: a native function, or a debug event. It may do anything to the machine
  and the world, and its return value is reached through \<open>PRI\<close>.\<close>

type_synonym 'w callback = "cell \<Rightarrow> cell \<Rightarrow> 'w amx \<Rightarrow> 'w amx outcome"

definition cbid_single_step :: cell where "cbid_single_step = - 1"
definition cbid_break :: cell where "cbid_break = - 2"

definition restore_registers :: "'w amx \<Rightarrow> 'w amx \<Rightarrow> 'w amx" where
  "restore_registers s s1 = s1\<lparr>ALT := ALT s, FRM := FRM s, CIP := CIP s, STP := STP s, STK := STK s\<rparr>"

definition fire_callback :: "'w callback \<Rightarrow> cell \<Rightarrow> 'w amx \<Rightarrow> 'w amx outcome" where
  "fire_callback cb index s = (case cb index (STK s) s of
       Ok s1 \<Rightarrow> Ok (restore_registers s s1)
     | Err e s1 \<Rightarrow> Err e (restore_registers s s1)
     | out \<Rightarrow> out)"

definition op_sysreq :: "'w callback \<Rightarrow> 'w amx \<Rightarrow> 'w amx outcome" where
  "op_sysreq cb s = OPERAND s (\<lambda>a s. fire_callback cb a s)"

definition op_break :: "'w callback \<Rightarrow> 'w amx \<Rightarrow> 'w amx outcome" where
  "op_break cb s = fire_callback cb cbid_break s"

section \<open>The instruction step\<close>

datatype (plugins only: size) opcode = NOP | LOAD_PRI | LOAD_ALT | LOAD_S_PRI | LOAD_S_ALT | LREF_S_PRI | LREF_S_ALT | LOAD_I | LODB_I
  | CONST_PRI | CONST_ALT | ADDR_PRI | ADDR_ALT | STOR | STOR_S | SREF_S | STOR_I | STRB_I | ALIGN_PRI | LCTRL | SCTRL
  | XCHG | PUSH_PRI | PUSH_ALT | PUSHR_PRI | POP_PRI | POP_ALT | PICK | STACK | HEAP | PROC | RET | RETN | CALL | JUMP
  | JZER | JNZ | SHL | SHR | SSHR | SHL_C_PRI | SHL_C_ALT | SMUL | SDIV | ADD | SUB | OP_AND | OP_OR | OP_XOR | OP_NOT
  | NEG | INVERT | EQ | NEQ | SLESS | SLEQ | SGRTR | SGEQ | INC_PRI | INC_ALT | INC_I | DEC_PRI | DEC_ALT | DEC_I
  | MOVS | CMPS | FILL | HALT | BOUNDS | SYSREQ | SWITCH | SWAP_PRI | SWAP_ALT | BREAK | CASETBL

definition opcodes :: "opcode list" where
  "opcodes = [NOP, LOAD_PRI, LOAD_ALT, LOAD_S_PRI, LOAD_S_ALT, LREF_S_PRI, LREF_S_ALT, LOAD_I, LODB_I,
     CONST_PRI, CONST_ALT, ADDR_PRI, ADDR_ALT, STOR, STOR_S, SREF_S, STOR_I, STRB_I, ALIGN_PRI, LCTRL, SCTRL,
     XCHG, PUSH_PRI, PUSH_ALT, PUSHR_PRI, POP_PRI, POP_ALT, PICK, STACK, HEAP, PROC, RET, RETN, CALL, JUMP,
     JZER, JNZ, SHL, SHR, SSHR, SHL_C_PRI, SHL_C_ALT, SMUL, SDIV, ADD, SUB, OP_AND, OP_OR, OP_XOR, OP_NOT,
     NEG, INVERT, EQ, NEQ, SLESS, SLEQ, SGRTR, SGEQ, INC_PRI, INC_ALT, INC_I, DEC_PRI, DEC_ALT, DEC_I,
     MOVS, CMPS, FILL, HALT, BOUNDS, SYSREQ, SWITCH, SWAP_PRI, SWAP_ALT, BREAK, CASETBL]"

definition decode :: "cell \<Rightarrow> opcode option" where
  "decode c = (if unat c < length opcodes then Some (opcodes ! unat c) else None)"

primrec exec :: "'w callback \<Rightarrow> opcode \<Rightarrow> 'w amx \<Rightarrow> 'w amx outcome" where
  "exec cb NOP s = Ok s"
| "exec cb LOAD_PRI s = op_load_pri s" | "exec cb LOAD_ALT s = op_load_alt s"
| "exec cb LOAD_S_PRI s = op_load_s_pri s" | "exec cb LOAD_S_ALT s = op_load_s_alt s"
| "exec cb LREF_S_PRI s = op_lref_s_pri s" | "exec cb LREF_S_ALT s = op_lref_s_alt s"
| "exec cb LOAD_I s = op_load_i s" | "exec cb LODB_I s = op_lodb_i s"
| "exec cb CONST_PRI s = op_const_pri s" | "exec cb CONST_ALT s = op_const_alt s"
| "exec cb ADDR_PRI s = op_addr_pri s" | "exec cb ADDR_ALT s = op_addr_alt s"
| "exec cb STOR s = op_stor s" | "exec cb STOR_S s = op_stor_s s" | "exec cb SREF_S s = op_sref_s s"
| "exec cb STOR_I s = op_stor_i s" | "exec cb STRB_I s = op_strb_i s" | "exec cb ALIGN_PRI s = op_align_pri s"
| "exec cb LCTRL s = op_lctrl s" | "exec cb SCTRL s = op_sctrl s" | "exec cb XCHG s = op_xchg s"
| "exec cb PUSH_PRI s = op_push_pri s" | "exec cb PUSH_ALT s = op_push_alt s" | "exec cb PUSHR_PRI s = op_pushr_pri s"
| "exec cb POP_PRI s = op_pop_pri s" | "exec cb POP_ALT s = op_pop_alt s" | "exec cb PICK s = op_pick s"
| "exec cb STACK s = op_stack s" | "exec cb HEAP s = op_heap s" | "exec cb PROC s = op_proc s"
| "exec cb RET s = op_ret s" | "exec cb RETN s = op_retn s" | "exec cb CALL s = op_call s"
| "exec cb JUMP s = op_jump s" | "exec cb JZER s = op_jzer s" | "exec cb JNZ s = op_jnz s"
| "exec cb SHL s = op_shl s" | "exec cb SHR s = op_shr s" | "exec cb SSHR s = op_sshr s"
| "exec cb SHL_C_PRI s = op_shl_c_pri s" | "exec cb SHL_C_ALT s = op_shl_c_alt s"
| "exec cb SMUL s = op_smul s" | "exec cb SDIV s = op_sdiv s" | "exec cb ADD s = op_add s" | "exec cb SUB s = op_sub s"
| "exec cb OP_AND s = op_and s" | "exec cb OP_OR s = op_or s" | "exec cb OP_XOR s = op_xor s"
| "exec cb OP_NOT s = op_not s" | "exec cb NEG s = op_neg s" | "exec cb INVERT s = op_invert s"
| "exec cb EQ s = op_eq s" | "exec cb NEQ s = op_neq s" | "exec cb SLESS s = op_sless s" | "exec cb SLEQ s = op_sleq s"
| "exec cb SGRTR s = op_sgrtr s" | "exec cb SGEQ s = op_sgeq s"
| "exec cb INC_PRI s = op_inc_pri s" | "exec cb INC_ALT s = op_inc_alt s" | "exec cb INC_I s = op_inc_i s"
| "exec cb DEC_PRI s = op_dec_pri s" | "exec cb DEC_ALT s = op_dec_alt s" | "exec cb DEC_I s = op_dec_i s"
| "exec cb MOVS s = op_movs s" | "exec cb CMPS s = op_cmps s" | "exec cb FILL s = op_fill s"
| "exec cb HALT s = op_halt s" | "exec cb BOUNDS s = op_bounds s" | "exec cb SYSREQ s = op_sysreq cb s"
| "exec cb SWITCH s = op_switch s" | "exec cb SWAP_PRI s = op_swap_pri s" | "exec cb SWAP_ALT s = op_swap_alt s"
| "exec cb BREAK s = op_break cb s"
| "exec cb CASETBL s = Err Invalid_instruction s"

definition step :: "'w callback \<Rightarrow> 'w amx \<Rightarrow> 'w amx outcome" where
  "step cb s = OPERAND s (\<lambda>c s. case decode c of None \<Rightarrow> Err Invalid_instruction s | Some opc \<Rightarrow> exec cb opc s)"

section \<open>Calling a function\<close>

definition push :: "cell \<Rightarrow> 'w amx \<Rightarrow> 'w amx outcome" where
  "push v s = (let s' = s\<lparr>STK := STK s - cell_bytes\<rparr> in
     case data_v2p s' (STK s') of None \<Rightarrow> Err Access_violation s' | Some p \<Rightarrow> assign p v s' Ok)"

definition pop :: "'w amx \<Rightarrow> (cell \<Rightarrow> 'w amx \<Rightarrow> 'w amx outcome) \<Rightarrow> 'w amx outcome" where
  "pop s k = POP s k"

text \<open>The loop of \<open>call_raw\<close>: until the function returns to address 0. \<open>None\<close> is a run that never ends.\<close>

partial_function (option) run :: "'w callback \<Rightarrow> 'w amx \<Rightarrow> 'w amx outcome option" where
  "run cb s = (if CIP s = 0 then Some (Ok s)
     else case fire_callback cb cbid_single_step s of
         Ok s1 \<Rightarrow> (case step cb s1 of Ok s2 \<Rightarrow> run cb s2 | out \<Rightarrow> Some out)
       | out \<Rightarrow> Some out)"

text \<open>The value returned through \<open>pri\<close> is \<open>PRI\<close> of the final state, errors included.\<close>

definition call_raw :: "'w callback \<Rightarrow> cell \<Rightarrow> 'w amx \<Rightarrow> 'w amx outcome option" where
  "call_raw cb cip s = (case push 0 s of
       Ok s1 \<Rightarrow> run cb (s1\<lparr>CIP := cip\<rparr>)
     | Err e s1 \<Rightarrow> Some (Err e (s1\<lparr>CIP := cip\<rparr>))
     | out \<Rightarrow> Some out)"

fun push_all :: "cell list \<Rightarrow> 'w amx \<Rightarrow> 'w amx outcome" where
  "push_all [] s = Ok s"
| "push_all (v # vs) s = (case push v s of Ok s1 \<Rightarrow> push_all vs s1 | out \<Rightarrow> out)"

definition amx_call :: "'w callback \<Rightarrow> cell \<Rightarrow> cell list \<Rightarrow> 'w amx \<Rightarrow> 'w amx outcome option" where
  "amx_call cb cip args s = (case push_all (rev args) s of
       Ok s1 \<Rightarrow> (case push (of_nat (length args) * cell_bytes) s1 of
           Ok s2 \<Rightarrow> call_raw cb cip s2 | out \<Rightarrow> Some out)
     | out \<Rightarrow> Some out)"

end
