(* ===== verification/Amx_Safety.thy ===== *)
theory Amx_Safety
  imports Amx_Machine
begin

text \<open>
  Isolation of the abstract machine: whatever the script does, the interpreter touches the host's memory only
  through the mappings. \<open>confined s0 s\<close> relates the machine to the one it started from: same mappings and
  segment registers, same buffers with the same sizes, and every cell outside the mapped data unchanged.
\<close>

section \<open>Confinement\<close>

definition mapped :: "'w amx \<Rightarrow> hptr \<Rightarrow> bool" where
  "mapped s p \<longleftrightarrow> (\<exists>a. paged_translate (data_mem s) a = Some p)"

definition code_mapped :: "'w amx \<Rightarrow> hptr \<Rightarrow> bool" where
  "code_mapped s p \<longleftrightarrow> (\<exists>a. contiguous_translate (code_mem s) a = Some p)"

text \<open>Every translation lands inside a buffer of the host.\<close>

definition well_mapped :: "'w amx \<Rightarrow> bool" where
  "well_mapped s \<longleftrightarrow> (\<forall>p. mapped s p \<or> code_mapped s p \<longrightarrow> host_read s p \<noteq> None)"

definition confined :: "'w amx \<Rightarrow> 'w amx \<Rightarrow> bool" where
  "confined s0 s \<longleftrightarrow> well_mapped s0 \<and>
     code_mem s = code_mem s0 \<and> data_mem s = data_mem s0 \<and> DAT s = DAT s0 \<and> COD s = COD s0 \<and> STP s = STP s0 \<and>
     (\<forall>b. map_option length (host s b) = map_option length (host s0 b)) \<and>
     (\<forall>p. \<not> mapped s0 p \<longrightarrow> host_read s p = host_read s0 p)"

lemma confined_refl: "well_mapped s \<Longrightarrow> confined s s"
  by (simp add: confined_def)

lemma confined_updates [simp]:
  "confined s0 (s\<lparr>PRI := x\<rparr>) = confined s0 s" "confined s0 (s\<lparr>ALT := x\<rparr>) = confined s0 s"
  "confined s0 (s\<lparr>FRM := x\<rparr>) = confined s0 s" "confined s0 (s\<lparr>CIP := x\<rparr>) = confined s0 s"
  "confined s0 (s\<lparr>STK := x\<rparr>) = confined s0 s" "confined s0 (s\<lparr>HEA := x\<rparr>) = confined s0 s"
  "confined s0 (s\<lparr>world := w\<rparr>) = confined s0 s"
  by (simp_all add: confined_def host_read_def)

lemma confined_jump_by [simp]: "confined s0 (jump_by a s) = confined s0 s"
  by (simp add: jump_by_def)

lemma host_read_None: "host_read s p = None \<longleftrightarrow> (case map_option length (host s (block p)) of
    None \<Rightarrow> True | Some n \<Rightarrow> n \<le> cell_at p)"
  by (auto simp: host_read_def nth_def_def split: option.split)

lemma confined_trans: "confined s0 s1 \<Longrightarrow> confined s1 s2 \<Longrightarrow> confined s0 s2"
  by (simp add: confined_def mapped_def)

lemma confined_well_mapped: "confined s0 s \<Longrightarrow> well_mapped s"
  unfolding well_mapped_def confined_def mapped_def code_mapped_def host_read_None by simp

lemma confined_read: "confined s0 s \<Longrightarrow> mapped s0 p \<or> code_mapped s0 p \<Longrightarrow> \<exists>x. host_read s p = Some x"
  using confined_well_mapped [of s0 s] unfolding well_mapped_def
  by (simp add: confined_def mapped_def code_mapped_def) blast

lemma host_write_cases:
  assumes "host_read s p = Some x"
  obtains xs where "host s (block p) = Some xs" "cell_at p < length xs"
    "host_write p v s = Some (s\<lparr>host := (host s)(block p \<mapsto> xs[cell_at p := v])\<rparr>)"
  using assms by (auto simp: host_read_def host_write_def nth_def_eq_Some_iff bind_eq_Some_conv)

lemma host_read_write:
  assumes "host_write p v s = Some s'"
  shows "host_read s' q = (if q = p then Some v else host_read s q)"
  using assms
  by (cases p; cases q) (auto simp: host_write_def host_read_def upd_def_eq_Some_iff bind_eq_Some_conv
      nth_def_def nth_list_update)

lemma confined_write:
  assumes "confined s0 s" "mapped s0 p"
  shows "\<exists>s'. host_write p v s = Some s' \<and> confined s0 s'"
proof -
  obtain x where "host_read s p = Some x" using confined_read [OF assms(1)] assms(2) by blast
  then obtain xs where xs: "host s (block p) = Some xs"
      "host_write p v s = Some (s\<lparr>host := (host s)(block p \<mapsto> xs[cell_at p := v])\<rparr>)"
    by (rule host_write_cases)
  have "map_option length (host s (block p)) = map_option length (host s0 (block p))"
    using assms(1) unfolding confined_def by blast
  then have "map_option length (host s0 (block p)) = Some (length xs)" using xs(1) by simp
  then have "confined s0 (s\<lparr>host := (host s)(block p \<mapsto> xs[cell_at p := v])\<rparr>)"
    unfolding confined_def host_read_write [OF xs(2)]
    using assms xs(1) by (auto simp: confined_def)
  with xs(2) show ?thesis by blast
qed

section \<open>Outcomes that respect the host\<close>

definition safe :: "'w amx \<Rightarrow> 'w amx outcome \<Rightarrow> bool" where
  "safe s0 out \<longleftrightarrow> (case out of Ok s \<Rightarrow> confined s0 s | Err e s \<Rightarrow> confined s0 s
     | Undefined u \<Rightarrow> u \<noteq> Bad_access | Diverges \<Rightarrow> True)"

named_theorems safe_intros \<open>how the pieces of an instruction respect the host\<close>

lemma safe_simps [simp]:
  "safe s0 (Ok s) = confined s0 s" "safe s0 (Err e s) = confined s0 s"
  "safe s0 (Undefined u) = (u \<noteq> Bad_access)" "safe s0 Diverges"
  by (simp_all add: safe_def)

lemma safe_deref [safe_intros]:
  assumes "confined s0 s" "mapped s0 p \<or> code_mapped s0 p" "\<And>x. safe s0 (k x)"
  shows "safe s0 (deref p s k)"
  using confined_read [OF assms(1,2)] assms(3) by (auto simp: deref_def)

lemma safe_assign [safe_intros]:
  assumes "confined s0 s" "mapped s0 p" "\<And>s'. confined s0 s' \<Longrightarrow> safe s0 (k s')"
  shows "safe s0 (assign p v s k)"
  using confined_write [OF assms(1,2), of v] assms(3) by (auto simp: assign_def)

lemma safe_DATA [safe_intros]:
  assumes "confined s0 s" "\<And>p. mapped s0 p \<Longrightarrow> safe s0 (k p)"
  shows "safe s0 (DATA v s k)"
proof (cases "data_v2p s v")
  case (Some p)
  then have "mapped s0 p" using assms(1) by (auto simp: data_v2p_def mapped_def confined_def)
  with assms(2) Some show ?thesis by (simp add: DATA_def)
qed (use assms(1) in \<open>simp add: DATA_def\<close>)

lemma code_v2p_mapped: "confined s0 s \<Longrightarrow> code_v2p s v = Some p \<Longrightarrow> code_mapped s0 p"
  by (auto simp: code_v2p_def code_mapped_def confined_def)

lemma safe_CODEDATA [safe_intros]:
  assumes "confined s0 s" "\<And>p. code_mapped s0 p \<Longrightarrow> safe s0 (k p)"
  shows "safe s0 (CODEDATA v s k)"
  using assms code_v2p_mapped [OF assms(1), of v] by (cases "code_v2p s v") (auto simp: CODEDATA_def)

lemma safe_OPERAND [safe_intros]:
  assumes "confined s0 s" "\<And>x s'. confined s0 s' \<Longrightarrow> safe s0 (k x s')"
  shows "safe s0 (OPERAND s k)"
proof (cases "code_v2p s (CIP s)")
  case (Some p)
  have "safe s0 (deref p (s\<lparr>CIP := CIP s + cell_bytes\<rparr>) (\<lambda>x. k x (s\<lparr>CIP := CIP s + cell_bytes\<rparr>)))"
    by (rule safe_deref) (use assms code_v2p_mapped [OF assms(1) Some] in auto)
  with Some show ?thesis by (simp add: OPERAND_def Let_def)
qed (use assms(1) in \<open>simp add: OPERAND_def Let_def\<close>)

lemma safe_PUSH [safe_intros]:
  assumes "confined s0 s" "\<And>s'. confined s0 s' \<Longrightarrow> safe s0 (k s')"
  shows "safe s0 (PUSH v s k)"
  unfolding PUSH_def Let_def by (intro safe_intros) (use assms in auto)

lemma safe_POP [safe_intros]:
  assumes "confined s0 s" "\<And>x s'. confined s0 s' \<Longrightarrow> safe s0 (k x s')"
  shows "safe s0 (POP s k)"
  unfolding POP_def by (intro safe_intros) (use assms in auto)

lemma safe_load [safe_intros]:
  assumes "confined s0 s" "\<And>x. safe s0 (k x)"
  shows "safe s0 (load v s k)"
  unfolding load_def by (intro safe_intros) (use assms in auto)

lemma safe_store [safe_intros]:
  assumes "confined s0 s" "\<And>s'. confined s0 s' \<Longrightarrow> safe s0 (k s')"
  shows "safe s0 (store v x s k)"
  unfolding store_def by (intro safe_intros) (use assms in auto)

lemma safe_subcell [safe_intros]:
  assumes "confined s0 s" "\<And>p m. mapped s0 p \<Longrightarrow> safe s0 (k p m)"
  shows "safe s0 (subcell a n s k)"
  unfolding subcell_def Let_def using assms by (auto intro!: safe_DATA split: option.split)

lemma safe_from_scell [safe_intros]: "(\<And>r. safe s0 (k r)) \<Longrightarrow> safe s0 (from_scell i k)"
  by (simp add: from_scell_def)

lemma safe_div_scell [safe_intros]: "(\<And>r. safe s0 (k r)) \<Longrightarrow> safe s0 (div_scell a d k)"
  by (simp add: div_scell_def from_scell_def)

lemma safe_mod_scell [safe_intros]: "(\<And>r. safe s0 (k r)) \<Longrightarrow> safe s0 (mod_scell a d k)"
  by (simp add: mod_scell_def from_scell_def)

lemma safe_shift_by [safe_intros]: "(\<And>n. safe s0 (k n)) \<Longrightarrow> safe s0 (shift_by w k)"
  by (simp add: shift_by_def)

lemma safe_switch_loop [safe_intros]: "confined s0 s \<Longrightarrow> safe s0 (switch_loop n t s)"
proof (induction n t s rule: switch_loop.induct)
  case (1 n t s)
  show ?case
    by (subst switch_loop.simps) (auto intro!: safe_intros 1 simp: Let_def)
qed

lemma safe_block_loop:
  assumes "confined s0 s" "\<And>i s. confined s0 s \<Longrightarrow> safe s0 (body i s)"
  shows "safe s0 (block_loop go body n i s)"
  using assms
proof (induction go body n i s rule: block_loop.induct)
  case (1 go body n i s)
  have "safe s0 (body i s)" by (rule 1(3) [OF 1(2)])
  then show ?case
  proof (cases "body i s")
    case (Ok s')
    with \<open>safe s0 (body i s)\<close> have s': "confined s0 s'" by simp
    have "safe s0 (block_loop go body n (i + cell_bytes) s')"
      if "go s \<and> i < n" "\<not> i + cell_bytes < i"
      using 1(1) [OF that(1) Ok that(2) s' 1(3)] .
    with s' 1(2) Ok show ?thesis by (subst block_loop.simps) auto
  qed (use 1(2) in \<open>auto simp: block_loop.simps [of go body n i s]\<close>)
qed

lemmas load_ops = op_load_pri_def op_load_alt_def op_load_s_pri_def op_load_s_alt_def op_lref_s_pri_def
  op_lref_s_alt_def op_load_i_def op_lodb_i_def op_const_pri_def op_const_alt_def op_addr_pri_def op_addr_alt_def

lemmas store_ops = op_stor_def op_stor_s_def op_sref_s_def op_stor_i_def op_strb_i_def op_align_pri_def

lemmas register_ops = op_lctrl_def op_sctrl_def op_xchg_def op_push_pri_def op_push_alt_def op_pushr_pri_def
  op_pop_pri_def op_pop_alt_def op_pick_def op_stack_def op_heap_def op_swap_pri_def op_swap_alt_def

lemmas flow_ops = op_proc_def op_ret_def op_retn_def op_call_def op_jump_def op_jzer_def op_jnz_def op_halt_def
  op_bounds_def op_switch_def

lemmas alu_ops = op_shl_def op_shr_def op_sshr_def op_shl_c_pri_def op_shl_c_alt_def op_smul_def op_sdiv_def
  op_add_def op_sub_def op_and_def op_or_def op_xor_def op_not_def op_neg_def op_invert_def op_eq_def op_neq_def
  op_sless_def op_sleq_def op_sgrtr_def op_sgeq_def op_inc_pri_def op_inc_alt_def op_dec_pri_def op_dec_alt_def
  op_inc_i_def op_dec_i_def

lemmas block_ops = op_movs_def op_cmps_def op_fill_def

lemma safe_load_ops:
  assumes "confined s0 s"
  shows "safe s0 (op_load_pri s)" "safe s0 (op_load_alt s)" "safe s0 (op_load_s_pri s)" "safe s0 (op_load_s_alt s)"
    "safe s0 (op_lref_s_pri s)" "safe s0 (op_lref_s_alt s)" "safe s0 (op_load_i s)" "safe s0 (op_lodb_i s)"
    "safe s0 (op_const_pri s)" "safe s0 (op_const_alt s)" "safe s0 (op_addr_pri s)" "safe s0 (op_addr_alt s)"
  unfolding load_ops using assms by (auto intro!: safe_intros)

lemma safe_store_ops:
  assumes "confined s0 s"
  shows "safe s0 (op_stor s)" "safe s0 (op_stor_s s)" "safe s0 (op_sref_s s)" "safe s0 (op_stor_i s)"
    "safe s0 (op_strb_i s)" "safe s0 (op_align_pri s)"
  unfolding store_ops using assms by (auto intro!: safe_intros simp: Let_def)

lemma safe_register_ops:
  assumes "confined s0 s"
  shows "safe s0 (op_lctrl s)" "safe s0 (op_sctrl s)" "safe s0 (op_xchg s)" "safe s0 (op_push_pri s)"
    "safe s0 (op_push_alt s)" "safe s0 (op_pushr_pri s)" "safe s0 (op_pop_pri s)" "safe s0 (op_pop_alt s)"
    "safe s0 (op_pick s)" "safe s0 (op_stack s)" "safe s0 (op_heap s)" "safe s0 (op_swap_pri s)" "safe s0 (op_swap_alt s)"
  unfolding register_ops using assms by (auto intro!: safe_intros)

lemma safe_flow_ops:
  assumes "confined s0 s"
  shows "safe s0 (op_proc s)" "safe s0 (op_ret s)" "safe s0 (op_retn s)" "safe s0 (op_call s)"
    "safe s0 (op_jump s)" "safe s0 (op_jzer s)" "safe s0 (op_jnz s)" "safe s0 (op_halt s)" "safe s0 (op_bounds s)"
    "safe s0 (op_switch s)"
  unfolding flow_ops Let_def using assms by (auto intro!: safe_intros)

lemma safe_alu_ops:
  assumes "confined s0 s"
  shows "safe s0 (op_shl s)" "safe s0 (op_shr s)" "safe s0 (op_sshr s)" "safe s0 (op_shl_c_pri s)" "safe s0 (op_shl_c_alt s)"
    "safe s0 (op_smul s)" "safe s0 (op_sdiv s)" "safe s0 (op_add s)" "safe s0 (op_sub s)" "safe s0 (op_and s)"
    "safe s0 (op_or s)" "safe s0 (op_xor s)" "safe s0 (op_not s)" "safe s0 (op_neg s)" "safe s0 (op_invert s)"
    "safe s0 (op_eq s)" "safe s0 (op_neq s)" "safe s0 (op_sless s)" "safe s0 (op_sleq s)" "safe s0 (op_sgrtr s)"
    "safe s0 (op_sgeq s)" "safe s0 (op_inc_pri s)" "safe s0 (op_inc_alt s)" "safe s0 (op_dec_pri s)"
    "safe s0 (op_dec_alt s)" "safe s0 (op_inc_i s)" "safe s0 (op_dec_i s)"
  unfolding alu_ops Let_def using assms by (auto intro!: safe_intros)

lemma safe_block_ops:
  assumes "confined s0 s"
  shows "safe s0 (op_movs s)" "safe s0 (op_cmps s)" "safe s0 (op_fill s)"
  unfolding block_ops using assms by (auto intro!: safe_intros safe_block_loop)

section \<open>The callback\<close>

text \<open>What the driver's callback must promise: it keeps the machine confined too.\<close>

definition confined_callback :: "'w amx \<Rightarrow> 'w callback \<Rightarrow> bool" where
  "confined_callback s0 cb \<longleftrightarrow> (\<forall>index stk s. confined s0 s \<longrightarrow> safe s0 (cb index stk s))"

lemma safe_fire_callback [safe_intros]:
  assumes "confined_callback s0 cb" "confined s0 s"
  shows "safe s0 (fire_callback cb index s)"
proof -
  have cb: "safe s0 (cb index (STK s) s)"
    using assms unfolding confined_callback_def by blast
  have "confined s0 (restore_registers s s1)" if "confined s0 s1" for s1
  proof -
    have "STP s = STP s0" "STP s1 = STP s0" using assms(2) that by (simp_all add: confined_def)
    then have "restore_registers s s1 = s1\<lparr>ALT := ALT s, FRM := FRM s, CIP := CIP s, STK := STK s\<rparr>"
      by (simp add: restore_registers_def)
    with that show ?thesis by simp
  qed
  with cb show ?thesis by (cases "cb index (STK s) s") (simp_all add: fire_callback_def)
qed

section \<open>Steps, runs and calls\<close>

lemma safe_callback_ops:
  assumes "confined_callback s0 cb" "confined s0 s"
  shows "safe s0 (op_sysreq cb s)" "safe s0 (op_break cb s)"
  unfolding op_sysreq_def op_break_def using assms by (auto intro!: safe_intros)

lemmas safe_ops = safe_load_ops safe_store_ops safe_register_ops safe_flow_ops safe_alu_ops safe_block_ops
  safe_callback_ops

lemma safe_exec:
  assumes "confined_callback s0 cb" "confined s0 s"
  shows "safe s0 (exec cb opc s)"
  using assms by (cases opc) (simp_all add: safe_ops)

lemma safe_step [safe_intros]:
  assumes "confined_callback s0 cb" "confined s0 s"
  shows "safe s0 (step cb s)"
  unfolding step_def using assms by (auto intro!: safe_intros safe_exec split: option.split)

lemma safe_run:
  assumes "run cb s = Some out" "confined_callback s0 cb" "confined s0 s"
  shows "safe s0 out"
  using assms
proof (induction arbitrary: s0 rule: run.raw_induct [rotated, consumes 1, case_names unfold])
  case (unfold rec cb s out)
  show ?case
  proof (cases "fire_callback cb cbid_single_step s")
    case (Ok s1)
    then have s1: "confined s0 s1" using safe_fire_callback [OF unfold(3,4), of cbid_single_step] by simp
    show ?thesis
    proof (cases "step cb s1")
      case (Ok s2)
      then have "confined s0 s2" using safe_step [OF unfold(3) s1] by simp
      with unfold Ok \<open>fire_callback cb cbid_single_step s = Ok s1\<close> show ?thesis by (auto split: if_splits)
    qed (use unfold Ok s1 in \<open>auto split: if_splits intro!: safe_step\<close>)
  qed (use unfold in \<open>auto split: if_splits intro!: safe_fire_callback\<close>)
qed

lemma safe_push: "confined s0 s \<Longrightarrow> safe s0 (push v s)"
proof -
  assume "confined s0 s"
  have "push v s = PUSH v s Ok" by (simp add: push_def PUSH_def DATA_def Let_def)
  with \<open>confined s0 s\<close> show ?thesis by (auto intro!: safe_intros)
qed

lemma safe_push_all: "confined s0 s \<Longrightarrow> safe s0 (push_all vs s)"
proof (induction vs arbitrary: s)
  case (Cons v vs)
  then show ?case using safe_push [OF Cons.prems, of v] by (auto split: outcome.split)
qed simp

lemma safe_call_raw:
  assumes "call_raw cb cip s = Some out" "confined_callback s0 cb" "confined s0 s"
  shows "safe s0 out"
proof (cases "push 0 s")
  case (Ok s1)
  then have "confined s0 (s1\<lparr>CIP := cip\<rparr>)" using safe_push [OF assms(3), of 0] by simp
  moreover have "run cb (s1\<lparr>CIP := cip\<rparr>) = Some out" using assms(1) Ok by (simp add: call_raw_def)
  ultimately show ?thesis using safe_run assms(2) by blast
qed (use assms safe_push [OF assms(3), of 0] in \<open>auto simp: call_raw_def\<close>)

lemma safe_amx_call:
  assumes "amx_call cb cip args s = Some out" "confined_callback s cb" "well_mapped s"
  shows "safe s out"
proof -
  have c: "confined s s" by (rule confined_refl [OF assms(3)])
  show ?thesis
  proof (cases "push_all (rev args) s")
    case (Ok s1)
    then have s1: "confined s s1" using safe_push_all [OF c, of "rev args"] by simp
    show ?thesis
    proof (cases "push (of_nat (length args) * cell_bytes) s1")
      case (Ok s2)
      then have "confined s s2" using safe_push [OF s1, of "of_nat (length args) * cell_bytes"] by simp
      moreover have "call_raw cb cip s2 = Some out"
        using assms(1) Ok \<open>push_all (rev args) s = Ok s1\<close> by (simp add: amx_call_def)
      ultimately show ?thesis using safe_call_raw assms(2) by blast
    qed (use assms(1) Ok safe_push [OF s1, of "of_nat (length args) * cell_bytes"] in \<open>auto simp: amx_call_def\<close>)
  qed (use assms(1) safe_push_all [OF c, of "rev args"] in \<open>auto simp: amx_call_def\<close>)
qed


end
