(* ===== verification/Amx_Ops.thy ===== *)
theory Amx_Ops
  imports Amx_Safety
begin

text \<open>
  What the instructions of the abstract machine compute, and what a call does to the registers: a sample
  machine with its programs, the arithmetic of the signed instructions, parts of cells, the block operations,
  the case tables, the calling convention and the callback.
\<close>

section \<open>A machine to run\<close>

text \<open>
  A function of two arguments that adds them, behind the \<open>HALT\<close> the compiler puts at address 0:
  \<open>halt 0; proc; load.s.pri 24; load.s.alt 32; add; retn\<close>.
\<close>

definition add_code :: "cell list" where
  "add_code = [67, 0, 30, 3, 24, 4, 32, 44, 32]"

definition machine :: "cell list \<Rightarrow> u64 \<Rightarrow> cell list \<Rightarrow> u64 \<Rightarrow> 'w \<Rightarrow> 'w amx" where
  "machine code code_bytes data data_bytes w = \<lparr>PRI = 0, ALT = 0, FRM = 0, CIP = 0, DAT = 0, COD = 0,
     STP = data_bytes, STK = data_bytes, HEA = 0,
     code_mem = \<lparr>cbuf = Some \<lparr>block = 0, cell_at = 0\<rparr>, csize = code_bytes\<rparr>,
     data_mem = no_pages[0 := \<lparr>buf = Some \<lparr>block = 1, cell_at = 0\<rparr>, msize = data_bytes\<rparr>],
     host = [0 \<mapsto> code, 1 \<mapsto> data], world = w\<rparr>"

definition add_machine :: "unit amx" where
  "add_machine = machine add_code 72 (replicate 8 0) 64 ()"

definition quiet :: "'w callback" where
  "quiet index stk s = Ok s"

lemma quiet_confined: "confined_callback s quiet"
  by (simp add: confined_callback_def quiet_def)

lemma page_of_no_pages: "i < 32 \<Longrightarrow> page_of no_pages i off = None"
  by (simp add: page_of_def no_pages_def page_geometry no_mapping_def)

lemma page_number: "unat a div 2 ^ 59 < 32" for a :: cell
  using unsigned_less [where 'a = nat, of a] by (simp add: less_mult_imp_div_less)

lemma well_mapped_machine:
  assumes "unat cb \<le> 8 * length code" "unat db \<le> 8 * length data"
  shows "well_mapped (machine code cb data db w)"
proof -
  have "mapped (machine code cb data db w) p \<Longrightarrow> block p = 1 \<and> cell_at p < length data" for p
    using assms(2) page_of_no_pages [OF page_number]
    by (auto simp: mapped_def machine_def paged_translate_nat page_of_update split: if_splits)
  moreover have "code_mapped (machine code cb data db w) p \<Longrightarrow> block p = 0 \<and> cell_at p < length code" for p
    using assms(1) by (auto simp: code_mapped_def machine_def contiguous_translate_def not_le word_less_nat_alt
        unat_div_distrib unat_cell_bytes split: if_splits)
  ultimately show ?thesis
    by (auto simp: well_mapped_def host_read_def machine_def)
qed

lemmas machine_simps = OPERAND_def DATA_def PUSH_def POP_def load_def store_def deref_def assign_def
  code_v2p_def data_v2p_def host_read_def host_write_def contiguous_translate_def paged_translate_nat page_of_def
  cell_bytes_def hplus_def step_def decode_def opcodes_def fire_callback_def restore_registers_def quiet_def
  amx_call_def call_raw_def push_def machine_def no_pages_Cons

text \<open>The sample function, called by the driver with any two arguments, returns their sum modulo the cell,
  and leaves the stack where it was.\<close>

theorem add_program:
  "\<exists>s. amx_call quiet 16 [a, b] add_machine = Some (Ok s) \<and> PRI s = a + b \<and> STK s = STK add_machine \<and> FRM s = FRM add_machine"
  by (simp add: machine_simps add_machine_def add_code_def run.simps op_proc_def op_load_s_pri_def op_load_s_alt_def
      op_add_def op_retn_def)


section \<open>Signed arithmetic\<close>

lemma sint_xor_neg: "sint (a XOR b) < 0 \<longleftrightarrow> (sint a < 0) \<noteq> (sint b < 0)" for a b :: cell
  by (simp flip: bit_last_iff add: bit_simps)

lemma sint_word_of_int: "- (2 ^ 63) \<le> i \<Longrightarrow> i < 2 ^ 63 \<Longrightarrow> sint (word_of_int i :: cell) = i"
  by (simp add: signed_of_int signed_take_bit_int_eq_self)

lemma sint_cell_range: "- (2 ^ 63) \<le> sint (a :: cell)" "sint (a :: cell) < 2 ^ 63"
  using sint_range_size [of a] by (simp_all add: word_size)

lemma floor_from_trunc:
  assumes "d \<noteq> (0 :: int)"
  shows "a div d = a sdiv d - of_bool (a smod d \<noteq> 0 \<and> (a smod d < 0) \<noteq> (d < 0))"
    and "a mod d = a smod d + d * of_bool (a smod d \<noteq> 0 \<and> (a smod d < 0) \<noteq> (d < 0))"
proof -
  have nn: "0 \<le> x mod \<bar>d\<bar>" for x using assms by simp
  have "a smod d = 0 \<longleftrightarrow> d dvd a"
    by (simp add: signed_modulo_int_def mod_eq_0_iff_dvd sgn_if)
  moreover have "a smod d \<noteq> 0 \<Longrightarrow> a smod d < 0 \<longleftrightarrow> a < 0"
    using nn [of a] nn [of "- a"] by (auto simp: signed_modulo_int_def sgn_if)
  ultimately have "(a smod d \<noteq> 0 \<and> (a smod d < 0) \<noteq> (d < 0)) \<longleftrightarrow> (sgn a \<noteq> sgn d \<and> \<not> d dvd a)"
    using assms by (auto simp: sgn_if)
  then show "a div d = a sdiv d - of_bool (a smod d \<noteq> 0 \<and> (a smod d < 0) \<noteq> (d < 0))"
    and "a mod d = a smod d + d * of_bool (a smod d \<noteq> 0 \<and> (a smod d < 0) \<noteq> (d < 0))"
    using assms by (simp_all add: divide_int_eq_signed_divide_int modulo_int_eq_signed_modulo_int)
qed

text \<open>The quotient of two cells fits, but for the least cell divided by \<open>-1\<close>.\<close>

lemma div_range:
  assumes "- (2 ^ 63) \<le> a" "a < 2 ^ 63" "d \<noteq> (0 :: int)" "\<not> (a = - (2 ^ 63) \<and> d = - 1)"
  shows "- (2 ^ 63) \<le> a sdiv d \<and> a sdiv d < 2 ^ 63"
proof -
  have "\<bar>a sdiv d\<bar> \<le> \<bar>a\<bar>" using sdiv_int_range [of a d] by auto
  moreover have "a sdiv d \<noteq> 2 ^ 63"
  proof
    assume eq: "a sdiv d = 2 ^ 63"
    with \<open>\<bar>a sdiv d\<bar> \<le> \<bar>a\<bar>\<close> assms(1,2) have a: "a = - (2 ^ 63)" by auto
    then have "a sdiv d = - a" using eq by simp
    then have "d = - 1" using int_sdiv_negated_is_minus1 [of a d] a by auto
    with a assms(4) show False by simp
  qed
  ultimately show ?thesis using assms(1,2) by auto
qed

lemma op_sdiv_eq:
  "op_sdiv s = (if PRI s = 0 then Err Division_with_zero s
     else if sint (ALT s) = - (2 ^ 63) \<and> sint (PRI s) = - 1 then Undefined Signed_overflow
     else Ok (s\<lparr>PRI := word_of_int (sint (ALT s) div sint (PRI s)), ALT := word_of_int (sint (ALT s) mod sint (PRI s))\<rparr>))"
proof (cases "PRI s = 0")
  case False
  define a where "a = sint (ALT s)"
  define d where "d = sint (PRI s)"
  have d: "d \<noteq> 0" using False by (simp add: d_def signed_eq_0_iff)
  have r: "- (2 ^ 63) \<le> a" "a < 2 ^ 63" "- (2 ^ 63) \<le> d" "d < 2 ^ 63"
    unfolding a_def d_def by (rule sint_cell_range)+
  show ?thesis
  proof (cases "a = - (2 ^ 63) \<and> d = - 1")
    case True
    then show ?thesis using False by (simp add: op_sdiv_def div_scell_def mod_scell_def from_scell_def flip: a_def d_def)
  next
    case ok: False
    have q: "- (2 ^ 63) \<le> a sdiv d" "a sdiv d < 2 ^ 63" using div_range [OF r(1,2) d ok] by auto
    have m: "- (2 ^ 63) \<le> a smod d" "a smod d < 2 ^ 63" using smod_int_range [OF d, of a] r by auto
    have neg: "sint (word_of_int (a smod d) XOR PRI s) < 0 \<longleftrightarrow> (a smod d < 0) \<noteq> (d < 0)"
      by (simp add: sint_xor_neg sint_word_of_int [OF m] flip: d_def)
    have nz: "word_of_int (a smod d) \<noteq> (0 :: cell) \<longleftrightarrow> a smod d \<noteq> 0"
      using sint_word_of_int [OF m] by auto
    have pd: "word_of_int (sint (PRI s)) = PRI s" by simp
    show ?thesis
      unfolding a_def [symmetric] d_def [symmetric] if_not_P [OF False] if_not_P [OF ok]
      using False q m neg nz floor_from_trunc [OF d, of a] pd
      by (simp add: op_sdiv_def div_scell_def mod_scell_def from_scell_def Let_def flip: a_def d_def)
  qed
qed (simp add: op_sdiv_def)

text \<open>\<open>SDIV\<close> is the floored division of the signed cells: quotient in \<open>PRI\<close>, remainder, of the sign of the
  divisor, in \<open>ALT\<close>. A zero divisor is an error. The one undefined case is the least cell divided by \<open>-1\<close>.\<close>

theorem sdiv_floors:
  "op_sdiv s = (if PRI s = 0 then Err Division_with_zero s
     else if sint (ALT s) = - (2 ^ 63) \<and> sint (PRI s) = - 1 then Undefined Signed_overflow
     else Ok (s\<lparr>PRI := word_of_int (sint (ALT s) div sint (PRI s)), ALT := word_of_int (sint (ALT s) mod sint (PRI s))\<rparr>))"
  by (rule op_sdiv_eq)

section \<open>Operands and cells of the code\<close>

definition operand_at :: "'w amx \<Rightarrow> cell \<Rightarrow> bool" where
  "operand_at s n \<longleftrightarrow> (\<exists>q. code_v2p s (CIP s) = Some q \<and> host_read s q = Some n)"

definition code_cell :: "'w amx \<Rightarrow> cell \<Rightarrow> cell \<Rightarrow> bool" where
  "code_cell s a x \<longleftrightarrow> (\<exists>p. code_v2p s a = Some p \<and> host_read s p = Some x)"

lemma host_read_regs [simp]:
  "host_read (s\<lparr>CIP := x\<rparr>) p = host_read s p" "host_read (s\<lparr>STK := x\<rparr>) p = host_read s p"
  "host_read (s\<lparr>PRI := x\<rparr>) p = host_read s p" "host_read (s\<lparr>ALT := x\<rparr>) p = host_read s p"
  "host_read (s\<lparr>FRM := x\<rparr>) p = host_read s p"
  by (simp_all add: host_read_def)

lemma v2p_regs [simp]:
  "data_v2p (s\<lparr>CIP := x\<rparr>) a = data_v2p s a" "data_v2p (s\<lparr>STK := x\<rparr>) a = data_v2p s a"
  "data_v2p (s\<lparr>PRI := x\<rparr>) a = data_v2p s a" "data_v2p (s\<lparr>ALT := x\<rparr>) a = data_v2p s a"
  "data_v2p (s\<lparr>FRM := x\<rparr>) a = data_v2p s a"
  "code_v2p (s\<lparr>CIP := x\<rparr>) a = code_v2p s a" "code_v2p (s\<lparr>PRI := x\<rparr>) a = code_v2p s a"
  "code_v2p (s\<lparr>ALT := x\<rparr>) a = code_v2p s a" "code_v2p (s\<lparr>FRM := x\<rparr>) a = code_v2p s a"
  "code_v2p (s\<lparr>STK := x\<rparr>) a = code_v2p s a"
  by (simp_all add: data_v2p_def code_v2p_def)

lemma code_cell_regs [simp]: "code_cell (s\<lparr>CIP := x\<rparr>) a v = code_cell s a v"
  by (simp add: code_cell_def)

lemma OPERAND_at: "operand_at s n \<Longrightarrow> OPERAND s k = k n (s\<lparr>CIP := CIP s + cell_bytes\<rparr>)"
  by (auto simp: operand_at_def OPERAND_def deref_def Let_def)

lemma CODEDATA_cell: "code_cell s a x \<Longrightarrow> CODEDATA a s (\<lambda>p. deref p s k) = k x"
  by (auto simp: code_cell_def CODEDATA_def deref_def)

lemma load_at: "data_v2p s a = Some p \<Longrightarrow> host_read s p = Some x \<Longrightarrow> load a s k = k x"
  by (simp add: load_def DATA_def deref_def)

text \<open>A write through a valid pointer: the state changes in that host cell only.\<close>

definition same_but_host :: "'w amx \<Rightarrow> 'w amx \<Rightarrow> bool" where
  "same_but_host s s' \<longleftrightarrow> (\<exists>h. s' = s\<lparr>host := h\<rparr>)"

lemma same_but_host_refl [simp]: "same_but_host s s"
  unfolding same_but_host_def by (intro exI [of _ "host s"]) simp

lemma same_but_hostD:
  assumes "same_but_host s s'"
  shows "PRI s' = PRI s" "ALT s' = ALT s" "FRM s' = FRM s" "CIP s' = CIP s" "STK s' = STK s" "DAT s' = DAT s"
    "data_v2p s' a = data_v2p s a" "code_v2p s' a = code_v2p s a" "data_mem s' = data_mem s"
  using assms by (auto simp: same_but_host_def data_v2p_def code_v2p_def)

lemma same_but_host_trans: "same_but_host s s1 \<Longrightarrow> same_but_host s1 s2 \<Longrightarrow> same_but_host s s2"
  by (auto simp: same_but_host_def)

lemma assign_at:
  assumes "host_read s p = Some x"
  obtains s' where "\<And>k. assign p v s k = k s'" "same_but_host s s'"
    "\<And>q. host_read s' q = (if q = p then Some v else host_read s q)"
proof -
  obtain xs where w: "host_write p v s = Some (s\<lparr>host := (host s)(block p \<mapsto> xs[cell_at p := v])\<rparr>)"
    by (rule host_write_cases [OF assms])
  show ?thesis
    by (rule that [of "s\<lparr>host := (host s)(block p \<mapsto> xs[cell_at p := v])\<rparr>"])
      (auto simp: w assign_def same_but_host_def host_read_write [OF w])
qed

section \<open>Parts of cells\<close>

lemma misalign_mask_eq: "misalign_mask = mask 3"
  by (simp add: misalign_mask_def cell_bytes_def mask_eq_exp_minus_1)

lemma unat_aligned: "unat (a AND NOT misalign_mask) = 8 * (unat a div 8)"
proof -
  have "a AND NOT misalign_mask = push_bit 3 (drop_bit 3 a)"
    unfolding misalign_mask_eq by (rule bit_word_eqI) (auto simp: bit_simps)
  also have "unat \<dots> = 8 * (unat a div 8)"
    using unsigned_less [where 'a = nat, of a]
    by (simp add: push_bit_eq_mult drop_bit_eq_div unat_word_ariths unat_div_distrib mult.commute)
  finally show ?thesis .
qed

lemma subcell_bits_eq: "subcell_bits a = 8 * (unat a mod 8)"
proof -
  have "a AND misalign_mask = take_bit 3 a" unfolding misalign_mask_eq by (simp add: take_bit_eq_mask)
  then have "unat (a AND misalign_mask) = take_bit 3 (unat a)" by (simp only: unsigned_take_bit_eq)
  then have "unat (a AND misalign_mask) = unat a mod 8" by (simp add: take_bit_eq_mod)
  then show ?thesis
    by (simp add: subcell_bits_def unat_mult_lem [THEN iffD1] mult.commute)
qed

definition subcell_width :: "cell \<Rightarrow> nat" where
  "subcell_width n = 8 * unat n"

lemma subcell_mask_eq: "subcell_mask n = Some m \<Longrightarrow> m = mask (subcell_width n) \<and> 0 < unat n \<and> unat n \<le> 4"
  by (auto simp: subcell_mask_def subcell_width_def mask_eq_exp_minus_1 split: if_splits)

lemma straddles_cells:
  assumes "x < 2 ^ 64" "8 < x mod 8 + n" "0 < n" "n \<le> (4 :: nat)"
  shows "(x + (n - 1)) mod 2 ^ 64 div 8 \<noteq> x div 8"
proof -
  define q where "q = x div 8"
  define e where "e = x mod 8 + (n - 1)"
  have x: "x + (n - 1) = 8 * q + e" by (simp add: q_def e_def)
  have e: "8 \<le> e" "e < 16" using assms(2-4) mod_less_divisor [of 8 x] by (simp_all add: e_def)
  show ?thesis
  proof (cases "8 * q + e < 2 ^ 64")
    case True
    have "q + 1 \<le> (8 * q + e) div 8" using e by (simp add: less_eq_div_iff_mult_less_eq)
    then show ?thesis unfolding x q_def [symmetric] using True by simp
  next
    case False
    have "x < 2 ^ 61 * 8" using assms(1) by simp
    then have "q < 2 ^ 61" unfolding q_def by (rule less_mult_imp_div_less)
    with False e have q: "q = 2 ^ 61 - 1" by simp
    have "(8 * q + e) mod 2 ^ 64 = e - 8" using e by (simp add: q mod_if)
    then show ?thesis unfolding x q_def [symmetric] using e q by simp
  qed
qed

lemma subcell_fits:
  assumes "subcell_mask n = Some m" "a AND NOT misalign_mask = (a + n - 1) AND NOT misalign_mask"
  shows "subcell_bits a + subcell_width n \<le> 64"
proof (rule ccontr)
  assume "\<not> ?thesis"
  then have big: "8 < unat a mod 8 + unat n" by (simp add: subcell_bits_eq subcell_width_def)
  have n: "0 < unat n" "unat n \<le> 4" using subcell_mask_eq [OF assms(1)] by auto
  have n1: "unat (n - 1) = unat n - 1" using n by (subst unat_sub) (simp_all add: word_le_nat_alt)
  have "unat (a + (n - 1)) = (unat a + (unat n - 1)) mod 2 ^ 64" by (simp add: unat_word_ariths n1)
  then have "unat (a + n - 1) = (unat a + (unat n - 1)) mod 2 ^ 64" by (simp only: add_diff_eq)
  then have "(unat a + (unat n - 1)) mod 2 ^ 64 div 8 = unat a div 8"
    using arg_cong [OF assms(2), of unat] unfolding unat_aligned by simp
  then show False
    using straddles_cells [OF _ big n] unsigned_less [where 'a = nat, of a] by simp
qed

lemma put_get_subcell:
  fixes r v :: cell
  assumes "b + w \<le> 64"
  shows "drop_bit b ((r AND NOT (push_bit b (mask w))) OR push_bit b (v AND mask w)) AND mask w = v AND mask w"
  using assms by (intro bit_word_eqI) (auto simp: bit_simps)

lemma put_keeps_others:
  fixes r v :: cell
  assumes "i < b \<or> b + w \<le> i"
  shows "bit ((r AND NOT (push_bit b (mask w))) OR push_bit b (v AND mask w)) i = bit r i"
  using assms by (auto simp: bit_simps dest: bit_imp_le_length)

lemma subcell_at:
  assumes "subcell_mask n = Some m" "a AND NOT misalign_mask = (a + n - 1) AND NOT misalign_mask"
    and "data_v2p s (a AND NOT misalign_mask) = Some p"
  shows "subcell a n s k = k p m"
  using assms by (simp add: subcell_def Let_def DATA_def)

text \<open>\<open>STRB.I\<close> writes a part of 1, 2 or 4 bytes into the cell that holds it, leaves the other bits of that
  cell and every other cell alone, and \<open>LODB.I\<close> of the same part then reads the value back.\<close>

theorem strb_lodb_roundtrip:
  fixes s :: "'w amx"
  assumes "operand_at s n" "subcell_mask n = Some m"
    and "ALT s AND NOT misalign_mask = (ALT s + n - 1) AND NOT misalign_mask"
    and "data_v2p s (ALT s AND NOT misalign_mask) = Some p" "host_read s p = Some r"
  shows "\<exists>s1. op_strb_i s = Ok s1 \<and>
    (\<forall>q. q \<noteq> p \<longrightarrow> host_read s1 q = host_read s q) \<and>
    (\<forall>r1 i. host_read s1 p = Some r1 \<longrightarrow>
       i < subcell_bits (ALT s) \<or> subcell_bits (ALT s) + subcell_width n \<le> i \<longrightarrow> bit r1 i = bit r i) \<and>
    (\<forall>s2 :: 'w amx. operand_at s2 n \<longrightarrow> PRI s2 = ALT s \<longrightarrow> data_v2p s2 = data_v2p s1 \<longrightarrow> host_read s2 = host_read s1 \<longrightarrow>
       (\<exists>s3. op_lodb_i s2 = Ok s3 \<and> PRI s3 = PRI s AND m))"
proof -
  let ?b = "subcell_bits (ALT s)" and ?s = "s\<lparr>CIP := CIP s + cell_bytes\<rparr>"
  let ?x = "(r AND NOT (push_bit ?b m)) OR push_bit ?b (PRI s AND m)"
  have m: "m = mask (subcell_width n)" using subcell_mask_eq [OF assms(2)] by simp
  have fits: "?b + subcell_width n \<le> 64" by (rule subcell_fits [OF assms(2,3)])
  have r': "host_read ?s p = Some r" using assms(5) by simp
  obtain s1 where s1: "\<And>k. assign p ?x ?s k = k s1" "same_but_host ?s s1"
      "\<And>q. host_read s1 q = (if q = p then Some ?x else host_read ?s q)"
    using assign_at [OF r', of ?x] by metis
  have st: "op_strb_i s = Ok s1"
    using assms(2-5) s1(1) by (simp add: op_strb_i_def OPERAND_at [OF assms(1)] subcell_at deref_def Let_def)
  have lod: "\<exists>s3. op_lodb_i s2 = Ok s3 \<and> PRI s3 = PRI s AND m"
    if "operand_at s2 n" "PRI s2 = ALT s" "data_v2p s2 = data_v2p s1" "host_read s2 = host_read s1" for s2 :: "'w amx"
  proof -
    have "data_v2p s2 (PRI s2 AND NOT misalign_mask) = Some p"
      using that assms(4) same_but_hostD(7) [OF s1(2)] by simp
    moreover have "host_read s2 p = Some ?x" using that s1(3) by simp
    ultimately show ?thesis
      using that assms(2,3) put_get_subcell [OF fits, of r "PRI s"]
      by (simp add: op_lodb_i_def OPERAND_at subcell_at deref_def m)
  qed
  show ?thesis
    using st s1(3) lod put_keeps_others [of _ ?b "subcell_width n" r "PRI s"]
    by (intro exI [of _ s1]) (auto simp: m)
qed
section \<open>Block operations\<close>

definition cells_of :: "cell \<Rightarrow> nat" where
  "cells_of n = (unat n + 7) div 8"

text \<open>A counted loop with an invariant; the counter does not wrap when the size is not within a cell of the end.\<close>

lemma block_loop_inv:
  assumes "unat n \<le> 2 ^ 64 - 8"
    and "\<And>i s. i < cells_of n \<Longrightarrow> I i s \<Longrightarrow> go s \<and> (\<exists>s'. body (of_nat i * cell_bytes) s = Ok s' \<and> I (Suc i) s')"
    and "k \<le> cells_of n" "I k s"
  shows "\<exists>s'. block_loop go body n (of_nat k * cell_bytes) s = Ok s' \<and> I (cells_of n) s'"
proof -
  have cells: "8 * cells_of n \<le> 2 ^ 64 - 1" "unat n \<le> 8 * cells_of n" "\<And>i. 8 * i < unat n \<longleftrightarrow> i < cells_of n"
    using assms(1) unfolding cells_of_def by (simp_all add: div_le_mono less_eq_div_iff_mult_less_eq, linarith+)
  have pos: "unat (of_nat i * cell_bytes) = 8 * i" if "i \<le> cells_of n" for i
    using that cells(1) by (simp add: cell_bytes_def unat_word_ariths unat_of_nat)
  show ?thesis
    using assms(3,4)
  proof (induction "cells_of n - k" arbitrary: k s)
    case 0
    then have "k = cells_of n" by simp
    with 0 show ?case
      using pos [of k] cells(2) by (subst block_loop.simps) (simp add: word_less_nat_alt)
  next
    case (Suc d)
    then have k: "k < cells_of n" by simp
    obtain s' where s': "go s" "body (of_nat k * cell_bytes) s = Ok s'" "I (Suc k) s'"
      using assms(2) [OF k Suc.prems(2)] by blast
    have nxt: "of_nat k * cell_bytes + cell_bytes = of_nat (Suc k) * cell_bytes" by (simp add: algebra_simps)
    have lt: "of_nat k * cell_bytes < n" "\<not> of_nat (Suc k) * cell_bytes < of_nat k * cell_bytes"
      using pos [of k] pos [of "Suc k"] k cells(3) [of k] unfolding word_less_nat_alt by simp_all
    have "block_loop go body n (of_nat k * cell_bytes) s = block_loop go body n (of_nat (Suc k) * cell_bytes) s'"
      using s'(1,2) lt by (subst block_loop.simps) (simp add: nxt del: of_nat_Suc)
    with Suc.hyps(1) [of "Suc k" s'] Suc.hyps(2) s'(3) k show ?case by simp
  qed
qed

definition in_block :: "hptr \<Rightarrow> nat \<Rightarrow> hptr \<Rightarrow> bool" where
  "in_block p k r \<longleftrightarrow> block r = block p \<and> cell_at p \<le> cell_at r \<and> cell_at r < cell_at p + k"

lemma in_block_Suc: "in_block p (Suc k) r \<longleftrightarrow> in_block p k r \<or> r = hplus p k"
  by (cases p; cases r) (auto simp: in_block_def hplus_def)

lemma in_block_0 [simp]: "\<not> in_block p 0 r"
  by (auto simp: in_block_def)

lemma in_block_iff: "in_block p k r \<longleftrightarrow> (\<exists>i < k. r = hplus p i)"
  by (induction k) (auto simp: in_block_Suc less_Suc_eq)

text \<open>The virtual block at \<open>a\<close> of \<open>k\<close> cells lies at \<open>p\<close> in the host.\<close>

definition block_at :: "'w amx \<Rightarrow> cell \<Rightarrow> nat \<Rightarrow> hptr \<Rightarrow> bool" where
  "block_at s a k p \<longleftrightarrow> (\<forall>i < k. data_v2p s (a + of_nat i * cell_bytes) = Some (hplus p i) \<and>
     host_read s (hplus p i) \<noteq> None)"

text \<open>\<open>FILL\<close> stores \<open>PRI\<close> in every cell of the block and changes nothing else but the instruction pointer.\<close>

theorem fill_fills:
  assumes "operand_at s n" "unat n \<le> 2 ^ 64 - 8" "block_at s (ALT s) (cells_of n) p"
  shows "\<exists>s'. op_fill s = Ok s' \<and> same_but_host (s\<lparr>CIP := CIP s + cell_bytes\<rparr>) s' \<and>
    (\<forall>r. host_read s' r = (if in_block p (cells_of n) r then Some (PRI s) else host_read s r))"
proof -
  let ?s = "s\<lparr>CIP := CIP s + cell_bytes\<rparr>"
  let ?body = "\<lambda>i s. store (ALT s + i) (PRI s) s Ok"
  let ?I = "\<lambda>i s'. same_but_host ?s s' \<and> (\<forall>r. host_read s' r = (if in_block p i r then Some (PRI s) else host_read s r))"
  have "\<exists>s'. block_loop (\<lambda>_. True) ?body n (of_nat 0 * cell_bytes) ?s = Ok s' \<and> ?I (cells_of n) s'"
  proof (rule block_loop_inv [where I = ?I])
    fix i s1
    assume i: "i < cells_of n" and I: "?I i s1"
    note same = same_but_hostD [OF conjunct1 [OF I], simplified]
    have v: "data_v2p s1 (ALT s1 + of_nat i * cell_bytes) = Some (hplus p i)"
      using assms(3) i by (simp add: same block_at_def)
    have "host_read s1 (hplus p i) \<noteq> None" using assms(3) i I by (auto simp: block_at_def)
    then obtain x where x: "host_read s1 (hplus p i) = Some x" by blast
    obtain s2 where s2: "\<And>k. assign (hplus p i) (PRI s1) s1 k = k s2" "same_but_host s1 s2"
        "\<And>q. host_read s2 q = (if q = hplus p i then Some (PRI s1) else host_read s1 q)"
      using assign_at [OF x, of "PRI s1"] by metis
    have "?body (of_nat i * cell_bytes) s1 = Ok s2" by (simp add: store_def DATA_def v s2(1))
    moreover have "?I (Suc i) s2"
      using I s2(3) same_but_host_trans [OF _ s2(2), of ?s] by (auto simp: in_block_Suc same)
    ultimately show "True \<and> (\<exists>s'. ?body (of_nat i * cell_bytes) s1 = Ok s' \<and> ?I (Suc i) s')" by blast
  qed (use assms(2) in simp_all)
  then show ?thesis by (simp add: op_fill_def OPERAND_at [OF assms(1)])
qed

text \<open>\<open>MOVS\<close> copies the block at \<open>PRI\<close> to the block at \<open>ALT\<close>, cell by cell and upwards: the result is the
  original contents whenever the target does not start inside the source (apart from at its start).\<close>

theorem movs_copies:
  assumes "operand_at s n" "unat n \<le> 2 ^ 64 - 8"
    and "block_at s (PRI s) (cells_of n) q" "block_at s (ALT s) (cells_of n) p"
    and "\<not> (block p = block q \<and> cell_at q < cell_at p \<and> cell_at p < cell_at q + cells_of n)"
  shows "\<exists>s'. op_movs s = Ok s' \<and> same_but_host (s\<lparr>CIP := CIP s + cell_bytes\<rparr>) s' \<and>
    (\<forall>i < cells_of n. host_read s' (hplus p i) = host_read s (hplus q i)) \<and>
    (\<forall>r. \<not> in_block p (cells_of n) r \<longrightarrow> host_read s' r = host_read s r)"
proof -
  let ?s = "s\<lparr>CIP := CIP s + cell_bytes\<rparr>"
  let ?body = "\<lambda>i s. load (PRI s + i) s (\<lambda>tmp. store (ALT s + i) tmp s Ok)"
  let ?I = "\<lambda>i s'. same_but_host ?s s' \<and> (\<forall>j < i. host_read s' (hplus p j) = host_read s (hplus q j)) \<and>
    (\<forall>r. \<not> in_block p i r \<longrightarrow> host_read s' r = host_read s r)"
  have "\<exists>s'. block_loop (\<lambda>_. True) ?body n (of_nat 0 * cell_bytes) ?s = Ok s' \<and> ?I (cells_of n) s'"
  proof (rule block_loop_inv [where I = ?I])
    fix i s1
    assume i: "i < cells_of n" and I: "?I i s1"
    note same = same_but_hostD [OF conjunct1 [OF I], simplified]
    have vp: "data_v2p s1 (ALT s1 + of_nat i * cell_bytes) = Some (hplus p i)"
      and vq: "data_v2p s1 (PRI s1 + of_nat i * cell_bytes) = Some (hplus q i)"
      using assms(3,4) i by (simp_all add: same block_at_def)
    have "\<not> in_block p i (hplus q i)" using assms(5) i by (auto simp: in_block_def)
    with I have rq: "host_read s1 (hplus q i) = host_read s (hplus q i)" by blast
    then obtain x where x: "host_read s1 (hplus q i) = Some x" using assms(3) i by (auto simp: block_at_def)
    have "\<not> in_block p i (hplus p i)" by (simp add: in_block_def)
    with I have "host_read s1 (hplus p i) = host_read s (hplus p i)" by blast
    then obtain y where y: "host_read s1 (hplus p i) = Some y" using assms(4) i by (auto simp: block_at_def)
    obtain s2 where s2: "\<And>k. assign (hplus p i) x s1 k = k s2" "same_but_host s1 s2"
        "\<And>r. host_read s2 r = (if r = hplus p i then Some x else host_read s1 r)"
      using assign_at [OF y, of x] by metis
    have "?body (of_nat i * cell_bytes) s1 = Ok s2"
      by (simp add: load_at [OF vq x]) (simp add: store_def DATA_def vp s2(1))
    moreover have "?I (Suc i) s2"
      using I s2(3) same_but_host_trans [OF _ s2(2), of ?s] rq x by (auto simp: in_block_Suc less_Suc_eq)
    ultimately show "True \<and> (\<exists>s'. ?body (of_nat i * cell_bytes) s1 = Ok s' \<and> ?I (Suc i) s')" by blast
  qed (use assms(2) in simp_all)
  then show ?thesis by (simp add: op_movs_def OPERAND_at [OF assms(1)])
qed
definition demo :: "cell list \<Rightarrow> u64 \<Rightarrow> unit amx" where
  "demo code code_bytes = machine code code_bytes [1, 2, 3, 4, 0, 0, 0, 0] 64 ()"

lemma demo_operand: "operand_at (demo [n] 8) n"
  by (simp add: operand_at_def demo_def machine_simps)

lemma demo_data:
  assumes "i < 8"
  shows "data_v2p (demo c b) (of_nat i * cell_bytes) = Some \<lparr>block = 1, cell_at = i\<rparr>"
    "host_read (demo c b) \<lparr>block = 1, cell_at = i\<rparr> = Some ([1, 2, 3, 4, 0, 0, 0, 0] ! i)"
proof -
  have u: "unat (of_nat i * cell_bytes) = 8 * i"
    using assms by (simp add: cell_bytes_def unat_word_ariths unat_of_nat)
  show "data_v2p (demo c b) (of_nat i * cell_bytes) = Some \<lparr>block = 1, cell_at = i\<rparr>"
    using assms by (simp add: data_v2p_def demo_def machine_def paged_translate_nat u no_pages_Cons page_of_def hplus_def)
  show "host_read (demo c b) \<lparr>block = 1, cell_at = i\<rparr> = Some ([1, 2, 3, 4, 0, 0, 0, 0] ! i)"
    using assms by (simp add: host_read_def demo_def machine_def)
qed

lemma demo_block: "j + k \<le> 8 \<Longrightarrow> block_at (demo c b) (of_nat j * cell_bytes) k \<lparr>block = 1, cell_at = j\<rparr>"
  using demo_data [of "j + i" for i] by (auto simp: block_at_def hplus_def algebra_simps)

lemma demo_regs [simp]:
  "block_at (s\<lparr>PRI := x\<rparr>) = block_at s" "block_at (s\<lparr>ALT := x\<rparr>) = block_at s"
  "operand_at (s\<lparr>PRI := x\<rparr>) n = operand_at s n" "operand_at (s\<lparr>ALT := x\<rparr>) n = operand_at s n"
  by (simp_all add: block_at_def fun_eq_iff operand_at_def)

lemma demo_sel [simp]:
  "PRI (demo c b) = 0" "ALT (demo c b) = 0" "CIP (demo c b) = 0" "STK (demo c b) = 64" "FRM (demo c b) = 0"
  by (simp_all add: demo_def machine_def)

theorem fill_fills_witness:
  "\<exists>s'. op_fill (demo [16] 8\<lparr>PRI := 9\<rparr>) = Ok s' \<and>
    (\<forall>r. host_read s' r = (if in_block \<lparr>block = 1, cell_at = 0\<rparr> 2 r then Some 9 else host_read (demo [16] 8) r))"
  using fill_fills [of "demo [16] 8\<lparr>PRI := 9\<rparr>" 16 "\<lparr>block = 1, cell_at = 0\<rparr>"] demo_block [of 0 2 "[16]" 8]
  by (auto simp: demo_operand cells_of_def)

theorem movs_copies_witness:
  "\<exists>s'. op_movs (demo [16] 8\<lparr>PRI := of_nat 0 * cell_bytes, ALT := of_nat 4 * cell_bytes\<rparr>) = Ok s' \<and>
    host_read s' \<lparr>block = 1, cell_at = 4\<rparr> = Some 1 \<and> host_read s' \<lparr>block = 1, cell_at = 5\<rparr> = Some 2"
proof -
  let ?s = "demo [16] 8\<lparr>PRI := of_nat 0 * cell_bytes, ALT := of_nat 4 * cell_bytes\<rparr>"
  have two: "cells_of 16 = 2" by (simp add: cells_of_def)
  obtain s' where s': "op_movs ?s = Ok s'"
      "\<forall>i < cells_of 16. host_read s' (hplus \<lparr>block = 1, cell_at = 4\<rparr> i) = host_read ?s (hplus \<lparr>block = 1, cell_at = 0\<rparr> i)"
    using movs_copies [of ?s 16 "\<lparr>block = 1, cell_at = 0\<rparr>" "\<lparr>block = 1, cell_at = 4\<rparr>"]
      demo_block [of 0 2 "[16]" 8] demo_block [of 4 2 "[16]" 8]
    by (simp add: demo_operand two) blast
  have "host_read s' (hplus \<lparr>block = 1, cell_at = 4\<rparr> 0) = Some 1" "host_read s' (hplus \<lparr>block = 1, cell_at = 4\<rparr> 1) = Some 2"
    using s'(2) [rule_format, of 0] s'(2) [rule_format, of 1]
      demo_data(2) [of 0 "[16]" 8] demo_data(2) [of 1 "[16]" 8]
    by (simp_all add: two hplus_def)
  then show ?thesis using s'(1) by (auto simp: hplus_def)
qed

theorem strb_lodb_roundtrip_witness:
  "\<exists>s1. op_strb_i (demo [1] 8\<lparr>ALT := 9, PRI := 0x1FF\<rparr>) = Ok s1 \<and>
    (\<forall>s2 :: unit amx. operand_at s2 1 \<longrightarrow> PRI s2 = 9 \<longrightarrow> data_v2p s2 = data_v2p s1 \<longrightarrow> host_read s2 = host_read s1 \<longrightarrow>
      (\<exists>s3. op_lodb_i s2 = Ok s3 \<and> PRI s3 = 0xFF))"
proof -
  let ?s = "demo [1] 8\<lparr>ALT := 9, PRI := 0x1FF\<rparr>"
  have "data_v2p ?s (ALT ?s AND NOT misalign_mask) = Some \<lparr>block = 1, cell_at = 1\<rparr>"
    using demo_data(1) [of 1 "[1]" 8] by (simp add: misalign_mask_def cell_bytes_def)
  moreover have "operand_at ?s 1" "subcell_mask 1 = Some 0xFF" "host_read ?s \<lparr>block = 1, cell_at = 1\<rparr> = Some 2"
      "ALT ?s AND NOT misalign_mask = (ALT ?s + 1 - 1) AND NOT misalign_mask"
    using demo_data(2) [of 1 "[1]" 8] by (simp_all add: demo_operand subcell_mask_def)
  ultimately obtain s1 where "op_strb_i ?s = Ok s1"
      "\<forall>s2 :: unit amx. operand_at s2 1 \<longrightarrow> PRI s2 = ALT ?s \<longrightarrow> data_v2p s2 = data_v2p s1 \<longrightarrow> host_read s2 = host_read s1 \<longrightarrow>
        (\<exists>s3. op_lodb_i s2 = Ok s3 \<and> PRI s3 = PRI ?s AND 0xFF)"
    using strb_lodb_roundtrip [of ?s 1 "0xFF"] by blast
  then show ?thesis by (intro exI [of _ s1]) simp
qed

section \<open>Comparing blocks\<close>

text \<open>\<open>CMPS\<close> forgets the address of its first block: it clears \<open>PRI\<close>, which held the address, before the
  loop reads through it, so the outcome does not depend on that address at all.\<close>

theorem cmps_ignores_address:
  assumes "operand_at s n"
  shows "op_cmps (s\<lparr>PRI := x\<rparr>) = op_cmps (s\<lparr>PRI := y\<rparr>)"
  using assms by (simp add: op_cmps_def OPERAND_at operand_at_def [of "s\<lparr>PRI := _\<rparr>"] operand_at_def)

theorem cmps_ignores_address_witness:
  "op_cmps (demo [8] 8\<lparr>PRI := 0\<rparr>) = op_cmps (demo [8] 8\<lparr>PRI := 24\<rparr>)"
  by (rule cmps_ignores_address [OF demo_operand])

section \<open>Case tables\<close>

text \<open>The target of a value in a table whose first record is at \<open>t\<close>; targets are relative to their record.\<close>

fun case_target :: "cell \<Rightarrow> (cell \<times> cell) list \<Rightarrow> cell \<Rightarrow> cell option" where
  "case_target t [] v = None"
| "case_target t ((w, d) # cs) v = (if v = w then Some (t + d) else case_target (t + 2 * cell_bytes) cs v)"

fun records_at :: "'w amx \<Rightarrow> cell \<Rightarrow> (cell \<times> cell) list \<Rightarrow> bool" where
  "records_at s t [] = True"
| "records_at s t ((w, d) # cs) = (code_cell s t w \<and> code_cell s (t + cell_bytes) d \<and> records_at s (t + 2 * cell_bytes) cs)"

lemma records_at_CIP [simp]: "records_at (s\<lparr>CIP := x\<rparr>) t cs = records_at s t cs"
  by (induction s t cs rule: records_at.induct) simp_all

lemma switch_loop_records:
  assumes "records_at s t cs" "length cs < 2 ^ 64"
  shows "switch_loop (of_nat (length cs)) t s =
    Ok (case case_target t cs (PRI s) of Some c \<Rightarrow> s\<lparr>CIP := c\<rparr> | None \<Rightarrow> s)"
  using assms
proof (induction s t cs rule: records_at.induct)
  case (2 s t w d cs)
  have nz: "of_nat (length ((w, d) # cs)) \<noteq> (0 :: cell)"
  proof
    assume "of_nat (length ((w, d) # cs)) = (0 :: cell)"
    then have "unat (of_nat (length ((w, d) # cs)) :: cell) = 0" by simp
    then show False using 2(3) by (simp add: unat_of_nat_small del: of_nat_Suc)
  qed
  have m1: "of_nat (length ((w, d) # cs)) - 1 = (of_nat (length cs) :: cell)" by simp
  have c: "code_cell s t w" "code_cell s (t + cell_bytes) d" "records_at s (t + 2 * cell_bytes) cs"
    using 2(2) by simp_all
  show ?case
    unfolding switch_loop.simps [of "of_nat (length ((w, d) # cs))"] m1 CODEDATA_cell [OF c(1)] CODEDATA_cell [OF c(2)]
    using 2(1,3) c(3) nz by (simp add: Let_def)
qed (simp add: switch_loop.simps)

text \<open>\<open>SWITCH\<close> goes to the target of the first record of the case table with the value of \<open>PRI\<close>, and to the
  default target when there is none.\<close>

theorem switch_selects:
  assumes "operand_at s a" "code_cell s (CIP s - cell_bytes + a) OP_CASETBL"
    and "code_cell s (CIP s + a) (of_nat (length cs))" "code_cell s (CIP s + cell_bytes + a) dflt"
    and "records_at s (CIP s + 2 * cell_bytes + a) cs" "length cs < 2 ^ 64"
  shows "op_switch s = Ok (s\<lparr>CIP := (case case_target (CIP s + 2 * cell_bytes + a) cs (PRI s) of
    Some c \<Rightarrow> c | None \<Rightarrow> CIP s + a + dflt)\<rparr>)"
proof -
  have t: "CIP s + cell_bytes - 2 * cell_bytes + a = CIP s - cell_bytes + a"
    "CIP s - cell_bytes + a + cell_bytes = CIP s + a" "CIP s - cell_bytes + a + 2 * cell_bytes = CIP s + cell_bytes + a"
    "CIP s - cell_bytes + a + 3 * cell_bytes = CIP s + 2 * cell_bytes + a"
    "CIP s + 2 * cell_bytes + a - cell_bytes * 2 + dflt = CIP s + a + dflt"
    by (simp_all add: algebra_simps)
  show ?thesis
    using assms(2-5) switch_loop_records [OF _ assms(6), of "s\<lparr>CIP := CIP s + a + dflt\<rparr>" "CIP s + 2 * cell_bytes + a"]
    by (simp add: op_switch_def OPERAND_at [OF assms(1)] Let_def t CODEDATA_cell split: option.split)
qed

text \<open>The operand 24 is at address 0 and the table at address 16: \<open>casetbl\<close>, one record, the default, and
  the record of 5.\<close>

lemma table_cell:
  assumes "i < 7" "a = of_nat i * cell_bytes"
  shows "code_cell (demo [24, 0, 74, 1, 100, 5, 200] 56\<lparr>PRI := x\<rparr>) a ([24, 0, 74, 1, 100, 5, 200] ! i)"
proof -
  have "unat a = 8 * i"
    using assms by (simp add: cell_bytes_def unat_word_ariths unat_of_nat)
  then show ?thesis
    using assms(1) by (simp add: code_cell_def demo_def machine_def code_v2p_def contiguous_translate_def host_read_def
        word_le_nat_alt unat_div_distrib unat_cell_bytes hplus_def)
qed

theorem switch_selects_witness:
  "op_switch (demo [24, 0, 74, 1, 100, 5, 200] 56\<lparr>PRI := 5\<rparr>) =
    Ok (demo [24, 0, 74, 1, 100, 5, 200] 56\<lparr>PRI := 5, CIP := 240\<rparr>)"
proof -
  let ?s = "demo [24, 0, 74, 1, 100, 5, 200] 56\<lparr>PRI := 5\<rparr>"
  have op: "operand_at ?s 24" using table_cell [of 0 0 5] by (simp add: operand_at_def code_cell_def)
  have "code_cell ?s (CIP ?s - cell_bytes + 24) OP_CASETBL" "code_cell ?s (CIP ?s + 24) (of_nat (length [(5 :: cell, 200 :: cell)]))"
      "code_cell ?s (CIP ?s + cell_bytes + 24) 100" "records_at ?s (CIP ?s + 2 * cell_bytes + 24) [(5, 200)]"
    using table_cell [of 2 "16" 5] table_cell [of 3 "24" 5] table_cell [of 4 "32" 5] table_cell [of 5 "40" 5] table_cell [of 6 "48" 5]
    by (simp_all add: cell_bytes_def OP_CASETBL_def)
  from switch_selects [OF op this] show ?thesis by (simp add: cell_bytes_def)
qed

section \<open>The calling convention\<close>

text \<open>\<open>CALL\<close> and \<open>PROC\<close> save the return address and the frame and enter the function; however the function
  used the stack, as long as it has put the stack pointer back to its frame and left the saved cells alone,
  \<open>RETN\<close> returns to the instruction after the call with the caller's frame and drops the arguments, whose
  size in bytes is the cell under the return address.\<close>

theorem call_proc_retn:
  fixes s :: "'w amx"
  assumes "operand_at s a"
    and "data_v2p s (STK s) = Some p0" "data_v2p s (STK s - cell_bytes) = Some p1" "data_v2p s (STK s - 2 * cell_bytes) = Some p2"
    and "host_read s p0 = Some n" "host_read s p1 = Some x1" "host_read s p2 = Some x2"
    and "p0 \<noteq> p1" "p0 \<noteq> p2" "p1 \<noteq> p2"
  shows "\<exists>s1 s2. op_call s = Ok s1 \<and> CIP s1 = CIP s - cell_bytes + a \<and> op_proc s1 = Ok s2 \<and>
    CIP s2 = CIP s - cell_bytes + a \<and> FRM s2 = STK s - 2 * cell_bytes \<and> STK s2 = FRM s2 \<and>
    (\<forall>s3 :: 'w amx. data_v2p s3 = data_v2p s \<longrightarrow> STK s3 = FRM s2 \<longrightarrow> (\<forall>p \<in> {p0, p1, p2}. host_read s3 p = host_read s2 p) \<longrightarrow>
      (\<exists>s4. op_retn s3 = Ok s4 \<and> CIP s4 = CIP s + cell_bytes \<and> FRM s4 = FRM s \<and> STK s4 = STK s + cell_bytes + n))"
proof -
  let ?s = "s\<lparr>CIP := CIP s + cell_bytes, STK := STK s - cell_bytes\<rparr>"
  have r1: "host_read ?s p1 = Some x1" using assms(6) by simp
  obtain s1 where s1: "\<And>k. assign p1 (CIP s + cell_bytes) ?s k = k s1" "same_but_host ?s s1"
      "\<And>q. host_read s1 q = (if q = p1 then Some (CIP s + cell_bytes) else host_read ?s q)"
    using assign_at [OF r1, of "CIP s + cell_bytes"] by metis
  note same1 = same_but_hostD [OF s1(2), simplified]
  let ?c = "jump_by a s1"
  have call: "op_call s = Ok ?c"
    using s1(1) assms(3) by (simp add: op_call_def OPERAND_at [OF assms(1)] PUSH_def Let_def DATA_def)
  let ?p = "?c\<lparr>STK := STK s - 2 * cell_bytes\<rparr>"
  have r2: "host_read ?p p2 = Some x2" using s1(3) assms(7,10) by (simp add: jump_by_def)
  obtain s2 where s2: "\<And>k. assign p2 (FRM s) ?p k = k s2" "same_but_host ?p s2"
      "\<And>q. host_read s2 q = (if q = p2 then Some (FRM s) else host_read ?p q)"
    using assign_at [OF r2, of "FRM s"] by metis
  note same2 = same_but_hostD [OF s2(2)]
  have stk: "STK s - cell_bytes - cell_bytes = STK s - 2 * cell_bytes" by simp
  have proc: "op_proc ?c = Ok (s2\<lparr>FRM := STK s - 2 * cell_bytes\<rparr>)"
    using s2(1) assms(4) by (simp add: op_proc_def PUSH_def Let_def DATA_def jump_by_def same1 same2 stk)
  let ?s2 = "s2\<lparr>FRM := STK s - 2 * cell_bytes\<rparr>"
  have cells: "host_read ?s2 p0 = Some n" "host_read ?s2 p1 = Some (CIP s + cell_bytes)" "host_read ?s2 p2 = Some (FRM s)"
    using s1(3) s2(3) assms(5,8,9,10) by (simp_all add: jump_by_def)
  have ret: "\<exists>s4. op_retn s3 = Ok s4 \<and> CIP s4 = CIP s + cell_bytes \<and> FRM s4 = FRM s \<and> STK s4 = STK s + cell_bytes + n"
    if s3: "data_v2p s3 = data_v2p s" "STK s3 = STK s - 2 * cell_bytes"
      "\<forall>p \<in> {p0, p1, p2}. host_read s3 p = host_read ?s2 p" for s3 :: "'w amx"
  proof -
    have c3: "host_read s3 p0 = Some n" "host_read s3 p1 = Some (CIP s + cell_bytes)" "host_read s3 p2 = Some (FRM s)"
      using s3(3) cells by simp_all
    have up: "STK s - 2 * cell_bytes + cell_bytes = STK s - cell_bytes" by simp
    show ?thesis
      using assms(2-4) c3
      by (simp add: op_retn_def POP_def DATA_def deref_def load_def Let_def s3(1,2) up algebra_simps)
  qed
  have "CIP ?c = CIP s - cell_bytes + a" by (simp add: jump_by_def same1)
  moreover have "CIP ?s2 = CIP s - cell_bytes + a" "STK ?s2 = STK s - 2 * cell_bytes"
    using same2(4,5) by (simp_all add: jump_by_def same1)
  ultimately show ?thesis using call proc ret
    by (intro exI [of _ ?c] exI [of _ ?s2]) simp
qed

theorem call_proc_retn_witness:
  "\<exists>s1 s2. op_call (demo [80] 8\<lparr>STK := 24\<rparr>) = Ok s1 \<and> op_proc s1 = Ok s2 \<and> CIP s2 = 72 \<and> FRM s2 = 8"
proof -
  let ?s = "demo [80] 8\<lparr>STK := 24\<rparr>"
  have cells: "data_v2p ?s (STK ?s) = Some \<lparr>block = 1, cell_at = 3\<rparr>"
      "data_v2p ?s (STK ?s - cell_bytes) = Some \<lparr>block = 1, cell_at = 2\<rparr>"
      "data_v2p ?s (STK ?s - 2 * cell_bytes) = Some \<lparr>block = 1, cell_at = 1\<rparr>"
      "host_read ?s \<lparr>block = 1, cell_at = 3\<rparr> = Some 4" "host_read ?s \<lparr>block = 1, cell_at = 2\<rparr> = Some 3"
      "host_read ?s \<lparr>block = 1, cell_at = 1\<rparr> = Some 2"
    using demo_data [of 1 "[80]" 8] demo_data [of 2 "[80]" 8] demo_data [of 3 "[80]" 8]
    by (simp_all add: cell_bytes_def)
  have op: "operand_at ?s 80" using demo_operand [of 80] by (simp add: operand_at_def)
  show ?thesis
    using call_proc_retn [OF op cells] by (auto simp: cell_bytes_def)
qed

section \<open>Callbacks and undefined behaviour\<close>

text \<open>Whatever a native function does to the machine it was given, if it returns then \<open>fire_callback\<close> puts \<open>ALT\<close>,
  \<open>FRM\<close>, \<open>CIP\<close>, \<open>STP\<close> and \<open>STK\<close> back, on success and on error; the other registers, the memory and the world
  are what the native function left.\<close>

theorem callback_keeps_registers:
  assumes "fire_callback cb index s \<in> {Ok s', Err e s'}"
  shows "ALT s' = ALT s \<and> FRM s' = FRM s \<and> CIP s' = CIP s \<and> STP s' = STP s \<and> STK s' = STK s \<and>
    (\<exists>s1. cb index (STK s) s \<in> {Ok s1, Err e s1} \<and> PRI s' = PRI s1 \<and> HEA s' = HEA s1 \<and> host s' = host s1 \<and>
       data_mem s' = data_mem s1 \<and> code_mem s' = code_mem s1 \<and> world s' = world s1)"
  using assms by (cases "cb index (STK s) s") (auto simp: fire_callback_def restore_registers_def)

theorem callback_keeps_registers_witness:
  "CIP (demo [0] 8\<lparr>PRI := 7\<rparr>) = CIP (demo [0] 8) \<and> PRI (demo [0] 8\<lparr>PRI := 7\<rparr>) = 7"
proof -
  have "fire_callback (\<lambda>i stk s. Err Callback_abort (s\<lparr>PRI := 7, CIP := 99\<rparr>)) 0 (demo [0] 8)
      \<in> {Ok (demo [0] 8\<lparr>PRI := 7\<rparr>), Err Callback_abort (demo [0] 8\<lparr>PRI := 7\<rparr>)}"
    by (simp add: fire_callback_def restore_registers_def demo_def machine_def)
  from callback_keeps_registers [OF this] show ?thesis by simp
qed

text \<open>An outcome that is undefined only by an access to the host: what every instruction but a few gives.\<close>

definition arith_defined :: "'w amx outcome \<Rightarrow> bool" where
  "arith_defined out \<longleftrightarrow> (\<forall>u. out = Undefined u \<longrightarrow> u = Bad_access)"

named_theorems arith_intros \<open>pieces of an instruction without undefined arithmetic\<close>

lemma arith_defined_simps [simp]:
  "arith_defined (Ok s)" "arith_defined (Err e s)" "arith_defined Diverges"
  "arith_defined (Undefined u) = (u = Bad_access)"
  by (simp_all add: arith_defined_def)

lemma arith_defined_pieces [arith_intros]:
  "(\<And>x. arith_defined (k x)) \<Longrightarrow> arith_defined (deref p s k)"
  "(\<And>s'. arith_defined (k1 s')) \<Longrightarrow> arith_defined (assign p v s k1)"
  "(\<And>x s'. arith_defined (k2 x s')) \<Longrightarrow> arith_defined (OPERAND s k2)"
  "(\<And>p. arith_defined (k3 p)) \<Longrightarrow> arith_defined (DATA v s k3)"
  "(\<And>p. arith_defined (k3 p)) \<Longrightarrow> arith_defined (CODEDATA v s k3)"
  "(\<And>s'. arith_defined (k1 s')) \<Longrightarrow> arith_defined (PUSH v s k1)"
  "(\<And>x s'. arith_defined (k2 x s')) \<Longrightarrow> arith_defined (POP s k2)"
  "(\<And>x. arith_defined (k x)) \<Longrightarrow> arith_defined (load v s k)"
  "(\<And>s'. arith_defined (k1 s')) \<Longrightarrow> arith_defined (store v x s k1)"
  "(\<And>p m. arith_defined (k4 p m)) \<Longrightarrow> arith_defined (subcell a n s k4)"
  by (auto simp: deref_def assign_def OPERAND_def DATA_def CODEDATA_def PUSH_def POP_def load_def store_def subcell_def
      Let_def split: option.split)

lemma arith_defined_switch_loop [arith_intros]: "arith_defined (switch_loop n t s)"
proof (induction n t s rule: switch_loop.induct)
  case (1 n t s)
  then show ?case by (subst switch_loop.simps) (auto intro!: arith_intros simp: Let_def)
qed

lemma arith_defined_block_loop:
  assumes "\<And>i s. arith_defined (body i s)"
  shows "arith_defined (block_loop go body n i s)"
  using assms
proof (induction go body n i s rule: block_loop.induct)
  case (1 go body n i s)
  have "arith_defined (body i s)" by (rule 1(2))
  with 1 show ?case by (cases "body i s") (auto simp: block_loop.simps [of go body n i s])
qed

lemma arith_defined_fire_callback [arith_intros]:
  assumes "\<And>index stk s. arith_defined (cb index stk s)"
  shows "arith_defined (fire_callback cb index s)"
  using assms [of index "STK s" s] by (cases "cb index (STK s) s") (simp_all add: fire_callback_def)

text \<open>The native functions must be free of such undefined behaviour themselves.\<close>

definition arith_callback :: "'w callback \<Rightarrow> bool" where
  "arith_callback cb \<longleftrightarrow> (\<forall>index stk s. arith_defined (cb index stk s))"

text \<open>The instructions that shift, or compute a signed result.\<close>

definition signed_or_shift :: "opcode \<Rightarrow> bool" where
  "signed_or_shift opc \<longleftrightarrow> opc \<in> {SHL, SHR, SSHR, SHL_C_PRI, SHL_C_ALT, SMUL, SDIV, NEG}"

lemma arith_defined_exec: "\<not> signed_or_shift opc \<Longrightarrow> arith_callback cb \<Longrightarrow> arith_defined (exec cb opc s)"
  by (cases opc) (auto simp: signed_or_shift_def load_ops store_ops register_ops flow_ops alu_ops block_ops
      op_sysreq_def op_break_def Let_def arith_callback_def intro!: arith_intros arith_defined_block_loop)

text \<open>When they are undefined.\<close>

fun overflows :: "opcode \<Rightarrow> 'w amx \<Rightarrow> bool" where
  "overflows SMUL s = (sint (PRI s) * sint (ALT s) \<notin> {- (2 ^ 63) ..< 2 ^ 63})"
| "overflows SDIV s = (sint (ALT s) = - (2 ^ 63) \<and> sint (PRI s) = - 1)"
| "overflows NEG s = (sint (PRI s) = - (2 ^ 63))"
| "overflows SHL s = (64 \<le> unat (ALT s))"
| "overflows SHR s = (64 \<le> unat (ALT s))"
| "overflows SSHR s = (64 \<le> unat (ALT s))"
| "overflows SHL_C_PRI s = (\<exists>a. operand_at s a \<and> 64 \<le> unat a)"
| "overflows SHL_C_ALT s = (\<exists>a. operand_at s a \<and> 64 \<le> unat a)"
| "overflows _ s = False"

lemma shift_operand_overflows:
  assumes "OPERAND s (\<lambda>a s. shift_by a (k s)) = Undefined u" "u \<noteq> Bad_access" "\<And>s n. arith_defined (k s n)"
  shows "\<exists>a. operand_at s a \<and> 64 \<le> unat a"
  using assms by (fastforce simp: OPERAND_def deref_def operand_at_def shift_by_def cell_bits_def arith_defined_def Let_def
      split: option.splits if_splits)

lemma signed_or_shift_overflows:
  assumes "exec cb opc s = Undefined u" "u \<noteq> Bad_access" "signed_or_shift opc"
  shows "overflows opc s"
  using assms(3) unfolding signed_or_shift_def
proof (elim insertE emptyE)
  show "overflows opc s" if "opc = SDIV"
    using assms(1) that by (auto simp: op_sdiv_eq split: if_splits)
qed (use assms(1,2) shift_operand_overflows [of s "\<lambda>s n. Ok (s\<lparr>PRI := push_bit n (PRI s)\<rparr>)" u]
  shift_operand_overflows [of s "\<lambda>s n. Ok (s\<lparr>ALT := push_bit n (ALT s)\<rparr>)" u] sint_cell_range [of "PRI s"] in
  \<open>auto simp: op_shl_def op_shr_def op_sshr_def op_shl_c_pri_def op_shl_c_alt_def op_smul_def op_neg_def
    shift_by_def from_scell_def cell_bits_def split: if_splits\<close>)


lemma overflows_undefined: "overflows opc s \<Longrightarrow> \<exists>u. exec cb opc s = Undefined u"
  by (cases opc) (auto simp: op_shl_def op_shr_def op_sshr_def op_shl_c_pri_def op_shl_c_alt_def op_smul_def op_neg_def
    op_sdiv_eq shift_by_def from_scell_def cell_bits_def OPERAND_at)

text \<open>C34: on a well-mapped machine, whose native functions keep to the mapped memory and are free of undefined arithmetic
  themselves, the undefined behaviour of an instruction is exactly an arithmetic overflow: a shift by 64 or more, a product or
  negation that does not fit a signed cell, or the least cell divided by \<open>-1\<close>. A division by zero is not among them, and no
  other instruction is ever undefined.\<close>

theorem undefined_iff_overflows:
  assumes "confined_callback s cb" "arith_callback cb" "well_mapped s"
  shows "(\<exists>u. exec cb opc s = Undefined u) \<longleftrightarrow> overflows opc s"
proof
  assume "\<exists>u. exec cb opc s = Undefined u"
  then obtain u where u: "exec cb opc s = Undefined u" by blast
  have "u \<noteq> Bad_access"
    using safe_exec [OF assms(1) confined_refl [OF assms(3)], of opc] u by simp
  moreover have "signed_or_shift opc"
    using arith_defined_exec [of opc cb s] assms(2) u calculation by (auto simp: arith_defined_def)
  ultimately show "overflows opc s" using signed_or_shift_overflows [OF u] by blast
qed (rule overflows_undefined)

lemma well_mapped_demo: "unat b \<le> 8 * length c \<Longrightarrow> well_mapped (demo c b)"
  unfolding demo_def by (rule well_mapped_machine) simp_all

theorem undefined_iff_overflows_witness:
  "(\<exists>u. exec quiet SMUL (demo [0] 8) = Undefined u) \<longleftrightarrow> overflows SMUL (demo [0] 8)"
  by (rule undefined_iff_overflows [OF quiet_confined _ well_mapped_demo]) (simp_all add: arith_callback_def quiet_def)

end
