(* ===== verification/Amx_Loader.thy ===== *)
theory Amx_Loader
  imports Amx_Ops
begin

text \<open>
  The loader of the driver (\<open>PawnIO/src/amx_loader.h\<close>): it reads a compiled module from the bytes it was
  given, resolves the native functions, allocates one block for everything, maps code and data, and sets the
  machine up. Reading a byte outside the file, or a cell outside the allocation, is undefined (\<open>None\<close>).
\<close>

section \<open>Reading the file\<close>

datatype loader_error = Invalid_file | Unsupported_file_version | Unsupported_amx_version | Feature_not_supported
  | Wrong_cell_size | Native_not_resolved | Unknown

definition read_le :: "nat \<Rightarrow> byte list \<Rightarrow> nat \<Rightarrow> 'a::len word defined" where
  "read_le n file off = (if off + n \<le> length file then Some (le_word (take n (drop off file))) else None)"

record header =
  file_size :: u32
  magic :: u16
  file_version :: byte
  amx_version :: byte
  hflags :: u16
  defsize :: u16
  cod :: u32
  dat :: u32
  hea :: u32
  stp :: u32
  cip :: u32
  publics_at :: u32
  natives_at :: u32
  libraries_at :: u32
  pubvars_at :: u32
  tags_at :: u32

definition read_header :: "byte list \<Rightarrow> header defined" where
  "read_header file = do {
     sz \<leftarrow> read_le 4 file 0;
     mg \<leftarrow> read_le 2 file 4;
     fv \<leftarrow> nth_def file 6;
     av \<leftarrow> nth_def file 7;
     fl \<leftarrow> read_le 2 file 8;
     ds \<leftarrow> read_le 2 file 10;
     a \<leftarrow> read_le 4 file 12;
     b \<leftarrow> read_le 4 file 16;
     c \<leftarrow> read_le 4 file 20;
     d \<leftarrow> read_le 4 file 24;
     e \<leftarrow> read_le 4 file 28;
     f \<leftarrow> read_le 4 file 32;
     g \<leftarrow> read_le 4 file 36;
     h \<leftarrow> read_le 4 file 40;
     i \<leftarrow> read_le 4 file 44;
     j \<leftarrow> read_le 4 file 48;
     Some \<lparr>file_size = sz, magic = mg, file_version = fv, amx_version = av, hflags = fl, defsize = ds,
       cod = a, dat = b, hea = c, stp = d, cip = e, publics_at = f, natives_at = g, libraries_at = h,
       pubvars_at = i, tags_at = j\<rparr> }"

definition expected_magic :: u16 where "expected_magic = 0xF1E1"
definition amx_file_version :: byte where "amx_file_version = 11"
definition flag_overlay :: u16 where "flag_overlay = 1"
definition flag_sleep :: u16 where "flag_sleep = 8"

text \<open>The checks of the header, in order; \<open>None\<close> when they pass.\<close>

definition check_header :: "nat \<Rightarrow> header \<Rightarrow> loader_error option" where
  "check_header buf_size h =
     (if magic h \<noteq> expected_magic then
        (if magic h = 0xF1E0 \<or> magic h = 0xF1E1 \<or> magic h = 0xF1E2 then Some Wrong_cell_size else Some Invalid_file)
      else if unat (file_size h) > buf_size then Some Invalid_file
      else if file_version h \<noteq> 11 then Some Unsupported_file_version
      else if amx_version h > amx_file_version then Some Unsupported_amx_version
      else if hflags h AND flag_overlay \<noteq> 0 \<or> hflags h AND flag_sleep \<noteq> 0 then Some Feature_not_supported
      else if defsize h < 8 then Some Invalid_file
      else None)"

section \<open>Tables\<close>

text \<open>\<open>iter_valarray\<close>: the offsets of the entries between two offsets, when these are a table of the file.\<close>

definition valarray :: "nat \<Rightarrow> nat \<Rightarrow> nat \<Rightarrow> nat \<Rightarrow> nat list option" where
  "valarray buf_size first hi entry_size =
     (if first > buf_size \<or> hi > buf_size \<or> first > hi \<or> (hi - first) mod entry_size \<noteq> 0 then None
      else Some (map (\<lambda>i. first + i * entry_size) [0..<(hi - first) div entry_size]))"

definition count_valarray :: "nat \<Rightarrow> nat \<Rightarrow> nat \<Rightarrow> nat \<Rightarrow> nat option" where
  "count_valarray buf_size first hi entry_size = map_option length (valarray buf_size first hi entry_size)"

text \<open>The NUL-terminated name at an offset, when it ends within the file.\<close>

definition read_name :: "byte list \<Rightarrow> nat \<Rightarrow> cstring option" where
  "read_name file ofs = (let s = c_str (drop ofs file) in if ofs + length s < length file then Some s else None)"

text \<open>A traversal stops at the first entry whose function returns \<open>false\<close>, with the error that means.\<close>

fun each_entry :: "(nat \<Rightarrow> (loader_error + 'b) defined) \<Rightarrow> nat list \<Rightarrow> (loader_error + 'b list) defined" where
  "each_entry f [] = Some (Inr [])"
| "each_entry f (p # ps) = do {
     r \<leftarrow> f p;
     case r of Inl e \<Rightarrow> Some (Inl e)
     | Inr x \<Rightarrow> do {
         rs \<leftarrow> each_entry f ps;
         Some (case rs of Inl e \<Rightarrow> Inl e | Inr xs \<Rightarrow> Inr (x # xs)) } }"

definition public_entry :: "byte list \<Rightarrow> nat \<Rightarrow> (loader_error + cstring \<times> cell) defined" where
  "public_entry file p = do {
     address \<leftarrow> (read_le 4 file p :: u32 defined);
     nameofs \<leftarrow> (read_le 4 file (p + 4) :: u32 defined);
     Some (case read_name file (unat nameofs) of None \<Rightarrow> Inl Invalid_file | Some s \<Rightarrow> Inr (s, ucast address)) }"

type_synonym 'w native = "cell \<Rightarrow> cell \<Rightarrow> 'w amx \<Rightarrow> 'w amx outcome"

definition native_entry :: "(cstring \<times> 'w native) list \<Rightarrow> byte list \<Rightarrow> nat \<Rightarrow> (loader_error + 'w native) defined" where
  "native_entry table file p = do {
     nameofs \<leftarrow> (read_le 4 file (p + 4) :: u32 defined);
     Some (case read_name file (unat nameofs) of None \<Rightarrow> Inl Invalid_file
       | Some s \<Rightarrow> (case map_of table s of None \<Rightarrow> Inl Native_not_resolved | Some f \<Rightarrow> Inr f)) }"

definition read_table :: "byte list \<Rightarrow> u32 \<Rightarrow> u32 \<Rightarrow> u16 \<Rightarrow> (nat \<Rightarrow> (loader_error + 'b) defined) \<Rightarrow> (loader_error + 'b list) defined" where
  "read_table file first hi entry f =
     (case valarray (length file) (unat first) (unat hi) (unat entry) of None \<Rightarrow> Some (Inl Invalid_file)
      | Some ps \<Rightarrow> each_entry f ps)"

section \<open>A module\<close>

record 'w module =
  code_cells :: "cell list"
  data_cells :: "cell list"
  data_alloc :: nat
  publics :: "(cstring \<times> cell) list"
  pubvars :: "(cstring \<times> cell) list"
  natives :: "'w native list"
  main_cip :: cell

text \<open>Result of a step of the loader: undefined, an error, or a value.\<close>

definition bind_load :: "(loader_error + 'a) defined \<Rightarrow> ('a \<Rightarrow> (loader_error + 'b) defined) \<Rightarrow> (loader_error + 'b) defined" where
  "bind_load m f = (case m of None \<Rightarrow> None | Some (Inl e) \<Rightarrow> Some (Inl e) | Some (Inr x) \<Rightarrow> f x)"

definition cells_between :: "byte list \<Rightarrow> nat \<Rightarrow> nat \<Rightarrow> cell list" where
  "cells_between file first count = map (\<lambda>i. le_word (take 8 (drop (first + 8 * i) file))) [0..<count]"

text \<open>The first half of \<open>init\<close>: everything that is read from the file. The traversals that fill the tables
  repeat the ones that counted them, on the same bytes.\<close>

definition parse_tables :: "(cstring \<times> 'w native) list \<Rightarrow> byte list \<Rightarrow> header \<Rightarrow> nat \<Rightarrow> nat \<Rightarrow> (loader_error + 'w module) defined" where
  "parse_tables table file h code_count data_count =
     bind_load (read_table file (publics_at h) (natives_at h) (defsize h) (public_entry file)) (\<lambda>pubs.
     bind_load (read_table file (natives_at h) (libraries_at h) (defsize h) (native_entry table file)) (\<lambda>nats.
     if libraries_at h \<noteq> pubvars_at h then Some (Inl Feature_not_supported)
     else bind_load (read_table file (pubvars_at h) (tags_at h) (defsize h) (public_entry file)) (\<lambda>vars.
       let extra_size = unat (stp h - hea h) + 8 - 1 in
       Some (Inr \<lparr>code_cells = cells_between file (unat (cod h)) code_count,
         data_cells = cells_between file (unat (dat h)) data_count,
         data_alloc = data_count + extra_size div 8,
         publics = pubs, pubvars = vars, natives = nats,
         main_cip = (if cip h = 0xFFFFFFFF then 0 else ucast (cip h))\<rparr>))))"

definition parse_module :: "(cstring \<times> 'w native) list \<Rightarrow> byte list \<Rightarrow> (loader_error + 'w module) defined" where
  "parse_module table file =
     (if length file < 60 then Some (Inl Invalid_file)
      else do {
        h \<leftarrow> read_header file;
        case check_header (length file) h of Some e \<Rightarrow> Some (Inl e)
        | None \<Rightarrow>
          (case count_valarray (length file) (unat (cod h)) (unat (dat h)) 8 of None \<Rightarrow> Some (Inl Invalid_file)
           | Some code_count \<Rightarrow>
             (case count_valarray (length file) (unat (dat h)) (unat (hea h)) 8 of None \<Rightarrow> Some (Inl Invalid_file)
              | Some data_count \<Rightarrow> parse_tables table file h code_count data_count)) })"

section \<open>Reading is within the file\<close>

lemma read_le_defined [simp]: "off + n \<le> length file \<Longrightarrow> read_le n file off \<noteq> None"
  by (simp add: read_le_def)

lemma read_header_defined: "60 \<le> length file \<Longrightarrow> read_header file \<noteq> None"
  by (simp add: read_header_def read_le_def)

lemma valarray_entries:
  assumes "valarray n first hi e = Some ps" "p \<in> set ps"
  shows "p + e \<le> n"
proof -
  obtain i where i: "i < (hi - first) div e" "p = first + i * e"
    using assms by (auto simp: valarray_def split: if_splits)
  have "(i + 1) * e \<le> hi - first"
    using i(1) by (metis Suc_eq_plus1 Suc_leI div_times_less_eq_dividend le_trans mult_le_mono1)
  moreover have "first \<le> hi" "hi \<le> n" using assms(1) by (auto simp: valarray_def split: if_splits)
  ultimately show ?thesis using i(2) by (simp add: algebra_simps)
qed

lemma each_entry_defined: "(\<And>p. p \<in> set ps \<Longrightarrow> f p \<noteq> None) \<Longrightarrow> each_entry f ps \<noteq> None"
  by (induction ps) (auto split: sum.splits Option.bind_splits)

lemma read_table_defined:
  assumes "8 \<le> unat e" "\<And>p. p + 8 \<le> length file \<Longrightarrow> f p \<noteq> None"
  shows "read_table file first hi e f \<noteq> None"
proof (cases "valarray (length file) (unat first) (unat hi) (unat e)")
  case (Some ps)
  have "f p \<noteq> None" if "p \<in> set ps" for p
    using valarray_entries [OF Some that] assms by simp
  then show ?thesis using Some by (simp add: read_table_def each_entry_defined del: not_None_eq)
qed (simp add: read_table_def)

lemma entries_defined:
  "p + 8 \<le> length file \<Longrightarrow> public_entry file p \<noteq> None" "p + 8 \<le> length file \<Longrightarrow> native_entry table file p \<noteq> None"
  by (simp_all add: public_entry_def native_entry_def read_le_def)

named_theorems defined_intros "how a step of the loader is defined"

lemma bind_load_defined [defined_intros]: "m \<noteq> None \<Longrightarrow> (\<And>x. f x \<noteq> None) \<Longrightarrow> bind_load m f \<noteq> None"
  by (auto simp: bind_load_def split: sum.split)

lemma if_defined [defined_intros]: "x \<noteq> None \<Longrightarrow> y \<noteq> None \<Longrightarrow> (if b then x else y) \<noteq> None"
  by simp

text \<open>Reading a module never touches a byte outside the file: every input gives a module or an error.\<close>

lemma parse_total: "\<exists>r. parse_module table file = Some r"
proof -
  have "parse_tables table file h cc dc \<noteq> None" if "check_header (length file) h = None" for h cc dc
  proof -
    have e: "8 \<le> unat (defsize h)"
      using that by (auto simp: check_header_def not_less word_le_nat_alt split: if_splits)
    show ?thesis
      unfolding parse_tables_def Let_def
      by (rule defined_intros read_table_defined [OF e] entries_defined option.distinct | assumption)+
  qed
  then have "parse_module table file \<noteq> None"
    using read_header_defined [of "file"]
    by (cases "length file < 60") (auto simp: parse_module_def not_less split: option.splits Option.bind_splits)
  then show ?thesis by blast
qed

section \<open>Laying the module out\<close>

text \<open>
  One allocation holds the code, the data with the room for heap and stack, the tables and the names. Its size
  counts 16 bytes for each native, the table itself takes 8. \<open>alloc\<close> stands for \<open>ExAllocatePoolZero\<close>: the
  block it returns for a size, if any. The tables and names are the lists of the module; the block of the model holds the
  cells of code and data.
\<close>

definition align_up :: "nat \<Rightarrow> nat" where
  "align_up v = (v + 16 - 1) div 16 * 16"

definition string_bytes :: "'w module \<Rightarrow> nat" where
  "string_bytes m = sum_list (map (\<lambda>(s, a). length s + 1) (publics m @ pubvars m))"

definition alloc_size :: "'w module \<Rightarrow> nat" where
  "alloc_size m = align_up (8 * length (code_cells m)) + align_up (8 * data_alloc m)
     + align_up (16 * length (publics m)) + align_up (16 * length (pubvars m)) + align_up (16 * length (natives m))
     + string_bytes m"

definition data_start :: "'w module \<Rightarrow> nat" where
  "data_start m = align_up (8 * length (code_cells m))"

text \<open>\<open>string_buffer\<close> after the last name was copied.\<close>

definition names_end :: "'w module \<Rightarrow> nat" where
  "names_end m = data_start m + align_up (8 * data_alloc m)
     + align_up (16 * length (publics m)) + align_up (16 * length (pubvars m)) + align_up (8 * length (natives m))
     + string_bytes m"

definition image :: "'w module \<Rightarrow> cell list" where
  "image m = code_cells m @ replicate (data_start m div 8 - length (code_cells m)) 0
     @ data_cells m @ replicate (data_alloc m - length (data_cells m)) 0"

definition place :: "nat \<Rightarrow> (nat \<Rightarrow> cell list option) \<Rightarrow> 'w \<Rightarrow> 'w module \<Rightarrow> (loader_error + 'w amx) defined" where
  "place b h w m =
     (if data_start m + 8 * length (code_cells m) > alloc_size m then None
      else case contiguous_map \<lparr>block = b, cell_at = 0\<rparr> (of_nat (length (code_cells m))) no_buffer of
        None \<Rightarrow> None | Some None \<Rightarrow> Some (Inl Unknown) | Some (Some (code_base, cm)) \<Rightarrow>
      (case paged_map \<lparr>block = b, cell_at = data_start m div 8\<rparr> (of_nat (data_alloc m)) no_pages of
        None \<Rightarrow> None | Some None \<Rightarrow> Some (Inl Unknown) | Some (Some (data_base, dm)) \<Rightarrow>
      if names_end m \<ge> alloc_size m then Some (Inl Unknown)
      else let top = (of_nat (data_alloc m) - 1) * cell_bytes in
        Some (Inr \<lparr>PRI = 0, ALT = 0, FRM = 0, CIP = 0, DAT = data_base, COD = code_base, STP = top, STK = top,
          HEA = of_nat (length (data_cells m)) * cell_bytes, code_mem = cm, data_mem = dm,
          host = h(b \<mapsto> image m), world = w\<rparr>)))"

definition init :: "(cstring \<times> 'w native) list \<Rightarrow> (nat \<Rightarrow> nat option) \<Rightarrow> (nat \<Rightarrow> cell list option) \<Rightarrow> 'w \<Rightarrow> byte list
    \<Rightarrow> (loader_error + 'w module \<times> 'w amx) defined" where
  "init table alloc h w file = bind_load (parse_module table file) (\<lambda>m.
     case alloc (alloc_size m) of None \<Rightarrow> Some (Inl Unknown)
     | Some b \<Rightarrow> bind_load (place b h w m) (\<lambda>s. Some (Inr (m, s))))"

section \<open>The loaded module\<close>

definition get_public :: "cstring \<Rightarrow> 'w module \<Rightarrow> cell" where
  "get_public v m = (case map_of (publics m) v of None \<Rightarrow> 0 | Some a \<Rightarrow> a)"

definition get_pubvar :: "cstring \<Rightarrow> 'w module \<Rightarrow> cell" where
  "get_pubvar v m = (case map_of (pubvars m) v of None \<Rightarrow> 0 | Some a \<Rightarrow> a)"

definition get_main :: "'w module \<Rightarrow> cell" where "get_main m = main_cip m"

type_synonym 'w event = "('w amx \<Rightarrow> 'w amx outcome) option"

definition amx_callback :: "'w event \<Rightarrow> 'w event \<Rightarrow> 'w native list \<Rightarrow> 'w callback" where
  "amx_callback on_single_step on_break ns index stk s =
     (if index = cbid_single_step then (case on_single_step of None \<Rightarrow> Ok s | Some f \<Rightarrow> f s)
      else if index = cbid_break then (case on_break of None \<Rightarrow> Ok s | Some f \<Rightarrow> f s)
      else if unat index \<ge> length ns then Err Invalid_operand s
      else case data_v2p s stk of None \<Rightarrow> Err Access_violation s
        | Some p \<Rightarrow> deref p s (\<lambda>pargc. (ns ! unat index) (pargc div cell_bytes) (stk + cell_bytes) s))"

section \<open>What a parsed module is\<close>

lemma bind_load_Inr:
  "bind_load m f = Some (Inr y) \<longleftrightarrow> (\<exists>x. m = Some (Inr x) \<and> f x = Some (Inr y))"
  by (auto simp: bind_load_def split: option.splits sum.splits)

lemma count_valarray_bound: "count_valarray n lo (unat (hi :: u32)) 8 = Some k \<Longrightarrow> k < 2 ^ 29"
  using unsigned_less [where 'a = nat, of hi]
  by (auto simp: count_valarray_def valarray_def less_mult_imp_div_less split: if_splits)

definition module_ok :: "'w module \<Rightarrow> bool" where
  "module_ok m \<longleftrightarrow> length (code_cells m) < 2 ^ 29 \<and> length (data_cells m) \<le> data_alloc m \<and> data_alloc m \<le> 2 ^ 30"

lemma parse_tables_ok:
  assumes "parse_tables table file h cc dc = Some (Inr m)" "cc < 2 ^ 29" "dc < 2 ^ 29"
  shows "module_ok m"
proof -
  have "(unat (stp h - hea h) + 7) div 8 \<le> 2 ^ 29"
    using unsigned_less [where 'a = nat, of "stp h - hea h"] by simp
  with assms show ?thesis
    by (auto simp: parse_tables_def bind_load_Inr module_ok_def cells_between_def Let_def split: if_splits)
qed

lemma parse_module_ok: "parse_module table file = Some (Inr m) \<Longrightarrow> module_ok m"
  using parse_tables_ok count_valarray_bound
  by (fastforce simp: parse_module_def split: option.splits Option.bind_splits if_splits)

lemma align_up_ge: "v \<le> align_up v" "8 dvd align_up v"
  by (simp_all add: align_up_def)

lemma align_up_mono: "v \<le> v' \<Longrightarrow> align_up v \<le> align_up v'"
  by (simp add: align_up_def div_le_mono)

lemma length_image: "module_ok m \<Longrightarrow> length (image m) = data_start m div 8 + data_alloc m"
  using align_up_ge [of "8 * length (code_cells m)"]
  by (auto simp: image_def data_start_def module_ok_def elim!: dvdE)

lemma image_code: "i < length (code_cells m) \<Longrightarrow> image m ! i = code_cells m ! i"
  by (simp add: image_def nth_append)

lemma image_data:
  assumes "i < data_alloc m"
  shows "image m ! (data_start m div 8 + i) = (if i < length (data_cells m) then data_cells m ! i else 0)"
proof -
  obtain d where d: "data_start m div 8 = d" by simp
  have "length (code_cells m) \<le> data_start m div 8"
    using align_up_ge [of "8 * length (code_cells m)"] by (auto simp: data_start_def elim!: dvdE)
  then show ?thesis using assms unfolding d image_def by (auto simp: nth_append)
qed

text \<open>The machine that \<open>place\<close> sets up, when it does.\<close>

lemma place_cases:
  assumes "place b h w m = Some (Inr s)"
  shows "names_end m < alloc_size m"
    and "contiguous_map \<lparr>block = b, cell_at = 0\<rparr> (of_nat (length (code_cells m))) no_buffer = Some (Some (COD s, code_mem s))"
    and "paged_map \<lparr>block = b, cell_at = data_start m div 8\<rparr> (of_nat (data_alloc m)) no_pages = Some (Some (DAT s, data_mem s))"
    and "host s = h(b \<mapsto> image m)" and "world s = w"
    and "STK s = (of_nat (data_alloc m) - 1) * cell_bytes" "STP s = STK s"
    and "HEA s = of_nat (length (data_cells m)) * cell_bytes"
  using assms by (auto simp: place_def Let_def split: if_splits option.splits prod.splits)

lemma init_cases:
  assumes "init table alloc h w file = Some (Inr (m, s))"
  obtains b where "parse_module table file = Some (Inr m)" "alloc (alloc_size m) = Some b"
    "place b h w m = Some (Inr s)" "module_ok m"
  using assms parse_module_ok by (fastforce simp: init_def bind_load_Inr split: option.splits)

text \<open>A module with fewer than two native functions is never loaded: the allocation counts 16 bytes for each
  entry of the native table, the table has 8, and the check at the end needs the difference.\<close>

theorem load_needs_natives:
  assumes "init table alloc h w file = Some (Inr (m, s))"
  shows "2 \<le> length (natives m)"
proof (rule ccontr)
  assume "\<not> 2 \<le> length (natives m)"
  then have "length (natives m) = 0 \<or> length (natives m) = 1" by linarith
  then have "align_up (16 * length (natives m)) = align_up (8 * length (natives m))" by (auto simp: align_up_def)
  then have "names_end m = alloc_size m" by (simp add: names_end_def alloc_size_def data_start_def)
  then show False using assms place_cases(1) by (metis init_cases less_irrefl)
qed

lemma place_defined:
  assumes "module_ok m"
  shows "place b h w m = None \<longleftrightarrow> data_start m + 8 * length (code_cells m) > alloc_size m"
proof -
  have "paged_map p (of_nat (data_alloc m)) no_pages \<noteq> None" for p
  proof (cases "data_alloc m = 0")
    case False
    have "data_alloc m < 2 ^ 64" "data_alloc m \<le> 2 ^ 56" using assms by (simp_all add: module_ok_def)
    with False have "one_page (of_nat (data_alloc m))"
      by (simp add: one_page_def word_less_nat_alt unat_of_nat_small)
    then show ?thesis using pages.map_defined no_pages_ok by blast
  qed (simp add: paged_map_def)
  then show ?thesis
    by (auto simp: place_def contiguous_map_def no_buffer_def Let_def split: option.split) (metis option.distinct(1))
qed

text \<open>Loading is undefined in one case only: the loop that fixes the byte order of the data runs over as many
  cells as the code has, and leaves the allocation when these do not fit behind the start of the data.\<close>

theorem load_undefined_iff:
  "init table alloc h w file = None \<longleftrightarrow>
    (\<exists>m b. parse_module table file = Some (Inr m) \<and> alloc (alloc_size m) = Some b \<and>
       alloc_size m < data_start m + 8 * length (code_cells m))"
proof -
  obtain r where r: "parse_module table file = Some r" using parse_total by blast
  show ?thesis
  proof (cases r)
    case (Inr m)
    have "module_ok m" using r Inr parse_module_ok by blast
    then have "place b h w m = None \<longleftrightarrow> data_start m + 8 * length (code_cells m) > alloc_size m" for b
      by (rule place_defined)
    then show ?thesis
      using r Inr by (auto simp: init_def bind_load_def split: option.split sum.split)
  qed (simp add: r init_def bind_load_def)
qed

section \<open>What the script finds\<close>

lemma loaded_v2p:
  assumes "place b h w m = Some (Inr s)" "module_ok m"
  shows "i < length (code_cells m) \<Longrightarrow> code_v2p s (of_nat i * cell_bytes) = Some \<lparr>block = b, cell_at = i\<rparr>"
    and "i < data_alloc m \<Longrightarrow> data_v2p s (of_nat i * cell_bytes) = Some \<lparr>block = b, cell_at = data_start m div 8 + i\<rparr>"
proof -
  have cs: "unat (of_nat (length (code_cells m)) :: u64) = length (code_cells m)"
    and ds: "unat (of_nat (data_alloc m) :: u64) = data_alloc m"
    using assms(2) by (simp_all add: module_ok_def unat_of_nat_small)
  show "code_v2p s (of_nat i * cell_bytes) = Some \<lparr>block = b, cell_at = i\<rparr>" if "i < length (code_cells m)"
  proof -
    have "buffer_size (of_nat (length (code_cells m)))" using assms(2) cs by (simp add: buffer_size_def module_ok_def)
    moreover have "buffer_ok no_buffer" by (simp add: buffer_ok_def no_buffer_def)
    ultimately show ?thesis
      using code_buffer.map_reaches [OF _ _ place_cases(2) [OF assms(1)], of i] that cs
      by (simp add: code_v2p_def hplus_def)
  qed
  show "data_v2p s (of_nat i * cell_bytes) = Some \<lparr>block = b, cell_at = data_start m div 8 + i\<rparr>" if "i < data_alloc m"
  proof -
    have "one_page (of_nat (data_alloc m))"
      using assms(2) that ds by (simp add: one_page_def module_ok_def word_less_nat_alt)
    then show ?thesis
      using pages.map_reaches [OF no_pages_ok _ place_cases(3) [OF assms(1)], of i] that ds
      by (simp add: data_v2p_def hplus_def)
  qed
qed

text \<open>C33: after a successful load the script finds its image: every cell of the code and of the initialised data at
  its address with the value of the file, zeros from there to the top of the stack, the heap starting right
  after the data and the stack at the last cell.\<close>

theorem load_maps_image:
  assumes "init table alloc h w file = Some (Inr (m, s))"
  shows "(\<forall>i < length (code_cells m).
      Option.bind (code_v2p s (of_nat i * cell_bytes)) (host_read s) = Some (code_cells m ! i)) \<and>
    (\<forall>i < data_alloc m. Option.bind (data_v2p s (of_nat i * cell_bytes)) (host_read s) =
      Some (if i < length (data_cells m) then data_cells m ! i else 0)) \<and>
    HEA s = of_nat (length (data_cells m)) * cell_bytes \<and> STK s = (of_nat (data_alloc m) - 1) * cell_bytes \<and> STP s = STK s"
proof -
  obtain b where b: "place b h w m = Some (Inr s)" "module_ok m" using init_cases [OF assms] .
  have h: "host s b = Some (image m)" by (simp add: place_cases(4) [OF b(1)])
  show ?thesis
    using place_cases(6,7,8) [OF b(1)] length_image [OF b(2)] image_code [of _ m] image_data [of _ m] b(2)
      align_up_ge [of "8 * length (code_cells m)"]
    by (auto simp: loaded_v2p [OF b] host_read_def h nth_def_def data_start_def elim!: dvdE)
qed

section \<open>A loaded module is isolated\<close>

text \<open>What a native function must keep, for the module that was loaded.\<close>

definition confined_native :: "'w amx \<Rightarrow> 'w native \<Rightarrow> bool" where
  "confined_native s0 f \<longleftrightarrow> (\<forall>argc argv s. confined s0 s \<longrightarrow> safe s0 (f argc argv s))"

lemma confined_amx_callback:
  assumes "\<forall>f \<in> set ns. confined_native s0 f"
  shows "confined_callback s0 (amx_callback None None ns)"
proof -
  have "safe s0 (amx_callback None None ns index stk s)" if c: "confined s0 s" for index stk s
  proof (cases "unat index < length ns")
    case True
    then have "confined_native s0 (ns ! unat index)" using assms by simp
    then have n: "safe s0 ((ns ! unat index) argc argv s)" for argc argv using c by (simp add: confined_native_def)
    have "safe s0 (DATA stk s (\<lambda>p. deref p s (\<lambda>x. (ns ! unat index) (x div cell_bytes) (stk + cell_bytes) s)))"
      using c n by (auto intro!: safe_intros)
    then show ?thesis using c by (auto simp: amx_callback_def DATA_def split: option.split)
  qed (use c in \<open>auto simp: amx_callback_def\<close>)
  then show ?thesis by (simp add: confined_callback_def)
qed

lemma nothing_mapped: "paged_translate no_pages a = None" "contiguous_translate no_buffer a = None"
  using page_of_no_pages [OF page_number] by (simp_all add: paged_translate_nat contiguous_translate_def no_buffer_def)

lemma loaded_mapped:
  assumes "place b h w m = Some (Inr s)" "module_ok m"
  shows "mapped s p \<Longrightarrow> \<exists>i < data_alloc m. p = \<lparr>block = b, cell_at = data_start m div 8 + i\<rparr>"
    and "code_mapped s p \<Longrightarrow> \<exists>i < length (code_cells m). p = \<lparr>block = b, cell_at = i\<rparr>"
proof -
  have cs: "unat (of_nat (length (code_cells m)) :: u64) = length (code_cells m)"
    and ds: "unat (of_nat (data_alloc m) :: u64) = data_alloc m"
    using assms(2) by (simp_all add: module_ok_def unat_of_nat_small)
  show "\<exists>i < data_alloc m. p = \<lparr>block = b, cell_at = data_start m div 8 + i\<rparr>" if mp: "mapped s p"
  proof (cases "data_alloc m = 0")
    case True
    then have "data_mem s = no_pages" using place_cases(3) [OF assms(1)] by (simp add: paged_map_def)
    with mp show ?thesis by (simp add: mapped_def nothing_mapped)
  next
    case False
    then have "one_page (of_nat (data_alloc m))"
      using assms(2) ds by (simp add: one_page_def module_ok_def word_less_nat_alt)
    then show ?thesis
      using pages.map_only [OF no_pages_ok _ place_cases(3) [OF assms(1)]] mp ds
      by (fastforce simp: mapped_def nothing_mapped hplus_def)
  qed
  show "\<exists>i < length (code_cells m). p = \<lparr>block = b, cell_at = i\<rparr>" if mp: "code_mapped s p"
  proof -
    have "buffer_size (of_nat (length (code_cells m)))" using assms(2) cs by (simp add: buffer_size_def module_ok_def)
    moreover have "buffer_ok no_buffer" by (simp add: buffer_ok_def no_buffer_def)
    ultimately show ?thesis
      using code_buffer.map_only [OF _ _ place_cases(2) [OF assms(1)]] mp cs
      by (fastforce simp: code_mapped_def nothing_mapped hplus_def)
  qed
qed

lemma loaded_well_mapped:
  assumes "place b h w m = Some (Inr s)" "module_ok m"
  shows "well_mapped s"
proof -
  have "length (code_cells m) \<le> data_start m div 8"
    using align_up_ge [of "8 * length (code_cells m)"] by (auto simp: data_start_def elim!: dvdE)
  moreover have "host s b = Some (image m)" by (simp add: place_cases(4) [OF assms(1)])
  ultimately show ?thesis
    using loaded_mapped [OF assms] length_image [OF assms(2)]
    unfolding well_mapped_def by (fastforce simp: host_read_def nth_def_def)
qed

lemma host_eq:
  assumes "map_option length (host s b) = map_option length (host s' b)"
    and "\<And>i. host_read s \<lparr>block = b, cell_at = i\<rparr> = host_read s' \<lparr>block = b, cell_at = i\<rparr>"
  shows "host s b = host s' b"
proof (cases "host s b")
  case (Some xs)
  then obtain ys where ys: "host s' b = Some ys" "length xs = length ys" using assms(1) by (cases "host s' b") auto
  have "xs ! i = ys ! i" if "i < length xs" for i
    using assms(2) [of i] that ys Some by (simp add: host_read_def nth_def_def)
  then show ?thesis using Some ys by (simp add: list_eq_iff_nth_eq)
qed (use assms(1) in auto)

text \<open>C4: if every native function that a module imports keeps to the data the module has mapped, a call to one of
  its public functions, whatever the function does, can change only the data of the module: every other buffer of
  the host, and the code of the module, are as before the call, and no byte outside a buffer is accessed. (Of the
  natives of the driver, \<open>cpuid\<close>, \<open>call_native\<close> or \<open>virtual_write_byte\<close> do not keep to it.)\<close>

theorem public_call_isolated:
  assumes "init table alloc h w file = Some (Inr (m, s))" "alloc (alloc_size m) = Some b"
    and "\<forall>f \<in> set (natives m). confined_native s f"
    and "amx_call (amx_callback None None (natives m)) (get_public v m) args s = Some out"
  shows "out \<noteq> Undefined Bad_access \<and>
    (\<forall>s' e. out = Ok s' \<or> out = Err e s' \<longrightarrow>
      (\<forall>b'. b' \<noteq> b \<longrightarrow> host s' b' = h b') \<and>
      (\<forall>i < length (code_cells m). host_read s' \<lparr>block = b, cell_at = i\<rparr> = Some (code_cells m ! i)))"
proof -
  have p: "place b h w m = Some (Inr s)" "module_ok m" using init_cases [OF assms(1)] assms(2) by (metis option.inject)+
  have safe: "safe s out"
    using assms(4) confined_amx_callback [OF assms(3)] loaded_well_mapped [OF p] by (rule safe_amx_call)
  have h: "host s = h(b \<mapsto> image m)" by (rule place_cases(4) [OF p(1)])
  have "(\<forall>b'. b' \<noteq> b \<longrightarrow> host s' b' = h b') \<and>
      (\<forall>i < length (code_cells m). host_read s' \<lparr>block = b, cell_at = i\<rparr> = Some (code_cells m ! i))"
    if c: "confined s s'" for s'
  proof (intro conjI allI impI)
    fix b' assume b': "b' \<noteq> b"
    have "\<not> mapped s \<lparr>block = b', cell_at = i\<rparr>" for i using loaded_mapped(1) [OF p] b' by fastforce
    then have "host s' b' = host s b'" using c by (intro host_eq) (auto simp: confined_def)
    then show "host s' b' = h b'" using b' by (simp add: h)
  next
    fix i assume i: "i < length (code_cells m)"
    have d: "length (code_cells m) \<le> data_start m div 8"
      using align_up_ge [of "8 * length (code_cells m)"] by (auto simp: data_start_def elim!: dvdE)
    then have "\<not> mapped s \<lparr>block = b, cell_at = i\<rparr>" using loaded_mapped(1) [OF p] i by fastforce
    then have "host_read s' \<lparr>block = b, cell_at = i\<rparr> = host_read s \<lparr>block = b, cell_at = i\<rparr>"
      using c by (simp add: confined_def)
    then show "host_read s' \<lparr>block = b, cell_at = i\<rparr> = Some (code_cells m ! i)"
      using i d length_image [OF p(2)] by (simp add: h host_read_def nth_def_def image_code)
  qed
  with safe show ?thesis by (auto simp: safe_def)
qed

section \<open>A module to load\<close>

text \<open>
  One public function \<open>ioctl_x\<close> at address 16, that copies the first cell of its input to its output:
  \<open>halt 0; proc; load.s.pri 24; load.i; load.s.alt 40; stor.i; const.pri 0; retn\<close>. Two natives, one cell of
  data, 32 cells for heap and stack.
\<close>

definition sample_header :: "byte list" where
  "sample_header = concat (map (le_bytes 4) [224 :: u32]) @ le_bytes 2 (0xF1E1 :: u16) @ [11, 11] @ le_bytes 2 (0 :: u16)
     @ le_bytes 2 (8 :: u16) @ concat (map (le_bytes 4) [120 :: u32, 216, 224, 480, 0xFFFFFFFF, 60, 68, 84, 84, 84, 0, 0])"
definition sample_tables :: "byte list" where
  "sample_tables = concat (map (le_bytes 4) [16 :: u32, 84, 0, 92, 0, 101])
     @ [105, 111, 99, 116, 108, 95, 120, 0, 103, 101, 116, 95, 97, 114, 99, 104, 0,
        103, 101, 116, 95, 118, 101, 114, 115, 105, 111, 110, 0, 0, 0, 0, 0, 0, 0, 0]"
definition sample_code :: "cell list" where "sample_code = [67, 0, 30, 3, 24, 7, 4, 40, 16, 9, 0, 32]"
definition sample_file :: "byte list" where
  "sample_file = sample_header @ sample_tables @ concat (map (le_bytes 8) sample_code) @ le_bytes 8 (5 :: cell)"

lemma file_bytes: "sample_file = [224, 0, 0, 0, 225, 241, 11, 11, 0, 0, 8, 0, 120, 0, 0, 0, 216, 0, 0, 0, 224, 0, 0, 0,
  224, 1, 0, 0, 255, 255, 255, 255, 60, 0, 0, 0, 68, 0, 0, 0, 84, 0, 0, 0, 84, 0, 0, 0, 84, 0, 0, 0, 0, 0, 0, 0, 0, 0, 0, 0] @
  sample_tables @ concat (map (le_bytes 8) sample_code) @ le_bytes 8 (5 :: cell)"
  unfolding sample_file_def sample_header_def by (simp add: le_bytes_def upt_rec)
lemma length_file [simp]: "length sample_file = 224" by (simp add: sample_file_def sample_header_def sample_tables_def sample_code_def)

lemma sample_header_read: "read_header sample_file = Some \<lparr>file_size = 224, magic = 0xF1E1, file_version = 11, amx_version = 11, hflags = 0, defsize = 8,
   cod = 120, dat = 216, hea = 224, stp = 480, cip = 0xFFFFFFFF, publics_at = 60, natives_at = 68, libraries_at = 84, pubvars_at = 84, tags_at = 84\<rparr>"
  unfolding file_bytes
  by code_simp

definition get_arch_name :: cstring where "get_arch_name = [103, 101, 116, 95, 97, 114, 99, 104]"
definition get_version_name :: cstring where "get_version_name = [103, 101, 116, 95, 118, 101, 114, 115, 105, 111, 110]"
definition ioctl_x_name :: cstring where "ioctl_x_name = [105, 111, 99, 116, 108, 95, 120]"
definition sample_natives :: "(cstring \<times> unit native) list" where
  "sample_natives = [(get_arch_name, \<lambda>argc argv s. Ok (s\<lparr>PRI := 2\<rparr>)), (get_version_name, \<lambda>argc argv s. Ok (s\<lparr>PRI := 0x20000\<rparr>))]"

text \<open>What the loader makes of it.\<close>

definition sample_module :: "unit module" where
  "sample_module = \<lparr>code_cells = sample_code, data_cells = [5], data_alloc = 33, publics = [(ioctl_x_name, 16)],
     pubvars = [], natives = map snd sample_natives, main_cip = 0\<rparr>"

lemma sample_names:
  "read_le 4 sample_file 72 = Some (92 :: u32)" "read_name sample_file 92 = Some get_arch_name"
  "read_le 4 sample_file 80 = Some (101 :: u32)" "read_name sample_file 101 = Some get_version_name"
  unfolding file_bytes
  by code_simp+

lemma sample_natives_read:
  "read_table sample_file 68 84 8 (native_entry sample_natives sample_file) = Some (Inr (map snd sample_natives))"
  by (simp add: read_table_def valarray_def native_entry_def upt_rec sample_names sample_natives_def get_arch_name_def
      get_version_name_def)

lemma sample_tables_read:
  "read_table sample_file 60 68 8 (public_entry sample_file) = Some (Inr [(ioctl_x_name, 16)])"
  "read_table sample_file 84 84 8 (public_entry sample_file) = Some (Inr [])"
  unfolding file_bytes
  by code_simp+

lemma sample_cells: "cells_between sample_file 120 12 = sample_code" "cells_between sample_file 216 (Suc 0) = [5]"
  unfolding file_bytes
  by code_simp+

lemma sample_parsed: "parse_module sample_natives sample_file = Some (Inr sample_module)"
  by (simp add: parse_module_def sample_header_read check_header_def expected_magic_def amx_file_version_def flag_overlay_def
    flag_sleep_def count_valarray_def valarray_def parse_tables_def sample_tables_read sample_natives_read bind_load_def Let_def sample_cells sample_module_def)

definition sample_machine :: "unit amx" where
  "sample_machine = \<lparr>PRI = 0, ALT = 0, FRM = 0, CIP = 0, DAT = 0, COD = 0, STP = 256, STK = 256, HEA = 8,
     code_mem = \<lparr>cbuf = Some \<lparr>block = 0, cell_at = 0\<rparr>, csize = 96\<rparr>,
     data_mem = no_pages[0 := \<lparr>buf = Some \<lparr>block = 0, cell_at = 12\<rparr>, msize = 264\<rparr>],
     host = [0 \<mapsto> sample_code @ 5 # replicate 32 0], world = ()\<rparr>"

lemma sample_placed: "place 0 Map.empty () sample_module = Some (Inr sample_machine)"
  by (simp add: place_def sample_module_def data_start_def alloc_size_def names_end_def align_up_def sample_code_def
     string_bytes_def sample_natives_def ioctl_x_name_def contiguous_map_def no_buffer_def Let_def
     map_first_page one_page_def sample_machine_def cell_bytes_def image_def)

lemma sample_loaded: "init sample_natives (\<lambda>_. Some 0) Map.empty () sample_file = Some (Inr (sample_module, sample_machine))"
  by (simp add: init_def bind_load_def sample_parsed sample_placed)

theorem load_needs_natives_witness: "2 \<le> length (natives sample_module)"
  by (rule load_needs_natives [OF sample_loaded])

theorem load_maps_image_witness:
  "\<exists>m s. init sample_natives (\<lambda>_. Some 0) Map.empty () sample_file = Some (Inr (m, s)) \<and>
    (\<forall>i < length (code_cells m).
      Option.bind (code_v2p s (of_nat i * cell_bytes)) (host_read s) = Some (code_cells m ! i)) \<and>
    (\<forall>i < data_alloc m. Option.bind (data_v2p s (of_nat i * cell_bytes)) (host_read s) =
      Some (if i < length (data_cells m) then data_cells m ! i else 0)) \<and>
    HEA s = of_nat (length (data_cells m)) * cell_bytes \<and> STK s = (of_nat (data_alloc m) - 1) * cell_bytes \<and> STP s = STK s"
  using sample_loaded load_maps_image [OF sample_loaded] by blast

lemma sample_confined: "f \<in> set (natives sample_module) \<Longrightarrow> confined_native s0 f"
  by (auto simp: sample_module_def sample_natives_def confined_native_def)

lemma sample_call:
  "\<exists>s'. amx_call (amx_callback None None (natives sample_module)) (get_public ioctl_x_name sample_module) [0, 1, 16, 1]
     sample_machine = Some (Ok s')"
  by (simp add: machine_simps sample_machine_def sample_code_def run.simps get_public_def sample_module_def ioctl_x_name_def
     amx_callback_def cbid_single_step_def op_proc_def op_load_s_pri_def op_load_i_def op_load_s_alt_def op_stor_i_def
     op_const_pri_def op_retn_def)

theorem public_call_isolated_witness:
  "\<exists>out. amx_call (amx_callback None None (natives sample_module)) (get_public ioctl_x_name sample_module) [0, 1, 16, 1]
      sample_machine = Some out \<and> out \<noteq> Undefined Bad_access \<and>
    (\<forall>s' e. out = Ok s' \<or> out = Err e s' \<longrightarrow>
      (\<forall>b'. b' \<noteq> 0 \<longrightarrow> host s' b' = (Map.empty b' :: cell list option)) \<and>
      (\<forall>i < length (code_cells sample_module). host_read s' \<lparr>block = 0, cell_at = i\<rparr> = Some (code_cells sample_module ! i)))"
proof -
  obtain s' where s': "amx_call (amx_callback None None (natives sample_module)) (get_public ioctl_x_name sample_module)
      [0, 1, 16, 1] sample_machine = Some (Ok s')"
    using sample_call by blast
  show ?thesis
    by (rule exI, rule conjI [OF s' public_call_isolated [OF sample_loaded refl _ s']]) (simp add: sample_confined)
qed

end
