(* ===== verification/Vm_Natives.thy ===== *)
theory Vm_Natives
  imports Amx_Loader
begin

text \<open>
  The native functions of the driver (\<open>PawnIO/src/vm.cpp\<close>): the wrapper that passes script arguments to a
  C++ function and back, the functions that take text, the calls between natives, and the table of
  callbacks the kernel can call. What the wrapped functions do to the computer is a parameter.
\<close>

section \<open>Arguments of a native function\<close>

text \<open>The parameter types of the wrapped functions: \<open>cell&\<close>, \<open>cell\<close>, \<open>std::array<cell, N>&\<close> and
  \<open>std::array<cell, N>\<close>.\<close>

datatype param = Ref | Val | Ref_array nat | Val_array nat

text \<open>An \<open>arg_wrapper\<close>: the pointers it writes back to, and the values.\<close>

record wrapper =
  ptrs :: "hptr option list"
  vals :: "cell list"

fun param_size :: "param \<Rightarrow> nat" where
  "param_size Ref = 1"
| "param_size Val = 1"
| "param_size (Ref_array n) = n"
| "param_size (Val_array n) = n"

fun by_reference :: "param \<Rightarrow> bool" where
  "by_reference Ref = True"
| "by_reference (Ref_array n) = True"
| "by_reference Val = False"
| "by_reference (Val_array n) = False"

definition fresh_wrapper :: "param \<Rightarrow> wrapper" where
  "fresh_wrapper p = \<lparr>ptrs = replicate (if by_reference p then param_size p else 0) None, vals = replicate (param_size p) 0\<rparr>"

definition translate_data :: "'w amx \<Rightarrow> cell \<Rightarrow> hptr option" where
  "translate_data s v = paged_translate (data_mem s) v"

text \<open>The elements of an array, until one is not mapped.\<close>

fun elements :: "'w amx \<Rightarrow> cell \<Rightarrow> nat list \<Rightarrow> hptr option list \<times> cell list \<Rightarrow> ((hptr option list \<times> cell list) \<times> error option) defined" where
  "elements s base [] w = Some (w, None)"
| "elements s base (i # is) (ps, vs) = (case translate_data s (base + of_nat i * cell_bytes) of
     None \<Rightarrow> Some ((ps, vs), Some Access_violation)
   | Some e \<Rightarrow> do { x \<leftarrow> host_read s e; elements s base is (ps[i := Some e], vs[i := x]) })"

text \<open>\<open>init\<close>, with the wrapper it leaves and the error it returns. A reference does not read its target; a failing
  array of references drops the pointers it has.\<close>

definition wrapper_init :: "param \<Rightarrow> nat \<Rightarrow> cell \<Rightarrow> 'w amx \<Rightarrow> (wrapper \<times> error option) defined" where
  "wrapper_init p index argv s =
     (case data_v2p s (argv + of_nat index * cell_bytes) of None \<Rightarrow> Some (fresh_wrapper p, Some Access_violation)
      | Some q \<Rightarrow> do {
          x \<leftarrow> host_read s q;
          case p of
            Val \<Rightarrow> Some ((fresh_wrapper p)\<lparr>vals := [x]\<rparr>, None)
          | Ref \<Rightarrow> (case translate_data s x of None \<Rightarrow> Some (fresh_wrapper p, Some Access_violation)
              | Some r \<Rightarrow> Some ((fresh_wrapper p)\<lparr>ptrs := [Some r]\<rparr>, None))
          | Ref_array n \<Rightarrow> do {
              ((ps, vs), e) \<leftarrow> elements s x [0..<n] (replicate n None, replicate n 0);
              Some (\<lparr>ptrs = if e = None then ps else replicate n None, vals = vs\<rparr>, e) }
          | Val_array n \<Rightarrow> do {
              ((ps, vs), e) \<leftarrow> elements s x [0..<n] ([], replicate n 0);
              Some (\<lparr>ptrs = [], vals = vs\<rparr>, e) } })"

text \<open>The tuple of all wrappers: those after a failing one stay as they were constructed.\<close>

fun init_wtuple :: "param list \<Rightarrow> nat \<Rightarrow> cell \<Rightarrow> 'w amx \<Rightarrow> (wrapper list \<times> error option) defined" where
  "init_wtuple [] index argv s = Some ([], None)"
| "init_wtuple (p # ps) index argv s = do {
     (w, e) \<leftarrow> wrapper_init p index argv s;
     (case e of Some err \<Rightarrow> Some (w # map fresh_wrapper ps, Some err)
      | None \<Rightarrow> do { (ws, e') \<leftarrow> init_wtuple ps (Suc index) argv s; Some (w # ws, e') }) }"

text \<open>The destructors: a single reference tests its pointer, the elements of an array do not.\<close>

fun write_back :: "bool \<Rightarrow> (hptr option \<times> cell) list \<Rightarrow> 'w amx \<Rightarrow> 'w amx outcome" where
  "write_back tested [] s = Ok s"
| "write_back tested ((None, v) # pvs) s = (if tested then write_back tested pvs s else Undefined Bad_access)"
| "write_back tested ((Some p, v) # pvs) s = assign p v s (write_back tested pvs)"

definition destroy_wrapper :: "param \<Rightarrow> wrapper \<Rightarrow> 'w amx \<Rightarrow> 'w amx outcome" where
  "destroy_wrapper p w s = (case p of
     Ref \<Rightarrow> write_back True (zip (ptrs w) (vals w)) s
   | Ref_array n \<Rightarrow> write_back False (zip (ptrs w) (vals w)) s
   | Val \<Rightarrow> Ok s | Val_array n \<Rightarrow> Ok s)"

fun destroy_wtuple :: "(param \<times> wrapper) list \<Rightarrow> 'w amx \<Rightarrow> 'w amx outcome" where
  "destroy_wtuple [] s = Ok s"
| "destroy_wtuple ((p, w) # ws) s = (case destroy_wrapper p w s of Ok s' \<Rightarrow> destroy_wtuple ws s' | out \<Rightarrow> out)"

text \<open>The wrapped function sees the values of its arguments, all memory of the host and the world; it gives the new
  values of the arguments, of which only those of references count, its result unless it is \<open>void\<close>, and the
  memory and the world it leaves: \<open>virtual_write_qword\<close> and its like store where they please.\<close>

type_synonym host_memory = "nat \<Rightarrow> cell list option"

type_synonym 'w impl = "cell list list \<Rightarrow> host_memory \<Rightarrow> 'w \<Rightarrow> cell list list \<times> cell option \<times> host_memory \<times> 'w"

definition native_callback_wrapper :: "param list \<Rightarrow> 'w impl \<Rightarrow> 'w native" where
  "native_callback_wrapper params fn argc argv s =
     (if argc \<noteq> of_nat (length params) then Err Invalid_operand s
      else case init_wtuple params 0 argv s of
        None \<Rightarrow> Undefined Bad_access
      | Some (ws, Some e) \<Rightarrow> (case destroy_wtuple (zip params ws) s of Ok s' \<Rightarrow> Err e s' | out \<Rightarrow> out)
      | Some (ws, None) \<Rightarrow> (case fn (map vals ws) (host s) (world s) of (vs, ret, h, w) \<Rightarrow>
          destroy_wtuple (zip params (map2 (\<lambda>wr v. wr\<lparr>vals := v\<rparr>) ws vs))
            (s\<lparr>PRI := (case ret of None \<Rightarrow> 0 | Some r \<Rightarrow> r), host := h, world := w\<rparr>)))"

section \<open>Printing\<close>

definition cname :: "string \<Rightarrow> cstring" where "cname s = map of_char s"

definition print_prefix :: cstring where "print_prefix = cname ''[PawnIO] debug_print: ''"

definition message_size :: nat where "message_size = 1024"

text \<open>What one character of the format does: refuse it, end, or append some text, with the new value of
  \<open>in_escape\<close> and the arguments it takes.\<close>

datatype fmt_act = Fmt_invalid | Fmt_leave | Fmt_cat "byte list" bool nat

definition percent :: byte where "percent = 37"

definition conversion_chars :: "byte list" where "conversion_chars = cname ''diuoxX''"

definition fmt_char :: "bool \<Rightarrow> byte \<Rightarrow> fmt_act" where
  "fmt_char in_escape c =
     (if in_escape then
        (if c = percent then Fmt_cat [percent, percent] False 0
         else if c \<in> set conversion_chars then Fmt_cat [percent, 108, 108, c] False 1
         else Fmt_invalid)
      else if c = percent then Fmt_cat [] True 0
      else if c = 0 then Fmt_leave
      else Fmt_cat [c] False 0)"

lemma fmt_char_progress:
  "fmt_char e c = Fmt_cat t e' k \<Longrightarrow> length m + length t < message_size \<Longrightarrow>
    2 * (message_size - (length m + length t)) + of_bool (\<not> e') < 2 * (message_size - length m) + of_bool (\<not> e)"
  by (auto simp: fmt_char_def split: if_splits)

text \<open>The loop over the format: the message so far, and the number of arguments. A text that does not fit ends it.\<close>

function fmt_loop :: "'w amx \<Rightarrow> cell \<Rightarrow> byte list \<Rightarrow> bool \<Rightarrow> nat \<Rightarrow> (error + byte list \<times> nat) defined" where
  "fmt_loop s vit m in_escape n = (case translate_data s vit of
     None \<Rightarrow> Some (Inl Access_violation)
   | Some p \<Rightarrow> (case host_read s p of None \<Rightarrow> None | Some x \<Rightarrow>
      (case fmt_char in_escape (ucast x) of
        Fmt_invalid \<Rightarrow> Some (Inl Invalid_operand)
      | Fmt_leave \<Rightarrow> Some (Inr (m, n))
      | Fmt_cat t e k \<Rightarrow> if length m + length t \<ge> message_size then Some (Inr (m, n + k))
          else fmt_loop s (vit + cell_bytes) (m @ t) e (n + k))))"
  by pat_completeness auto
termination
  by (relation "measure (\<lambda>(s, vit, m, e, n). 2 * (message_size - length m) + of_bool (\<not> e))")
    (simp, simp only: in_measure split_conv length_append not_le fmt_char_progress)

declare fmt_loop.simps [simp del]

text \<open>The loop that stores the values of the arguments, through the addresses the script passes, in the array
  \<open>args\<close>: a store past its end is undefined.\<close>

fun print_args :: "'w amx \<Rightarrow> cell \<Rightarrow> nat list \<Rightarrow> cell list \<Rightarrow> (error + cell list) defined" where
  "print_args s argv [] args = Some (Inr args)"
| "print_args s argv (i # is) args = (case data_v2p s (argv + (of_nat i + 1) * cell_bytes) of
     None \<Rightarrow> Some (Inl Invalid_operand)
   | Some pp \<Rightarrow> do {
       a \<leftarrow> host_read s pp;
       (case translate_data s a of None \<Rightarrow> Some (Inl Invalid_operand)
        | Some p \<Rightarrow> do {
            x \<leftarrow> host_read s p;
            args' \<leftarrow> upd_def args i x;
            print_args s argv is args' }) })"

text \<open>\<open>first_arg\<close> is the start of all functions that take text: no result yet, at least one argument.\<close>

definition first_arg :: "cell \<Rightarrow> cell \<Rightarrow> 'w amx \<Rightarrow> (cell \<Rightarrow> 'w amx \<Rightarrow> 'w amx outcome) \<Rightarrow> 'w amx outcome" where
  "first_arg argc argv s k = (let s' = s\<lparr>PRI := 0\<rparr> in
     if argc = 0 then Err Invalid_operand s' else DATA argv s' (\<lambda>p. deref p s' (\<lambda>x. k x s')))"

text \<open>\<open>cell args[64]{}\<close>; \<open>vDbgPrintEx\<close> gets the format and this array.\<close>

definition no_args :: "cell list" where "no_args = replicate 64 0"

definition debug_print :: "(byte list \<Rightarrow> cell list \<Rightarrow> 'w \<Rightarrow> 'w) \<Rightarrow> 'w native" where
  "debug_print vprint argc argv s = first_arg argc argv s (\<lambda>vfmt s.
     case fmt_loop s vfmt print_prefix False 0 of
       None \<Rightarrow> Undefined Bad_access
     | Some (Inl e) \<Rightarrow> Err e s
     | Some (Inr (m, n)) \<Rightarrow>
         if of_nat n > argc - 1 then Err Invalid_operand s
         else if n > length no_args then Err Invalid_operand s
         else (case print_args s argv [0..<n] no_args of
             None \<Rightarrow> Undefined Bad_access
           | Some (Inl e) \<Rightarrow> Err e s
           | Some (Inr args) \<Rightarrow> Ok (s\<lparr>world := vprint m args (world s)\<rparr>)))"

section \<open>Names\<close>

text \<open>\<open>amx_strcpy\<close>: the text it leaves in a buffer of the given size (at least 1), whose length is its result;
  \<open>-1\<close> is \<open>None\<close>. The last byte of the buffer is for the terminator.\<close>

fun amx_strcpy :: "nat \<Rightarrow> 'w amx \<Rightarrow> cell \<Rightarrow> cstring option defined" where
  "amx_strcpy 0 s vit = Some (Some [])"
| "amx_strcpy (Suc room) s vit = (case translate_data s vit of
     None \<Rightarrow> Some None
   | Some p \<Rightarrow> do {
       x \<leftarrow> host_read s p;
       let c = (ucast x :: byte) in
       if c = 0 \<or> room = 0 then Some (Some [])
       else map_option (map_option ((#) c)) (amx_strcpy room s (vit + cell_bytes)) })"

definition with_name :: "nat \<Rightarrow> (cstring \<Rightarrow> cell) \<Rightarrow> 'w native" where
  "with_name size_of_buffer f argc argv s = first_arg argc argv s (\<lambda>vfmt s.
     case amx_strcpy size_of_buffer s vfmt of
       None \<Rightarrow> Undefined Bad_access
     | Some (Some []) \<Rightarrow> Err Invalid_operand s
     | Some None \<Rightarrow> Err Access_violation s
     | Some (Some name) \<Rightarrow> Ok (s\<lparr>PRI := f name\<rparr>))"

text \<open>\<open>get_proc_address\<close> widens each \<open>char\<close>; the routine of that name is the kernel's.\<close>

definition get_proc_address :: "(16 word list \<Rightarrow> cell) \<Rightarrow> cstring \<Rightarrow> cell" where
  "get_proc_address system_routine name = system_routine (map scast (take 1023 name))"

definition get_proc_address_wrap :: "(16 word list \<Rightarrow> cell) \<Rightarrow> 'w native" where
  "get_proc_address_wrap system_routine = with_name 1024 (get_proc_address system_routine)"

definition get_public_native :: "(cstring \<times> cell) list \<Rightarrow> 'w native" where
  "get_public_native pubs = with_name 33 (\<lambda>v. case map_of pubs v of None \<Rightarrow> 0 | Some a \<Rightarrow> a)"

text \<open>The place of a name in the table of natives, \<open>-1\<close> if it is not there.\<close>

definition get_native_index :: "cstring list \<Rightarrow> cstring \<Rightarrow> cell" where
  "get_native_index names name = (let n = length (takeWhile (\<lambda>x. x \<noteq> name) names) in
     if n < length names then of_nat n else - 1)"

definition get_native :: "cstring list \<Rightarrow> 'w native" where
  "get_native names = with_name 33 (get_native_index names)"

text \<open>\<open>call_native\<close> calls a native by its place in the table, itself among them: each such call has one argument
  less. \<open>self\<close> is its own place.\<close>

function call_native :: "nat \<Rightarrow> 'w native list \<Rightarrow> 'w native" where
  "call_native self table argc argv s = first_arg argc argv s (\<lambda>idx s.
     if argc = 0 \<or> unat idx \<ge> length table then Err Invalid_operand s
     else if unat idx = self then call_native self table (argc - 1) (argv + cell_bytes) s
     else (table ! unat idx) (argc - 1) (argv + cell_bytes) s)"
  by pat_completeness auto
termination
  by (relation "measure (\<lambda>(self, table, argc, argv, s). unat argc)") (auto simp: unat_minus_one unat_gt_0)

declare call_native.simps [simp del]

section \<open>Callbacks from the kernel\<close>

text \<open>
  A table of 256 entries, shared by all contexts: the context that owns an entry and the function of its script.
  Entry \<open>i\<close> belongs to the \<open>i\<close>-th of 256 C++ functions, whose addresses are \<open>addr i\<close>.
\<close>

record cb_entry =
  owner :: "nat option"
  cb_cip :: cell

record 'e shared =
  cb_table :: "cb_entry list"
  env :: 'e

definition cb_count :: nat where "cb_count = 0x100"

definition free_entry :: cb_entry where "free_entry = \<lparr>owner = None, cb_cip = 0\<rparr>"

definition index_where :: "('a \<Rightarrow> bool) \<Rightarrow> 'a list \<Rightarrow> nat option" where
  "index_where P xs = (let n = length (takeWhile (\<lambda>x. \<not> P x) xs) in if n < length xs then Some n else None)"

definition to_amx_callback_alloc :: "(nat \<Rightarrow> cell) \<Rightarrow> nat \<Rightarrow> cell \<Rightarrow> cb_entry list \<Rightarrow> cell \<times> cb_entry list" where
  "to_amx_callback_alloc addr ctx target t = (case index_where (\<lambda>e. owner e = None) t of
     None \<Rightarrow> (0, t) | Some i \<Rightarrow> (addr i, t[i := \<lparr>owner = Some ctx, cb_cip = target\<rparr>]))"

text \<open>\<open>None\<close> is \<open>__fastfail\<close>: not the address of an entry, or not an entry of this context.\<close>

definition to_amx_callback_free :: "(nat \<Rightarrow> cell) \<Rightarrow> nat \<Rightarrow> cell \<Rightarrow> cb_entry list \<Rightarrow> cb_entry list option" where
  "to_amx_callback_free addr ctx pfn t = (case index_where (\<lambda>i. addr i = pfn) [0..<cb_count] of
     None \<Rightarrow> None
   | Some i \<Rightarrow> if owner (t ! i) \<noteq> Some ctx then None else Some (t[i := free_entry]))"

definition to_amx_callback_alloc_wrap :: "(nat \<Rightarrow> cell) \<Rightarrow> nat \<Rightarrow> 'e shared native" where
  "to_amx_callback_alloc_wrap addr ctx argc argv s =
     (if argc \<noteq> 1 then Err Invalid_operand s
      else DATA argv s (\<lambda>p. deref p s (\<lambda>target.
        let (r, t) = to_amx_callback_alloc addr ctx target (cb_table (world s)) in
        Ok (s\<lparr>PRI := r, world := (world s)\<lparr>cb_table := t\<rparr>\<rparr>))))"

definition to_amx_callback_free_wrap :: "(nat \<Rightarrow> cell) \<Rightarrow> nat \<Rightarrow> 'e shared native" where
  "to_amx_callback_free_wrap addr ctx argc argv s = (let s' = s\<lparr>PRI := 0\<rparr> in
     if argc \<noteq> 1 then Err Invalid_operand s'
     else DATA argv s' (\<lambda>p. deref p s' (\<lambda>pfn.
       case to_amx_callback_free addr ctx pfn (cb_table (world s')) of None \<Rightarrow> Undefined Fast_fail
       | Some t \<Rightarrow> Ok (s'\<lparr>world := (world s')\<lparr>cb_table := t\<rparr>\<rparr>))))"

section \<open>The table of natives\<close>

text \<open>The wrapped functions of the x64 driver with their parameters, in the order of the table.\<close>

definition signatures :: "(string \<times> param list) list" where
  "signatures = [(''get_version'', []), (''get_arch'', []), (''cpu_count'', []), (''cpu_set_affinity'', [Val, Ref_array 2]),
     (''cpu_restore_affinity'', [Val_array 2]), (''msr_read'', [Val, Ref]), (''msr_write'', [Val, Val]),
     (''interrupts_disable'', []), (''interrupts_enable'', []),
     (''physical_read_byte'', [Val, Ref]), (''physical_read_word'', [Val, Ref]),
     (''physical_read_dword'', [Val, Ref]), (''physical_read_qword'', [Val, Ref]),
     (''physical_write_byte'', [Val, Val]), (''physical_write_word'', [Val, Val]),
     (''physical_write_dword'', [Val, Val]), (''physical_write_qword'', [Val, Val]),
     (''io_space_map'', [Val, Val]), (''io_space_unmap'', [Val, Val]),
     (''virtual_read_byte'', [Val, Ref]), (''virtual_read_word'', [Val, Ref]),
     (''virtual_read_dword'', [Val, Ref]), (''virtual_read_qword'', [Val, Ref]),
     (''virtual_write_byte'', [Val, Val]), (''virtual_write_word'', [Val, Val]),
     (''virtual_write_dword'', [Val, Val]), (''virtual_write_qword'', [Val, Val]),
     (''virtual_cmpxchg_byte2'', [Val, Val, Val]), (''virtual_cmpxchg_word2'', [Val, Val, Val]),
     (''virtual_cmpxchg_dword2'', [Val, Val, Val]), (''virtual_cmpxchg_qword2'', [Val, Val, Val]),
     (''virtual_alloc'', [Val]), (''virtual_free'', [Val]),
     (''pci_config_read_byte'', [Val, Val, Val, Val, Ref]), (''pci_config_read_word'', [Val, Val, Val, Val, Ref]),
     (''pci_config_read_dword'', [Val, Val, Val, Val, Ref]), (''pci_config_read_qword'', [Val, Val, Val, Val, Ref]),
     (''pci_config_write_byte'', [Val, Val, Val, Val, Val]), (''pci_config_write_word'', [Val, Val, Val, Val, Val]),
     (''pci_config_write_dword'', [Val, Val, Val, Val, Val]), (''pci_config_write_qword'', [Val, Val, Val, Val, Val]),
     (''invoke'', Val # Ref # replicate 16 Val), (''microsleep'', [Val]), (''microsleep2'', [Val]), (''qpc'', [Ref]),
     (''query_dell_smm'', [Val_array 6, Ref_array 6]),
     (''io_out_byte'', [Val, Val]), (''io_out_word'', [Val, Val]), (''io_out_dword'', [Val, Val]),
     (''io_in_byte'', [Val]), (''io_in_word'', [Val]), (''io_in_dword'', [Val]), (''llwpcb'', [Val]), (''slwpcb'', []),
     (''cpuid'', [Val, Val, Ref_array 4]), (''cr_read'', [Val]), (''cr_write'', [Val, Val]),
     (''dr_read'', [Val]), (''dr_write'', [Val, Val]), (''xcr_read'', [Val, Ref]), (''xcr_write'', [Val, Val]),
     (''invlpg'', [Val]), (''invpcid'', [Val, Val]), (''readpmc'', [Val, Ref]), (''rdtsc'', []), (''rdtscp'', [Ref]),
     (''rdrand'', [Ref]), (''rdseed'', [Ref]), (''lidt'', [Val, Val]), (''sidt'', [Ref, Ref]),
     (''lgdt'', [Val, Val]), (''sgdt'', [Ref, Ref]), (''mxcsr_read'', []), (''mxcsr_write'', [Val]),
     (''stac'', []), (''clac'', []), (''halt'', []), (''ud2'', []), (''int3'', []), (''int2c'', []), (''wbinvd'', [])]"

definition native_names :: "cstring list" where
  "native_names = map cname [''debug_print'', ''get_proc_address'', ''get_public'', ''callback_alloc'', ''callback_free'',
     ''get_native'', ''call_native''] @ map (cname \<circ> fst) signatures"

text \<open>What the natives use of the kernel: printing, its routines by name, the addresses of the callbacks, the bodies
  of the wrapped functions.\<close>

record 'e kernel =
  vprint :: "byte list \<Rightarrow> cell list \<Rightarrow> 'e shared \<Rightarrow> 'e shared"
  system_routine :: "16 word list \<Rightarrow> cell"
  callback_addr :: "nat \<Rightarrow> cell"
  bodies :: "string \<Rightarrow> 'e shared impl"

definition plain_natives :: "'e kernel \<Rightarrow> nat \<Rightarrow> (cstring \<times> cell) list \<Rightarrow> 'e shared native list" where
  "plain_natives k ctx pubs = [debug_print (vprint k), get_proc_address_wrap (system_routine k), get_public_native pubs,
     to_amx_callback_alloc_wrap (callback_addr k) ctx, to_amx_callback_free_wrap (callback_addr k) ctx,
     get_native native_names, \<lambda>argc argv s. Err Invalid_operand s]
     @ map (\<lambda>(n, ps). native_callback_wrapper ps (bodies k n)) signatures"

text \<open>The seventh is \<open>call_native\<close>, whose table is this one.\<close>

definition NATIVES :: "'e kernel \<Rightarrow> nat \<Rightarrow> (cstring \<times> cell) list \<Rightarrow> (cstring \<times> 'e shared native) list" where
  "NATIVES k ctx pubs = zip native_names ((plain_natives k ctx pubs)[6 := call_native 6 (plain_natives k ctx pubs)])"

end
