(* ===== verification/Vm_Natives_Props.thy ===== *)
theory Vm_Natives_Props
  imports Vm_Natives
begin

text \<open>
  What the natives keep and what they compute: which of them respect the host, when the function they wrap does
  not store in memory itself; how the wrapper writes results back, and what it does when an argument is bad; the formats that reach
  the kernel's printing; names and calls between natives; the table of callbacks.
\<close>

section \<open>Natives that respect the host\<close>

lemma translate_data_mapped: "confined s0 s \<Longrightarrow> translate_data s v = Some p \<Longrightarrow> mapped s0 p"
  by (auto simp: translate_data_def mapped_def confined_def)

lemma mapped_read: "confined s0 s \<Longrightarrow> translate_data s v = Some p \<Longrightarrow> \<exists>x. host_read s p = Some x"
  using confined_read [of s0 s p] translate_data_mapped by blast

lemma data_v2p_translate: "data_v2p s v = translate_data s (DAT s + v)"
  by (simp add: data_v2p_def translate_data_def)

lemma elements_defined:
  assumes "confined s0 s"
  shows "elements s base is (ps, vs) \<noteq> None"
  using mapped_read [OF assms] by (induction "is" arbitrary: ps vs) (fastforce split: option.split)+

lemma wrapper_init_defined:
  assumes "confined s0 s"
  shows "wrapper_init p index argv s \<noteq> None"
proof (cases "data_v2p s (argv + of_nat index * cell_bytes)")
  case (Some q)
  then obtain x where x: "host_read s q = Some x"
    using mapped_read [OF assms] by (auto simp: data_v2p_translate)
  have "elements s x is w \<noteq> None" for "is" w using elements_defined [OF assms] by (cases w) blast
  then show ?thesis
    by (cases p) (auto simp: wrapper_init_def Some x Option.bind_eq_None_conv split: option.split prod.split
        simp del: not_None_eq split_paired_All)
qed (simp add: wrapper_init_def)

lemma init_wtuple_defined:
  assumes "confined s0 s"
  shows "init_wtuple ps index argv s \<noteq> None"
proof (induction ps arbitrary: index)
  case (Cons p ps)
  obtain w e where "wrapper_init p index argv s = Some (w, e)" using wrapper_init_defined [OF assms, of p index argv] by auto
  moreover obtain r where "init_wtuple ps (Suc index) argv s = Some r" using Cons [of "Suc index"] by auto
  ultimately show ?case by (cases r) (simp split: option.split)
qed simp

text \<open>The pointers of a wrapper lead to mapped data.\<close>

definition pointers_mapped :: "'w amx \<Rightarrow> wrapper \<Rightarrow> bool" where
  "pointers_mapped s0 w \<longleftrightarrow> (\<forall>p. Some p \<in> set (ptrs w) \<longrightarrow> mapped s0 p)"

lemma fresh_pointers [simp]: "pointers_mapped s0 (fresh_wrapper p)"
  by (simp add: pointers_mapped_def fresh_wrapper_def)

lemma wrapper_init_pointers:
  assumes "confined s0 s" "wrapper_init p index argv s = Some (w, e)" "\<And>n. p \<noteq> Ref_array n"
  shows "pointers_mapped s0 w"
  using assms(2,3) translate_data_mapped [OF assms(1)]
  by (auto simp: wrapper_init_def pointers_mapped_def fresh_wrapper_def
      split: option.splits param.splits Option.bind_splits prod.splits)

lemma init_wtuple_pointers:
  assumes "confined s0 s" "init_wtuple ps index argv s = Some (ws, e)" "\<forall>n. Ref_array n \<notin> set ps"
  shows "(\<forall>w \<in> set ws. pointers_mapped s0 w) \<and> length ws = length ps"
  using assms(2,3)
proof (induction ps arbitrary: index ws)
  case (Cons p ps)
  obtain w e1 where w: "wrapper_init p index argv s = Some (w, e1)"
    using wrapper_init_defined [OF assms(1), of p index argv] by auto
  have pw: "pointers_mapped s0 w" by (rule wrapper_init_pointers [OF assms(1) w]) (use Cons.prems(2) in auto)
  show ?case
  proof (cases e1)
    case None
    obtain ws1 e2 where ws1: "init_wtuple ps (Suc index) argv s = Some (ws1, e2)"
      using init_wtuple_defined [OF assms(1), of ps "Suc index" argv] by auto
    then show ?thesis using Cons.prems Cons.IH [of "Suc index" ws1] w None pw by (auto split: Option.bind_splits)
  qed (use Cons.prems w pw in auto)
qed simp

lemma safe_write_back:
  assumes "confined s0 s" "\<And>p v. (Some p, v) \<in> set pvs \<Longrightarrow> mapped s0 p"
  shows "safe s0 (write_back True pvs s)"
  using assms
proof (induction pvs arbitrary: s)
  case (Cons pv pvs)
  obtain q v where pv: "pv = (q, v)" by (cases pv)
  have IH: "confined s0 s' \<Longrightarrow> safe s0 (write_back True pvs s')" for s' using Cons by auto
  show ?case
  proof (cases q)
    case (Some p)
    then have "mapped s0 p" using Cons.prems(2) pv by auto
    then have "safe s0 (assign p v s (write_back True pvs))" using Cons.prems(1) IH by (intro safe_assign)
    then show ?thesis by (simp add: pv Some)
  qed (use IH Cons.prems(1) in \<open>simp add: pv\<close>)
qed simp

lemma safe_destroy_wtuple:
  assumes "confined s0 s" "\<And>p w. (p, w) \<in> set pws \<Longrightarrow> pointers_mapped s0 w \<and> (\<forall>n. p \<noteq> Ref_array n)"
  shows "safe s0 (destroy_wtuple pws s)"
  using assms
proof (induction pws arbitrary: s)
  case (Cons pw pws)
  obtain p w where pw: "pw = (p, w)" by (cases pw)
  have "safe s0 (write_back True (zip (ptrs w) (vals w)) s)"
    by (rule safe_write_back [OF Cons.prems(1)])
      (use Cons.prems(2) [of p w] pw in \<open>auto simp: pointers_mapped_def dest: set_zip_leftD\<close>)
  then have "safe s0 (destroy_wrapper p w s)"
    using Cons.prems pw by (cases p) (auto simp: destroy_wrapper_def)
  then show ?case using Cons by (cases "destroy_wrapper p w s") (auto simp: pw)
qed simp

lemma set_map2_vals: "w \<in> set (map2 (\<lambda>wr v. wr\<lparr>vals := v\<rparr>) ws vs) \<Longrightarrow> \<exists>wr \<in> set ws. ptrs w = ptrs wr"
  by (auto dest: set_zip_leftD)

text \<open>A wrapped function that stores nothing in memory by itself: it works on registers, ports or devices, and gives
  its results through its arguments.\<close>

definition keeps_host :: "'w impl \<Rightarrow> bool" where
  "keeps_host fn \<longleftrightarrow> (\<forall>vs h w. fst (snd (snd (fn vs h w))) = h)"

lemma keeps_hostD: "keeps_host fn \<Longrightarrow> fn vs h w = (vs', ret, h', w') \<Longrightarrow> h' = h"
  by (metis keeps_host_def fst_conv snd_conv)

lemma wrapper_confined:
  assumes "\<forall>n. Ref_array n \<notin> set ps" "keeps_host fn"
  shows "confined_native s0 (native_callback_wrapper ps fn)"
proof -
  have "safe s0 (native_callback_wrapper ps fn argc argv s)" if c: "confined s0 s" for argc argv s
  proof -
    obtain ws e where ws: "init_wtuple ps 0 argv s = Some (ws, e)" using init_wtuple_defined [OF c, of ps 0 argv] by auto
    have pm: "\<forall>w \<in> set ws. pointers_mapped s0 w" and len: "length ws = length ps"
      using init_wtuple_pointers [OF c ws assms(1)] by auto
    have h: "s\<lparr>PRI := r, host := host s, world := w\<rparr> = s\<lparr>PRI := r, world := w\<rparr>" for r w by simp
    have d: "safe s0 (destroy_wtuple (zip ps (map2 (\<lambda>wr v. wr\<lparr>vals := v\<rparr>) ws vs)) s')" if "confined s0 s'" for vs s'
      by (rule safe_destroy_wtuple [OF that])
        (use pm assms(1) set_map2_vals [of _ ws vs] in \<open>unfold pointers_mapped_def, metis set_zip_leftD set_zip_rightD\<close>)
    have d0: "safe s0 (destroy_wtuple (zip ps ws) s)"
      by (rule safe_destroy_wtuple [OF c]) (use pm assms(1) in \<open>metis set_zip_leftD set_zip_rightD\<close>)
    show ?thesis
    proof (cases e)
      case None
      obtain vs ret h' w where fn: "fn (map vals ws) (host s) (world s) = (vs, ret, h', w)" by (rule prod_cases4)
      have c': "confined s0 (s\<lparr>PRI := (case ret of None \<Rightarrow> 0 | Some r \<Rightarrow> r), world := w\<rparr>)" using c by simp
      show ?thesis
        using c d [OF c', of vs] keeps_hostD [OF assms(2) fn] by (simp add: native_callback_wrapper_def ws None fn h)
    next
      case (Some err)
      then show ?thesis using c d0
        by (cases "destroy_wtuple (zip ps ws) s") (auto simp: native_callback_wrapper_def ws)
    qed
  qed
  then show ?thesis by (simp add: confined_native_def)
qed

lemma safe_first_arg:
  assumes "confined s0 s" "\<And>x s'. confined s0 s' \<Longrightarrow> safe s0 (k x s')"
  shows "safe s0 (first_arg argc argv s k)"
  unfolding first_arg_def Let_def using assms by (auto intro!: safe_intros)

lemma fmt_loop_defined: "confined s0 s \<Longrightarrow> fmt_loop s vit m e n \<noteq> None"
proof (induction s vit m e n rule: fmt_loop.induct)
  case (1 s vit m e n)
  show ?case
  proof (cases "translate_data s vit")
    case (Some p)
    then obtain x where "host_read s p = Some x" using mapped_read [OF "1.prems"] by blast
    then show ?thesis using "1.IH" [OF Some] "1.prems"
      by (subst fmt_loop.simps) (auto simp: Some split: fmt_act.split)
  qed (simp add: fmt_loop.simps)
qed

lemma print_args_defined:
  assumes "confined s0 s" "\<forall>i \<in> set is. i < length args"
  shows "print_args s argv is args \<noteq> None"
  using assms(2)
proof (induction "is" arbitrary: args)
  case (Cons i "is")
  have "host_read s p \<noteq> None" if "translate_data s a = Some p" for a p using mapped_read [OF assms(1) that] by simp
  moreover have "print_args s argv is (args[i := x]) \<noteq> None" for x by (rule Cons.IH) (use Cons.prems in simp)
  ultimately show ?case using Cons.prems
    by (auto simp: data_v2p_translate Option.bind_eq_None_conv upd_def_eq_Some_iff upd_def_def simp del: not_None_eq
        split: option.split if_splits)
qed simp

lemma amx_strcpy_defined: "confined s0 s \<Longrightarrow> amx_strcpy n s vit \<noteq> None"
proof (induction n arbitrary: vit)
  case (Suc n)
  have "host_read s p \<noteq> None" if "translate_data s vit = Some p" for p using mapped_read [OF Suc.prems that] by simp
  then show ?case using Suc
    by (auto simp: Let_def Option.bind_eq_None_conv simp del: not_None_eq split: option.split)
qed simp

lemma confined_world [simp]: "confined s0 (s\<lparr>world := w\<rparr>) = confined s0 s"
  by (rule confined_updates)

lemma debug_print_confined: "confined_native s0 (debug_print pr)"
proof -
  have "safe s0 (case fmt_loop s vfmt print_prefix False 0 of None \<Rightarrow> Undefined Bad_access | Some (Inl e) \<Rightarrow> Err e s
     | Some (Inr (m, n)) \<Rightarrow> if of_nat n > argc - 1 then Err Invalid_operand s else if n > length no_args then Err Invalid_operand s
         else (case print_args s argv [0..<n] no_args of None \<Rightarrow> Undefined Bad_access | Some (Inl e) \<Rightarrow> Err e s
           | Some (Inr args) \<Rightarrow> Ok (s\<lparr>world := pr m args (world s)\<rparr>)))"
    if c: "confined s0 s" for s argc argv vfmt
  proof -
    have "print_args s argv [0..<n] no_args \<noteq> None" if "n \<le> length no_args" for n
      by (rule print_args_defined [OF c]) (use that in auto)
    then show ?thesis
      using c fmt_loop_defined [OF c, of vfmt print_prefix False 0]
      by (auto simp: not_less split: sum.split option.split prod.split simp del: not_None_eq)
  qed
  then show ?thesis by (auto simp: confined_native_def debug_print_def intro!: safe_first_arg)
qed

lemma with_name_confined: "confined_native s0 (with_name n f)"
proof -
  have "safe s0 (case amx_strcpy n s vfmt of None \<Rightarrow> Undefined Bad_access | Some (Some []) \<Rightarrow> Err Invalid_operand s
     | Some None \<Rightarrow> Err Access_violation s | Some (Some name) \<Rightarrow> Ok (s\<lparr>PRI := f name\<rparr>))" if "confined s0 s" for s vfmt
    using that amx_strcpy_defined [OF that, of n vfmt] by (auto split: option.split list.split)
  then show ?thesis by (auto simp: confined_native_def with_name_def intro!: safe_first_arg)
qed

lemma callback_natives_confined:
  "confined_native s0 (to_amx_callback_alloc_wrap addr ctx)" "confined_native s0 (to_amx_callback_free_wrap addr ctx)"
  unfolding confined_native_def to_amx_callback_alloc_wrap_def to_amx_callback_free_wrap_def Let_def
  by (auto intro!: safe_intros split: prod.split option.split)

definition unconfined_names :: "string list" where
  "unconfined_names = [''call_native'', ''cpu_set_affinity'', ''query_dell_smm'', ''cpuid'']"

lemma array_signatures: "(n, ps) \<in> set signatures \<Longrightarrow> n \<notin> set unconfined_names \<Longrightarrow> Ref_array m \<notin> set ps"
proof -
  have "list_all (\<lambda>(n, ps). n \<in> set unconfined_names \<or> list_all (\<lambda>p. case p of Ref_array m \<Rightarrow> False | _ \<Rightarrow> True) ps) signatures"
    by (simp add: signatures_def unconfined_names_def list_all_iff)
  then show "(n, ps) \<in> set signatures \<Longrightarrow> n \<notin> set unconfined_names \<Longrightarrow> Ref_array m \<notin> set ps"
    by (fastforce simp: list_all_iff)
qed

lemma NATIVES_cases:
  assumes "(name, f) \<in> set (NATIVES k ctx pubs)"
  obtains "name = cname ''debug_print''" "f = debug_print (vprint k)"
    | "name = cname ''get_proc_address''" "f = get_proc_address_wrap (system_routine k)"
    | "name = cname ''get_public''" "f = get_public_native pubs"
    | "name = cname ''callback_alloc''" "f = to_amx_callback_alloc_wrap (callback_addr k) ctx"
    | "name = cname ''callback_free''" "f = to_amx_callback_free_wrap (callback_addr k) ctx"
    | "name = cname ''get_native''" "f = get_native native_names"
    | "name = cname ''call_native''" "f = call_native 6 (plain_natives k ctx pubs)"
    | n ps where "(n, ps) \<in> set signatures" "name = cname n" "f = native_callback_wrapper ps (bodies k n)"
proof -
  have zip_map: "zip (map (cname \<circ> fst) xs) (map (\<lambda>(n, ps). native_callback_wrapper ps (bodies k n)) xs) =
      map (\<lambda>(n, ps). (cname n, native_callback_wrapper ps (bodies k n))) xs" for xs
    by (induction xs) auto
  define base where "base = plain_natives k ctx pubs"
  have "NATIVES k ctx pubs = zip native_names (base[6 := call_native 6 base])" by (simp add: NATIVES_def base_def)
  moreover have "base[6 := call_native 6 base] = [debug_print (vprint k), get_proc_address_wrap (system_routine k),
     get_public_native pubs, to_amx_callback_alloc_wrap (callback_addr k) ctx,
     to_amx_callback_free_wrap (callback_addr k) ctx, get_native native_names, call_native 6 base]
     @ map (\<lambda>(n, ps). native_callback_wrapper ps (bodies k n)) signatures"
    by (subst base_def) (simp add: plain_natives_def)
  ultimately have "set (NATIVES k ctx pubs) \<subseteq> {(cname ''debug_print'', debug_print (vprint k)),
      (cname ''get_proc_address'', get_proc_address_wrap (system_routine k)), (cname ''get_public'', get_public_native pubs),
      (cname ''callback_alloc'', to_amx_callback_alloc_wrap (callback_addr k) ctx),
      (cname ''callback_free'', to_amx_callback_free_wrap (callback_addr k) ctx), (cname ''get_native'', get_native native_names),
      (cname ''call_native'', call_native 6 base)}
      \<union> (\<lambda>(n, ps). (cname n, native_callback_wrapper ps (bodies k n))) ` set signatures"
    by (auto simp: native_names_def zip_map)
  with assms have "(name, f) \<in> {(cname ''debug_print'', debug_print (vprint k)),
      (cname ''get_proc_address'', get_proc_address_wrap (system_routine k)), (cname ''get_public'', get_public_native pubs),
      (cname ''callback_alloc'', to_amx_callback_alloc_wrap (callback_addr k) ctx),
      (cname ''callback_free'', to_amx_callback_free_wrap (callback_addr k) ctx), (cname ''get_native'', get_native native_names),
      (cname ''call_native'', call_native 6 base)}
      \<union> (\<lambda>(n, ps). (cname n, native_callback_wrapper ps (bodies k n))) ` set signatures" by blast
  then show ?thesis using that unfolding base_def by (elim UnE insertE imageE) auto
qed

lemma native_confined:
  assumes "(name, f) \<in> set (NATIVES k ctx pubs)" "name \<notin> cname ` set unconfined_names"
    and "\<And>n ps. (n, ps) \<in> set signatures \<Longrightarrow> name = cname n \<Longrightarrow> keeps_host (bodies k n)"
  shows "confined_native s0 f"
  using assms(1)
proof (cases rule: NATIVES_cases)
  case (8 n ps)
  then have "n \<notin> set unconfined_names" using assms(2) by blast
  then show ?thesis using 8 assms(3) array_signatures wrapper_confined by blast
qed (use assms(2) in \<open>simp_all add: debug_print_confined with_name_confined callback_natives_confined
    get_proc_address_wrap_def get_public_native_def get_native_def unconfined_names_def\<close>)

text \<open>C15: a native of the driver whose C++ function stores nothing in memory by itself keeps to the data the script
  has mapped, whatever that function computes and whatever the script passes, and never touches memory outside
  a buffer; not so \<open>cpu_set_affinity\<close>, \<open>query_dell_smm\<close> and \<open>cpuid\<close>, which take an array by reference, and
  \<open>call_native\<close>, which can call those. The condition leaves out the functions that store where they are told, such
  as \<open>virtual_write_byte\<close>, \<open>physical_write_byte\<close>, \<open>virtual_cmpxchg_byte2\<close> or \<open>invoke\<close>.\<close>

theorem natives_confined:
  assumes "(name, f) \<in> set (NATIVES k ctx pubs)"
    and "name \<notin> cname ` set [''call_native'', ''cpu_set_affinity'', ''query_dell_smm'', ''cpuid'']"
    and "\<And>n ps. (n, ps) \<in> set signatures \<Longrightarrow> name = cname n \<Longrightarrow> keeps_host (bodies k n)"
  shows "confined_native s0 f"
  by (rule native_confined [OF assms(1) _ assms(3)]) (use assms(2) in \<open>simp_all add: unconfined_names_def\<close>)

section \<open>Passing arguments\<close>

text \<open>The \<open>i\<close>-th argument of a call is the cell \<open>x\<close>.\<close>

definition arg_cell :: "'w amx \<Rightarrow> cell \<Rightarrow> nat \<Rightarrow> cell \<Rightarrow> bool" where
  "arg_cell s argv i x \<longleftrightarrow> (\<exists>q. data_v2p s (argv + of_nat i * cell_bytes) = Some q \<and> host_read s q = Some x)"

lemma wrapper_init_arg:
  assumes "arg_cell s argv i x"
  shows "wrapper_init Val i argv s = Some (\<lparr>ptrs = [], vals = [x]\<rparr>, None)"
    and "translate_data s x = Some r \<Longrightarrow> wrapper_init Ref i argv s = Some (\<lparr>ptrs = [Some r], vals = [0]\<rparr>, None)"
  using assms by (auto simp: arg_cell_def wrapper_init_def fresh_wrapper_def)

lemma init_wtuple_vals:
  assumes "\<And>i. i < length xs \<Longrightarrow> arg_cell s argv (index + i) (xs ! i)"
  shows "init_wtuple (replicate (length xs) Val @ ps) index argv s =
    map_option (apfst ((@) (map (\<lambda>x. \<lparr>ptrs = [], vals = [x]\<rparr>) xs))) (init_wtuple ps (index + length xs) argv s)"
  using assms
proof (induction xs arbitrary: index)
  case (Cons x xs)
  have "arg_cell s argv index x" using Cons.prems [of 0] by simp
  moreover have "arg_cell s argv (Suc index + i) (xs ! i)" if "i < length xs" for i using Cons.prems [of "Suc i"] that by simp
  ultimately show ?case using Cons.IH [of "Suc index"]
    by (cases "init_wtuple ps (index + length (x # xs)) argv s") (auto simp: wrapper_init_arg)
qed (simp add: apfst_def map_prod_def option.map_id case_prod_eta)

lemma destroy_vals: "destroy_wtuple (zip (replicate n Val) ws @ pws) s = destroy_wtuple pws s"
proof (induction n arbitrary: ws)
  case (Suc n)
  then show ?case by (cases ws) (simp_all add: destroy_wrapper_def)
qed simp

text \<open>A native that takes values and one reference (as \<open>msr_read\<close> or \<open>pci_config_read_dword\<close> do) gets exactly
  the arguments of the call, and after it the script finds the value of the reference in the cell it passed
  and the result in \<open>PRI\<close>; no other cell changes.\<close>

theorem reference_argument_stored:
  assumes "\<And>i. i < length xs \<Longrightarrow> arg_cell s argv i (xs ! i)" "arg_cell s argv (length xs) a"
    and "translate_data s a = Some r" "host_read s r = Some old"
    and "fn (map (\<lambda>x. [x]) xs @ [[0]]) (host s) (world s) = (vs @ [[y]], ret, host s, w)" "length vs = length xs"
  shows "\<exists>s'. native_callback_wrapper (replicate (length xs) Val @ [Ref]) fn (of_nat (length xs + 1)) argv s = Ok s' \<and>
    PRI s' = (case ret of None \<Rightarrow> 0 | Some v \<Rightarrow> v) \<and> world s' = w \<and>
    (\<forall>p. host_read s' p = (if p = r then Some y else host_read s p))"
proof -
  define s1 where "s1 = s\<lparr>PRI := (case ret of None \<Rightarrow> 0 | Some v \<Rightarrow> v), world := w\<rparr>"
  have r1: "host_read s1 p = host_read s p" for p by (simp add: s1_def host_read_def)
  then have "host_read s1 r = Some old" using assms(4) by simp
  then obtain s' where s': "\<And>k. assign r y s1 k = k s'" "same_but_host s1 s'"
      "\<And>q. host_read s' q = (if q = r then Some y else host_read s1 q)"
    using assign_at by blast
  have init: "init_wtuple (replicate (length xs) Val @ [Ref]) 0 argv s =
      Some (map (\<lambda>x. \<lparr>ptrs = [], vals = [x]\<rparr>) xs @ [\<lparr>ptrs = [Some r], vals = [0]\<rparr>], None)"
    using init_wtuple_vals [of xs s argv 0 "[Ref]"] assms(1) wrapper_init_arg(2) [OF assms(2,3)] by simp
  have vals: "map vals (map (\<lambda>x. \<lparr>ptrs = [], vals = [x]\<rparr>) xs @ [\<lparr>ptrs = [Some r], vals = [0]\<rparr>]) = map (\<lambda>x. [x]) xs @ [[0]]"
    by simp
  have "native_callback_wrapper (replicate (length xs) Val @ [Ref]) fn (of_nat (length xs + 1)) argv s = Ok s'"
    by (simp add: native_callback_wrapper_def init vals assms(5,6) zip_append destroy_vals s1_def [symmetric]
        destroy_wrapper_def s'(1) comp_def)
  moreover have "world s' = world s1" using s'(2) by (auto simp: same_but_host_def)
  ultimately show ?thesis using same_but_hostD(1) [OF s'(2)] s'(3) r1 by (simp add: s1_def)
qed

lemma elements_lengths:
  "elements s base is (ps, vs) = Some ((ps', vs'), e) \<Longrightarrow> length ps' = length ps \<and> length vs' = length vs"
  by (induction "is" arbitrary: ps vs) (auto split: option.splits Option.bind_splits)

lemma failing_array_pointers:
  assumes "wrapper_init (Ref_array n) i argv s = Some (w, Some e)"
  shows "ptrs w = replicate n None \<and> length (vals w) = n"
  using assms elements_lengths
  by (fastforce simp: wrapper_init_def fresh_wrapper_def split: option.splits Option.bind_splits prod.splits)

lemma init_wtuple_snoc_array:
  assumes "init_wtuple (ps @ [Ref_array n]) index argv s = Some (ws, Some e)"
  shows "\<exists>ws' w. ws = ws' @ [w] \<and> length ws' = length ps \<and> ptrs w = replicate n None \<and> length (vals w) = n"
  using assms
proof (induction ps arbitrary: index ws)
  case Nil
  then show ?case using failing_array_pointers by (fastforce split: Option.bind_splits option.splits)
next
  case (Cons p ps)
  then obtain w1 e1 where w1: "wrapper_init p index argv s = Some (w1, e1)" by (auto split: Option.bind_splits)
  show ?case
  proof (cases e1)
    case None
    then obtain ws1 where ws1: "init_wtuple (ps @ [Ref_array n]) (Suc index) argv s = Some (ws1, Some e)" "ws = w1 # ws1"
      using Cons.prems w1 by (auto split: Option.bind_splits)
    then obtain ws' w where "ws1 = ws' @ [w]" "length ws' = length ps" "ptrs w = replicate n None" "length (vals w) = n"
      using Cons.IH by blast
    with ws1(2) show ?thesis by (intro exI [of _ "w1 # ws'"] exI [of _ w]) simp
  next
    case (Some e2)
    then have "ws = (w1 # map fresh_wrapper ps) @ [fresh_wrapper (Ref_array n)]" using Cons.prems w1 by simp
    then show ?thesis by (intro exI [of _ "w1 # map fresh_wrapper ps"] exI [of _ "fresh_wrapper (Ref_array n)"])
      (simp add: fresh_wrapper_def)
  qed
qed

lemma destroy_by_value:
  assumes "\<forall>p \<in> set ps. \<not> by_reference p" "length ws = length ps"
  shows "destroy_wtuple (zip ps ws @ pws) s = destroy_wtuple pws s"
  using assms(2,1)
proof (induction ps ws rule: list_induct2')
  case (4 p ps w ws)
  then have "destroy_wrapper p w s = Ok s" by (cases p) (simp_all add: destroy_wrapper_def)
  with 4 show ?case by simp
qed simp_all

text \<open>A native that takes an array by reference (\<open>cpuid\<close>, \<open>cpu_set_affinity\<close>, \<open>query_dell_smm\<close>) does not report a
  bad argument: whichever argument of the call is not mapped, the destructor of the array stores through its
  null pointers, in the kernel.\<close>

theorem array_reference_crashes:
  assumes "init_wtuple (ps @ [Ref_array n]) 0 argv s = Some (ws, Some e)" "\<forall>p \<in> set ps. \<not> by_reference p" "0 < n"
  shows "native_callback_wrapper (ps @ [Ref_array n]) fn (of_nat (length ps + 1)) argv s = Undefined Bad_access"
proof -
  obtain ws' w where w: "ws = ws' @ [w]" "length ws' = length ps" "ptrs w = replicate n None" "length (vals w) = n"
    using init_wtuple_snoc_array [OF assms(1)] by blast
  obtain m where m: "n = Suc m" using assms(3) by (cases n) auto
  then obtain v vs where "vals w = v # vs" using w(4) by (cases "vals w") auto
  then have "write_back False (zip (ptrs w) (vals w)) s = Undefined Bad_access" by (simp add: w(3) m)
  then have "destroy_wtuple (zip (ps @ [Ref_array n]) ws) s = Undefined Bad_access"
    using destroy_by_value [OF assms(2) w(2), where s = s] by (simp add: w(1,2) destroy_wrapper_def)
  then show ?thesis using assms(1) by (simp add: native_callback_wrapper_def)
qed

text \<open>When an argument after a reference is bad (as in \<open>invoke\<close>, whose second parameter is a reference), the function is
  not called, but the cell the reference leads to is set to 0.\<close>

theorem failed_call_clears_reference:
  assumes "\<And>i. i < length xs \<Longrightarrow> arg_cell s argv i (xs ! i)" "arg_cell s argv (length xs) a"
    and "translate_data s a = Some r" "host_read s r = Some old"
    and "data_v2p s (argv + of_nat (length xs + 1) * cell_bytes) = None"
  shows "\<exists>s'. native_callback_wrapper (replicate (length xs) Val @ Ref # replicate (Suc n) Val) fn
      (of_nat (length xs + 1 + Suc n)) argv s = Err Access_violation s' \<and>
    PRI s' = PRI s \<and> (\<forall>p. host_read s' p = (if p = r then Some 0 else host_read s p))"
proof -
  obtain s' where s': "\<And>k. assign r 0 s k = k s'" "same_but_host s s'"
      "\<And>q. host_read s' q = (if q = r then Some 0 else host_read s q)"
    using assign_at [OF assms(4)] by blast
  have fail: "wrapper_init Val (Suc (length xs)) argv s = Some (fresh_wrapper Val, Some Access_violation)"
    using assms(5) by (simp add: wrapper_init_def)
  have init: "init_wtuple (replicate (length xs) Val @ Ref # replicate (Suc n) Val) 0 argv s =
      Some (map (\<lambda>x. \<lparr>ptrs = [], vals = [x]\<rparr>) xs @ \<lparr>ptrs = [Some r], vals = [0]\<rparr> # map fresh_wrapper (replicate (Suc n) Val),
        Some Access_violation)"
    using init_wtuple_vals [of xs s argv 0 "Ref # replicate (Suc n) Val"] assms(1) wrapper_init_arg(2) [OF assms(2,3)] fail
    by simp
  have "destroy_wtuple (zip (replicate (length xs) Val @ Ref # replicate (Suc n) Val)
      (map (\<lambda>x. \<lparr>ptrs = [], vals = [x]\<rparr>) xs @ \<lparr>ptrs = [Some r], vals = [0]\<rparr> # map fresh_wrapper (replicate (Suc n) Val))) s = Ok s'"
    using destroy_vals [of "Suc n" "map fresh_wrapper (replicate (Suc n) Val)" "[]" s']
    by (simp add: destroy_vals zip_append destroy_wrapper_def s'(1) del: replicate.simps)
  moreover have "length xs + 1 + Suc n = length (replicate (length xs) Val @ Ref # replicate (Suc n) Val)" by simp
  ultimately show ?thesis
    using same_but_hostD(1) [OF s'(2)] s'(3) unfolding native_callback_wrapper_def init by simp
qed

section \<open>Formats\<close>

text \<open>The conversions in a format whose every \<open>%\<close> starts \<open>%%\<close> or \<open>%ll\<close> with one of the letters; \<open>None\<close> for any other.\<close>

fun conversions :: "byte list \<Rightarrow> nat option" where
  "conversions [] = Some 0"
| "conversions (c # cs) = (if c \<noteq> percent then conversions cs
     else case cs of [] \<Rightarrow> None
     | d # ds \<Rightarrow> if d = percent then conversions ds
         else (case ds of l # x # r \<Rightarrow> if d = 108 \<and> l = 108 \<and> x \<in> set conversion_chars then map_option Suc (conversions r) else None
           | _ \<Rightarrow> None))"

lemma conversions_append: "conversions m = Some k \<Longrightarrow> conversions (m @ t) = map_option ((+) k) (conversions t)"
proof (induction m arbitrary: k rule: conversions.induct)
  case 1
  then show ?case by (cases "conversions t") auto
next
  case (2 c cs)
  show ?case
  proof (cases "c = percent")
    case True
    then obtain d ds where d: "cs = d # ds" using "2.prems" by (auto split: list.splits)
    show ?thesis
    proof (cases "d = percent")
      case True
      then show ?thesis using "2.IH"(2) [OF _ d] "2.prems" \<open>c = percent\<close> d by simp
    next
      case False
      then obtain x r where x: "ds = 108 # x # r" "d = 108" "x \<in> set conversion_chars"
        using "2.prems" \<open>c = percent\<close> d by (auto split: list.splits if_splits)
      then obtain k' where k': "conversions r = Some k'" "k = Suc k'" using "2.prems" \<open>c = percent\<close> d False by auto
      have "conversions (r @ t) = map_option ((+) k') (conversions t)"
        using "2.IH"(3) [OF _ d False x(1) refl _ k'(1)] \<open>c = percent\<close> x by simp
      then show ?thesis using \<open>c = percent\<close> d x False k'(2) by (cases "conversions t") auto
    qed
  next
    case False
    then show ?thesis using "2.IH"(1) [OF False, of k] "2.prems" by simp
  qed
qed

lemma fmt_char_conversions: "fmt_char e c = Fmt_cat t e' k \<Longrightarrow> conversions t = Some k \<and> 0 \<notin> set t"
  by (auto simp: fmt_char_def percent_def conversion_chars_def cname_def split: if_splits)

lemma fmt_loop_format:
  "fmt_loop s vit m e n = Some (Inr (m', n')) \<Longrightarrow> conversions m = Some k \<Longrightarrow> k \<le> n \<Longrightarrow> 0 \<notin> set m \<Longrightarrow>
    length m < message_size \<Longrightarrow> \<exists>k'. conversions m' = Some k' \<and> k' \<le> n' \<and> 0 \<notin> set m' \<and> length m' < message_size"
proof (induction s vit m e n arbitrary: k rule: fmt_loop.induct)
  case (1 s vit m e n)
  from "1.prems"(1) obtain p x where px: "translate_data s vit = Some p" "host_read s p = Some x"
    by (subst (asm) fmt_loop.simps) (auto split: option.splits)
  show ?case
  proof (cases "fmt_char e (ucast x)")
    case (Fmt_cat t e' j)
    note t = fmt_char_conversions [OF Fmt_cat]
    show ?thesis
    proof (cases "message_size \<le> length m + length t")
      case True
      then show ?thesis using "1.prems" px Fmt_cat by (subst (asm) fmt_loop.simps) auto
    next
      case False
      have "fmt_loop s (vit + cell_bytes) (m @ t) e' (n + j) = Some (Inr (m', n'))"
        using "1.prems"(1) px Fmt_cat False by (subst (asm) fmt_loop.simps) auto
      from "1.IH" [OF px Fmt_cat False this, of "k + j"] show ?thesis
        using "1.prems" t False by (simp add: conversions_append)
    qed
  qed (use "1.prems" px in \<open>(subst (asm) fmt_loop.simps, auto)+\<close>)
qed

text \<open>The loop over the arguments fills the array from its start with the cells that the script's arguments point to.\<close>

definition printed_arg :: "'w amx \<Rightarrow> cell \<Rightarrow> nat \<Rightarrow> cell \<Rightarrow> bool" where
  "printed_arg s argv i x \<longleftrightarrow> (\<exists>a p. arg_cell s argv (Suc i) a \<and> translate_data s a = Some p \<and> host_read s p = Some x)"

lemma print_args_stores:
  assumes "print_args s argv is args = Some (Inr args')" "distinct is"
  shows "length args' = length args \<and> (\<forall>i \<in> set is. printed_arg s argv i (args' ! i)) \<and>
    (\<forall>i. i \<notin> set is \<longrightarrow> args' ! i = args ! i)"
  using assms
proof (induction "is" arbitrary: args)
  case (Cons i "is")
  from Cons.prems(1) obtain pp a p x where x: "data_v2p s (argv + (of_nat i + 1) * cell_bytes) = Some pp"
      "host_read s pp = Some a" "translate_data s a = Some p" "host_read s p = Some x" "i < length args"
      "print_args s argv is (args[i := x]) = Some (Inr args')"
    by (auto simp: upd_def_eq_Some_iff split: option.splits Option.bind_splits)
  have "of_nat (Suc i) = (of_nat i + 1 :: cell)" by simp
  then have "printed_arg s argv i x" unfolding printed_arg_def arg_cell_def using x(1-4) by metis
  then show ?case using Cons.IH [OF x(6)] Cons.prems(2) x(5) by (auto simp: nth_list_update)
qed simp

lemma of_nat_le_arg_count:
  assumes "\<not> of_nat n > (argc :: cell) - 1" "n \<le> 64" "argc \<noteq> 0"
  shows "n < unat argc"
proof -
  have "unat (of_nat n :: cell) = n" using assms(2) by (intro unat_of_nat_small) simp
  moreover have "unat (argc - 1) = unat argc - 1" "0 < unat argc"
    using assms(3) by (simp_all add: unat_minus_one unat_gt_0)
  ultimately show ?thesis using assms(1) by (simp add: not_less word_le_nat_alt)
qed

lemma debug_print_Ok:
  assumes "debug_print pr argc argv s = Ok s'"
  obtains m n args where "s' = s\<lparr>PRI := 0, world := pr m args (world s)\<rparr>" "length m < message_size" "0 \<notin> set m"
    "\<exists>k \<le> n. conversions m = Some k" "n \<le> 64" "n < unat argc" "length args = 64"
    "\<forall>i < n. printed_arg (s\<lparr>PRI := 0\<rparr>) argv i (args ! i)" "\<forall>i. n \<le> i \<longrightarrow> i < 64 \<longrightarrow> args ! i = 0"
proof -
  have n64: "length no_args = 64" by (simp add: no_args_def)
  obtain vfmt m n args where f: "argc \<noteq> 0" "fmt_loop (s\<lparr>PRI := 0\<rparr>) vfmt print_prefix False 0 = Some (Inr (m, n))" "n \<le> 64"
      "\<not> of_nat n > argc - 1" "print_args (s\<lparr>PRI := 0\<rparr>) argv [0..<n] no_args = Some (Inr args)"
      "s' = s\<lparr>PRI := 0, world := pr m args (world s)\<rparr>"
    using assms by (auto simp: debug_print_def first_arg_def Let_def DATA_def deref_def not_less n64
        split: if_splits option.splits sum.splits)
  have "conversions print_prefix = Some 0" "0 \<notin> set print_prefix" "length print_prefix < message_size"
    by (simp_all add: print_prefix_def cname_def percent_def message_size_def)
  then have fmt: "\<exists>k \<le> n. conversions m = Some k" "0 \<notin> set m" "length m < message_size"
    using fmt_loop_format [OF f(2)] by auto
  note st = print_args_stores [OF f(5) distinct_upt]
  show ?thesis
  proof (rule that [OF f(6) fmt(3,2,1) f(3) of_nat_le_arg_count [OF f(4,3,1)]])
    show "length args = 64" using st n64 by simp
    show "\<forall>i < n. printed_arg (s\<lparr>PRI := 0\<rparr>) argv i (args ! i)" using st by simp
    show "\<forall>i. n \<le> i \<longrightarrow> i < 64 \<longrightarrow> args ! i = 0"
    proof (intro allI impI)
      fix i :: nat assume "n \<le> i" "i < 64"
      then have "i \<notin> set [0..<n]" by simp
      then have "args ! i = no_args ! i" using st by blast
      then show "args ! i = 0" using \<open>i < 64\<close> by (simp add: no_args_def)
    qed
  qed
qed

lemma debug_print_Err: "debug_print pr argc argv s = Err e s' \<Longrightarrow> s' = s\<lparr>PRI := 0\<rparr>"
  by (auto simp: debug_print_def first_arg_def Let_def DATA_def deref_def split: if_splits option.splits sum.splits)

lemma printed_arg_PRI [simp]: "printed_arg (s\<lparr>PRI := x\<rparr>) = printed_arg s"
  by (simp add: fun_eq_iff printed_arg_def arg_cell_def data_v2p_def translate_data_def host_read_def)

text \<open>C36: whatever arguments the script passes to \<open>debug_print\<close>, no byte outside a buffer is accessed. Either it
  returns an error and nothing is printed, or the kernel's printing gets a format that is terminated within the
  buffer, has only conversions of one 64-bit argument, at most 64 and at most as many as the script passed
  arguments after the format, and the array of 64 cells that holds the values of these arguments and then zeros.\<close>

theorem debug_print_format:
  assumes "well_mapped s"
  shows "case debug_print pr argc argv s of Undefined u \<Rightarrow> False | Diverges \<Rightarrow> False
    | Err e s' \<Rightarrow> s' = s\<lparr>PRI := 0\<rparr>
    | Ok s' \<Rightarrow> \<exists>m n args. s' = s\<lparr>PRI := 0, world := pr m args (world s)\<rparr> \<and>
        length m < message_size \<and> 0 \<notin> set m \<and> (\<exists>k \<le> n. conversions m = Some k) \<and> n \<le> 64 \<and> n < unat argc \<and>
        length args = 64 \<and> (\<forall>i < n. printed_arg s argv i (args ! i)) \<and> (\<forall>i. n \<le> i \<longrightarrow> i < 64 \<longrightarrow> args ! i = 0)"
proof (cases "debug_print pr argc argv s")
  case (Ok s')
  from debug_print_Ok [OF Ok] show ?thesis unfolding Ok outcome.case printed_arg_PRI by metis
next
  case (Err e s')
  then show ?thesis using debug_print_Err by simp
next
  case (Undefined u)
  have "u = Bad_access" using Undefined
    by (auto simp: debug_print_def first_arg_def Let_def DATA_def deref_def split: if_splits option.splits sum.splits)
  moreover have "safe s (debug_print pr argc argv s)"
    using debug_print_confined [of s pr] confined_refl [OF assms] by (simp add: confined_native_def)
  ultimately show ?thesis using Undefined by simp
next
  case Diverges
  then show ?thesis
    by (auto simp: debug_print_def first_arg_def Let_def DATA_def deref_def split: if_splits option.splits sum.splits)
qed

section \<open>Names and calls between natives\<close>

lemma map_of_zip_index:
  "map_of (zip xs ys) x = Some y \<Longrightarrow> length xs = length ys \<Longrightarrow>
    length (takeWhile (\<lambda>z. z \<noteq> x) xs) < length xs \<and> ys ! length (takeWhile (\<lambda>z. z \<noteq> x) xs) = y"
  by (induction xs ys rule: list_induct2') (auto split: if_splits)

lemma native_tables: "length native_names = 7 + length signatures" "length (plain_natives k ctx pubs) = 7 + length signatures"
  "native_names ! 6 = cname ''call_native''"
  by (simp_all add: native_names_def plain_natives_def)

lemma first_arg_cell:
  "arg_cell s argv 0 x \<Longrightarrow> first_arg argc argv s k = (if argc = 0 then Err Invalid_operand (s\<lparr>PRI := 0\<rparr>) else k x (s\<lparr>PRI := 0\<rparr>))"
  by (auto simp: arg_cell_def first_arg_def DATA_def deref_def Let_def)

text \<open>The number that \<open>get_native\<close> finds for a name, passed to \<open>call_native\<close>, runs the native that the loader
  resolves for that name, on the remaining arguments.\<close>

theorem get_native_call_native:
  assumes "map_of (NATIVES k ctx pubs) name = Some f" "name \<noteq> cname ''call_native''"
    and "arg_cell s argv 0 (get_native_index native_names name)" "argc \<noteq> 0"
  shows "call_native 6 (plain_natives k ctx pubs) argc argv s = f (argc - 1) (argv + cell_bytes) (s\<lparr>PRI := 0\<rparr>)"
proof -
  define i where "i = length (takeWhile (\<lambda>x. x \<noteq> name) native_names)"
  let ?t = "plain_natives k ctx pubs"
  have i: "i < length native_names" "(?t[6 := call_native 6 ?t]) ! i = f"
    using map_of_zip_index [OF assms(1) [unfolded NATIVES_def]] by (simp_all add: native_tables(1,2) i_def)
  have "native_names ! i = name" using nth_length_takeWhile [of "\<lambda>x. x \<noteq> name" native_names] i(1) by (simp add: i_def)
  then have "i \<noteq> 6" using assms(2) native_tables(3) by metis
  moreover have "length native_names < 2 ^ 64" by (simp add: native_tables(1) signatures_def)
  ultimately have "unat (get_native_index native_names name) = i" "i < length ?t" "?t ! i = f"
    using i by (simp_all add: get_native_index_def Let_def i_def [symmetric] unat_of_nat_small native_tables)
  then show ?thesis
    using \<open>i \<noteq> 6\<close> assms(4) by (subst call_native.simps) (simp add: first_arg_cell [OF assms(3)])
qed

text \<open>\<open>amx_strcpy\<close> gives the text of the script, cut to the buffer.\<close>

lemma amx_strcpy_text:
  assumes "\<And>i. i \<le> length cs \<Longrightarrow> \<exists>q. translate_data s (vit + of_nat i * cell_bytes) = Some q \<and>
      (\<exists>x. host_read s q = Some x \<and> ucast x = (cs @ [0]) ! i)" "0 \<notin> set cs"
  shows "amx_strcpy (Suc n) s vit = Some (Some (take n cs))"
  using assms
proof (induction cs arbitrary: vit n)
  case Nil
  obtain q x where "translate_data s vit = Some q" "host_read s q = Some x" "ucast x = (0 :: byte)" using Nil(1) [of 0] by auto
  then show ?case by simp
next
  case (Cons c cs)
  obtain q x where q: "translate_data s vit = Some q" "host_read s q = Some x" "ucast x = c" using Cons.prems(1) [of 0] by auto
  show ?case
  proof (cases n)
    case (Suc m)
    have "amx_strcpy (Suc m) s (vit + cell_bytes) = Some (Some (take m cs))"
    proof (rule Cons.IH)
      fix i assume "i \<le> length cs"
      then show "\<exists>q. translate_data s (vit + cell_bytes + of_nat i * cell_bytes) = Some q \<and>
          (\<exists>x. host_read s q = Some x \<and> ucast x = (cs @ [0]) ! i)"
        using Cons.prems(1) [of "Suc i"] by (simp add: algebra_simps)
    qed (use Cons.prems(2) in simp)
    then show ?thesis using q Cons.prems(2) Suc by (auto simp: Let_def)
  qed (use q in simp)
qed

section \<open>The table of callbacks\<close>

lemma index_where_Some:
  assumes "index_where P xs = Some i"
  shows "i < length xs \<and> P (xs ! i) \<and> (\<forall>j < i. \<not> P (xs ! j))"
proof -
  have i: "i = length (takeWhile (\<lambda>x. \<not> P x) xs)" "i < length xs"
    using assms by (auto simp: index_where_def Let_def split: if_splits)
  then show ?thesis
    using nth_length_takeWhile [of "\<lambda>x. \<not> P x" xs] takeWhile_nth [of _ "\<lambda>x. \<not> P x" xs] nth_mem
    by (metis (no_types, lifting) set_takeWhileD)
qed

lemma index_where_address:
  assumes "inj_on addr {..<cb_count}" "i < cb_count"
  shows "index_where (\<lambda>j. addr j = addr i) [0..<cb_count] = Some i"
proof (cases "index_where (\<lambda>j. addr j = addr i) [0..<cb_count]")
  case (Some j)
  then have "j < cb_count" "addr j = addr i" using index_where_Some [OF Some] by auto
  then show ?thesis using Some assms by (auto simp: inj_on_def)
next
  case None
  then have "takeWhile (\<lambda>j. addr j \<noteq> addr i) [0..<cb_count] = [0..<cb_count]"
    by (subst takeWhile_eq_take) (simp add: index_where_def Let_def not_less split: if_splits)
  then show ?thesis using assms(2) by (auto simp: takeWhile_eq_all_conv)
qed

text \<open>An entry of the table given to a context was free, no other entry changes, and only that context can give it
  back, which leaves the table as it was.\<close>

theorem callback_alloc_free:
  assumes "inj_on addr {..<cb_count}" "\<forall>i < cb_count. addr i \<noteq> 0"
    and "length t = cb_count" "\<forall>e \<in> set t. owner e = None \<longrightarrow> e = free_entry"
    and "to_amx_callback_alloc addr ctx target t = (pfn, t')" "pfn \<noteq> 0"
  shows "\<exists>i < cb_count. pfn = addr i \<and> t ! i = free_entry \<and> t' = t[i := \<lparr>owner = Some ctx, cb_cip = target\<rparr>] \<and>
    to_amx_callback_free addr ctx pfn t' = Some t \<and>
    (\<forall>other. other \<noteq> ctx \<longrightarrow> to_amx_callback_free addr other pfn t' = None)"
proof -
  obtain i where f: "index_where (\<lambda>e. owner e = None) t = Some i" and r: "pfn = addr i"
      "t' = t[i := \<lparr>owner = Some ctx, cb_cip = target\<rparr>]"
    using assms(5,6) by (auto simp: to_amx_callback_alloc_def split: option.splits)
  have i: "i < length t" "owner (t ! i) = None" using index_where_Some [OF f] by auto
  have "t ! i = free_entry" using assms(4) i nth_mem by blast
  moreover have "index_where (\<lambda>j. addr j = pfn) [0..<cb_count] = Some i"
    using index_where_address [OF assms(1), of i] i(1) assms(3) r(1) by simp
  moreover have "t[i := free_entry] = t" using \<open>t ! i = free_entry\<close> by (metis list_update_id)
  ultimately show ?thesis using i(1) assms(3) r by (intro exI [of _ i]) (simp add: to_amx_callback_free_def)
qed

section \<open>Calls with concrete arguments\<close>

text \<open>A machine whose eight cells of data are the arguments.\<close>

definition args_machine :: "cell list \<Rightarrow> 'w \<Rightarrow> 'w amx" where
  "args_machine cells w = machine [] 0 cells 64 w"

definition no_callbacks :: "unit shared" where
  "no_callbacks = \<lparr>cb_table = replicate cb_count free_entry, env = ()\<rparr>"

text \<open>A kernel whose functions return their first argument, and whose callbacks are at the addresses from 1 on.\<close>

definition quiet_kernel :: "unit kernel" where
  "quiet_kernel = \<lparr>vprint = \<lambda>m xs w. w, system_routine = \<lambda>n. of_nat (length n), callback_addr = \<lambda>i. of_nat (Suc i),
     bodies = \<lambda>n vs h w. (vs, None, h, w)\<rparr>"

lemmas args_simps = args_machine_def machine_simps arg_cell_def translate_data_def

lemma native_msr_read: "(cname ''msr_read'', native_callback_wrapper [Val, Ref] (bodies k ''msr_read'')) \<in> set (NATIVES k ctx pubs)"
  by (simp add: NATIVES_def plain_natives_def native_names_def signatures_def)

lemma quiet_keeps: "keeps_host (bodies quiet_kernel n)"
  by (simp add: keeps_host_def quiet_kernel_def)

theorem natives_confined_witness:
  "confined_native (args_machine [0, 0] no_callbacks) (native_callback_wrapper [Val, Ref] (bodies quiet_kernel ''msr_read''))"
  by (rule natives_confined [OF native_msr_read _ quiet_keeps]) (simp add: cname_def)

theorem reference_argument_stored_witness:
  "\<exists>s'. native_callback_wrapper (replicate (length [7 :: cell]) Val @ [Ref]) (\<lambda>vs h w. ([[0], [9]], Some 1, h, w))
      (of_nat (length [7 :: cell] + 1)) 0 (args_machine [7, 40, 0, 0, 0, 3, 0, 0] ()) = Ok s' \<and> PRI s' = 1 \<and> world s' = () \<and>
    (\<forall>p. host_read s' p = (if p = \<lparr>block = 1, cell_at = 5\<rparr> then Some 9 else host_read (args_machine [7, 40, 0, 0, 0, 3, 0, 0] ()) p))"
  using reference_argument_stored [of "[7]" "args_machine [7, 40, 0, 0, 0, 3, 0, 0] ()" 0 40 "\<lparr>block = 1, cell_at = 5\<rparr>" 3
      "\<lambda>vs h w. ([[0], [9]], Some 1, h, w)" "[[0]]" 9 "Some 1" "()"]
  by (simp add: args_simps)

theorem array_reference_crashes_witness:
  "native_callback_wrapper ([Val, Val] @ [Ref_array 4]) (\<lambda>vs h w. (vs, None, h, w)) (of_nat (length [Val, Val] + 1)) 0
     (args_machine [1, 0, 4096, 0, 0, 0, 0, 0] ()) = Undefined Bad_access"
proof -
  have "init_wtuple ([Val, Val] @ [Ref_array 4]) 0 0 (args_machine [1, 0, 4096, 0, 0, 0, 0, 0] ()) =
      Some ([\<lparr>ptrs = [], vals = [1]\<rparr>, \<lparr>ptrs = [], vals = [0]\<rparr>, fresh_wrapper (Ref_array 4)], Some Access_violation)"
    by (simp add: args_simps wrapper_init_def fresh_wrapper_def upt_rec)
  from array_reference_crashes [OF this] show ?thesis by simp
qed

theorem failed_call_clears_reference_witness:
  "\<exists>s'. native_callback_wrapper (replicate (length [7 :: cell]) Val @ Ref # replicate (Suc 15) Val) (\<lambda>vs h w. (vs, None, h, w))
      (of_nat (length [7 :: cell] + 1 + Suc 15)) 48 (args_machine [0, 0, 0, 0, 0, 3, 7, 40] ()) = Err Access_violation s' \<and>
    PRI s' = PRI (args_machine [0, 0, 0, 0, 0, 3, 7, 40] ()) \<and>
    (\<forall>p. host_read s' p = (if p = \<lparr>block = 1, cell_at = 5\<rparr> then Some 0 else host_read (args_machine [0, 0, 0, 0, 0, 3, 7, 40] ()) p))"
  by (rule failed_call_clears_reference [where a = 40 and old = 3]) (simp_all add: args_simps)


text \<open>The format \<open>%d\<close> at address 16, its argument the cell 42 at address 40.\<close>

theorem debug_print_format_witness:
  "(\<exists>s'. debug_print (\<lambda>m xs w. (m, xs)) 2 0 (args_machine [16, 40, 37, 100, 0, 42, 0, 0] ([], [])) = Ok s' \<and>
      fst (world s') = print_prefix @ [percent, 108, 108, 100] \<and> take 2 (snd (world s')) = [42, 0]) \<and>
   (case debug_print (\<lambda>m xs w. (m, xs)) 2 0 (args_machine [16, 40, 37, 100, 0, 42, 0, 0] ([], [])) of
      Undefined u \<Rightarrow> False | Diverges \<Rightarrow> False
    | Err e s' \<Rightarrow> s' = (args_machine [16, 40, 37, 100, 0, 42, 0, 0] ([], []))\<lparr>PRI := 0\<rparr>
    | Ok s' \<Rightarrow> \<exists>m n args. s' = (args_machine [16, 40, 37, 100, 0, 42, 0, 0] ([], []))\<lparr>PRI := 0, world := (m, args)\<rparr> \<and>
        length m < message_size \<and> 0 \<notin> set m \<and> (\<exists>k \<le> n. conversions m = Some k) \<and> n \<le> 64 \<and> n < unat (2 :: cell) \<and>
        length args = 64 \<and>
        (\<forall>i < n. printed_arg (args_machine [16, 40, 37, 100, 0, 42, 0, 0] ([] :: byte list, [] :: cell list)) 0 i (args ! i)) \<and>
        (\<forall>i. n \<le> i \<longrightarrow> i < 64 \<longrightarrow> args ! i = 0))"
proof
  show "\<exists>s'. debug_print (\<lambda>m xs w. (m, xs)) 2 0 (args_machine [16, 40, 37, 100, 0, 42, 0, 0] ([], [])) = Ok s' \<and>
      fst (world s') = print_prefix @ [percent, 108, 108, 100] \<and> take 2 (snd (world s')) = [42, 0]"
    by (simp add: args_simps debug_print_def first_arg_def fmt_loop.simps fmt_char_def percent_def conversion_chars_def
        cname_def print_prefix_def message_size_def no_args_def upd_def_def) (simp add: numeral_eq_Suc)
qed (rule debug_print_format, unfold args_machine_def, rule well_mapped_machine, simp_all)

theorem get_native_call_native_witness:
  "call_native 6 (plain_natives quiet_kernel 0 []) 1 0 (args_machine [0, 0, 0, 0, 0, 0, 0, 0] no_callbacks) =
    debug_print (vprint quiet_kernel) 0 8 (args_machine [0, 0, 0, 0, 0, 0, 0, 0] no_callbacks\<lparr>PRI := 0\<rparr>)"
  using get_native_call_native [of quiet_kernel 0 "[]" "cname ''debug_print''" "debug_print (vprint quiet_kernel)"
      "args_machine [0, 0, 0, 0, 0, 0, 0, 0] no_callbacks" 0 1]
  by (simp add: NATIVES_def plain_natives_def native_names_def args_simps get_native_index_def cname_def)

theorem callback_alloc_free_witness:
  "\<exists>i < cb_count. (1 :: cell) = of_nat (Suc i) \<and> replicate cb_count free_entry ! i = free_entry \<and>
    (replicate cb_count free_entry)[0 := \<lparr>owner = Some 5, cb_cip = 16\<rparr>] = (replicate cb_count free_entry)[i := \<lparr>owner = Some 5, cb_cip = 16\<rparr>] \<and>
    to_amx_callback_free (\<lambda>i. of_nat (Suc i)) 5 1 ((replicate cb_count free_entry)[0 := \<lparr>owner = Some 5, cb_cip = 16\<rparr>]) =
      Some (replicate cb_count free_entry) \<and>
    (\<forall>other. other \<noteq> 5 \<longrightarrow> to_amx_callback_free (\<lambda>i. of_nat (Suc i)) other 1
      ((replicate cb_count free_entry)[0 := \<lparr>owner = Some 5, cb_cip = 16\<rparr>]) = None)"
proof (rule callback_alloc_free)
  have u: "unat (of_nat (Suc i) :: cell) = Suc i" if "i < cb_count" for i
    using that by (intro unat_of_nat_small) (simp add: cb_count_def)
  show "inj_on (\<lambda>i. of_nat (Suc i) :: cell) {..<cb_count}" by (rule inj_onI) (metis u lessThan_iff nat.inject)
  show "\<forall>i < cb_count. (of_nat (Suc i) :: cell) \<noteq> 0" by (metis u unat_0 nat.distinct(1))
  show "to_amx_callback_alloc (\<lambda>i. of_nat (Suc i)) 5 16 (replicate cb_count free_entry) =
      (1, (replicate cb_count free_entry)[0 := \<lparr>owner = Some 5, cb_cip = 16\<rparr>])"
    by (simp add: to_amx_callback_alloc_def index_where_def takeWhile_replicate free_entry_def cb_count_def)
qed simp_all

end
