(* ===== verification/Vm_Driver.thy ===== *)
theory Vm_Driver
  imports Vm_Natives_Props
begin

text \<open>
  The driver around the abstract machine: the callbacks of other drivers (\<open>callbacks.cpp\<close>), loading a signed
  module, calling one of its functions with the buffer of a request, unloading it, the calls from the kernel
  (\<open>vm.cpp\<close>), and the requests of a file (\<open>driver.cpp\<close>). A request owns the mutex of its context throughout, so
  each operation is one step.
\<close>

section \<open>Status codes\<close>

type_synonym ntstatus = u32

definition NT_SUCCESS :: "ntstatus \<Rightarrow> bool" where "NT_SUCCESS st \<longleftrightarrow> 0 \<le> sint st"

definition STATUS_SUCCESS :: ntstatus where "STATUS_SUCCESS = 0"
definition STATUS_UNSUCCESSFUL :: ntstatus where "STATUS_UNSUCCESSFUL = 0xC0000001"
definition STATUS_NOT_IMPLEMENTED :: ntstatus where "STATUS_NOT_IMPLEMENTED = 0xC0000002"
definition STATUS_INVALID_PARAMETER :: ntstatus where "STATUS_INVALID_PARAMETER = 0xC000000D"
definition STATUS_NO_MEMORY :: ntstatus where "STATUS_NO_MEMORY = 0xC0000017"
definition STATUS_OBJECT_NAME_NOT_FOUND :: ntstatus where "STATUS_OBJECT_NAME_NOT_FOUND = 0xC0000034"
definition STATUS_DEVICE_NOT_READY :: ntstatus where "STATUS_DEVICE_NOT_READY = 0xC00000A3"
definition STATUS_ALREADY_INITIALIZED :: ntstatus where "STATUS_ALREADY_INITIALIZED = 0xC0000510"

lemma NT_SUCCESS_simps [simp]: "NT_SUCCESS STATUS_SUCCESS" "\<not> NT_SUCCESS STATUS_UNSUCCESSFUL"
  "\<not> NT_SUCCESS STATUS_NO_MEMORY" "\<not> NT_SUCCESS STATUS_INVALID_PARAMETER"
  by (simp_all add: NT_SUCCESS_def STATUS_SUCCESS_def STATUS_UNSUCCESSFUL_def STATUS_NO_MEMORY_def STATUS_INVALID_PARAMETER_def)

section \<open>Callbacks of other drivers\<close>

text \<open>A \<open>callback_list\<close>: the entries with the cookies they are known by, the newest first.\<close>

type_synonym 'f callback_list = "(nat \<times> 'f) list"

text \<open>\<open>add\<close> gets the address of the new entry, or nothing when the allocation fails; it returns it as the cookie.\<close>

definition cb_add :: "nat option \<Rightarrow> 'f \<Rightarrow> 'f callback_list \<Rightarrow> nat option \<times> 'f callback_list" where
  "cb_add node f l = (case node of None \<Rightarrow> (None, l) | Some c \<Rightarrow> (Some c, (c, f) # l))"

text \<open>A cookie that is not in the list would unlink foreign memory.\<close>

definition cb_remove :: "nat option \<Rightarrow> 'f callback_list \<Rightarrow> 'f callback_list defined" where
  "cb_remove cookie l = (case cookie of None \<Rightarrow> Some l
     | Some c \<Rightarrow> if c \<in> fst ` set l then Some (filter (\<lambda>(d, f). d \<noteq> c) l) else None)"

fun call_status :: "ntstatus \<Rightarrow> ('w \<Rightarrow> ntstatus \<times> 'w) list \<Rightarrow> 'w \<Rightarrow> ntstatus \<times> 'w" where
  "call_status st [] w = (st, w)"
| "call_status st (f # fs) w = (case f w of (st', w') \<Rightarrow> if NT_SUCCESS st' then call_status st' fs w' else (st', w'))"

definition call_void :: "('w \<Rightarrow> 'w) list \<Rightarrow> 'w \<Rightarrow> 'w" where
  "call_void fs w = fold (\<lambda>f w. f w) fs w"

record 'w hooks =
  s_created :: "(nat \<Rightarrow> 'w \<Rightarrow> ntstatus \<times> 'w) callback_list"
  s_precall :: "(nat \<Rightarrow> cell \<Rightarrow> 'w \<Rightarrow> ntstatus \<times> 'w) callback_list"
  s_postcall :: "(nat \<Rightarrow> 'w \<Rightarrow> 'w) callback_list"
  s_destroyed :: "(nat \<Rightarrow> 'w \<Rightarrow> 'w) callback_list"

section \<open>The state of the driver\<close>

text \<open>
  A context: its module, the block of its allocation, its machine. Host memory and the world are shared by all
  contexts; the machine of a context gets them when it is entered. A context or block that was freed is
  \<open>None\<close>.
\<close>

record 'e vm =
  vm_module :: "'e shared module"
  vm_block :: nat
  machine_of :: "'e shared amx"

record 'e system =
  hooks_of :: "'e shared hooks"
  vms :: "nat \<Rightarrow> 'e vm option"
  memory :: "nat \<Rightarrow> cell list option"
  common :: "'e shared"

text \<open>An operation ends, or breaks the system, or never ends.\<close>

datatype 'r finish = Done 'r | Broken ub | Hangs

definition vm_callback_created :: "nat \<Rightarrow> 'e system \<Rightarrow> ntstatus \<times> 'e system" where
  "vm_callback_created ctx sys = (case call_status STATUS_SUCCESS (map (\<lambda>(c, f). f ctx) (s_created (hooks_of sys))) (common sys)
     of (st, w) \<Rightarrow> (st, sys\<lparr>common := w\<rparr>))"

definition vm_callback_precall :: "nat \<Rightarrow> cell \<Rightarrow> 'e system \<Rightarrow> ntstatus \<times> 'e system" where
  "vm_callback_precall ctx target sys =
     (case call_status STATUS_SUCCESS (map (\<lambda>(c, f). f ctx target) (s_precall (hooks_of sys))) (common sys)
      of (st, w) \<Rightarrow> (st, sys\<lparr>common := w\<rparr>))"

definition vm_callback_postcall :: "nat \<Rightarrow> 'e system \<Rightarrow> 'e system" where
  "vm_callback_postcall ctx sys = sys\<lparr>common := call_void (map (\<lambda>(c, f). f ctx) (s_postcall (hooks_of sys))) (common sys)\<rparr>"

definition vm_callback_destroyed :: "nat \<Rightarrow> 'e system \<Rightarrow> 'e system" where
  "vm_callback_destroyed ctx sys = sys\<lparr>common := call_void (map (\<lambda>(c, f). f ctx) (s_destroyed (hooks_of sys))) (common sys)\<rparr>"

section \<open>Calling into a context\<close>

definition enter :: "'e system \<Rightarrow> 'e shared amx \<Rightarrow> 'e shared amx" where
  "enter sys s = s\<lparr>host := memory sys, world := common sys\<rparr>"

definition leave :: "nat \<Rightarrow> 'e vm \<Rightarrow> 'e shared amx \<Rightarrow> 'e system \<Rightarrow> 'e system" where
  "leave ctx v s sys = sys\<lparr>vms := (vms sys)(ctx \<mapsto> v\<lparr>machine_of := s\<rparr>), memory := host s, common := world s\<rparr>"

text \<open>\<open>loader->amx.call\<close>: whether it succeeded, the value it returned through \<open>pri\<close>.\<close>

definition call_in :: "nat \<Rightarrow> cell \<Rightarrow> cell list \<Rightarrow> 'e system \<Rightarrow> (bool \<times> cell \<times> 'e system) finish" where
  "call_in ctx target args sys = (case vms sys ctx of None \<Rightarrow> Broken Bad_access
     | Some v \<Rightarrow> (case amx_call (amx_callback None None (natives (vm_module v))) target args (enter sys (machine_of v)) of
         None \<Rightarrow> Hangs | Some Diverges \<Rightarrow> Hangs | Some (Undefined u) \<Rightarrow> Broken u
       | Some (Ok s) \<Rightarrow> Done (True, PRI s, leave ctx v s sys)
       | Some (Err e s) \<Rightarrow> Done (False, PRI s, leave ctx v s sys)))"

text \<open>A call with the callbacks around it: the status of the request.\<close>

definition guarded_call :: "nat \<Rightarrow> cell \<Rightarrow> cell list \<Rightarrow> 'e system \<Rightarrow> (ntstatus \<times> 'e system) finish" where
  "guarded_call ctx target args sys = (case vm_callback_precall ctx target sys of (st, sys1) \<Rightarrow>
     if \<not> NT_SUCCESS st then Done (st, sys1)
     else (case call_in ctx target args sys1 of Broken u \<Rightarrow> Broken u | Hangs \<Rightarrow> Hangs
       | Done (ok, out, sys2) \<Rightarrow>
           Done (if ok then ucast out else STATUS_UNSUCCESSFUL, vm_callback_postcall ctx sys2)))"

section \<open>Loading\<close>

text \<open>What loading uses of the kernel: the hash and the check of a signature (\<open>signature.cpp\<close> calls the system's
  cryptography), whether the copy of the module can be allocated, the context and the block it gets.\<close>

record crypto =
  calculate_sha256 :: "byte list \<Rightarrow> ntstatus \<times> byte list"
  verify_sig :: "byte list \<Rightarrow> byte list \<Rightarrow> byte list \<Rightarrow> ntstatus"

record pool =
  copy_allocated :: bool
  new_context :: "nat option"
  new_block :: "nat \<Rightarrow> nat option"

text \<open>The trusted keys in turn, until one accepts.\<close>

fun try_keys :: "(byte list \<Rightarrow> ntstatus) \<Rightarrow> ntstatus \<Rightarrow> byte list list \<Rightarrow> ntstatus" where
  "try_keys verify st [] = st"
| "try_keys verify st (key # keys) = (let st' = verify key in if NT_SUCCESS st' then st' else try_keys verify st' keys)"

definition check_signature :: "crypto \<Rightarrow> byte list list \<Rightarrow> byte list \<Rightarrow> byte list \<Rightarrow> ntstatus" where
  "check_signature c trusted_keys mem sig = (case calculate_sha256 c mem of (st, hash) \<Rightarrow>
     if \<not> NT_SUCCESS st then st else try_keys (verify_sig c hash sig) st trusted_keys)"

text \<open>\<open>get_public\<close> is given the publics of the module it belongs to, which do not depend on the natives.\<close>

definition load_module :: "'e kernel \<Rightarrow> pool \<Rightarrow> nat \<Rightarrow> 'e system \<Rightarrow> byte list \<Rightarrow> (loader_error + 'e shared module \<times> 'e shared amx) defined" where
  "load_module k p ctx sys mem = (let load = (\<lambda>pubs. init (NATIVES k ctx pubs) (new_block p) (memory sys) (common sys) mem) in
     case load [] of Some (Inr (m, s)) \<Rightarrow> load (publics m) | r \<Rightarrow> r)"

definition vm_load_binary_internal :: "'e kernel \<Rightarrow> crypto \<Rightarrow> pool \<Rightarrow> bool \<Rightarrow> byte list list \<Rightarrow> byte list \<Rightarrow> 'e system
    \<Rightarrow> (ntstatus \<times> nat option \<times> 'e system) finish" where
  "vm_load_binary_internal k c p unrestricted keys buffer sys =
     (if length buffer < 4 then Done (STATUS_INVALID_PARAMETER, None, sys)
      else let sig_len = unat (le_word (take 4 buffer) :: u32) in
        if sig_len > length buffer - 4 then Done (STATUS_INVALID_PARAMETER, None, sys)
        else let mem = drop (4 + sig_len) buffer;
                 st = check_signature c keys mem (take sig_len (drop 4 buffer));
                 st = (if unrestricted then STATUS_SUCCESS else st) in
          if \<not> NT_SUCCESS st then Done (st, None, sys)
          else if \<not> copy_allocated p then Done (STATUS_NO_MEMORY, None, sys)
          else case new_context p of None \<Rightarrow> Done (STATUS_NO_MEMORY, None, sys)
            | Some ctx \<Rightarrow> (case load_module k p ctx sys mem of None \<Rightarrow> Broken Bad_access
                | Some (Inl e) \<Rightarrow> Done (STATUS_UNSUCCESSFUL, None, sys)
                | Some (Inr (m, s)) \<Rightarrow> Done (STATUS_SUCCESS, Some ctx,
                    leave ctx \<lparr>vm_module = m, vm_block = the (new_block p (alloc_size m)), machine_of = s\<rparr> s sys)))"

text \<open>The destructor of the loader frees its allocation.\<close>

definition vm_destroy_internal :: "nat \<Rightarrow> 'e system \<Rightarrow> 'e system" where
  "vm_destroy_internal ctx sys = (case vms sys ctx of None \<Rightarrow> sys
     | Some v \<Rightarrow> sys\<lparr>vms := (vms sys)(ctx := None), memory := (memory sys)(vm_block v := None)\<rparr>)"

definition vm_load_binary :: "'e kernel \<Rightarrow> crypto \<Rightarrow> pool \<Rightarrow> bool \<Rightarrow> byte list list \<Rightarrow> byte list \<Rightarrow> 'e system
    \<Rightarrow> (ntstatus \<times> nat option \<times> 'e system) finish" where
  "vm_load_binary k c p unrestricted keys buffer sys =
     (case vm_load_binary_internal k c p unrestricted keys buffer sys of
        Done (st, Some ctx, sys1) \<Rightarrow>
          (case vm_callback_created ctx sys1 of (st1, sys2) \<Rightarrow>
             let main = (case vms sys2 ctx of None \<Rightarrow> 0 | Some v \<Rightarrow> get_main (vm_module v));
                 r = (if NT_SUCCESS st1 \<and> main \<noteq> 0 then guarded_call ctx main [] sys2 else Done (st1, sys2)) in
             case r of Broken u \<Rightarrow> Broken u | Hangs \<Rightarrow> Hangs
             | Done (st2, sys3) \<Rightarrow>
                 if \<not> NT_SUCCESS st2 then Done (st2, None, vm_destroy_internal ctx (vm_callback_destroyed ctx sys3))
                 else Done (st2, Some ctx, sys3))
      | r \<Rightarrow> r)"

section \<open>Executing and unloading\<close>

text \<open>The request's buffer is the block \<open>sb\<close> of the host, for input and output alike; its first 32 bytes name the function.\<close>

definition buffer_name :: "cell list \<Rightarrow> byte list" where
  "buffer_name cells = concat (map (le_bytes 8) (take 4 cells))"

definition ioctl_prefix :: cstring where "ioctl_prefix = cname ''ioctl_''"

definition set_data_mem :: "nat \<Rightarrow> paged \<Rightarrow> 'e system \<Rightarrow> 'e system" where
  "set_data_mem ctx dm sys = (case vms sys ctx of None \<Rightarrow> sys
     | Some v \<Rightarrow> sys\<lparr>vms := (vms sys)(ctx \<mapsto> v\<lparr>machine_of := (machine_of v)\<lparr>data_mem := dm\<rparr>\<rparr>)\<rparr>)"

definition unmap_in :: "nat \<Rightarrow> cell \<Rightarrow> u64 \<Rightarrow> 'e system \<Rightarrow> 'e system defined" where
  "unmap_in ctx va n sys = (case vms sys ctx of None \<Rightarrow> None
     | Some v \<Rightarrow> map_option (\<lambda>dm. set_data_mem ctx dm sys) (paged_unmap va n (data_mem (machine_of v))))"

definition finish_request :: "'e system defined \<Rightarrow> ntstatus \<Rightarrow> (ntstatus \<times> 'e system) finish" where
  "finish_request sys st = (case sys of None \<Rightarrow> Broken Bad_access | Some sys' \<Rightarrow> Done (st, sys'))"

definition execute_mapped :: "nat \<Rightarrow> 'e vm \<Rightarrow> cell \<Rightarrow> nat \<Rightarrow> u64 \<Rightarrow> u64 \<Rightarrow> 'e system \<Rightarrow> (ntstatus \<times> 'e system) finish" where
  "execute_mapped ctx v fn sb in_count out_count sys =
     (case paged_map \<lparr>block = sb, cell_at = 4\<rparr> in_count (data_mem (machine_of v)) of
        None \<Rightarrow> Broken Bad_access
      | Some None \<Rightarrow> Done (STATUS_UNSUCCESSFUL, sys)
      | Some (Some (in_va, dm1)) \<Rightarrow>
         (case paged_map \<lparr>block = sb, cell_at = 0\<rparr> out_count dm1 of
            None \<Rightarrow> Broken Bad_access
          | Some None \<Rightarrow> finish_request (unmap_in ctx in_va in_count (set_data_mem ctx dm1 sys)) STATUS_UNSUCCESSFUL
          | Some (Some (out_va, dm2)) \<Rightarrow>
             (let dat = DAT (machine_of v) in
              case guarded_call ctx fn [in_va - dat, in_count, out_va - dat, out_count] (set_data_mem ctx dm2 sys) of
                Done (st, sys1) \<Rightarrow>
                  finish_request (Option.bind (unmap_in ctx out_va out_count sys1) (unmap_in ctx in_va in_count)) st
              | r \<Rightarrow> r)))"

definition vm_execute_function :: "nat option \<Rightarrow> nat \<Rightarrow> nat \<Rightarrow> nat \<Rightarrow> 'e system \<Rightarrow> (ntstatus \<times> 'e system) finish" where
  "vm_execute_function ctx_opt sb in_size out_size sys =
     (if in_size < 32 then Done (STATUS_INVALID_PARAMETER, sys)
      else case memory sys sb of None \<Rightarrow> Broken Bad_access | Some cells \<Rightarrow>
        let arr = buffer_name cells in
        if 0 \<notin> set arr then Done (STATUS_INVALID_PARAMETER, sys)
        else if take 6 (c_str arr) \<noteq> ioctl_prefix then Done (STATUS_INVALID_PARAMETER, sys)
        else case ctx_opt of None \<Rightarrow> Done (STATUS_DEVICE_NOT_READY, sys) | Some ctx \<Rightarrow>
          (case vms sys ctx of None \<Rightarrow> Broken Bad_access | Some v \<Rightarrow>
             let fn = get_public (c_str arr) (vm_module v) in
             if fn = 0 then Done (STATUS_OBJECT_NAME_NOT_FOUND, sys)
             else execute_mapped ctx v fn sb (of_nat (in_size div 8 - 4)) (of_nat (out_size div 8)) sys))"

definition unload_name :: cstring where "unload_name = cname ''unload''"

definition vm_destroy :: "nat option \<Rightarrow> 'e system \<Rightarrow> (ntstatus \<times> 'e system) finish" where
  "vm_destroy ctx_opt sys = (case ctx_opt of None \<Rightarrow> Done (STATUS_SUCCESS, sys) | Some ctx \<Rightarrow>
     (case vms sys ctx of None \<Rightarrow> Broken Bad_access | Some v \<Rightarrow>
        let fn = get_public unload_name (vm_module v);
            r = (if fn \<noteq> 0 then guarded_call ctx fn [] sys else Done (STATUS_SUCCESS, sys)) in
        case r of Broken u \<Rightarrow> Broken u | Hangs \<Rightarrow> Hangs
        | Done (st, sys1) \<Rightarrow> Done (STATUS_SUCCESS, vm_destroy_internal ctx (vm_callback_destroyed ctx sys1))))"

text \<open>A call from the kernel to the \<open>idx\<close>-th callback function.\<close>

definition to_amx_callback_dispatch :: "nat \<Rightarrow> cell \<Rightarrow> 'e system \<Rightarrow> (cell \<times> 'e system) finish" where
  "to_amx_callback_dispatch idx args sys = (let cb_ctx = cb_table (common sys) ! idx in
     case owner cb_ctx of None \<Rightarrow> Broken Fast_fail
     | Some ctx \<Rightarrow> (case vms sys ctx of None \<Rightarrow> Broken Bad_access | Some v \<Rightarrow>
         if cb_cip cb_ctx = 0 then Broken Fast_fail
         else (case vm_callback_precall ctx (cb_cip cb_ctx) sys of (st, sys1) \<Rightarrow>
           if \<not> NT_SUCCESS st then Broken Fast_fail
           else (case call_in ctx (cb_cip cb_ctx) [args] sys1 of Broken u \<Rightarrow> Broken u | Hangs \<Rightarrow> Hangs
             | Done (ok, out, sys2) \<Rightarrow> if \<not> ok then Broken Fast_fail else Done (out, sys2)))))"

section \<open>Requests\<close>

datatype control = Load_binary "byte list" pool "nat option" | Execute_fn nat nat nat | Version nat nat | Other_control

datatype request = Create | Close | Device_control control | Other_request

text \<open>The context of the file in \<open>FsContext\<close>. While a module was being loaded, another request may have set it:
  the last argument of \<open>Load_binary\<close> is what the exchange finds. Result: status, number of bytes to return,
  the context of the file afterwards.\<close>

definition pawnio_version :: "u32 \<Rightarrow> u32 \<Rightarrow> u32 \<Rightarrow> u32" where
  "pawnio_version major minor patch = push_bit 16 major OR push_bit 8 minor OR patch"

definition low_dword :: "u32 \<Rightarrow> cell \<Rightarrow> cell" where
  "low_dword v c = (c AND NOT 0xFFFFFFFF) OR ucast v"

definition dispatch_control :: "'e kernel \<Rightarrow> crypto \<Rightarrow> bool \<Rightarrow> byte list list \<Rightarrow> u32 \<Rightarrow> control \<Rightarrow> nat option \<Rightarrow> 'e system
    \<Rightarrow> (ntstatus \<times> nat \<times> nat option \<times> 'e system) finish" where
  "dispatch_control k c unrestricted keys version ctl fs sys = (case ctl of
     Load_binary buffer p found \<Rightarrow>
       (case fs of Some ctx \<Rightarrow> Done (STATUS_ALREADY_INITIALIZED, 0, fs, sys)
        | None \<Rightarrow> (case vm_load_binary k c p unrestricted keys buffer sys of Broken u \<Rightarrow> Broken u | Hangs \<Rightarrow> Hangs
            | Done (st, new_ctx, sys1) \<Rightarrow>
                if \<not> NT_SUCCESS st then Done (st, 0, found, sys1)
                else case found of None \<Rightarrow> Done (st, 0, new_ctx, sys1)
                  | Some other \<Rightarrow> (case vm_destroy new_ctx sys1 of Broken u \<Rightarrow> Broken u | Hangs \<Rightarrow> Hangs
                      | Done (st', sys2) \<Rightarrow> Done (STATUS_UNSUCCESSFUL, 0, found, sys2))))
   | Execute_fn sb in_size out_size \<Rightarrow>
       (case fs of None \<Rightarrow> Done (STATUS_INVALID_PARAMETER, 0, fs, sys)
        | Some ctx \<Rightarrow> (case vm_execute_function fs sb in_size out_size sys of Broken u \<Rightarrow> Broken u | Hangs \<Rightarrow> Hangs
            | Done (st, sys1) \<Rightarrow> Done (st, if NT_SUCCESS st then out_size else 0, fs, sys1)))
   | Version sb out_size \<Rightarrow>
       if out_size \<noteq> 4 then Done (STATUS_INVALID_PARAMETER, 0, fs, sys)
       else (case memory sys sb of None \<Rightarrow> Broken Bad_access
         | Some [] \<Rightarrow> Broken Bad_access
         | Some (x # xs) \<Rightarrow> Done (STATUS_SUCCESS, 4, fs, sys\<lparr>memory := (memory sys)(sb \<mapsto> low_dword version x # xs)\<rparr>))
   | Other_control \<Rightarrow> Done (STATUS_NOT_IMPLEMENTED, 0, fs, sys))"

definition dispatch_irp :: "'e kernel \<Rightarrow> crypto \<Rightarrow> bool \<Rightarrow> byte list list \<Rightarrow> u32 \<Rightarrow> request \<Rightarrow> nat option \<Rightarrow> 'e system
    \<Rightarrow> (ntstatus \<times> nat \<times> nat option \<times> 'e system) finish" where
  "dispatch_irp k c unrestricted keys version req fs sys = (case req of
     Create \<Rightarrow> Done (STATUS_SUCCESS, 0, fs, sys)
   | Close \<Rightarrow> (case fs of None \<Rightarrow> Done (STATUS_SUCCESS, 0, fs, sys)
       | Some ctx \<Rightarrow> (case vm_destroy fs sys of Broken u \<Rightarrow> Broken u | Hangs \<Rightarrow> Hangs
           | Done (st, sys1) \<Rightarrow> Done (STATUS_SUCCESS, 0, fs, sys1)))
   | Device_control ctl \<Rightarrow> dispatch_control k c unrestricted keys version ctl fs sys
   | Other_request \<Rightarrow> Done (STATUS_NOT_IMPLEMENTED, 0, fs, sys))"

end
