(* ===== verification/Vm_Driver_Props.thy ===== *)
theory Vm_Driver_Props
  imports Vm_Driver
begin

text \<open>
  What the driver promises: a request reaches the memory of its own context and its own buffer only, and
  leaves the mappings as they were; only signed modules are loaded; what the script sees of the buffer; and where
  the code falls short: the stack after a failed call, callbacks of a context that is gone, bytes of the buffer
  that nobody wrote.
\<close>

section \<open>Mapping the buffer of a request\<close>

definition small :: "u64 \<Rightarrow> bool" where "small n \<longleftrightarrow> unat n \<le> 2 ^ 56"

lemma small_one_page: "small n \<Longrightarrow> n \<noteq> 0 \<Longrightarrow> one_page n"
  by (simp add: small_def one_page_def word_gt_0)

text \<open>The interface of the mappings, for buffers of no cells as well.\<close>

lemma map_any:
  assumes "pages_ok dm" "small n" "paged_map b n dm = Some (Some (va, dm'))"
  shows "pages_ok dm'" "paged_unmap va n dm' = Some dm"
    "paged_translate dm' a = Some p \<Longrightarrow> paged_translate dm a = Some p \<or> (\<exists>i < unat n. p = hplus b i)"
    "paged_translate dm a = Some p \<Longrightarrow> paged_translate dm' a = Some p"
    "i < unat n \<Longrightarrow> paged_translate dm' (va + of_nat i * cell_bytes) = Some (hplus b i)"
proof -
  have "pages_ok dm' \<and> paged_unmap va n dm' = Some dm \<and>
    (\<forall>a p. paged_translate dm' a = Some p \<longrightarrow> paged_translate dm a = Some p \<or> (\<exists>i < unat n. p = hplus b i)) \<and>
    (\<forall>a p. paged_translate dm a = Some p \<longrightarrow> paged_translate dm' a = Some p) \<and>
    (\<forall>i < unat n. paged_translate dm' (va + of_nat i * cell_bytes) = Some (hplus b i))"
  proof (cases "n = 0")
    case True
    then have "dm' = dm" using assms(3) by (simp add: paged_map_def)
    moreover have "pages_of 0 = 0" by (simp add: pages_of_def page_index_def page_size_def page_geometry)
    ultimately show ?thesis using True assms(1) by (simp add: paged_unmap_def)
  next
    case False
    note op = small_one_page [OF assms(2) False]
    show ?thesis
      using pages.map_valid [OF assms(1) op assms(3)] pages.unmap_map [OF assms(1) op assms(3)]
        pages.map_only [OF assms(1) op assms(3)] pages.map_keeps [OF assms(1) op assms(3)]
        pages.map_reaches [OF assms(1) op assms(3)] by blast
  qed
  then show "pages_ok dm'" "paged_unmap va n dm' = Some dm"
    "paged_translate dm' a = Some p \<Longrightarrow> paged_translate dm a = Some p \<or> (\<exists>i < unat n. p = hplus b i)"
    "paged_translate dm a = Some p \<Longrightarrow> paged_translate dm' a = Some p"
    "i < unat n \<Longrightarrow> paged_translate dm' (va + of_nat i * cell_bytes) = Some (hplus b i)" by blast+
qed

lemma map_any_defined:
  assumes "pages_ok dm" "small n"
  shows "paged_map b n dm \<noteq> None"
proof (cases "n = 0")
  case False
  then show ?thesis using pages.map_defined [OF assms(1) small_one_page [OF assms(2)]] by blast
qed (simp add: paged_map_def)

section \<open>A call of a context\<close>

text \<open>A context that is ready for requests, as the loader leaves it: its pages are numbered, and lead into buffers.\<close>

definition ready :: "'e system \<Rightarrow> 'e vm \<Rightarrow> bool" where
  "ready sys v \<longleftrightarrow> pages_ok (data_mem (machine_of v)) \<and> well_mapped (enter sys (machine_of v))"

text \<open>The natives that its module imports keep to the data the script has mapped.\<close>

definition imports_confined :: "'e vm \<Rightarrow> bool" where
  "imports_confined v \<longleftrightarrow> (\<forall>f \<in> set (natives (vm_module v)). \<forall>s0. confined_native s0 f)"

text \<open>What a call may change: the machine of its context, within \<open>confined\<close>, and the host accordingly.\<close>

definition called :: "nat \<Rightarrow> 'e vm \<Rightarrow> 'e system \<Rightarrow> 'e system \<Rightarrow> bool" where
  "called ctx v sys sys' \<longleftrightarrow> (\<exists>s. vms sys' = (vms sys)(ctx \<mapsto> v\<lparr>machine_of := s\<rparr>) \<and>
     confined (enter sys (machine_of v)) (enter sys' s) \<and> hooks_of sys' = hooks_of sys)"

lemma enter_simps [simp]:
  "data_mem (enter sys s) = data_mem s" "code_mem (enter sys s) = code_mem s" "DAT (enter sys s) = DAT s"
  "COD (enter sys s) = COD s" "STP (enter sys s) = STP s" "host (enter sys s) = memory sys" "STK (enter sys s) = STK s"
  by (simp_all add: enter_def)

lemma confined_enter_common: "confined (enter (sys\<lparr>common := w\<rparr>) s) = confined (enter sys s)"
  by (simp add: fun_eq_iff confined_def well_mapped_def mapped_def code_mapped_def host_read_def)

lemma confined_enter_common': "confined s0 (enter (sys\<lparr>common := w\<rparr>) s) = confined s0 (enter sys s)"
  by (simp add: confined_def host_read_def)

lemma enter_leave: "enter (leave ctx v s sys) s = s"
  by (simp add: enter_def leave_def)

lemma well_mapped_common: "well_mapped (enter (sys\<lparr>common := w\<rparr>) s) = well_mapped (enter sys s)"
  by (simp add: well_mapped_def mapped_def code_mapped_def host_read_def)

lemma called_leave: "confined (enter sys (machine_of v)) s \<Longrightarrow> called ctx v sys (leave ctx v s sys)"
  unfolding called_def by (rule exI [of _ s]) (simp add: enter_leave, simp add: leave_def)

lemma call_in_called:
  assumes "vms sys ctx = Some v" "well_mapped (enter sys (machine_of v))"
    and "imports_confined v"
  shows "call_in ctx target args sys \<noteq> Broken Bad_access \<and>
    (\<forall>ok out sys'. call_in ctx target args sys = Done (ok, out, sys') \<longrightarrow> called ctx v sys sys')"
proof (cases "amx_call (amx_callback None None (natives (vm_module v))) target args (enter sys (machine_of v))")
  case (Some out)
  have "safe (enter sys (machine_of v)) out"
    by (rule safe_amx_call [OF Some confined_amx_callback assms(2)]) (use assms(3) in \<open>auto simp: imports_confined_def\<close>)
  then show ?thesis
    by (cases out) (auto simp: call_in_def assms(1) Some called_leave)
qed (simp add: call_in_def assms(1))

lemma guarded_call_called:
  assumes "vms sys ctx = Some v" "well_mapped (enter sys (machine_of v))"
    and "imports_confined v"
  shows "guarded_call ctx target args sys \<noteq> Broken Bad_access \<and>
    (\<forall>st sys'. guarded_call ctx target args sys = Done (st, sys') \<longrightarrow> called ctx v sys sys')"
proof -
  obtain st w where "call_status STATUS_SUCCESS (map (\<lambda>(c, f). f ctx target) (s_precall (hooks_of sys))) (common sys) = (st, w)"
    by fastforce
  then have pre: "vm_callback_precall ctx target sys = (st, sys\<lparr>common := w\<rparr>)" by (simp add: vm_callback_precall_def)
  let ?sys1 = "sys\<lparr>common := w\<rparr>"
  have "called ctx v sys ?sys1"
    unfolding called_def confined_enter_common'
    by (rule exI [of _ "machine_of v"]) (use assms confined_refl in \<open>auto simp: fun_upd_idem\<close>)
  note refl = this
  have c: "call_in ctx target args ?sys1 \<noteq> Broken Bad_access \<and>
      (\<forall>ok out sys'. call_in ctx target args ?sys1 = Done (ok, out, sys') \<longrightarrow> called ctx v ?sys1 sys')"
    by (rule call_in_called) (use assms in \<open>simp_all add: well_mapped_common\<close>)
  show ?thesis
  proof (cases "NT_SUCCESS st")
    case True
    then show ?thesis using c
      by (cases "call_in ctx target args ?sys1")
        (auto simp: guarded_call_def pre called_def vm_callback_postcall_def confined_enter_common confined_enter_common')
  qed (use refl in \<open>simp add: guarded_call_def pre\<close>)
qed

section \<open>A request is isolated\<close>

definition with_data :: "paged \<Rightarrow> 'e vm \<Rightarrow> 'e vm" where
  "with_data dm v = v\<lparr>machine_of := (machine_of v)\<lparr>data_mem := dm\<rparr>\<rparr>"

lemma set_data_mem_at: "vms sys ctx = Some v \<Longrightarrow> set_data_mem ctx dm sys = sys\<lparr>vms := (vms sys)(ctx \<mapsto> with_data dm v)\<rparr>"
  by (simp add: set_data_mem_def with_data_def)

lemma unmap_in_at:
  "vms sys ctx = Some v \<Longrightarrow> paged_unmap va n (data_mem (machine_of v)) = Some dm \<Longrightarrow>
    unmap_in ctx va n sys = Some (sys\<lparr>vms := (vms sys)(ctx \<mapsto> with_data dm v)\<rparr>)"
  by (simp add: unmap_in_def set_data_mem_def with_data_def)

text \<open>The blocks of the host that a machine can reach.\<close>

definition reaches :: "'w amx \<Rightarrow> nat \<Rightarrow> bool" where
  "reaches s b \<longleftrightarrow> (\<exists>p. mapped s p \<and> block p = b)"

lemma confined_other_blocks:
  assumes "confined s0 s" "\<not> reaches s0 b"
  shows "host s b = host s0 b"
  using assms by (intro host_eq) (auto simp: confined_def reaches_def)

text \<open>What a request may have done to its context and to the host.\<close>

definition request_done :: "nat \<Rightarrow> 'e vm \<Rightarrow> nat \<Rightarrow> 'e system \<Rightarrow> 'e system \<Rightarrow> bool" where
  "request_done ctx v sb sys sys' \<longleftrightarrow>
     (\<exists>s. vms sys' = (vms sys)(ctx \<mapsto> v\<lparr>machine_of := s\<rparr>) \<and> ready sys' (v\<lparr>machine_of := s\<rparr>) \<and>
        data_mem s = data_mem (machine_of v) \<and> code_mem s = code_mem (machine_of v) \<and>
        DAT s = DAT (machine_of v) \<and> COD s = COD (machine_of v) \<and> STP s = STP (machine_of v)) \<and>
     (\<forall>b. b \<noteq> sb \<longrightarrow> \<not> reaches (machine_of v) b \<longrightarrow> memory sys' b = memory sys b)"

lemma request_done_refl:
  assumes "vms sys ctx = Some v" "ready sys v"
  shows "request_done ctx v sb sys sys"
  unfolding request_done_def using assms by (intro conjI exI [of _ "machine_of v"]) (auto simp: fun_upd_idem)

lemma lengths_well_mapped:
  assumes "\<forall>b. map_option length (host s b) = map_option length (host s0 b)" "data_mem s = data_mem s0"
    "code_mem s = code_mem s0" "well_mapped s0"
  shows "well_mapped s"
  using assms unfolding well_mapped_def mapped_def code_mapped_def host_read_None by simp

lemma execute_mapped_done:
  assumes v: "vms sys ctx = Some v" and r: "ready sys v" and ic: "imports_confined v" and sb: "memory sys sb = Some cells"
    and n: "small n1" "small n2" "unat n1 + 4 \<le> length cells \<or> n1 = 0" "unat n2 \<le> length cells"
  shows "execute_mapped ctx v fn sb n1 n2 sys \<noteq> Broken Bad_access \<and>
    (\<forall>st sys'. execute_mapped ctx v fn sb n1 n2 sys = Done (st, sys') \<longrightarrow> request_done ctx v sb sys sys')"
proof -
  let ?dm = "data_mem (machine_of v)" and ?b1 = "\<lparr>block = sb, cell_at = 4\<rparr>" and ?b2 = "\<lparr>block = sb, cell_at = 0\<rparr>"
  have ok: "pages_ok ?dm" and wm: "well_mapped (enter sys (machine_of v))" using r by (simp_all add: ready_def)
  note refl = request_done_refl [OF v r]
  obtain m1 where m1: "paged_map ?b1 n1 ?dm = Some m1" using map_any_defined [OF ok n(1)] by auto
  show ?thesis
  proof (cases m1)
    case None
    then show ?thesis using refl m1 by (simp add: execute_mapped_def)
  next
    case (Some vd1)
    obtain va1 dm1 where p1: "paged_map ?b1 n1 ?dm = Some (Some (va1, dm1))" using m1 Some by (cases vd1) auto
    note a1 = map_any [OF ok n(1) p1]
    obtain m2 where m2: "paged_map ?b2 n2 dm1 = Some m2" using map_any_defined [OF a1(1) n(2)] by auto
    show ?thesis
    proof (cases m2)
      case None
      have "with_data ?dm (with_data dm1 v) = v" by (simp add: with_data_def)
      moreover have "unmap_in ctx va1 n1 (set_data_mem ctx dm1 sys) =
          Some (sys\<lparr>vms := (vms sys)(ctx \<mapsto> with_data ?dm (with_data dm1 v))\<rparr>)"
        using unmap_in_at [of "set_data_mem ctx dm1 sys" ctx "with_data dm1 v" va1 n1 ?dm] a1(2)
        by (simp add: set_data_mem_at [OF v]) (simp add: with_data_def)
      moreover have "sys\<lparr>vms := (vms sys)(ctx \<mapsto> v)\<rparr> = sys" using v by (simp add: fun_upd_idem)
      ultimately show ?thesis using refl None m2 p1 by (simp add: execute_mapped_def finish_request_def)
    next
      case (Some vd2)
      obtain va2 dm2 where p2: "paged_map ?b2 n2 dm1 = Some (Some (va2, dm2))" using m2 Some by (cases vd2) auto
      note a2 = map_any [OF a1(1) n(2) p2]
      define v2 where "v2 = with_data dm2 v"
      define sys2 where "sys2 = sys\<lparr>vms := (vms sys)(ctx \<mapsto> v2)\<rparr>"
      have at2: "vms sys2 ctx = Some v2" by (simp add: sys2_def)
      have v2s: "data_mem (machine_of v2) = dm2" "code_mem (machine_of v2) = code_mem (machine_of v)"
          "vm_module v2 = vm_module v" "DAT (machine_of v2) = DAT (machine_of v)" "COD (machine_of v2) = COD (machine_of v)"
          "STP (machine_of v2) = STP (machine_of v)"
        by (simp_all add: v2_def with_data_def)
      have map2: "mapped (enter sys2 (machine_of v2)) p \<Longrightarrow>
          mapped (enter sys (machine_of v)) p \<or> (block p = sb \<and> cell_at p < length cells)" for p
        using a2(3) a1(3) n(3,4) by (fastforce simp: mapped_def v2s hplus_def)
      have "well_mapped (enter sys2 (machine_of v2))"
      proof -
        have "code_mapped (enter sys2 (machine_of v2)) p \<Longrightarrow> code_mapped (enter sys (machine_of v)) p" for p
          by (simp add: code_mapped_def v2s)
        then show ?thesis
          using wm map2 sb unfolding well_mapped_def by (fastforce simp: host_read_def sys2_def nth_def_def)
      qed
      then have g: "guarded_call ctx fn as sys2 \<noteq> Broken Bad_access \<and>
          (\<forall>st sys'. guarded_call ctx fn as sys2 = Done (st, sys') \<longrightarrow> called ctx v2 sys2 sys')" for as
        by (rule guarded_call_called [OF at2]) (use ic v2s in \<open>simp add: imports_confined_def\<close>)
      let ?as = "[va1 - DAT (machine_of v), n1, va2 - DAT (machine_of v), n2]"
      have e: "execute_mapped ctx v fn sb n1 n2 sys = (case guarded_call ctx fn ?as sys2 of
          Done (st, sys1) \<Rightarrow> finish_request (Option.bind (unmap_in ctx va2 n2 sys1) (unmap_in ctx va1 n1)) st | r \<Rightarrow> r)"
        using v by (simp add: execute_mapped_def p1 p2 Let_def set_data_mem_at v2_def [symmetric] sys2_def [symmetric])
      show ?thesis
      proof (cases "guarded_call ctx fn ?as sys2")
        case (Done res)
        obtain st sys3 where d: "guarded_call ctx fn ?as sys2 = Done (st, sys3)" using Done by (cases res) auto
        then have "called ctx v2 sys2 sys3" using g by blast
        then obtain s where s: "vms sys3 = (vms sys2)(ctx \<mapsto> v2\<lparr>machine_of := s\<rparr>)"
            "confined (enter sys2 (machine_of v2)) (enter sys3 s)" by (auto simp: called_def)
        have ds: "data_mem s = dm2" "code_mem s = code_mem (machine_of v)" "DAT s = DAT (machine_of v)"
            "COD s = COD (machine_of v)" "STP s = STP (machine_of v)"
          using s(2) by (simp_all add: confined_def v2s)
        define s' where "s' = s\<lparr>data_mem := ?dm\<rparr>"
        define sys4 where "sys4 = sys3\<lparr>vms := (vms sys)(ctx \<mapsto> v\<lparr>machine_of := s'\<rparr>)\<rparr>"
        have u1: "unmap_in ctx va2 n2 sys3 = Some (sys3\<lparr>vms := (vms sys3)(ctx \<mapsto> with_data dm1 (v2\<lparr>machine_of := s\<rparr>))\<rparr>)"
          by (rule unmap_in_at) (use s(1) ds(1) a2(2) in simp_all)
        have u2: "unmap_in ctx va1 n1 (sys3\<lparr>vms := (vms sys3)(ctx \<mapsto> with_data dm1 (v2\<lparr>machine_of := s\<rparr>))\<rparr>) = Some sys4"
          by (subst unmap_in_at [where dm = ?dm and v = "with_data dm1 (v2\<lparr>machine_of := s\<rparr>)"])
            (use a1(2) in \<open>simp_all add: with_data_def sys4_def s'_def s(1) sys2_def v2_def\<close>)
        have len: "\<forall>b. map_option length (memory sys3 b) = map_option length (memory sys b)"
          using s(2) by (simp add: confined_def sys2_def)
        have "well_mapped (enter sys4 s')"
          by (rule lengths_well_mapped [OF _ _ _ wm]) (use len in \<open>simp_all add: sys4_def s'_def ds\<close>)
        then have rd: "ready sys4 (v\<lparr>machine_of := s'\<rparr>)" using r by (simp add: ready_def s'_def)
        have "memory sys4 b = memory sys b" if "b \<noteq> sb" "\<not> reaches (machine_of v) b" for b
        proof -
          have "\<not> reaches (enter sys2 (machine_of v2)) b"
            using map2 that by (auto simp: reaches_def mapped_def)
          then show ?thesis using confined_other_blocks [OF s(2)] by (simp add: sys4_def sys2_def)
        qed
        then have "request_done ctx v sb sys sys4"
          unfolding request_done_def using rd
          by (intro conjI exI [of _ s']) (auto simp: sys4_def s'_def ds)
        then show ?thesis by (simp add: e d u1 u2 finish_request_def)
      qed (use g [of ?as] in \<open>simp_all add: e\<close>)
    qed
  qed
qed

text \<open>A context that was just loaded is ready.\<close>

lemma loaded_ready:
  assumes "load_module k p ctx sys file = Some (Inr (m, s))"
  shows "ready (leave ctx \<lparr>vm_module = m, vm_block = b, machine_of = s\<rparr> s sys) \<lparr>vm_module = m, vm_block = b, machine_of = s\<rparr>"
proof -
  obtain pubs where i: "init (NATIVES k ctx pubs) (new_block p) (memory sys) (common sys) file = Some (Inr (m, s))"
    using assms unfolding load_module_def Let_def
    by (cases "init (NATIVES k ctx []) (new_block p) (memory sys) (common sys) file") (auto split: sum.splits prod.splits)
  from init_cases [OF i] obtain b' where b: "place b' (memory sys) (common sys) m = Some (Inr s)" "module_ok m" by metis
  have "unat (of_nat (data_alloc m) :: u64) = data_alloc m" using b(2) by (intro unat_of_nat_small) (simp add: module_ok_def)
  then have "small (of_nat (data_alloc m))" using b(2) by (simp add: small_def module_ok_def)
  then have "pages_ok (data_mem s)" using map_any(1) [OF no_pages_ok _ place_cases(3) [OF b(1)]] by blast
  then show ?thesis using loaded_well_mapped [OF b] by (simp add: ready_def enter_leave)
qed

text \<open>C1: if the native functions that its module imports keep to the data the script has mapped, a request to execute a
  function reaches the data of its own context and its own buffer only: no byte outside a buffer is accessed, all
  other host memory and all other contexts are as before, and the mappings and segments of the context are
  exactly what they were, so that it is ready for the next request. A context that was just loaded is ready.\<close>

theorem request_isolated:
  assumes "vms sys ctx = Some v" "ready sys v" "memory sys sb = Some cells"
    and "\<forall>f \<in> set (natives (vm_module v)). \<forall>s0. confined_native s0 f" "in_size \<le> 8 * length cells"
    and "out_size \<le> 8 * length cells" "length cells < 2 ^ 32"
  shows "vm_execute_function (Some ctx) sb in_size out_size sys \<noteq> Broken Bad_access \<and>
    (\<forall>st sys'. vm_execute_function (Some ctx) sb in_size out_size sys = Done (st, sys') \<longrightarrow> request_done ctx v sb sys sys')"
proof (cases "in_size < 32")
  case False
  define n1 n2 where "n1 = (of_nat (in_size div 8 - 4) :: u64)" and "n2 = (of_nat (out_size div 8) :: u64)"
  have "in_size div 8 \<le> length cells" "out_size div 8 \<le> length cells" "4 \<le> in_size div 8"
    using assms(5,6) False by simp_all
  moreover have "unat n1 = in_size div 8 - 4" "unat n2 = out_size div 8"
    unfolding n1_def n2_def using assms(5-7) by (intro unat_of_nat_small; simp)+
  ultimately have "execute_mapped ctx v fn sb n1 n2 sys \<noteq> Broken Bad_access \<and>
    (\<forall>st sys'. execute_mapped ctx v fn sb n1 n2 sys = Done (st, sys') \<longrightarrow> request_done ctx v sb sys sys')" for fn
    using assms(7) by (intro execute_mapped_done [OF assms(1,2) _ assms(3)]) (simp_all add: small_def imports_confined_def assms(4))
  then show ?thesis
    unfolding vm_execute_function_def n1_def [symmetric] n2_def [symmetric]
    using request_done_refl [OF assms(1,2)] by (simp add: assms(1,3) Let_def)
qed (use request_done_refl [OF assms(1,2)] in \<open>simp add: vm_execute_function_def\<close>)

text \<open>The input and the output that a function gets are the same host cells: the input starts at the fifth cell of
  the buffer, the output at the first, so that output cell \<open>i + 4\<close> is input cell \<open>i\<close>.\<close>

theorem request_buffer_aliases:
  assumes "pages_ok dm" "small n1" "small n2"
    and "paged_map \<lparr>block = sb, cell_at = 4\<rparr> n1 dm = Some (Some (in_va, dm1))"
    and "paged_map \<lparr>block = sb, cell_at = 0\<rparr> n2 dm1 = Some (Some (out_va, dm2))"
    and "i < unat n1" "i + 4 < unat n2"
  shows "paged_translate dm2 (in_va + of_nat i * cell_bytes) = Some \<lparr>block = sb, cell_at = 4 + i\<rparr> \<and>
    paged_translate dm2 (out_va + of_nat (i + 4) * cell_bytes) = Some \<lparr>block = sb, cell_at = 4 + i\<rparr>"
proof -
  note m1 = map_any [OF assms(1,2,4)]
  note m2 = map_any [OF m1(1) assms(3,5)]
  show ?thesis using m2(4) [OF m1(5) [OF assms(6)]] m2(5) [OF assms(7)] by (simp add: hplus_def add.commute)
qed

section \<open>Loading\<close>

lemma try_keys_success:
  "NT_SUCCESS (try_keys verify st keys) \<Longrightarrow> keys \<noteq> [] \<Longrightarrow> \<exists>key \<in> set keys. NT_SUCCESS (verify key)"
proof (induction keys arbitrary: st)
  case (Cons key keys)
  then show ?case by (cases "keys = []") (fastforce simp: Let_def split: if_splits)+
qed simp

lemma vm_load_binary_internal_signed:
  assumes "vm_load_binary_internal k c p False keys buffer sys = Done (st, Some ctx, sys')" "keys \<noteq> []"
  shows "\<exists>key \<in> set keys. let sig_len = unat (le_word (take 4 buffer) :: u32); mem = drop (4 + sig_len) buffer in
    4 + sig_len \<le> length buffer \<and> NT_SUCCESS (fst (calculate_sha256 c mem)) \<and>
    NT_SUCCESS (verify_sig c (snd (calculate_sha256 c mem)) (take sig_len (drop 4 buffer)) key)"
proof -
  define sig_len where "sig_len = unat (le_word (take 4 buffer) :: u32)"
  define mem where "mem = drop (4 + sig_len) buffer"
  have "4 \<le> length buffer" "sig_len \<le> length buffer - 4" "NT_SUCCESS (check_signature c keys mem (take sig_len (drop 4 buffer)))"
    using assms(1) by (auto simp: vm_load_binary_internal_def Let_def sig_len_def mem_def split: if_splits)
  then show ?thesis
    using try_keys_success [OF _ assms(2)]
    by (auto simp: check_signature_def Let_def sig_len_def [symmetric] mem_def [symmetric] split: prod.splits if_splits)
qed

lemma call_in_vms: "call_in ctx target args sys = Done (ok, out, sys') \<Longrightarrow> c \<noteq> ctx \<Longrightarrow> vms sys' c = vms sys c"
  by (auto simp: call_in_def leave_def split: option.splits outcome.splits)

lemma guarded_call_vms: "guarded_call ctx target args sys = Done (st, sys') \<Longrightarrow> c \<noteq> ctx \<Longrightarrow> vms sys' c = vms sys c"
  by (auto simp: guarded_call_def vm_callback_precall_def vm_callback_postcall_def call_in_vms
      split: prod.splits if_splits finish.splits)

lemma vm_callback_created_common: "\<exists>st w. vm_callback_created ctx sys = (st, sys\<lparr>common := w\<rparr>)"
  unfolding vm_callback_created_def
  by (cases "call_status STATUS_SUCCESS (map (\<lambda>(c, f). f ctx) (s_created (hooks_of sys))) (common sys)") auto

lemma vm_load_binary_internal_cases:
  assumes "vm_load_binary_internal k c p unrestricted keys buffer sys = Done (st, co, sys1)"
  shows "(co = None \<and> sys1 = sys) \<or> (\<exists>ctx v s. co = Some ctx \<and> new_context p = Some ctx \<and> sys1 = leave ctx v s sys)"
proof (cases "\<exists>st'. Done (st, co, sys1) = Done (st', None, sys)")
  case False
  then obtain ctx where "new_context p = Some ctx"
    using assms by (auto simp: vm_load_binary_internal_def Let_def split: if_splits option.splits)
  moreover obtain m s where "load_module k p ctx sys (drop (4 + unat (le_word (take 4 buffer) :: u32)) buffer) = Some (Inr (m, s))"
    using assms False calculation
    by (auto simp: vm_load_binary_internal_def Let_def split: if_splits option.splits sum.splits)
  ultimately show ?thesis using assms False
    by (auto simp: vm_load_binary_internal_def Let_def split: if_splits)
qed auto

text \<open>The module of a context, which calls into it never change.\<close>

definition module_in :: "'e system \<Rightarrow> nat \<Rightarrow> 'e shared module option" where
  "module_in sys ctx = map_option vm_module (vms sys ctx)"

lemma call_in_module: "call_in ctx target args sys = Done (ok, out, sys') \<Longrightarrow> module_in sys' c = module_in sys c"
  by (auto simp: call_in_def leave_def module_in_def split: option.splits outcome.splits)

lemma guarded_call_module: "guarded_call ctx target args sys = Done (st, sys') \<Longrightarrow> module_in sys' c = module_in sys c"
  by (auto simp: guarded_call_def vm_callback_precall_def vm_callback_postcall_def module_in_def
      dest: call_in_module [of _ _ _ _ _ _ _ c] split: prod.splits if_splits finish.splits)

lemma vm_load_binary_internal_loads:
  assumes "vm_load_binary_internal k c p unrestricted keys buffer sys = Done (st, Some ctx, sys1)"
  shows "\<exists>m s. load_module k p ctx sys (drop (4 + unat (le_word (take 4 buffer) :: u32)) buffer) = Some (Inr (m, s)) \<and>
    module_in sys1 ctx = Some m"
  using assms
  by (auto simp: vm_load_binary_internal_def Let_def leave_def module_in_def split: if_splits option.splits sum.splits)

lemma vm_load_binary_done:
  assumes "vm_load_binary k c p unrestricted keys buffer sys = Done (st, Some ctx, sys')"
  shows "\<exists>st1 sys1. vm_load_binary_internal k c p unrestricted keys buffer sys = Done (st1, Some ctx, sys1) \<and>
    module_in sys' ctx = module_in sys1 ctx"
proof -
  obtain st1 ctx1 sys1 where i: "vm_load_binary_internal k c p unrestricted keys buffer sys = Done (st1, Some ctx1, sys1)"
    using assms by (auto simp: vm_load_binary_def split: finish.splits prod.splits option.splits)
  obtain stc w where w: "vm_callback_created ctx1 sys1 = (stc, sys1\<lparr>common := w\<rparr>)"
    using vm_callback_created_common by blast
  define main where "main = (case vms (sys1\<lparr>common := w\<rparr>) ctx1 of None \<Rightarrow> 0 | Some v \<Rightarrow> get_main (vm_module v))"
  define r where "r = (if NT_SUCCESS stc \<and> main \<noteq> 0 then guarded_call ctx1 main [] (sys1\<lparr>common := w\<rparr>)
    else Done (stc, sys1\<lparr>common := w\<rparr>))"
  have e: "(case r of Broken u \<Rightarrow> Broken u | Hangs \<Rightarrow> Hangs
       | Done (st2, sys3) \<Rightarrow> if \<not> NT_SUCCESS st2 then Done (st2, None, vm_destroy_internal ctx1 (vm_callback_destroyed ctx1 sys3))
           else Done (st2, Some ctx1, sys3)) = Done (st, Some ctx, sys')"
    using assms unfolding vm_load_binary_def i by (simp only: w prod.case finish.case option.case Let_def r_def main_def)
  then obtain st2 where "r = Done (st2, sys')" "ctx1 = ctx" by (auto split: finish.splits if_splits)
  moreover have "module_in (sys1\<lparr>common := w\<rparr>) ctx = module_in sys1 ctx" by (simp add: module_in_def)
  ultimately show ?thesis using i guarded_call_module [of ctx1 main "[]" "sys1\<lparr>common := w\<rparr>" st2 sys' ctx]
    by (auto simp: r_def split: if_splits)
qed

text \<open>C28: with at least one trusted key, the driver loads a module only when one of the keys verifies the signature that
  precedes it over the hash of the bytes behind that signature, and what the new context holds is the module that
  the loader makes of exactly these bytes.\<close>

theorem only_signed_modules:
  assumes "vm_load_binary k c p False keys buffer sys = Done (st, Some ctx, sys')" "keys \<noteq> []"
  shows "\<exists>key \<in> set keys. \<exists>m s v. let sig_len = unat (le_word (take 4 buffer) :: u32); mem = drop (4 + sig_len) buffer in
    4 + sig_len \<le> length buffer \<and> NT_SUCCESS (fst (calculate_sha256 c mem)) \<and>
    NT_SUCCESS (verify_sig c (snd (calculate_sha256 c mem)) (take sig_len (drop 4 buffer)) key) \<and>
    load_module k p ctx sys mem = Some (Inr (m, s)) \<and> vms sys' ctx = Some v \<and> vm_module v = m"
proof -
  obtain st1 sys1 where i: "vm_load_binary_internal k c p False keys buffer sys = Done (st1, Some ctx, sys1)"
      "module_in sys' ctx = module_in sys1 ctx"
    using vm_load_binary_done [OF assms(1)] by blast
  note s = vm_load_binary_internal_signed [OF i(1) assms(2)] and l = vm_load_binary_internal_loads [OF i(1)]
  then obtain m s where m: "load_module k p ctx sys (drop (4 + unat (le_word (take 4 buffer) :: u32)) buffer) = Some (Inr (m, s))"
      "module_in sys1 ctx = Some m" by blast
  then obtain v where "vms sys' ctx = Some v" "vm_module v = m" using i(2) by (auto simp: module_in_def)
  with s m(1) show ?thesis unfolding Let_def by blast
qed

text \<open>The last part of a load: a status, then either the context or nothing.\<close>

lemma vm_load_binary_failed:
  assumes "vm_load_binary k c p unrestricted keys buffer sys = Done (st, None, sys')"
    and "vm_load_binary_internal k c p unrestricted keys buffer sys = Done (st1, Some ctx, sys1)"
  shows "\<exists>sys3. sys' = vm_destroy_internal ctx (vm_callback_destroyed ctx sys3) \<and> (\<forall>c. c \<noteq> ctx \<longrightarrow> vms sys3 c = vms sys1 c)"
proof -
  obtain stc w where w: "vm_callback_created ctx sys1 = (stc, sys1\<lparr>common := w\<rparr>)"
    using vm_callback_created_common by blast
  define main where "main = (case vms (sys1\<lparr>common := w\<rparr>) ctx of None \<Rightarrow> 0 | Some v \<Rightarrow> get_main (vm_module v))"
  define r where "r = (if NT_SUCCESS stc \<and> main \<noteq> 0 then guarded_call ctx main [] (sys1\<lparr>common := w\<rparr>)
    else Done (stc, sys1\<lparr>common := w\<rparr>))"
  have e: "(case r of Broken u \<Rightarrow> Broken u | Hangs \<Rightarrow> Hangs
       | Done (st2, sys3) \<Rightarrow> if \<not> NT_SUCCESS st2 then Done (st2, None, vm_destroy_internal ctx (vm_callback_destroyed ctx sys3))
           else Done (st2, Some ctx, sys3)) = Done (st, None, sys')"
    using assms(1) unfolding vm_load_binary_def assms(2) by (simp only: w prod.case finish.case option.case Let_def r_def main_def)
  then obtain st2 sys3 where r: "r = Done (st2, sys3)" "sys' = vm_destroy_internal ctx (vm_callback_destroyed ctx sys3)"
    by (auto split: finish.splits if_splits)
  have "vms sys3 c = vms sys1 c" if "c \<noteq> ctx" for c
    using r(1) guarded_call_vms [OF _ that] by (fastforce simp: r_def split: if_splits)
  with r(2) show ?thesis by blast
qed

text \<open>A load that fails leaves no context behind: neither its own, nor a change in another.\<close>

theorem failed_load_leaves_nothing:
  assumes "vm_load_binary k c p unrestricted keys buffer sys = Done (st, None, sys')" "new_context p = Some ctx" "vms sys ctx = None"
  shows "vms sys' = vms sys"
proof (cases "vm_load_binary_internal k c p unrestricted keys buffer sys")
  case (Done r)
  obtain st1 co sys1 where i: "vm_load_binary_internal k c p unrestricted keys buffer sys = Done (st1, co, sys1)"
    using Done by (cases r) auto
  show ?thesis
  proof (cases co)
    case None
    then show ?thesis using assms(1) i vm_load_binary_internal_cases [OF i] by (auto simp: vm_load_binary_def)
  next
    case (Some ctx1)
    then have c: "ctx1 = ctx" "\<And>c. c \<noteq> ctx \<Longrightarrow> vms sys1 c = vms sys c"
      using vm_load_binary_internal_cases [OF i] assms(2) by (auto simp: leave_def)
    obtain sys3 where s3: "sys' = vm_destroy_internal ctx (vm_callback_destroyed ctx sys3)"
        "\<forall>c. c \<noteq> ctx \<longrightarrow> vms sys3 c = vms sys1 c"
      using vm_load_binary_failed [OF assms(1), of st1 ctx sys1] i Some c(1) by auto
    show ?thesis
    proof
      fix x show "vms sys' x = vms sys x"
        using s3 c(2) assms(3)
        by (cases "x = ctx") (auto simp: vm_destroy_internal_def vm_callback_destroyed_def split: option.split)
    qed
  qed
qed (use assms(1) in \<open>simp_all add: vm_load_binary_def\<close>)

section \<open>Where the code falls short\<close>

text \<open>Unloading a context does not take back its entries in the table of callbacks: the kernel function of such an
  entry then enters the freed context.\<close>

theorem callbacks_outlive_context:
  assumes "vm_destroy (Some ctx) sys = Done (st, sys')" "vms sys ctx = Some v" "get_public unload_name (vm_module v) = 0"
    and "s_destroyed (hooks_of sys) = []" "owner (cb_table (common sys) ! i) = Some ctx"
  shows "to_amx_callback_dispatch i args sys' = Broken Bad_access"
proof -
  have "sys' = vm_destroy_internal ctx sys"
    using assms(1-4) by (simp add: vm_destroy_def Let_def vm_callback_destroyed_def call_void_def)
  then show ?thesis using assms(2,5) by (simp add: to_amx_callback_dispatch_def vm_destroy_internal_def Let_def)
qed

lemma push_STK: "push v s = Ok s' \<Longrightarrow> STK s' = STK s - cell_bytes"
  by (auto simp: push_def Let_def assign_def host_write_def split: option.splits Option.bind_splits)

lemma push_all_STK: "push_all vs s = Ok s' \<Longrightarrow> STK s' = STK s - of_nat (length vs) * cell_bytes"
  by (induction vs arbitrary: s) (fastforce simp: algebra_simps dest: push_STK split: outcome.splits)+

text \<open>A call that ends in an error does not give its stack back: after a function that halts, the machine of the
  context has lost the cells of the arguments, of their number and of the return address for good.\<close>

theorem failed_call_keeps_stack:
  assumes "push_all (rev as) s = Ok s1" "push (of_nat (length as) * cell_bytes) s1 = Ok s2" "push 0 s2 = Ok s3"
    and "code_cell s3 target 67" "code_cell s3 (target + cell_bytes) x" "target \<noteq> 0"
  shows "\<exists>s'. amx_call (amx_callback None None ns) target as s = Some (Err Halt s') \<and>
    STK s' = STK s - (of_nat (length as) + 2) * cell_bytes"
proof -
  define r where "r = s3\<lparr>CIP := target\<rparr>"
  have fc: "fire_callback (amx_callback None None ns) cbid_single_step r = Ok r"
    by (simp add: fire_callback_def amx_callback_def restore_registers_def)
  have "operand_at r 67" "operand_at (r\<lparr>CIP := target + cell_bytes\<rparr>) x"
    using assms(4,5) by (simp_all add: r_def operand_at_def code_cell_def)
  then have "step (amx_callback None None ns) r = Err Halt (r\<lparr>CIP := target + cell_bytes + cell_bytes, PRI := x\<rparr>)"
    by (simp add: step_def OPERAND_at r_def decode_def opcodes_def op_halt_def)
  then have "amx_call (amx_callback None None ns) target as s = Some (Err Halt (r\<lparr>CIP := target + cell_bytes + cell_bytes, PRI := x\<rparr>))"
    using assms(1-3,6) fc by (simp add: amx_call_def call_raw_def r_def [symmetric]) (subst run.simps, simp add: r_def)
  moreover have "STK s3 = STK s - (of_nat (length as) + 2) * cell_bytes"
    by (simp add: push_all_STK [OF assms(1)] push_STK [OF assms(2)] push_STK [OF assms(3)] algebra_simps)
  ultimately show ?thesis by (simp add: r_def)
qed

section \<open>A load\<close>

text \<open>The sample module, which imports \<open>get_arch\<close> and \<open>get_version\<close>, loaded into a driver without contexts.\<close>

lemma native_found:
  "map_of (NATIVES k ctx pubs) get_version_name = Some (native_callback_wrapper [] (bodies k ''get_version''))"
  "map_of (NATIVES k ctx pubs) get_arch_name = Some (native_callback_wrapper [] (bodies k ''get_arch''))"
  by (simp_all add: NATIVES_def plain_natives_def native_names_def signatures_def cname_def get_arch_name_def get_version_name_def)

definition sample_vm_module :: "'w native \<Rightarrow> 'w native \<Rightarrow> 'w module" where
  "sample_vm_module f g = \<lparr>code_cells = sample_code, data_cells = [5], data_alloc = 33, publics = [(ioctl_x_name, 16)],
     pubvars = [], natives = [f, g], main_cip = 0\<rparr>"

lemma sample_parsed_with:
  assumes "map_of table get_arch_name = Some f" "map_of table get_version_name = Some g"
  shows "parse_module table sample_file = Some (Inr (sample_vm_module f g))"
proof -
  have "read_table sample_file 68 84 8 (native_entry table sample_file) = Some (Inr [f, g])"
    by (simp add: read_table_def valarray_def native_entry_def upt_rec sample_names assms)
  then show ?thesis
    by (simp add: parse_module_def sample_header_read check_header_def expected_magic_def amx_file_version_def flag_overlay_def
      flag_sleep_def count_valarray_def valarray_def parse_tables_def sample_tables_read bind_load_def Let_def sample_cells
      sample_vm_module_def)
qed

lemma sample_placed_with: "\<exists>s. place b h w (sample_vm_module f g) = Some (Inr s)"
  by (simp add: place_def sample_vm_module_def data_start_def alloc_size_def names_end_def align_up_def sample_code_def
     string_bytes_def ioctl_x_name_def contiguous_map_def no_buffer_def Let_def map_first_page one_page_def)

definition sample_pool :: pool where
  "sample_pool = \<lparr>copy_allocated = True, new_context = Some 0, new_block = \<lambda>n. Some 0\<rparr>"

definition no_hooks :: "unit shared hooks" where
  "no_hooks = \<lparr>s_created = [], s_precall = [], s_postcall = [], s_destroyed = []\<rparr>"

definition no_system :: "unit system" where
  "no_system = \<lparr>hooks_of = no_hooks, vms = Map.empty, memory = Map.empty, common = no_callbacks\<rparr>"

text \<open>A file with an empty signature, for a check that accepts it.\<close>

definition accepting :: crypto where
  "accepting = \<lparr>calculate_sha256 = \<lambda>m. (STATUS_SUCCESS, []), verify_sig = \<lambda>h s k. STATUS_SUCCESS\<rparr>"

definition signed_sample :: "byte list" where "signed_sample = [0, 0, 0, 0] @ sample_file"

text \<open>The context that the loader makes of it.\<close>

definition demo_natives :: "unit shared native list" where
  "demo_natives = [native_callback_wrapper [] (bodies quiet_kernel ''get_arch''), native_callback_wrapper [] (bodies quiet_kernel ''get_version'')]"

definition demo_vm :: "unit vm" where
  "demo_vm = \<lparr>vm_module = \<lparr>code_cells = sample_code, data_cells = [5], data_alloc = 33, publics = [(ioctl_x_name, 16)],
       pubvars = [], natives = demo_natives, main_cip = 0\<rparr>,
     vm_block = 0,
     machine_of = \<lparr>PRI = 0, ALT = 0, FRM = 0, CIP = 0, DAT = 0, COD = 0, STP = 256, STK = 256, HEA = 8,
       code_mem = \<lparr>cbuf = Some \<lparr>block = 0, cell_at = 0\<rparr>, csize = 96\<rparr>,
       data_mem = no_pages[0 := \<lparr>buf = Some \<lparr>block = 0, cell_at = 12\<rparr>, msize = 264\<rparr>],
       host = [0 \<mapsto> sample_code @ 5 # replicate 32 0], world = no_callbacks\<rparr>\<rparr>"

lemma demo_module: "vm_module demo_vm = sample_vm_module (demo_natives ! 0) (demo_natives ! 1)"
  by (simp add: demo_vm_def sample_vm_module_def demo_natives_def)

lemma sample_init:
  assumes "place 0 (memory sys) (common sys) (vm_module demo_vm) = Some (Inr s)"
  shows "load_module quiet_kernel sample_pool 0 sys sample_file = Some (Inr (vm_module demo_vm, s))"
proof -
  have "parse_module (NATIVES quiet_kernel 0 pubs) sample_file = Some (Inr (vm_module demo_vm))" for pubs
    using sample_parsed_with [OF native_found(2,1) [of quiet_kernel 0 pubs]] by (simp add: demo_module demo_natives_def)
  then have "init (NATIVES quiet_kernel 0 pubs) (new_block sample_pool) (memory sys) (common sys) sample_file =
      Some (Inr (vm_module demo_vm, s))" for pubs
    using assms by (simp add: init_def bind_load_def sample_pool_def)
  then show ?thesis by (simp add: load_module_def)
qed

lemma sample_load: "\<exists>s. load_module quiet_kernel sample_pool 0 sys sample_file = Some (Inr (vm_module demo_vm, s))"
  using sample_placed_with [of 0 "memory sys" "common sys"] sample_init [of sys] unfolding demo_module by blast

lemma sample_placed_in: "place 0 (memory no_system) (common no_system) (vm_module demo_vm) = Some (Inr (machine_of demo_vm))"
  by (simp add: place_def no_system_def demo_vm_def demo_natives_def data_start_def alloc_size_def names_end_def align_up_def
     sample_code_def string_bytes_def ioctl_x_name_def contiguous_map_def no_buffer_def Let_def map_first_page one_page_def
     cell_bytes_def image_def)

lemma le_word_sample: "(le_word (take 4 signed_sample) :: u32) = 0"
  by (simp add: signed_sample_def le_word_def)

lemma sample_verified:
  assumes "load_module quiet_kernel sample_pool 0 sys sample_file = Some (Inr (m, s))"
  shows "vm_load_binary_internal quiet_kernel accepting sample_pool False [[1]] signed_sample sys =
    Done (STATUS_SUCCESS, Some 0, leave 0 \<lparr>vm_module = m, vm_block = 0, machine_of = s\<rparr> s sys)"
  using assms le_word_sample
  by (simp add: vm_load_binary_internal_def signed_sample_def check_signature_def accepting_def sample_pool_def)

lemma sample_load_internal:
  "\<exists>v s. vm_load_binary_internal quiet_kernel accepting sample_pool False [[1]] signed_sample sys =
     Done (STATUS_SUCCESS, Some 0, leave 0 v s sys) \<and> get_main (vm_module v) = 0"
proof -
  obtain s where "load_module quiet_kernel sample_pool 0 sys sample_file = Some (Inr (vm_module demo_vm, s))"
    using sample_load by blast
  from sample_verified [OF this] show ?thesis by (auto simp: demo_vm_def get_main_def)
qed

text \<open>The driver after the load.\<close>

definition loaded_system :: "unit system" where
  "loaded_system = leave 0 demo_vm (machine_of demo_vm) no_system"

lemma demo_loaded:
  "vm_load_binary quiet_kernel accepting sample_pool False [[1]] signed_sample no_system = Done (STATUS_SUCCESS, Some 0, loaded_system)"
proof -
  have "\<lparr>vm_module = vm_module demo_vm, vm_block = 0, machine_of = machine_of demo_vm\<rparr> = demo_vm" by (simp add: demo_vm_def)
  then have "vm_load_binary_internal quiet_kernel accepting sample_pool False [[1]] signed_sample no_system =
      Done (STATUS_SUCCESS, Some 0, loaded_system)"
    using sample_verified [OF sample_init [OF sample_placed_in]] by (simp add: loaded_system_def)
  moreover have "get_main (vm_module demo_vm) = 0" "vms loaded_system 0 = Some demo_vm" "hooks_of loaded_system = no_hooks"
    by (simp_all add: demo_vm_def get_main_def loaded_system_def leave_def no_system_def)
  ultimately show ?thesis by (simp add: vm_load_binary_def vm_callback_created_def no_hooks_def)
qed

section \<open>A request\<close>

text \<open>The context with the sample module, and a buffer of 64 bytes for a request with 40 bytes of input: the name
  \<open>ioctl_x\<close>, one cell \<open>x\<close>, and what the kernel left in the rest.\<close>

definition demo_system :: "cell list \<Rightarrow> unit system" where
  "demo_system cells = \<lparr>hooks_of = no_hooks, vms = [0 \<mapsto> demo_vm],
     memory = [0 \<mapsto> sample_code @ 5 # replicate 32 0, 9 \<mapsto> 0x00785F6C74636F69 # 0 # 0 # 0 # cells], common = no_callbacks\<rparr>"

lemma demo_after_load: "demo_system cells = loaded_system\<lparr>memory := (memory loaded_system)(9 \<mapsto> 0x00785F6C74636F69 # 0 # 0 # 0 # cells)\<rparr>"
  by (simp add: demo_system_def loaded_system_def leave_def no_system_def demo_vm_def)

lemma demo_name: "buffer_name (0x00785F6C74636F69 # 0 # 0 # 0 # cells) = ioctl_x_name @ replicate 25 0"
proof -
  have "concat (map (le_bytes 8) [0x00785F6C74636F69 :: cell, 0, 0, 0]) = ioctl_x_name @ replicate 25 0" by code_simp
  then show ?thesis by (simp add: buffer_name_def)
qed

lemma demo_name_c: "c_str (ioctl_x_name @ replicate 25 0) = ioctl_x_name" "0 \<in> set (ioctl_x_name @ replicate 25 0)"
  "take 6 ioctl_x_name = ioctl_prefix"
  by (code_simp, simp, code_simp)

lemma cell_count: "one_page 1" "one_page 8" by (simp_all add: one_page_def)

lemma demo_maps:
  "paged_map p 1 (no_pages[0 := \<lparr>buf = Some q, msize = k\<rparr>]) =
     Some (Some (2 ^ 59, no_pages[0 := \<lparr>buf = Some q, msize = k\<rparr>, 1 := \<lparr>buf = Some p, msize = 8\<rparr>]))"
  using map_second_page [OF cell_count(1), of p q k] by (simp add: cell_bytes_def)

lemma map_third_page:
  assumes "one_page n"
  shows "paged_map b n (no_pages[0 := \<lparr>buf = Some b0, msize = k\<rparr>, 1 := \<lparr>buf = Some b1, msize = k1\<rparr>]) =
    Some (Some (2 * 2 ^ 59, no_pages[0 := \<lparr>buf = Some b0, msize = k\<rparr>, 1 := \<lparr>buf = Some b1, msize = k1\<rparr>,
      2 := \<lparr>buf = Some b, msize = n * cell_bytes\<rparr>]))"
  using assms
  by (simp add: paged_map_def pages_of_one_page Let_def no_pages_Cons no_mapping_def fill_page_def make_va_def
      one_page_def word_gt_0 page_geometry numeral_2_eq_2)

definition demo_pages :: paged where
  "demo_pages = no_pages[0 := \<lparr>buf = Some \<lparr>block = 0, cell_at = 12\<rparr>, msize = 264\<rparr>]"

definition demo_mapped :: paged where
  "demo_mapped = demo_pages[1 := \<lparr>buf = Some \<lparr>block = 9, cell_at = 4\<rparr>, msize = 8\<rparr>, 2 := \<lparr>buf = Some \<lparr>block = 9, cell_at = 0\<rparr>, msize = 64\<rparr>]"

lemma demo_pages_ok: "pages_ok demo_pages"
  by (simp add: pages_ok_def demo_pages_def no_pages_Cons page_geometry no_mapping_def)

lemma demo_map1: "paged_map \<lparr>block = 9, cell_at = 4\<rparr> 1 demo_pages =
    Some (Some (2 ^ 59, demo_pages[1 := \<lparr>buf = Some \<lparr>block = 9, cell_at = 4\<rparr>, msize = 8\<rparr>]))"
  unfolding demo_pages_def by (rule demo_maps)

lemma demo_map2: "paged_map \<lparr>block = 9, cell_at = 0\<rparr> 8 (demo_pages[1 := \<lparr>buf = Some \<lparr>block = 9, cell_at = 4\<rparr>, msize = 8\<rparr>]) =
    Some (Some (2 * 2 ^ 59, demo_mapped))"
  unfolding demo_pages_def demo_mapped_def using map_third_page [OF cell_count(2)] by (simp add: cell_bytes_def)

lemma small_counts: "small 1" "small 8" by (simp_all add: small_def)

lemma demo_unmap: "paged_unmap (2 * 2 ^ 59) 8 demo_mapped = Some (demo_pages[1 := \<lparr>buf = Some \<lparr>block = 9, cell_at = 4\<rparr>, msize = 8\<rparr>])"
  "paged_unmap (2 ^ 59) 1 (demo_pages[1 := \<lparr>buf = Some \<lparr>block = 9, cell_at = 4\<rparr>, msize = 8\<rparr>]) = Some demo_pages"
  using map_any(2) [OF map_any(1) [OF demo_pages_ok small_counts(1) demo_map1] small_counts(2) demo_map2]
    map_any(2) [OF demo_pages_ok small_counts(1) demo_map1] by blast+

definition demo_called :: "cell \<Rightarrow> cell \<Rightarrow> cell \<Rightarrow> cell \<Rightarrow> unit shared amx" where
  "demo_called x a b c = enter (demo_system [x, a, b, c]) ((machine_of demo_vm)\<lparr>data_mem := demo_mapped\<rparr>)"

lemma demo_call:
  "\<exists>s. amx_call (amx_callback None None demo_natives) 16 [2 ^ 59, 1, 2 * 2 ^ 59, 8] (demo_called x a b c) = Some (Ok s) \<and> PRI s = 0 \<and>
     host s 9 = Some [x, 0, 0, 0, x, a, b, c] \<and> data_mem s = demo_mapped"
  by (simp add: machine_simps demo_called_def demo_mapped_def demo_pages_def enter_def demo_system_def demo_vm_def sample_code_def
     run.simps amx_callback_def cbid_single_step_def op_proc_def op_load_s_pri_def op_load_i_def op_load_s_alt_def op_stor_i_def
     op_const_pri_def op_retn_def)

lemma demo_simps: "memory (demo_system cells) 9 = Some (0x00785F6C74636F69 # 0 # 0 # 0 # cells)" "vms (demo_system cells) 0 = Some demo_vm"
  "hooks_of (demo_system cells) = no_hooks" "get_public ioctl_x_name (vm_module demo_vm) = 16" "data_mem (machine_of demo_vm) = demo_pages"
  "DAT (machine_of demo_vm) = 0" "natives (vm_module demo_vm) = demo_natives"
  by (simp_all add: demo_system_def demo_vm_def get_public_def demo_pages_def)

lemma demo_execute:
  "\<exists>sys'. vm_execute_function (Some 0) 9 40 64 (demo_system [x, a, b, c]) = Done (STATUS_SUCCESS, sys') \<and>
     memory sys' 9 = Some [x, 0, 0, 0, x, a, b, c]"
proof -
  let ?sys = "demo_system [x, a, b, c]"
  let ?sys2 = "set_data_mem 0 demo_mapped ?sys"
  obtain s where s: "amx_call (amx_callback None None demo_natives) 16 [2 ^ 59, 1, 2 * 2 ^ 59, 8] (demo_called x a b c) = Some (Ok s)"
    "PRI s = 0" "host s 9 = Some [x, 0, 0, 0, x, a, b, c]" "data_mem s = demo_mapped" using demo_call by blast
  define sys3 where "sys3 = leave 0 (with_data demo_mapped demo_vm) s ?sys2"
  have "enter ?sys2 (machine_of (with_data demo_mapped demo_vm)) = demo_called x a b c"
    by (simp add: demo_called_def set_data_mem_at demo_simps enter_def with_data_def)
  then have call: "call_in 0 16 [2 ^ 59, 1, 2 * 2 ^ 59, 8] ?sys2 = Done (True, 0, sys3)"
    using s(1,2) by (simp add: call_in_def set_data_mem_at demo_simps sys3_def) (simp add: with_data_def demo_simps)
  have hooks: "hooks_of ?sys2 = no_hooks" "hooks_of sys3 = no_hooks"
    by (simp_all add: sys3_def set_data_mem_at demo_simps leave_def)
  have g: "guarded_call 0 16 [2 ^ 59, 1, 2 * 2 ^ 59, 8] ?sys2 = Done (0, sys3)"
    using call hooks by (simp add: guarded_call_def vm_callback_precall_def vm_callback_postcall_def no_hooks_def call_void_def)
  define v3 where "v3 = (with_data demo_mapped demo_vm)\<lparr>machine_of := s\<rparr>"
  let ?p1 = "demo_pages[1 := \<lparr>buf = Some \<lparr>block = 9, cell_at = 4\<rparr>, msize = 8\<rparr>]"
  have v3: "vms sys3 0 = Some v3" "memory sys3 = host s" "data_mem (machine_of v3) = demo_mapped"
    by (simp_all add: sys3_def leave_def v3_def s(4))
  define sys4 where "sys4 = sys3\<lparr>vms := (vms sys3)(0 \<mapsto> with_data ?p1 v3)\<rparr>"
  define sys5 where "sys5 = sys4\<lparr>vms := (vms sys4)(0 \<mapsto> with_data demo_pages (with_data ?p1 v3))\<rparr>"
  have "unmap_in 0 (2 * 2 ^ 59) 8 sys3 = Some sys4"
    unfolding sys4_def by (rule unmap_in_at [OF v3(1)]) (simp only: v3(3) demo_unmap)
  moreover have "unmap_in 0 (2 ^ 59) 1 sys4 = Some sys5"
    unfolding sys5_def by (rule unmap_in_at) (simp_all add: sys4_def with_data_def demo_unmap [simplified])
  ultimately have "vm_execute_function (Some 0) 9 40 64 ?sys = Done (0, sys5)"
    using g
    by (simp add: vm_execute_function_def demo_simps demo_name demo_name_c Let_def execute_mapped_def demo_map1 [simplified] demo_map2 [simplified]
        finish_request_def)
  moreover have "memory sys5 = host s" by (simp add: sys5_def sys4_def v3(2))
  ultimately show ?thesis using s(3) by (auto simp: STATUS_SUCCESS_def)
qed

text \<open>A request to execute a function returns as many bytes as the caller asked for, whether or not the function wrote
  them: with 40 bytes of input and 64 of output, the sample function that writes one cell lets the caller see the
  24 bytes (\<open>a\<close>, \<open>b\<close>, \<open>c\<close>) that the kernel's buffer held before.\<close>

theorem unwritten_output_returned:
  "\<exists>sys'. dispatch_irp k cr u keys ver (Device_control (Execute_fn 9 40 64)) (Some 0) (demo_system [x, a, b, c]) =
     Done (STATUS_SUCCESS, 64, Some 0, sys') \<and> memory sys' 9 = Some [x, 0, 0, 0, x, a, b, c]"
  using demo_execute [of x a b c] by (auto simp: dispatch_irp_def dispatch_control_def)

lemma demo_ready: "ready (demo_system cells) demo_vm"
proof -
  let ?s = "enter (demo_system cells) (machine_of demo_vm)"
  have "mapped ?s p \<Longrightarrow> block p = 0 \<and> cell_at p < 45" for p
    using page_of_no_pages [OF page_number]
    by (auto simp: mapped_def demo_simps demo_pages_def paged_translate_nat page_of_update hplus_def split: if_splits)
  moreover have "code_mapped ?s p \<Longrightarrow> block p = 0 \<and> cell_at p < 12" for p
    by (auto simp: code_mapped_def demo_vm_def contiguous_translate_def not_le word_less_nat_alt
        unat_div_distrib unat_cell_bytes hplus_def split: if_splits)
  moreover have "host ?s 0 = Some (sample_code @ 5 # replicate 32 0)" by (simp add: demo_system_def)
  moreover have "length (sample_code @ 5 # replicate 32 0) = 45" by (simp add: sample_code_def)
  ultimately have "well_mapped ?s"
    unfolding well_mapped_def by (fastforce simp: host_read_def nth_def_def)
  then show ?thesis by (simp add: ready_def demo_simps demo_pages_ok)
qed

lemma demo_confined: "f \<in> set demo_natives \<Longrightarrow> confined_native s0 f"
  using wrapper_confined [OF _ quiet_keeps, of "[]" s0] by (auto simp: demo_natives_def)

theorem request_isolated_witness:
  "vm_load_binary quiet_kernel accepting sample_pool False [[1]] signed_sample no_system = Done (STATUS_SUCCESS, Some 0, loaded_system) \<and>
   demo_system [1, 2, 3, 4] =
     loaded_system\<lparr>memory := (memory loaded_system)(9 \<mapsto> [0x00785F6C74636F69, 0, 0, 0, 1, 2, 3, 4])\<rparr> \<and>
   (\<exists>st sys'. vm_execute_function (Some 0) 9 40 64 (demo_system [1, 2, 3, 4]) = Done (st, sys') \<and>
     request_done 0 demo_vm 9 (demo_system [1, 2, 3, 4]) sys')"
proof -
  have "\<forall>st sys'. vm_execute_function (Some 0) 9 40 64 (demo_system [1, 2, 3, 4]) = Done (st, sys') \<longrightarrow>
      request_done 0 demo_vm 9 (demo_system [1, 2, 3, 4]) sys'"
    by (rule conjunct2, rule request_isolated [OF demo_simps(2) demo_ready demo_simps(1)])
      (use demo_confined in \<open>simp_all add: demo_simps\<close>)
  then show ?thesis using demo_execute demo_loaded demo_after_load by blast
qed

theorem request_buffer_aliases_witness:
  "paged_translate demo_mapped (2 ^ 59 + of_nat 0 * cell_bytes) = Some \<lparr>block = 9, cell_at = 4 + 0\<rparr> \<and>
    paged_translate demo_mapped (2 * 2 ^ 59 + of_nat (0 + 4) * cell_bytes) = Some \<lparr>block = 9, cell_at = 4 + 0\<rparr>"
  by (rule request_buffer_aliases [OF demo_pages_ok small_counts demo_map1 demo_map2]) simp_all

theorem callbacks_outlive_context_witness:
  "to_amx_callback_dispatch 0 7 (vm_destroy_internal 0 ((demo_system [])\<lparr>common := no_callbacks\<lparr>cb_table :=
     (replicate cb_count free_entry)[0 := \<lparr>owner = Some 0, cb_cip = 16\<rparr>]\<rparr>\<rparr>)) = Broken Bad_access"
proof (rule callbacks_outlive_context [where ctx = 0 and v = demo_vm])
  let ?sys = "(demo_system [])\<lparr>common := no_callbacks\<lparr>cb_table := (replicate cb_count free_entry)[0 := \<lparr>owner = Some 0, cb_cip = 16\<rparr>]\<rparr>\<rparr>"
  show p: "get_public unload_name (vm_module demo_vm) = 0"
    by (simp add: demo_vm_def get_public_def unload_name_def cname_def ioctl_x_name_def)
  show "vm_destroy (Some 0) ?sys = Done (STATUS_SUCCESS, vm_destroy_internal 0 ?sys)"
    by (simp add: vm_destroy_def demo_simps p Let_def vm_callback_destroyed_def no_hooks_def call_void_def)
qed (simp_all add: demo_simps no_hooks_def cb_count_def)

theorem failed_call_keeps_stack_witness:
  "\<exists>s'. amx_call (amx_callback None None []) 8 [] (machine [0, 67, 1] 24 [0, 0, 0, 0] 32 ()) = Some (Err Halt s') \<and>
    STK s' = STK (machine [0, 67, 1] 24 [0, 0, 0, 0] 32 ()) - (of_nat (length ([] :: cell list)) + 2) * cell_bytes"
proof -
  let ?m = "machine [0, 67, 1] 24 [0, 0, 0, 0] 32 ()"
  obtain s2 s3 where "push (of_nat (length ([] :: cell list)) * cell_bytes) ?m = Ok s2" "push 0 s2 = Ok s3"
    "code_cell s3 8 67" "code_cell s3 (8 + cell_bytes) 1"
    by (simp add: machine_simps code_cell_def)
  then show ?thesis using failed_call_keeps_stack [of "[]" ?m ?m s2 s3 8 1 "[]"] by simp
qed

theorem only_signed_modules_witness:
  "\<exists>key \<in> set [[1]]. \<exists>m s v. let sig_len = unat (le_word (take 4 signed_sample) :: u32); mem = drop (4 + sig_len) signed_sample in
    4 + sig_len \<le> length signed_sample \<and> NT_SUCCESS (fst (calculate_sha256 accepting mem)) \<and>
    NT_SUCCESS (verify_sig accepting (snd (calculate_sha256 accepting mem)) (take sig_len (drop 4 signed_sample)) key) \<and>
    load_module quiet_kernel sample_pool 0 no_system mem = Some (Inr (m, s)) \<and> vms loaded_system 0 = Some v \<and> vm_module v = m"
  by (rule only_signed_modules [OF demo_loaded]) simp

text \<open>A driver that refuses every context.\<close>

definition refusing :: "unit system" where
  "refusing = no_system\<lparr>hooks_of := no_hooks\<lparr>s_created := [(1, \<lambda>ctx w. (STATUS_UNSUCCESSFUL, w))]\<rparr>\<rparr>"

theorem failed_load_leaves_nothing_witness:
  "\<exists>st sys'. vm_load_binary quiet_kernel accepting sample_pool False [[1]] signed_sample refusing = Done (st, None, sys') \<and>
    vms sys' = vms refusing"
proof -
  obtain v s where i: "vm_load_binary_internal quiet_kernel accepting sample_pool False [[1]] signed_sample refusing =
     Done (STATUS_SUCCESS, Some 0, leave 0 v s refusing)" using sample_load_internal by blast
  then obtain sys' where s': "vm_load_binary quiet_kernel accepting sample_pool False [[1]] signed_sample refusing =
     Done (STATUS_UNSUCCESSFUL, None, sys')"
    by (simp add: vm_load_binary_def vm_callback_created_def leave_def refusing_def no_system_def no_hooks_def)
  from failed_load_leaves_nothing [OF s', of 0] s' show ?thesis by (auto simp: sample_pool_def refusing_def no_system_def)
qed

end
