(* ===== verification/Net_Frame.thy ===== *)
theory Net_Frame
  imports Rgb_Properties "HOL-Library.Sublist"
begin

text \<open>
  \<open>NetworkProtocol.h\<close>, \<open>NetworkProtocol.cpp\<close> and the receive loops that \<open>NetworkServer.cpp\<close> and
  \<open>NetworkClient.cpp\<close> share: a packet is a header of 16 bytes and \<open>pkt_size\<close> bytes of data, and the
  listener threads put both together from whatever pieces the socket delivers. The theory shows that
  the pieces do not matter: a listener handles the packets that were sent, one after the other.
\<close>

section \<open>Packets\<close>

definition OPENRGB_SDK_PROTOCOL_VERSION :: u32 where
  "OPENRGB_SDK_PROTOCOL_VERSION = 5"

definition openrgb_sdk_magic :: "byte list" where
  "openrgb_sdk_magic = str8 ''ORGB''"

record NetPacketHeader =
  pkt_magic :: "byte list"
  pkt_dev_idx :: u32
  pkt_id :: u32
  pkt_size :: u32

datatype packet_id = REQUEST_CONTROLLER_COUNT | REQUEST_CONTROLLER_DATA | REQUEST_PROTOCOL_VERSION
  | SET_CLIENT_NAME | DEVICE_LIST_UPDATED | REQUEST_RESCAN_DEVICES
  | REQUEST_PROFILE_LIST | REQUEST_SAVE_PROFILE | REQUEST_LOAD_PROFILE | REQUEST_DELETE_PROFILE
  | REQUEST_PLUGIN_LIST | PLUGIN_SPECIFIC
  | RESIZEZONE | CLEARSEGMENTS | ADDSEGMENT
  | UPDATELEDS | UPDATEZONELEDS | UPDATESINGLELED
  | SETCUSTOMMODE | UPDATEMODE | SAVEMODE

primrec id_value :: "packet_id \<Rightarrow> u32" where
  "id_value REQUEST_CONTROLLER_COUNT = 0"
| "id_value REQUEST_CONTROLLER_DATA = 1"
| "id_value REQUEST_PROTOCOL_VERSION = 40"
| "id_value SET_CLIENT_NAME = 50"
| "id_value DEVICE_LIST_UPDATED = 100"
| "id_value REQUEST_RESCAN_DEVICES = 140"
| "id_value REQUEST_PROFILE_LIST = 150"
| "id_value REQUEST_SAVE_PROFILE = 151"
| "id_value REQUEST_LOAD_PROFILE = 152"
| "id_value REQUEST_DELETE_PROFILE = 153"
| "id_value REQUEST_PLUGIN_LIST = 200"
| "id_value PLUGIN_SPECIFIC = 201"
| "id_value RESIZEZONE = 1000"
| "id_value CLEARSEGMENTS = 1001"
| "id_value ADDSEGMENT = 1002"
| "id_value UPDATELEDS = 1050"
| "id_value UPDATEZONELEDS = 1051"
| "id_value UPDATESINGLELED = 1052"
| "id_value SETCUSTOMMODE = 1100"
| "id_value UPDATEMODE = 1101"
| "id_value SAVEMODE = 1102"

definition all_ids :: "packet_id list" where
  "all_ids = [REQUEST_CONTROLLER_COUNT, REQUEST_CONTROLLER_DATA, REQUEST_PROTOCOL_VERSION,
     SET_CLIENT_NAME, DEVICE_LIST_UPDATED, REQUEST_RESCAN_DEVICES, REQUEST_PROFILE_LIST,
     REQUEST_SAVE_PROFILE, REQUEST_LOAD_PROFILE, REQUEST_DELETE_PROFILE, REQUEST_PLUGIN_LIST,
     PLUGIN_SPECIFIC, RESIZEZONE, CLEARSEGMENTS, ADDSEGMENT, UPDATELEDS, UPDATEZONELEDS,
     UPDATESINGLELED, SETCUSTOMMODE, UPDATEMODE, SAVEMODE]"

text \<open>The \<open>switch\<close> on \<open>pkt_id\<close>: the case label with that value, if there is one.\<close>

definition id_of :: "u32 \<Rightarrow> packet_id option" where
  "id_of v = find (\<lambda>i. id_value i = v) all_ids"

lemma id_of_value [simp]: "id_of (id_value i) = Some i"
  by (cases i) (simp_all add: id_of_def all_ids_def)

declare id_value.simps [simp del]

definition InitNetPacketHeader :: "u32 \<Rightarrow> packet_id \<Rightarrow> u32 \<Rightarrow> NetPacketHeader" where
  "InitNetPacketHeader dev_idx i sz =
     \<lparr>pkt_magic = openrgb_sdk_magic, pkt_dev_idx = dev_idx, pkt_id = id_value i, pkt_size = sz\<rparr>"

lemma InitNetPacketHeader_simps [simp]:
  "pkt_magic (InitNetPacketHeader d i n) = openrgb_sdk_magic" "pkt_dev_idx (InitNetPacketHeader d i n) = d"
  "pkt_id (InitNetPacketHeader d i n) = id_value i" "pkt_size (InitNetPacketHeader d i n) = n"
  by (simp_all add: InitNetPacketHeader_def)

text \<open>The bytes of the header as \<open>send\<close> sees the struct: no padding, integers in little endian.\<close>

definition header_bytes :: "NetPacketHeader \<Rightarrow> byte list" where
  "header_bytes h = pkt_magic h @ le_bytes 4 (pkt_dev_idx h) @ le_bytes 4 (pkt_id h) @ le_bytes 4 (pkt_size h)"

section \<open>Receiving\<close>

text \<open>
  What a socket delivers: the pieces in which the bytes arrive. \<open>recv\<close> returns at most \<open>n\<close> bytes of
  the first piece. When there is no piece left, or an empty one, the connection is closed or broken
  or the server went offline: \<open>recv_select\<close> returns a number of bytes below 1. (It waits for a
  piece with \<open>select\<close>; a timeout only repeats the wait.)
\<close>

type_synonym inbox = "byte list list"

fun recv_select :: "nat \<Rightarrow> inbox \<Rightarrow> byte list \<times> inbox" where
  "recv_select n [] = ([], [])"
| "recv_select n (c # cs) = (take n c, if length c \<le> n then cs else drop n c # cs)"

text \<open>The loop \<open>do { tmp = recv_select(\<dots>, n - bytes_read); \<dots> } while(bytes_read != n)\<close>.\<close>

function recv_all :: "nat \<Rightarrow> inbox \<Rightarrow> (byte list \<times> inbox) option" where
  "recv_all n ib = (if n = 0 then Some ([], ib) else
     let (bs, ib1) = recv_select n ib
     in if bs = [] then None
        else map_option (\<lambda>(rest, ib2). (bs @ rest, ib2)) (recv_all (n - length bs) ib1))"
  by pat_completeness auto
termination by (relation "measure fst") auto

declare recv_all.simps [simp del]

text \<open>
  The magic is read byte by byte. A byte that differs from the expected one is logged, and the
  \<open>continue\<close> there is the one of the \<open>for\<close> over the four bytes: reading goes on with the next byte.
\<close>

primrec recv_magic :: "byte list \<Rightarrow> inbox \<Rightarrow> (byte list \<times> inbox) option" where
  "recv_magic [] ib = Some ([], ib)"
| "recv_magic (m # ms) ib = (case recv_select 1 ib of
     ([], _) \<Rightarrow> None
   | (b # _, ib1) \<Rightarrow> map_option (\<lambda>(rest, ib2). (b # rest, ib2)) (recv_magic ms ib1))"

definition header_of :: "byte list \<Rightarrow> byte list \<Rightarrow> NetPacketHeader" where
  "header_of m bs = \<lparr>pkt_magic = m, pkt_dev_idx = le_word (take 4 bs),
     pkt_id = le_word (take 4 (drop 4 bs)), pkt_size = le_word (take 4 (drop 8 bs))\<rparr>"

definition recv_header :: "inbox \<Rightarrow> (NetPacketHeader \<times> inbox) option" where
  "recv_header ib = do {
     (m, ib) \<leftarrow> recv_magic openrgb_sdk_magic ib;
     (bs, ib) \<leftarrow> recv_all 12 ib;
     Some (header_of m bs, ib) }"

text \<open>
  The data is \<open>NULL\<close> (\<open>None\<close>) when \<open>pkt_size\<close> is 0. The size is whatever the peer says; \<open>can_new\<close>
  tells for which sizes \<open>new char[n]\<close> succeeds, and where it does not the exception ends the process.
  The length argument of \<open>recv\<close> is an \<open>int\<close>: for a size of 2^31 or more it is negative, and what
  the system does with it is not described by the code. Both are the undefined result.
\<close>

datatype received = Connection_lost | Received NetPacketHeader "byte list option" inbox

definition recv_packet :: "(nat \<Rightarrow> bool) \<Rightarrow> inbox \<Rightarrow> received defined" where
  "recv_packet can_new ib = (case recv_header ib of
     None \<Rightarrow> Some Connection_lost
   | Some (h, ib1) \<Rightarrow>
       if pkt_size h = 0 then Some (Received h None ib1)
       else if \<not> can_new (unat (pkt_size h)) \<or> 2 ^ 31 \<le> unat (pkt_size h) then None
       else (case recv_all (unat (pkt_size h)) ib1 of
           None \<Rightarrow> Some Connection_lost
         | Some (bs, ib2) \<Rightarrow> Some (Received h (Some bs) ib2)))"

subsection \<open>The loop of a listener thread\<close>

text \<open>A packet that was received makes the rest of the stream shorter.\<close>

lemma recv_select_length:
  "recv_select n ib = (bs, ib1) \<Longrightarrow> length (concat ib) = length bs + length (concat ib1)"
  by (cases ib) (auto split: if_splits)

lemma recv_all_length:
  "recv_all n ib = Some (bs, ib1) \<Longrightarrow> length bs = n \<and> length (concat ib) = n + length (concat ib1)"
proof (induction n ib arbitrary: bs ib1 rule: recv_all.induct)
  case (1 n ib)
  show ?case
  proof (cases "n = 0")
    case True
    with "1.prems" show ?thesis by (simp add: recv_all.simps)
  next
    case False
    obtain cs ib' where s: "recv_select n ib = (cs, ib')" by fastforce
    then have "length cs \<le> n" by (cases ib) (auto split: if_splits)
    have n0: "recv_all n ib = (if cs = [] then None
        else map_option (\<lambda>(rest, ib2). (cs @ rest, ib2)) (recv_all (n - length cs) ib'))"
      using False s by (subst recv_all.simps) simp
    then obtain rest where r: "recv_all (n - length cs) ib' = Some (rest, ib1)" "bs = cs @ rest" "cs \<noteq> []"
      using "1.prems" unfolding n0 by (auto split: if_splits)
    from "1.IH" [OF False s [symmetric] refl r(3) r(1)] r(2) \<open>length cs \<le> n\<close> recv_select_length [OF s]
    show ?thesis by simp
  qed
qed

lemma recv_magic_length:
  "recv_magic ms ib = Some (bs, ib1) \<Longrightarrow> length bs = length ms \<and> length (concat ib) = length ms + length (concat ib1)"
proof (induction ms arbitrary: ib bs ib1)
  case (Cons m ms)
  obtain cs ib' where s: "recv_select 1 ib = (cs, ib')" by fastforce
  then have "length cs \<le> 1" by (cases ib) (auto split: if_splits)
  with Cons recv_select_length [OF s] s show ?case
    by (auto split: list.splits)
qed simp

lemma recv_packet_shorter:
  assumes "recv_packet can_new ib = Some (Received h d ib1)"
  shows "length (concat ib1) < length (concat ib)"
proof -
  from assms obtain ib0 where h: "recv_header ib = Some (h, ib0)"
    and le: "length (concat ib1) \<le> length (concat ib0)"
    by (auto simp: recv_packet_def split: option.splits if_splits dest!: recv_all_length)
  then have "length (concat ib0) < length (concat ib)"
    by (auto simp: recv_header_def split: Option.bind_splits dest!: recv_magic_length recv_all_length)
  with le show ?thesis by simp
qed

text \<open>
  \<open>while(online) { receive a packet; switch(pkt_id) { \<dots> } }\<close>: the handler returns whether it went to
  \<open>listen_done\<close>.
\<close>

function listen :: "(nat \<Rightarrow> bool) \<Rightarrow> (NetPacketHeader \<Rightarrow> byte list option \<Rightarrow> 's \<Rightarrow> ('s \<times> bool) defined)
    \<Rightarrow> inbox \<Rightarrow> 's \<Rightarrow> 's defined" where
  "listen can_new handler ib s = (case recv_packet can_new ib of
     None \<Rightarrow> None
   | Some Connection_lost \<Rightarrow> Some s
   | Some (Received h d ib1) \<Rightarrow> (case handler h d s of
       None \<Rightarrow> None
     | Some (s1, close) \<Rightarrow> if close then Some s1 else listen can_new handler ib1 s1))"
  by pat_completeness auto
termination
  by (relation "measure (\<lambda>(can_new, handler, ib, s). length (concat ib))") (auto dest: recv_packet_shorter)

declare listen.simps [simp del]

section \<open>A listener handles the packets that were sent\<close>

definition frame :: "NetPacketHeader \<times> byte list \<Rightarrow> byte list" where
  "frame p = header_bytes (fst p) @ snd p"

definition data_of :: "byte list \<Rightarrow> byte list option" where
  "data_of d = (if d = [] then None else Some d)"

definition frame_ok :: "(nat \<Rightarrow> bool) \<Rightarrow> NetPacketHeader \<times> byte list \<Rightarrow> bool" where
  "frame_ok can_new p \<longleftrightarrow> length (pkt_magic (fst p)) = 4 \<and> unat (pkt_size (fst p)) = length (snd p) \<and>
     length (snd p) < 2 ^ 31 \<and> can_new (length (snd p))"

text \<open>The pieces hold the bytes \<open>bs\<close>, and none of them is the end of the connection.\<close>

definition pieces :: "inbox \<Rightarrow> byte list \<Rightarrow> bool" where
  "pieces ib bs \<longleftrightarrow> concat ib = bs \<and> [] \<notin> set ib"

lemma pieces_select:
  assumes "pieces ib bs" "0 < n" "bs \<noteq> []"
  obtains xs ib1 where "recv_select n ib = (xs, ib1)" "xs \<noteq> []" "length xs \<le> n"
    "pieces ib1 (drop (length xs) bs)" "take (length xs) bs = xs"
proof (cases ib)
  case Nil
  with assms show ?thesis by (simp add: pieces_def)
next
  case (Cons c cs)
  have c: "c \<noteq> []" "[] \<notin> set cs" "bs = c @ concat cs" using assms(1) Cons by (auto simp: pieces_def)
  show ?thesis
  proof (cases "length c \<le> n")
    case True
    with c Cons show ?thesis by (intro that [of c cs]) (auto simp: pieces_def)
  next
    case False
    with c Cons assms(2) show ?thesis by (intro that [of "take n c" "drop n c # cs"]) (auto simp: pieces_def)
  qed
qed

lemma recv_all_pieces:
  "pieces ib bs \<Longrightarrow> n \<le> length bs \<Longrightarrow> \<exists>ib1. recv_all n ib = Some (take n bs, ib1) \<and> pieces ib1 (drop n bs)"
proof (induction n arbitrary: ib bs rule: less_induct)
  case (less n)
  show ?case
  proof (cases "n = 0")
    case True
    with less.prems show ?thesis by (simp add: recv_all.simps)
  next
    case False
    with less.prems have "0 < n" "bs \<noteq> []" by auto
    then obtain xs ib1 where s: "recv_select n ib = (xs, ib1)" "xs \<noteq> []" "length xs \<le> n"
      and p: "pieces ib1 (drop (length xs) bs)" "take (length xs) bs = xs"
      using pieces_select [OF less.prems(1)] by metis
    let ?m = "n - length xs" and ?bs = "drop (length xs) bs"
    have "?m < n" "?m \<le> length ?bs" using s less.prems \<open>0 < n\<close> by (auto simp: diff_less)
    from less.IH [OF this(1) p(1) this(2)] obtain ib2
      where r: "recv_all ?m ib1 = Some (take ?m ?bs, ib2)" "pieces ib2 (drop ?m ?bs)" by auto
    have "xs @ take ?m ?bs = take n bs"
      using p(2) s(3) by (metis le_add_diff_inverse take_add)
    moreover have "drop ?m ?bs = drop n bs" using s(3) by simp
    moreover have "recv_all n ib = map_option (\<lambda>(rest, ib2). (xs @ rest, ib2)) (recv_all ?m ib1)"
      using s False by (subst recv_all.simps) simp
    ultimately show ?thesis using r by simp
  qed
qed

lemma recv_all_short: "length (concat ib) < n \<Longrightarrow> recv_all n ib = None"
  using recv_all_length [of n ib] by (cases "recv_all n ib") fastforce+

lemma recv_magic_pieces:
  "pieces ib bs \<Longrightarrow> length ms \<le> length bs \<Longrightarrow>
   \<exists>ib1. recv_magic ms ib = Some (take (length ms) bs, ib1) \<and> pieces ib1 (drop (length ms) bs)"
proof (induction ms arbitrary: ib bs)
  case (Cons m ms)
  then have ne: "bs \<noteq> []" by auto
  obtain xs ib1 where s: "recv_select 1 ib = (xs, ib1)" "xs \<noteq> []" "length xs \<le> 1"
    and p: "pieces ib1 (drop (length xs) bs)" "take (length xs) bs = xs"
    using pieces_select [OF Cons.prems(1) zero_less_one ne] by metis
  then obtain b where b: "xs = [b]" by (cases xs) auto
  with p ne have bs: "take 1 bs = [b]" by simp
  have p': "pieces ib1 (tl bs)" using p(1) b by (simp add: drop_Suc)
  have "length ms \<le> length (tl bs)" using Cons.prems(2) by simp
  from Cons.IH [OF p' this] obtain ib2
    where "recv_magic ms ib1 = Some (take (length ms) (tl bs), ib2)" "pieces ib2 (drop (length ms) (tl bs))" by auto
  moreover have "b # take (length ms) (tl bs) = take (length (m # ms)) bs"
    using bs ne by (cases bs) auto
  ultimately show ?case using s(1) b by (simp add: drop_Suc)
qed (auto simp: pieces_def)

lemma recv_magic_short: "length (concat ib) < length ms \<Longrightarrow> recv_magic ms ib = None"
  using recv_magic_length [of ms ib] by (cases "recv_magic ms ib") fastforce+

lemma length_magic [simp]: "length openrgb_sdk_magic = 4"
  by (simp add: openrgb_sdk_magic_def str8_def)

lemma length_header_bytes [simp]: "length (header_bytes h) = length (pkt_magic h) + 12"
  by (simp add: header_bytes_def)

lemma recv_header_pieces:
  assumes "pieces ib (header_bytes h @ bs)" "length (pkt_magic h) = 4"
  shows "\<exists>ib1. recv_header ib = Some (h, ib1) \<and> pieces ib1 bs"
proof -
  obtain ib1 where m: "recv_magic openrgb_sdk_magic ib = Some (pkt_magic h, ib1)"
      "pieces ib1 (le_bytes 4 (pkt_dev_idx h) @ le_bytes 4 (pkt_id h) @ le_bytes 4 (pkt_size h) @ bs)"
    using recv_magic_pieces [OF assms(1), of openrgb_sdk_magic] assms(2) by (auto simp: header_bytes_def)
  obtain ib2 where r: "recv_all 12 ib1
        = Some (le_bytes 4 (pkt_dev_idx h) @ le_bytes 4 (pkt_id h) @ le_bytes 4 (pkt_size h), ib2)"
      "pieces ib2 bs"
    using recv_all_pieces [OF m(2), of 12] by auto
  have "header_of (pkt_magic h) (le_bytes 4 (pkt_dev_idx h) @ le_bytes 4 (pkt_id h) @ le_bytes 4 (pkt_size h)) = h"
    by (cases h) (simp add: header_of_def wire_simps)
  with m r show ?thesis by (simp add: recv_header_def)
qed

lemma recv_packet_pieces:
  assumes "pieces ib (frame p @ bs)" "frame_ok can_new p"
  shows "\<exists>ib1. recv_packet can_new ib = Some (Received (fst p) (data_of (snd p)) ib1) \<and> pieces ib1 bs"
proof -
  from assms obtain ib1 where h: "recv_header ib = Some (fst p, ib1)" "pieces ib1 (snd p @ bs)"
    using recv_header_pieces [of ib "fst p" "snd p @ bs"] by (auto simp: frame_def frame_ok_def)
  obtain ib2 where d: "recv_all (length (snd p)) ib1 = Some (snd p, ib2)" "pieces ib2 bs"
    using recv_all_pieces [OF h(2), of "length (snd p)"] by auto
  show ?thesis
  proof (cases "snd p = []")
    case True
    then have "pkt_size (fst p) = 0" using assms(2) by (simp add: frame_ok_def unat_eq_0)
    with True h show ?thesis by (simp add: recv_packet_def data_of_def)
  next
    case False
    then have "pkt_size (fst p) \<noteq> 0" using assms(2) by (auto simp: frame_ok_def)
    with False h d assms(2) show ?thesis by (simp add: recv_packet_def data_of_def frame_ok_def)
  qed
qed

text \<open>A stream that ends inside a packet.\<close>

lemma recv_packet_incomplete:
  assumes "pieces ib bs" "strict_prefix bs (frame p)" "frame_ok can_new p"
  shows "recv_packet can_new ib = Some Connection_lost"
proof (cases "length bs < 16")
  case True
  have "recv_header ib = None"
  proof (cases "length bs < 4")
    case True
    then show ?thesis using assms(1) by (simp add: recv_header_def recv_magic_short pieces_def)
  next
    case False
    then obtain ib1 where m: "recv_magic openrgb_sdk_magic ib = Some (take 4 bs, ib1)" "pieces ib1 (drop 4 bs)"
      using recv_magic_pieces [OF assms(1), of openrgb_sdk_magic] by auto
    then have "recv_all 12 ib1 = None" using True by (intro recv_all_short) (simp add: pieces_def)
    with m show ?thesis by (simp add: recv_header_def)
  qed
  then show ?thesis by (simp add: recv_packet_def)
next
  case False
  have "\<exists>d. bs = header_bytes (fst p) @ d \<and> strict_prefix d (snd p)"
  proof -
    obtain e where e: "frame p = bs @ e" "e \<noteq> []"
      using assms(2) by (auto elim: strict_prefixE')
    have len: "length (header_bytes (fst p)) \<le> length bs"
      using False assms(3) by (simp add: frame_ok_def)
    have "bs = header_bytes (fst p) @ drop (length (header_bytes (fst p))) bs"
    proof -
      have "take (length (header_bytes (fst p))) bs = header_bytes (fst p)"
        using arg_cong [OF e(1), of "take (length (header_bytes (fst p)))"] len
        by (simp add: frame_def take_append del: length_header_bytes)
      then show ?thesis by (metis append_take_drop_id)
    qed
    then obtain d where "bs = header_bytes (fst p) @ d" by blast
    with e show ?thesis by (auto simp: frame_def strict_prefix_def)
  qed
  then obtain d where d: "bs = header_bytes (fst p) @ d" "strict_prefix d (snd p)" by blast
  then obtain ib1 where h: "recv_header ib = Some (fst p, ib1)" "pieces ib1 d"
    using recv_header_pieces [of ib "fst p" d] assms by (auto simp: frame_ok_def)
  have "length d < length (snd p)" using d(2) by (rule prefix_length_less)
  moreover from this have "recv_all (length (snd p)) ib1 = None"
    using h(2) by (intro recv_all_short) (simp add: pieces_def)
  moreover from calculation have "pkt_size (fst p) \<noteq> 0" using assms(3) by (auto simp: frame_ok_def)
  ultimately show ?thesis using h assms(3) by (simp add: recv_packet_def frame_ok_def)
qed

primrec handle_packets :: "(NetPacketHeader \<Rightarrow> byte list option \<Rightarrow> 's \<Rightarrow> ('s \<times> bool) defined)
    \<Rightarrow> (NetPacketHeader \<times> byte list) list \<Rightarrow> 's \<Rightarrow> 's defined" where
  "handle_packets handler [] s = Some s"
| "handle_packets handler (p # ps) s = do {
     (s1, close) \<leftarrow> handler (fst p) (data_of (snd p)) s;
     if close then Some s1 else handle_packets handler ps s1 }"

lemma listen_complete_packets:
  assumes "concat ib = concat (map frame ps) @ rest" "[] \<notin> set ib"
    and "list_all (frame_ok can_new) ps" "frame_ok can_new q" "strict_prefix rest (frame q)"
  shows "listen can_new handler ib s = handle_packets handler ps s"
  using assms(1-3)
proof (induction ps arbitrary: ib s)
  case Nil
  then have "recv_packet can_new ib = Some Connection_lost"
    by (intro recv_packet_incomplete [OF _ assms(5,4)]) (simp add: pieces_def)
  then show ?case by (subst listen.simps) simp
next
  case (Cons p ps)
  have "pieces ib (frame p @ concat (map frame ps) @ rest)" using Cons.prems by (simp add: pieces_def)
  then obtain ib1 where r: "recv_packet can_new ib = Some (Received (fst p) (data_of (snd p)) ib1)"
      "pieces ib1 (concat (map frame ps) @ rest)"
    using recv_packet_pieces [of ib p "concat (map frame ps) @ rest" can_new] Cons.prems(3) by auto
  then have "listen can_new handler ib1 s1 = handle_packets handler ps s1" for s1
    using Cons.prems(3) by (intro Cons.IH) (simp_all add: pieces_def)
  with r(1) show ?case
    by (subst listen.simps) (auto split: option.splits Option.bind_splits)
qed

text \<open>C19: however the network splits or joins what a peer sends, and wherever the connection breaks off, a
  listener thread handles exactly the packets that arrived completely, in order, each with its header and
  all of its data; an incomplete last packet has no effect.\<close>

theorem listener_handles_packets:
  assumes "concat ib = concat (map frame ps) @ rest" "[] \<notin> set ib"
    and "list_all (frame_ok can_new) ps" "frame_ok can_new q" "strict_prefix rest (frame q)"
  shows "listen can_new handler ib s = handle_packets handler ps s"
  using assms by (rule listen_complete_packets)

text \<open>The magic is never checked: a header whose first four bytes are anything at all is taken for a packet.\<close>

theorem any_magic_accepted:
  assumes "length m = 4" "unat n = length d" "length d < 2 ^ 31" "can_new (length d)"
  shows "recv_packet can_new [m @ le_bytes 4 dev @ le_bytes 4 i @ le_bytes 4 n @ d]
    = Some (Received \<lparr>pkt_magic = m, pkt_dev_idx = dev, pkt_id = i, pkt_size = n\<rparr> (data_of d) [])"
proof -
  let ?p = "(\<lparr>pkt_magic = m, pkt_dev_idx = dev, pkt_id = i, pkt_size = n\<rparr>, d)"
  have "frame_ok can_new ?p" using assms by (simp add: frame_ok_def)
  moreover have "pieces [frame ?p] (frame ?p @ [])"
    by (simp add: pieces_def frame_def header_bytes_def) (use assms(1) in auto)
  ultimately obtain ib1 where "recv_packet can_new [frame ?p] = Some (Received (fst ?p) (data_of (snd ?p)) ib1)"
      "pieces ib1 []"
    using recv_packet_pieces by blast
  moreover from this(2) have "ib1 = []" by (cases ib1) (auto simp: pieces_def)
  ultimately show ?thesis by (simp add: frame_def header_bytes_def)
qed

theorem any_magic_accepted_witness:
  "recv_packet (\<lambda>n. n < 4096) [str8 ''HTTP'' @ le_bytes 4 (0 :: u32) @ le_bytes 4 (1100 :: u32) @ le_bytes 4 (1 :: u32) @ [7]]
    = Some (Received \<lparr>pkt_magic = str8 ''HTTP'', pkt_dev_idx = 0, pkt_id = 1100, pkt_size = 1\<rparr> (data_of [7]) [])"
  by (rule any_magic_accepted) (simp_all add: str8_def)

text \<open>The witness of the framing theorem: two packets in three pieces, the second packet without data, and five
  bytes of a third one.\<close>

definition log_packet :: "NetPacketHeader \<Rightarrow> byte list option \<Rightarrow> u32 list \<Rightarrow> (u32 list \<times> bool) defined" where
  "log_packet h d s = Some (s @ [pkt_id h, of_nat (length (case d of None \<Rightarrow> [] | Some bs \<Rightarrow> bs))], False)"

definition sample_packets :: "(NetPacketHeader \<times> byte list) list" where
  "sample_packets = [(InitNetPacketHeader 0 SET_CLIENT_NAME 3, str8 ''ab'' @ [0]),
     (InitNetPacketHeader 0 REQUEST_CONTROLLER_COUNT 0, [])]"

definition sample_stream :: "byte list" where
  "sample_stream = concat (map frame sample_packets) @ openrgb_sdk_magic"

theorem listener_handles_packets_witness:
  "listen (\<lambda>n. n < 4096) log_packet [take 10 sample_stream, take 20 (drop 10 sample_stream), drop 30 sample_stream] []
     = handle_packets log_packet sample_packets [] \<and>
   handle_packets log_packet sample_packets [] = Some [50, 3, 0, 0]"
proof
  let ?ib = "[take 10 sample_stream, take 20 (drop 10 sample_stream), drop 30 sample_stream]"
  have len: "length sample_stream = 39"
    by (simp add: sample_stream_def sample_packets_def frame_def InitNetPacketHeader_def str8_def)
  have "sample_stream = take 10 sample_stream @ take 20 (drop 10 sample_stream) @ drop 20 (drop 10 sample_stream)"
    by (simp only: append_take_drop_id)
  then have "concat ?ib = sample_stream" by simp
  then have c: "concat ?ib = concat (map frame sample_packets) @ openrgb_sdk_magic"
    by (simp only: sample_stream_def)
  show "listen (\<lambda>n. n < 4096) log_packet ?ib [] = handle_packets log_packet sample_packets []"
  proof (rule listener_handles_packets [OF c])
    show "[] \<notin> set ?ib" using len by (simp only: list.set insert_iff) auto
    show "list_all (frame_ok (\<lambda>n. n < 4096)) sample_packets"
      by (simp add: sample_packets_def frame_ok_def InitNetPacketHeader_def str8_def)
    show "frame_ok (\<lambda>n. n < 4096) (sample_packets ! 1)"
      by (simp add: sample_packets_def frame_ok_def InitNetPacketHeader_def)
    show "strict_prefix openrgb_sdk_magic (frame (sample_packets ! 1))"
      by (simp add: sample_packets_def frame_def InitNetPacketHeader_def header_bytes_def le_bytes_def strict_prefix_def)
  qed
  show "handle_packets log_packet sample_packets [] = Some [50, 3, 0, 0]"
    by (simp add: sample_packets_def InitNetPacketHeader_def id_value.simps log_packet_def data_of_def str8_def)
qed

end
