(* ===== verification/Net_Server.thy ===== *)
theory Net_Server
  imports Net_Frame
begin

text \<open>
  \<open>NetworkServer.cpp\<close>: the clients, the packets the server sends, and what it does with each packet it
  receives (\<open>switch(header.pkt_id)\<close> of \<open>ListenThreadFunction\<close>), on the devices of \<open>Rgb_Controller\<close>.
  Dereferencing a null or freed pointer, and reading behind the data of a packet, is undefined (\<open>None\<close>).

  Outside the server and parameters of the model, collected in \<open>world\<close>: the virtual functions of the
  device classes, the effect of loading a profile or rescanning on the devices, what the names of the
  profiles are, and the bytes a new buffer happens to hold. Packets are handled one at a time: two
  listener threads share the devices without a lock, and the model does not interleave inside a packet.
\<close>

section \<open>State\<close>

record NetworkClientInfo =
  info_sock :: nat
  client_string :: cstring
  client_protocol_version :: u32
  client_ip :: cstring

text \<open>The constructor; \<open>INVALID_SOCKET\<close> is replaced by the accepted socket before anyone sees it.\<close>

definition new_client_info :: "nat \<Rightarrow> cstring \<Rightarrow> NetworkClientInfo" where
  "new_client_info s ip = \<lparr>info_sock = s, client_string = str8 ''Client'', client_protocol_version = 0, client_ip = ip\<rparr>"

text \<open>
  A plugin's callback gets the type, the data and the size of the request; it returns a buffer or
  \<open>nullptr\<close>, and the size through its last argument.
\<close>

record NetworkPlugin =
  plugin_name :: cstring
  plugin_description :: cstring
  plugin_version :: cstring
  plugin_callback :: "u32 \<Rightarrow> byte list \<Rightarrow> u32 \<Rightarrow> byte list option \<times> u32"
  plugin_protocol_version :: u32

text \<open>
  Calls of functions that the device classes define. \<open>ClearSegments\<close>, \<open>AddSegment\<close> and the
  descriptions are those of \<open>RGBController\<close>: the devices here are local ones.
\<close>

datatype dev_call = Dev_ResizeZone u32 u32 | Dev_UpdateLEDs | Dev_UpdateZoneLEDs u32
  | Dev_UpdateSingleLED u32 | Dev_SetCustomMode | Dev_UpdateMode | Dev_SaveMode | Dev_EnsureInitialized

text \<open>What the server makes other parts of the program do, in order.\<close>

datatype effect = Called nat dev_call | Saved_profile cstring bool | Loaded_profile cstring
  | Deleted_profile cstring | Rescanned | Client_info_changed

text \<open>
  A client is known by the address of its \<open>NetworkClientInfo\<close>: \<open>infos\<close> holds the ones that are
  allocated, \<open>ServerClients\<close> the vector of pointers. \<open>sent\<close> is the list of what was sent, with the
  socket; both \<open>send\<close> calls of a packet are under the lock \<open>send_in_progress\<close> and are one entry.
\<close>

record server =
  controllers :: "controller list"
  infos :: "nat \<Rightarrow> NetworkClientInfo option"
  ServerClients :: "nat list"
  plugins :: "NetworkPlugin list"
  profile_manager :: bool
  legacy_workaround_enabled :: bool
  server_online :: bool
  sent :: "(nat \<times> byte list) list"
  effects :: "effect list"

record world =
  device :: "nat \<Rightarrow> dev_call \<Rightarrow> controller \<Rightarrow> controller defined"
  load_profile :: "cstring \<Rightarrow> controller list \<Rightarrow> controller list"
  rescan :: "controller list \<Rightarrow> controller list"
  profile_list :: "cstring list"
  junk :: "nat \<Rightarrow> byte"

section \<open>Clients\<close>

definition effect :: "effect \<Rightarrow> server \<Rightarrow> server" where
  "effect e s = s\<lparr>effects := effects s @ [e]\<rparr>"

definition ClientInfoChanged :: "server \<Rightarrow> server" where
  "ClientInfoChanged = effect Client_info_changed"

definition GetNumClients :: "server \<Rightarrow> nat" where
  "GetNumClients s = length (ServerClients s)"

text \<open>A field of client \<open>n\<close>, or a default when there is no such client.\<close>

definition client_field :: "(NetworkClientInfo \<Rightarrow> 'a) \<Rightarrow> 'a \<Rightarrow> server \<Rightarrow> nat \<Rightarrow> 'a defined" where
  "client_field f d s n = (if n < length (ServerClients s)
     then map_option f (infos s (ServerClients s ! n)) else Some d)"

definition GetClientString :: "server \<Rightarrow> nat \<Rightarrow> cstring defined" where
  "GetClientString = client_field client_string []"

definition GetClientIP :: "server \<Rightarrow> nat \<Rightarrow> cstring defined" where
  "GetClientIP = client_field client_ip []"

definition GetClientProtocolVersion :: "server \<Rightarrow> nat \<Rightarrow> u32 defined" where
  "GetClientProtocolVersion = client_field client_protocol_version 0"

text \<open>The first client of the vector with a socket: its record is changed by \<open>f\<close>.\<close>

fun update_client :: "nat \<Rightarrow> (NetworkClientInfo \<Rightarrow> NetworkClientInfo) \<Rightarrow> nat list
    \<Rightarrow> (nat \<Rightarrow> NetworkClientInfo option) \<Rightarrow> (nat \<Rightarrow> NetworkClientInfo option) defined" where
  "update_client sock f [] m = Some m"
| "update_client sock f (a # as) m = (case m a of
     None \<Rightarrow> None
   | Some ci \<Rightarrow> if info_sock ci = sock then Some (m(a \<mapsto> f ci)) else update_client sock f as m)"

definition ProcessRequest_ClientProtocolVersion :: "nat \<Rightarrow> u32 \<Rightarrow> byte list option \<Rightarrow> server \<Rightarrow> server defined" where
  "ProcessRequest_ClientProtocolVersion sock data_size data s = do {
     v \<leftarrow> (case data of None \<Rightarrow> Some 0
          | Some bs \<Rightarrow> if data_size = 4 then map_option fst (rd_u32 bs 0) else Some 0);
     m \<leftarrow> update_client sock
       (\<lambda>ci. ci\<lparr>client_protocol_version := (if v > OPENRGB_SDK_PROTOCOL_VERSION then OPENRGB_SDK_PROTOCOL_VERSION else v)\<rparr>)
       (ServerClients s) (infos s);
     Some (ClientInfoChanged (s\<lparr>infos := m\<rparr>)) }"

text \<open>\<open>client_string.assign(data, data_size)\<close> keeps the terminating NUL the client sends.\<close>

definition ProcessRequest_ClientString :: "nat \<Rightarrow> u32 \<Rightarrow> byte list \<Rightarrow> server \<Rightarrow> server defined" where
  "ProcessRequest_ClientString sock data_size bs s = do {
     (str, p) \<leftarrow> rd_bytes (unat data_size) bs 0;
     m \<leftarrow> update_client sock (\<lambda>ci. ci\<lparr>client_string := str\<rparr>) (ServerClients s) (infos s);
     Some (ClientInfoChanged (s\<lparr>infos := m\<rparr>)) }"

section \<open>What the server sends\<close>

definition send_packet :: "nat \<Rightarrow> NetPacketHeader \<Rightarrow> byte list \<Rightarrow> server \<Rightarrow> server" where
  "send_packet sock h bs s = s\<lparr>sent := sent s @ [(sock, header_bytes h @ bs)]\<rparr>"

definition SendReply_ControllerCount :: "nat \<Rightarrow> server \<Rightarrow> server" where
  "SendReply_ControllerCount sock s = send_packet sock (InitNetPacketHeader 0 REQUEST_CONTROLLER_COUNT 4)
     (le_bytes 4 (of_nat (length (controllers s)) :: u32)) s"

text \<open>A description starts with its size: the size to send is read from there.\<close>

definition send_description :: "nat \<Rightarrow> u32 \<Rightarrow> packet_id \<Rightarrow> byte list \<Rightarrow> server \<Rightarrow> server defined" where
  "send_description sock dev_idx i buf s = do {
     (reply_size, p) \<leftarrow> rd_u32 buf 0;
     (bs, p) \<leftarrow> rd_bytes (unat reply_size) buf 0;
     Some (send_packet sock (InitNetPacketHeader dev_idx i reply_size) bs s) }"

definition SendReply_ControllerData :: "world \<Rightarrow> nat \<Rightarrow> u32 \<Rightarrow> u32 \<Rightarrow> server \<Rightarrow> server defined" where
  "SendReply_ControllerData w sock dev_idx pv s =
     (if unat dev_idx < length (controllers s) then do {
        buf \<leftarrow> GetDeviceDescription (junk w) pv (controllers s ! unat dev_idx);
        send_description sock dev_idx REQUEST_CONTROLLER_DATA buf s }
      else Some s)"

definition SendReply_ProtocolVersion :: "nat \<Rightarrow> server \<Rightarrow> server" where
  "SendReply_ProtocolVersion sock s = send_packet sock (InitNetPacketHeader 0 REQUEST_PROTOCOL_VERSION 4)
     (le_bytes 4 OPENRGB_SDK_PROTOCOL_VERSION) s"

definition SendRequest_DeviceListChanged :: "nat \<Rightarrow> server \<Rightarrow> server" where
  "SendRequest_DeviceListChanged sock s = send_packet sock (InitNetPacketHeader 0 DEVICE_LIST_UPDATED 0) [] s"

text \<open>To every client of the vector.\<close>

definition DeviceListChanged :: "server \<Rightarrow> server defined" where
  "DeviceListChanged s = fold_def (\<lambda>a s. do {
     ci \<leftarrow> infos s a;
     Some (SendRequest_DeviceListChanged (info_sock ci) s) }) (ServerClients s) s"

definition profile_list_size :: "cstring list \<Rightarrow> u32" where
  "profile_list_size ns = 4 + 2 + sum_list (map (\<lambda>n. 2 + (of_nat (length (c_str n)) + 1)) (counted ns))"

definition GetProfileListDescription :: "(nat \<Rightarrow> byte) \<Rightarrow> cstring list \<Rightarrow> byte list defined" where
  "GetProfileListDescription jk ns = run_writer jk (profile_list_size ns)
     ([put_u32 (profile_list_size ns), put_u16 (count16 ns)] @ concat (map string_writes (counted ns)))"

definition SendReply_ProfileList :: "world \<Rightarrow> nat \<Rightarrow> server \<Rightarrow> server defined" where
  "SendReply_ProfileList w sock s = (if profile_manager s then do {
       buf \<leftarrow> GetProfileListDescription (junk w) (profile_list w);
       send_description sock 0 REQUEST_PROFILE_LIST buf s }
     else Some s)"

definition plugin_size :: "NetworkPlugin \<Rightarrow> u32" where
  "plugin_size p = 2 * 3 + (of_nat (length (c_str (plugin_name p))) + 1)
     + (of_nat (length (c_str (plugin_description p))) + 1)
     + (of_nat (length (c_str (plugin_version p))) + 1) + 4 * 2"

definition plugin_list_size :: "NetworkPlugin list \<Rightarrow> u32" where
  "plugin_list_size ps = 4 + 2 + sum_list (map plugin_size (counted ps))"

definition plugin_writes :: "nat \<Rightarrow> NetworkPlugin \<Rightarrow> wact list" where
  "plugin_writes i p = string_writes (plugin_name p) @ string_writes (plugin_description p)
     @ string_writes (plugin_version p) @ [put_u32 (of_nat i), put_u32 (plugin_protocol_version p)]"

definition plugin_list_writes :: "NetworkPlugin list \<Rightarrow> wact list" where
  "plugin_list_writes ps = [put_u32 (plugin_list_size ps), put_u16 (count16 ps)]
     @ concat (map (\<lambda>(i, p). plugin_writes i p) (zip [0..<length (counted ps)] (counted ps)))"

definition SendReply_PluginList :: "world \<Rightarrow> nat \<Rightarrow> server \<Rightarrow> server defined" where
  "SendReply_PluginList w sock s = do {
     buf \<leftarrow> run_writer (junk w) (plugin_list_size (plugins s)) (plugin_list_writes (plugins s));
     send_description sock 0 REQUEST_PLUGIN_LIST buf s }"

definition SendReply_PluginSpecific :: "nat \<Rightarrow> u32 \<Rightarrow> byte list \<Rightarrow> u32 \<Rightarrow> server \<Rightarrow> server defined" where
  "SendReply_PluginSpecific sock pkt_type out data_size s = do {
     (bs, p) \<leftarrow> rd_bytes (unat data_size) out 0;
     Some (send_packet sock (InitNetPacketHeader 0 PLUGIN_SPECIFIC (data_size + 4)) (le_bytes 4 pkt_type @ bs) s) }"

definition RegisterPlugin :: "NetworkPlugin \<Rightarrow> server \<Rightarrow> server" where
  "RegisterPlugin p s = s\<lparr>plugins := plugins s @ [p]\<rparr>"

fun remove_plugin :: "cstring \<Rightarrow> NetworkPlugin list \<Rightarrow> NetworkPlugin list" where
  "remove_plugin n [] = []"
| "remove_plugin n (p # ps) = (if plugin_name p = n then ps else p # remove_plugin n ps)"

definition UnregisterPlugin :: "cstring \<Rightarrow> server \<Rightarrow> server" where
  "UnregisterPlugin n s = s\<lparr>plugins := remove_plugin n (plugins s)\<rparr>"

section \<open>Requests\<close>

text \<open>
  A request for the device \<open>dev_idx\<close>: only with an index below the number of devices. \<open>call_device\<close> is
  a call of one of its virtual functions.
\<close>

definition call_device :: "world \<Rightarrow> nat \<Rightarrow> dev_call \<Rightarrow> server \<Rightarrow> server defined" where
  "call_device w i dc s = do {
     c \<leftarrow> nth_def (controllers s) i;
     c' \<leftarrow> device w i dc c;
     Some (effect (Called i dc) (s\<lparr>controllers := (controllers s)[i := c']\<rparr>)) }"

definition change_device :: "nat \<Rightarrow> (controller \<Rightarrow> controller defined) \<Rightarrow> server \<Rightarrow> server defined" where
  "change_device i f s = do {
     c \<leftarrow> nth_def (controllers s) i;
     c' \<leftarrow> f c;
     Some (s\<lparr>controllers := (controllers s)[i := c']\<rparr>) }"

definition with_device :: "NetPacketHeader \<Rightarrow> (nat \<Rightarrow> server \<Rightarrow> server defined) \<Rightarrow> server \<Rightarrow> server defined" where
  "with_device h f s = (if unat (pkt_dev_idx h) < length (controllers s) then f (unat (pkt_dev_idx h)) s else Some s)"

text \<open>\<open>profile_manager->SaveProfile(name, sizes)\<close>; the pointer is null until \<open>SetProfileManager\<close>.\<close>

definition save_profile :: "cstring \<Rightarrow> bool \<Rightarrow> server \<Rightarrow> server defined" where
  "save_profile n sizes s = (if profile_manager s then Some (effect (Saved_profile n sizes) s) else None)"

text \<open>
  \<open>(header.pkt_size == *((unsigned int*)data)) || ((client_info->client_protocol_version <= 4) &&
  legacy_workaround_enabled)\<close>: the first four bytes of the data are read whatever its size, and
  \<open>client_info\<close> only when they do not match.
\<close>

definition size_accepted :: "nat \<Rightarrow> NetPacketHeader \<Rightarrow> byte list \<Rightarrow> server \<Rightarrow> bool defined" where
  "size_accepted a h bs s = do {
     (n, p) \<leftarrow> rd_u32 bs 0;
     if pkt_size h = n then Some True
     else do { ci \<leftarrow> infos s a; Some (client_protocol_version ci \<le> 4 \<and> legacy_workaround_enabled s) } }"

text \<open>A request that carries a size: what to do when it is accepted, and whether to close when it is not.\<close>

definition sized_request :: "bool \<Rightarrow> nat \<Rightarrow> NetPacketHeader \<Rightarrow> byte list
    \<Rightarrow> (nat \<Rightarrow> server \<Rightarrow> server defined) \<Rightarrow> server \<Rightarrow> (server \<times> bool) defined" where
  "sized_request close a h bs f s = do {
     ok \<leftarrow> size_accepted a h bs s;
     if ok then map_option (\<lambda>s. (s, False)) (with_device h f s) else Some (s, close) }"

abbreviation go_on :: "server defined \<Rightarrow> (server \<times> bool) defined" where
  "go_on \<equiv> map_option (\<lambda>s. (s, False))"

definition request_data :: "world \<Rightarrow> nat \<Rightarrow> NetPacketHeader \<Rightarrow> byte list option \<Rightarrow> server \<Rightarrow> server defined" where
  "request_data w sock h data s = do {
     pv \<leftarrow> (if pkt_size h = 4
            then (case data of None \<Rightarrow> None | Some bs \<Rightarrow> map_option fst (rd_u32 bs 0)) else Some 0);
     SendReply_ControllerData w sock (pkt_dev_idx h) pv s }"

definition request_resize :: "world \<Rightarrow> NetPacketHeader \<Rightarrow> byte list \<Rightarrow> server \<Rightarrow> server defined" where
  "request_resize w h bs s = with_device h (\<lambda>i s. if pkt_size h = 2 * 4 then do {
       (zone, p) \<leftarrow> rd_u32 bs 0;
       (new_size, p) \<leftarrow> rd_u32 bs 4;
       s \<leftarrow> call_device w i (Dev_ResizeZone zone new_size) s;
       save_profile (str8 ''sizes'') True s } else Some s) s"

definition request_leds :: "world \<Rightarrow> nat \<Rightarrow> NetPacketHeader \<Rightarrow> byte list \<Rightarrow> server \<Rightarrow> (server \<times> bool) defined" where
  "request_leds w a h bs s = sized_request True a h bs (\<lambda>i s. do {
     s \<leftarrow> change_device i (SetColorDescription bs) s;
     call_device w i Dev_UpdateLEDs s }) s"

definition request_zone_leds :: "world \<Rightarrow> nat \<Rightarrow> NetPacketHeader \<Rightarrow> byte list \<Rightarrow> server \<Rightarrow> (server \<times> bool) defined" where
  "request_zone_leds w a h bs s = sized_request True a h bs (\<lambda>i s. do {
     (zone, p) \<leftarrow> rd_u32 bs 4;
     s \<leftarrow> change_device i (SetZoneColorDescription bs) s;
     s \<leftarrow> call_device w i Dev_EnsureInitialized s;
     call_device w i (Dev_UpdateZoneLEDs zone) s }) s"

definition request_single_led :: "world \<Rightarrow> NetPacketHeader \<Rightarrow> byte list \<Rightarrow> server \<Rightarrow> (server \<times> bool) defined" where
  "request_single_led w h bs s = (if pkt_size h = 4 + 4 then go_on (with_device h (\<lambda>i s. do {
       (led, p) \<leftarrow> rd_u32 bs 0;
       s \<leftarrow> change_device i (SetSingleLEDColorDescription bs) s;
       s \<leftarrow> call_device w i Dev_EnsureInitialized s;
       call_device w i (Dev_UpdateSingleLED led) s }) s)
     else Some (s, True))"

text \<open>Storing a mode; only \<open>UpdateMode\<close> closes the connection when the size is wrong.\<close>

definition request_mode :: "world \<Rightarrow> bool \<Rightarrow> dev_call \<Rightarrow> nat \<Rightarrow> NetPacketHeader \<Rightarrow> byte list \<Rightarrow> server \<Rightarrow> (server \<times> bool) defined" where
  "request_mode w close dc a h bs s = sized_request close a h bs (\<lambda>i s. do {
     ci \<leftarrow> infos s a;
     s \<leftarrow> change_device i (SetModeDescription bs (client_protocol_version ci)) s;
     call_device w i dc s }) s"

text \<open>\<open>profile_name.assign(data, header.pkt_size)\<close>.\<close>

definition with_profile_name :: "NetPacketHeader \<Rightarrow> byte list \<Rightarrow> (cstring \<Rightarrow> server \<Rightarrow> server) \<Rightarrow> server \<Rightarrow> server defined" where
  "with_profile_name h bs f s = (if profile_manager s then do {
     (nm, p) \<leftarrow> rd_bytes (unat (pkt_size h)) bs 0;
     Some (f nm s) } else Some s)"

definition do_load_profile :: "world \<Rightarrow> cstring \<Rightarrow> server \<Rightarrow> server" where
  "do_load_profile w nm s = effect (Loaded_profile nm) (s\<lparr>controllers := load_profile w nm (controllers s)\<rparr>)"

definition request_load_profile :: "world \<Rightarrow> NetPacketHeader \<Rightarrow> byte list \<Rightarrow> server \<Rightarrow> server defined" where
  "request_load_profile w h bs s = do {
     s \<leftarrow> with_profile_name h bs (do_load_profile w) s;
     fold_def (\<lambda>i. call_device w i Dev_UpdateLEDs) [0..<length (controllers s)] s }"

text \<open>The data pointer of this request is not tested, and its size is taken to be at least 4.\<close>

definition request_plugin :: "nat \<Rightarrow> NetPacketHeader \<Rightarrow> byte list option \<Rightarrow> server \<Rightarrow> server defined" where
  "request_plugin sock h data s = do {
     bs \<leftarrow> data;
     (plugin_pkt_type, p) \<leftarrow> rd_u32 bs 0;
     if unat (pkt_dev_idx h) < length (plugins s) then
       (case plugin_callback (plugins s ! unat (pkt_dev_idx h)) plugin_pkt_type (drop 4 bs) (pkt_size h - 4) of
          (None, _) \<Rightarrow> Some s
        | (Some out, n) \<Rightarrow> SendReply_PluginSpecific sock plugin_pkt_type out n s)
     else Some s }"

definition request_clear_segments :: "NetPacketHeader \<Rightarrow> byte list \<Rightarrow> server \<Rightarrow> server defined" where
  "request_clear_segments h bs s = with_device h (\<lambda>i s. if pkt_size h = 4 then do {
       (zone, p) \<leftarrow> rd_u32 bs 0;
       s \<leftarrow> change_device i (ClearSegments (size_t_of_int zone)) s;
       save_profile (str8 ''sizes'') True s } else Some s) s"

text \<open>Nor is the data pointer tested here.\<close>

definition request_add_segment :: "NetPacketHeader \<Rightarrow> byte list option \<Rightarrow> server \<Rightarrow> server defined" where
  "request_add_segment h data s = do {
     bs \<leftarrow> data;
     (n, p) \<leftarrow> rd_u32 bs 0;
     if pkt_size h = n then with_device h (\<lambda>i s. do {
       s \<leftarrow> change_device i (SetSegmentDescription bs) s;
       save_profile (str8 ''sizes'') True s }) s
     else Some s }"

text \<open>A case that begins with \<open>if(data == NULL) break;\<close>.\<close>

definition when_data :: "byte list option \<Rightarrow> (byte list \<Rightarrow> server \<Rightarrow> (server \<times> bool) defined)
    \<Rightarrow> server \<Rightarrow> (server \<times> bool) defined" where
  "when_data data f s = (case data of None \<Rightarrow> Some (s, False) | Some bs \<Rightarrow> f bs s)"

text \<open>
  The packet of the client with the record \<open>a\<close> and the socket \<open>sock\<close>. The result tells whether the
  listener closes the connection.
\<close>

definition dispatch :: "world \<Rightarrow> nat \<Rightarrow> nat \<Rightarrow> NetPacketHeader \<Rightarrow> byte list option \<Rightarrow> server \<Rightarrow> (server \<times> bool) defined" where
  "dispatch w a sock h data s = (case id_of (pkt_id h) of
     None \<Rightarrow> Some (s, False)
   | Some i \<Rightarrow> (case i of
       REQUEST_CONTROLLER_COUNT \<Rightarrow> Some (SendReply_ControllerCount sock s, False)
     | REQUEST_CONTROLLER_DATA \<Rightarrow> go_on (request_data w sock h data s)
     | REQUEST_PROTOCOL_VERSION \<Rightarrow>
         go_on (ProcessRequest_ClientProtocolVersion sock (pkt_size h) data (SendReply_ProtocolVersion sock s))
     | SET_CLIENT_NAME \<Rightarrow> when_data data (\<lambda>bs s. go_on (ProcessRequest_ClientString sock (pkt_size h) bs s)) s
     | REQUEST_RESCAN_DEVICES \<Rightarrow> Some (effect Rescanned (s\<lparr>controllers := rescan w (controllers s)\<rparr>), False)
     | RESIZEZONE \<Rightarrow> when_data data (\<lambda>bs s. go_on (request_resize w h bs s)) s
     | UPDATELEDS \<Rightarrow> when_data data (request_leds w a h) s
     | UPDATEZONELEDS \<Rightarrow> when_data data (request_zone_leds w a h) s
     | UPDATESINGLELED \<Rightarrow> when_data data (request_single_led w h) s
     | SETCUSTOMMODE \<Rightarrow> go_on (with_device h (\<lambda>i. call_device w i Dev_SetCustomMode) s)
     | UPDATEMODE \<Rightarrow> when_data data (request_mode w True Dev_UpdateMode a h) s
     | SAVEMODE \<Rightarrow> when_data data (request_mode w False Dev_SaveMode a h) s
     | REQUEST_PROFILE_LIST \<Rightarrow> go_on (SendReply_ProfileList w sock s)
     | REQUEST_SAVE_PROFILE \<Rightarrow> when_data data
         (\<lambda>bs s. go_on (with_profile_name h bs (\<lambda>nm. effect (Saved_profile nm False)) s)) s
     | REQUEST_LOAD_PROFILE \<Rightarrow> when_data data (\<lambda>bs s. go_on (request_load_profile w h bs s)) s
     | REQUEST_DELETE_PROFILE \<Rightarrow> when_data data
         (\<lambda>bs s. go_on (with_profile_name h bs (\<lambda>nm. effect (Deleted_profile nm)) s)) s
     | REQUEST_PLUGIN_LIST \<Rightarrow> go_on (SendReply_PluginList w sock s)
     | PLUGIN_SPECIFIC \<Rightarrow> go_on (request_plugin sock h data s)
     | CLEARSEGMENTS \<Rightarrow> when_data data (\<lambda>bs s. go_on (request_clear_segments h bs s)) s
     | ADDSEGMENT \<Rightarrow> go_on (request_add_segment h data s)
     | DEVICE_LIST_UPDATED \<Rightarrow> Some (s, False)))"

section \<open>Connections\<close>

text \<open>
  \<open>listeners\<close> are the running listener threads, each with its \<open>client_info\<close> and its socket.
\<close>

record net_system =
  srv :: server
  listeners :: "(nat \<times> nat) list"

datatype net_event = Accept nat nat cstring | Packet nat nat NetPacketHeader "byte list option"
  | Hang_up nat nat | Stop | Start

text \<open>
  \<open>new\<close> returns an address that is not in use, \<open>accept\<close> a socket no open connection has. The thread
  loops only run while the server is online.
\<close>

fun possible :: "net_event \<Rightarrow> net_system \<Rightarrow> bool" where
  "possible (Accept a sock ip) \<sigma> \<longleftrightarrow> server_online (srv \<sigma>) \<and> infos (srv \<sigma>) a = None \<and>
     (\<forall>ci \<in> ran (infos (srv \<sigma>)). info_sock ci \<noteq> sock)"
| "possible (Packet a sock h data) \<sigma> \<longleftrightarrow> server_online (srv \<sigma>) \<and> (a, sock) \<in> set (listeners \<sigma>)"
| "possible (Hang_up a sock) \<sigma> \<longleftrightarrow> (a, sock) \<in> set (listeners \<sigma>)"
| "possible Stop \<sigma> \<longleftrightarrow> True"
| "possible Start \<sigma> \<longleftrightarrow> \<not> server_online (srv \<sigma>)"

text \<open>The connection thread: store the client in the vector and start its listener.\<close>

definition accept_client :: "nat \<Rightarrow> nat \<Rightarrow> cstring \<Rightarrow> net_system \<Rightarrow> net_system" where
  "accept_client a sock ip \<sigma> = (let s = srv \<sigma> in
     \<lparr>srv = ClientInfoChanged (s\<lparr>infos := (infos s)(a \<mapsto> new_client_info sock ip), ServerClients := ServerClients s @ [a]\<rparr>),
      listeners = listeners \<sigma> @ [(a, sock)]\<rparr>)"

text \<open>\<open>delete\<close>: freeing what is not allocated is undefined.\<close>

definition delete_info :: "nat \<Rightarrow> server \<Rightarrow> server defined" where
  "delete_info a s = (case infos s a of None \<Rightarrow> None | Some _ \<Rightarrow> Some (s\<lparr>infos := (infos s)(a := None)\<rparr>))"

text \<open>\<open>listen_done\<close>: delete the client, when the vector still has its pointer.\<close>

definition listen_done :: "nat \<Rightarrow> server \<Rightarrow> server defined" where
  "listen_done a s = do {
     s \<leftarrow> (if a \<in> set (ServerClients s) then do {
          s \<leftarrow> delete_info a s;
          Some (s\<lparr>ServerClients := remove1 a (ServerClients s)\<rparr>) }
        else Some s);
     Some (ClientInfoChanged s) }"

definition StopServer :: "server \<Rightarrow> server defined" where
  "StopServer s = do {
     s \<leftarrow> fold_def delete_info (ServerClients s) (s\<lparr>server_online := False\<rparr>);
     Some (ClientInfoChanged (s\<lparr>ServerClients := []\<rparr>)) }"

definition end_listener :: "nat \<Rightarrow> nat \<Rightarrow> net_system \<Rightarrow> net_system defined" where
  "end_listener a sock \<sigma> = do {
     s \<leftarrow> listen_done a (srv \<sigma>);
     Some (\<sigma>\<lparr>srv := s, listeners := remove1 (a, sock) (listeners \<sigma>)\<rparr>) }"

fun perform :: "world \<Rightarrow> net_event \<Rightarrow> net_system \<Rightarrow> net_system defined" where
  "perform w (Accept a sock ip) \<sigma> = Some (accept_client a sock ip \<sigma>)"
| "perform w (Packet a sock h data) \<sigma> = do {
     (s, close) \<leftarrow> dispatch w a sock h data (srv \<sigma>);
     if close then end_listener a sock (\<sigma>\<lparr>srv := s\<rparr>) else Some (\<sigma>\<lparr>srv := s\<rparr>) }"
| "perform w (Hang_up a sock) \<sigma> = end_listener a sock \<sigma>"
| "perform w Stop \<sigma> = map_option (\<lambda>s. \<sigma>\<lparr>srv := s\<rparr>) (StopServer (srv \<sigma>))"
| "perform w Start \<sigma> = Some (\<sigma>\<lparr>srv := (srv \<sigma>)\<lparr>server_online := True\<rparr>\<rparr>)"

text \<open>The states reachable by events of a kind \<open>E\<close>, from a server without clients.\<close>

inductive reachable :: "world \<Rightarrow> (net_event \<Rightarrow> bool) \<Rightarrow> net_system \<Rightarrow> bool" for w E where
  start: "infos (srv \<sigma>) = Map.empty \<Longrightarrow> ServerClients (srv \<sigma>) = [] \<Longrightarrow> listeners \<sigma> = [] \<Longrightarrow> reachable w E \<sigma>"
| step: "reachable w E \<sigma> \<Longrightarrow> E e \<Longrightarrow> possible e \<sigma> \<Longrightarrow> perform w e \<sigma> = Some \<sigma>' \<Longrightarrow> reachable w E \<sigma>'"

end
