(* ===== verification/Net_Client.thy ===== *)
theory Net_Client
  imports Net_Server
begin

text \<open>
  \<open>NetworkClient.cpp\<close> and \<open>RGBController/RGBController_Network.cpp\<close>: the requests a client sends, what it
  does with the replies, and the thread that brings a connection up and collects the devices of the
  server. The steps of the two threads are one pass of the loop of the connection thread (up to its
  wait) and one packet of the listener thread. Callbacks and messages to the console are left out.
\<close>

section \<open>State\<close>

text \<open>\<open>RGBController_Network\<close>: a controller and the index the server knows it by.\<close>

record remote =
  remote_idx :: u32
  remote_ctl :: controller

text \<open>
  \<open>objects\<close> holds the controllers the client allocated, by address; \<open>server_controllers\<close> and \<open>master\<close>
  (the vector \<open>controllers\<close>, shared with the rest of the program) hold addresses. \<open>outbox\<close> is what was
  sent, one entry per packet. \<open>version_wait\<close> is where the connection thread is: \<open>Some n\<close> in the loop
  that waits for the protocol version, with \<open>timeout_counter\<close> \<open>n\<close>, and \<open>None\<close> at the head of its loop.
\<close>

record client =
  client_name :: cstring
  outbox :: "byte list list"
  client_active :: bool
  client_string_sent :: bool
  controller_data_received :: bool
  controller_data_requested :: bool
  protocol_initialized :: bool
  server_connected :: bool
  server_initialized :: bool
  server_controller_count :: u32
  server_controller_count_requested :: bool
  server_controller_count_received :: bool
  server_protocol_version :: u32
  server_protocol_version_received :: bool
  change_in_progress :: bool
  requested_controllers :: u32
  master :: "nat list"
  server_controllers :: "nat list"
  objects :: "nat \<Rightarrow> remote option"
  version_wait :: "nat option"

definition GetProtocolVersion :: "client \<Rightarrow> u32" where
  "GetProtocolVersion c = (if server_protocol_version c > OPENRGB_SDK_PROTOCOL_VERSION
     then OPENRGB_SDK_PROTOCOL_VERSION else server_protocol_version c)"

definition GetOnline :: "client \<Rightarrow> bool" where
  "GetOnline c \<longleftrightarrow> server_connected c \<and> client_string_sent c \<and> protocol_initialized c \<and> server_initialized c"

section \<open>Requests\<close>

definition client_send :: "NetPacketHeader \<Rightarrow> byte list \<Rightarrow> client \<Rightarrow> client" where
  "client_send h bs c = c\<lparr>outbox := outbox c @ [header_bytes h @ bs]\<rparr>"

text \<open>A string is sent with its terminating NUL.\<close>

definition send_string :: "packet_id \<Rightarrow> cstring \<Rightarrow> client \<Rightarrow> client" where
  "send_string i str c = client_send (InitNetPacketHeader 0 i (of_nat (length (c_str str)) + 1)) (c_str str @ [0]) c"

definition SendData_ClientString :: "client \<Rightarrow> client" where
  "SendData_ClientString c = send_string SET_CLIENT_NAME (client_name c) c"

definition SetName :: "cstring \<Rightarrow> client \<Rightarrow> client" where
  "SetName nm c = (let c = c\<lparr>client_name := nm\<rparr> in if server_connected c then SendData_ClientString c else c)"

definition SendRequest_ControllerCount :: "client \<Rightarrow> client" where
  "SendRequest_ControllerCount = client_send (InitNetPacketHeader 0 REQUEST_CONTROLLER_COUNT 0) []"

text \<open>A server without protocol versions gets the request without data.\<close>

definition SendRequest_ControllerData :: "u32 \<Rightarrow> client \<Rightarrow> client" where
  "SendRequest_ControllerData dev_idx c = (let c = c\<lparr>controller_data_received := False\<rparr> in
     if server_protocol_version c = 0 then client_send (InitNetPacketHeader dev_idx REQUEST_CONTROLLER_DATA 0) [] c
     else client_send (InitNetPacketHeader dev_idx REQUEST_CONTROLLER_DATA 4)
       (le_bytes 4 (if server_protocol_version c > OPENRGB_SDK_PROTOCOL_VERSION
          then OPENRGB_SDK_PROTOCOL_VERSION else server_protocol_version c)) c)"

definition SendRequest_ProtocolVersion :: "client \<Rightarrow> client" where
  "SendRequest_ProtocolVersion = client_send (InitNetPacketHeader 0 REQUEST_PROTOCOL_VERSION 4)
     (le_bytes 4 OPENRGB_SDK_PROTOCOL_VERSION)"

definition SendRequest_RescanDevices :: "client \<Rightarrow> client" where
  "SendRequest_RescanDevices c = (if GetProtocolVersion c \<ge> 5
     then client_send (InitNetPacketHeader 0 REQUEST_RESCAN_DEVICES 0) [] c else c)"

text \<open>The requests for a device are dropped while the device list changes.\<close>

definition device_request :: "packet_id \<Rightarrow> u32 \<Rightarrow> byte list \<Rightarrow> u32 \<Rightarrow> client \<Rightarrow> client" where
  "device_request i dev_idx bs n c = (if change_in_progress c then c
     else client_send (InitNetPacketHeader dev_idx i n) bs c)"

definition SendRequest_RGBController_ClearSegments :: "u32 \<Rightarrow> u32 \<Rightarrow> client \<Rightarrow> client" where
  "SendRequest_RGBController_ClearSegments dev_idx zone = device_request CLEARSEGMENTS dev_idx (le_bytes 4 zone) 4"

definition SendRequest_RGBController_AddSegment :: "u32 \<Rightarrow> byte list \<Rightarrow> u32 \<Rightarrow> client \<Rightarrow> client" where
  "SendRequest_RGBController_AddSegment = device_request ADDSEGMENT"

definition SendRequest_RGBController_ResizeZone :: "u32 \<Rightarrow> u32 \<Rightarrow> u32 \<Rightarrow> client \<Rightarrow> client" where
  "SendRequest_RGBController_ResizeZone dev_idx zone new_size =
     device_request RESIZEZONE dev_idx (le_bytes 4 zone @ le_bytes 4 new_size) 8"

definition SendRequest_RGBController_UpdateLEDs :: "u32 \<Rightarrow> byte list \<Rightarrow> u32 \<Rightarrow> client \<Rightarrow> client" where
  "SendRequest_RGBController_UpdateLEDs = device_request UPDATELEDS"

definition SendRequest_RGBController_UpdateZoneLEDs :: "u32 \<Rightarrow> byte list \<Rightarrow> u32 \<Rightarrow> client \<Rightarrow> client" where
  "SendRequest_RGBController_UpdateZoneLEDs = device_request UPDATEZONELEDS"

definition SendRequest_RGBController_UpdateSingleLED :: "u32 \<Rightarrow> byte list \<Rightarrow> u32 \<Rightarrow> client \<Rightarrow> client" where
  "SendRequest_RGBController_UpdateSingleLED = device_request UPDATESINGLELED"

definition SendRequest_RGBController_SetCustomMode :: "u32 \<Rightarrow> client \<Rightarrow> client" where
  "SendRequest_RGBController_SetCustomMode dev_idx = device_request SETCUSTOMMODE dev_idx [] 0"

definition SendRequest_RGBController_UpdateMode :: "u32 \<Rightarrow> byte list \<Rightarrow> u32 \<Rightarrow> client \<Rightarrow> client" where
  "SendRequest_RGBController_UpdateMode = device_request UPDATEMODE"

definition SendRequest_RGBController_SaveMode :: "u32 \<Rightarrow> byte list \<Rightarrow> u32 \<Rightarrow> client \<Rightarrow> client" where
  "SendRequest_RGBController_SaveMode = device_request SAVEMODE"

definition SendRequest_LoadProfile :: "cstring \<Rightarrow> client \<Rightarrow> client" where
  "SendRequest_LoadProfile = send_string REQUEST_LOAD_PROFILE"

definition SendRequest_SaveProfile :: "cstring \<Rightarrow> client \<Rightarrow> client" where
  "SendRequest_SaveProfile = send_string REQUEST_SAVE_PROFILE"

definition SendRequest_DeleteProfile :: "cstring \<Rightarrow> client \<Rightarrow> client" where
  "SendRequest_DeleteProfile = send_string REQUEST_DELETE_PROFILE"

definition SendRequest_GetProfileList :: "client \<Rightarrow> client" where
  "SendRequest_GetProfileList = client_send (InitNetPacketHeader 0 REQUEST_PROFILE_LIST 0) []"

subsection \<open>The operations of a remote controller\<close>

text \<open>
  A description is sent with the size in its first four bytes. \<open>k\<close> is the address of the controller.
\<close>

definition send_own :: "(u32 \<Rightarrow> byte list \<Rightarrow> u32 \<Rightarrow> client \<Rightarrow> client) \<Rightarrow> (controller \<Rightarrow> byte list defined)
    \<Rightarrow> nat \<Rightarrow> client \<Rightarrow> client defined" where
  "send_own request describe k c = do {
     r \<leftarrow> objects c k;
     data \<leftarrow> describe (remote_ctl r);
     (sz, p) \<leftarrow> rd_u32 data 0;
     (bs, p) \<leftarrow> rd_bytes (unat sz) data 0;
     Some (request (remote_idx r) bs sz c) }"

text \<open>After a request that changes the layout the controller asks for its new description.\<close>

definition with_refresh :: "(u32 \<Rightarrow> client \<Rightarrow> client) \<Rightarrow> nat \<Rightarrow> client \<Rightarrow> client defined" where
  "with_refresh request k c = do {
     r \<leftarrow> objects c k;
     Some (SendRequest_ControllerData (remote_idx r) (request (remote_idx r) c)) }"

definition Network_ClearSegments :: "u32 \<Rightarrow> nat \<Rightarrow> client \<Rightarrow> client defined" where
  "Network_ClearSegments zone = with_refresh (\<lambda>i. SendRequest_RGBController_ClearSegments i zone)"

definition Network_AddSegment :: "(nat \<Rightarrow> byte) \<Rightarrow> u32 \<Rightarrow> segment \<Rightarrow> nat \<Rightarrow> client \<Rightarrow> client defined" where
  "Network_AddSegment jk zone s k c = do {
     c \<leftarrow> send_own SendRequest_RGBController_AddSegment (\<lambda>_. GetSegmentDescription jk zone s) k c;
     with_refresh (\<lambda>i c. c) k c }"

definition Network_ResizeZone :: "u32 \<Rightarrow> u32 \<Rightarrow> nat \<Rightarrow> client \<Rightarrow> client defined" where
  "Network_ResizeZone zone new_size = with_refresh (\<lambda>i. SendRequest_RGBController_ResizeZone i zone new_size)"

definition Network_UpdateLEDs :: "(nat \<Rightarrow> byte) \<Rightarrow> nat \<Rightarrow> client \<Rightarrow> client defined" where
  "Network_UpdateLEDs jk = send_own SendRequest_RGBController_UpdateLEDs (GetColorDescription jk)"

definition Network_UpdateZoneLEDs :: "(nat \<Rightarrow> byte) \<Rightarrow> u32 \<Rightarrow> nat \<Rightarrow> client \<Rightarrow> client defined" where
  "Network_UpdateZoneLEDs jk zone = send_own SendRequest_RGBController_UpdateZoneLEDs (GetZoneColorDescription jk zone)"

text \<open>The single LED packet does not carry its size: it is 8.\<close>

definition Network_UpdateSingleLED :: "(nat \<Rightarrow> byte) \<Rightarrow> u32 \<Rightarrow> nat \<Rightarrow> client \<Rightarrow> client defined" where
  "Network_UpdateSingleLED jk led k c = do {
     r \<leftarrow> objects c k;
     data \<leftarrow> GetSingleLEDColorDescription jk led (remote_ctl r);
     Some (SendRequest_RGBController_UpdateSingleLED (remote_idx r) data (4 + 4) c) }"

definition Network_SetCustomMode :: "nat \<Rightarrow> client \<Rightarrow> client defined" where
  "Network_SetCustomMode = with_refresh SendRequest_RGBController_SetCustomMode"

definition Network_DeviceUpdateMode :: "(nat \<Rightarrow> byte) \<Rightarrow> nat \<Rightarrow> client \<Rightarrow> client defined" where
  "Network_DeviceUpdateMode jk k c = send_own SendRequest_RGBController_UpdateMode
     (\<lambda>d. GetModeDescription jk (active_mode d) (GetProtocolVersion c) d) k c"

definition Network_DeviceSaveMode :: "(nat \<Rightarrow> byte) \<Rightarrow> nat \<Rightarrow> client \<Rightarrow> client defined" where
  "Network_DeviceSaveMode jk k c = send_own SendRequest_RGBController_SaveMode
     (\<lambda>d. GetModeDescription jk (active_mode d) (GetProtocolVersion c) d) k c"

section \<open>Replies\<close>

definition ProcessReply_ControllerCount :: "u32 \<Rightarrow> byte list option \<Rightarrow> client \<Rightarrow> client defined" where
  "ProcessReply_ControllerCount data_size data c = (if data_size = 4 then do {
       bs \<leftarrow> data;
       (n, p) \<leftarrow> rd_u32 bs 0;
       Some (c\<lparr>server_controller_count := n, server_controller_count_received := True,
         requested_controllers := 0, controller_data_requested := False\<rparr>) }
     else Some c)"

definition ProcessReply_ProtocolVersion :: "u32 \<Rightarrow> byte list option \<Rightarrow> client \<Rightarrow> client defined" where
  "ProcessReply_ProtocolVersion data_size data c = (if data_size = 4 then do {
       bs \<leftarrow> data;
       (v, p) \<leftarrow> rd_u32 bs 0;
       Some (c\<lparr>server_protocol_version := v, server_protocol_version_received := True\<rparr>) }
     else Some c)"

text \<open>What the constructor of \<open>RGBController\<close> leaves; the reader overwrites the fields it does not set.\<close>

definition new_controller :: controller where
  "new_controller = empty_device"

definition CONTROLLER_FLAG_LOCAL :: u32 where "CONTROLLER_FLAG_LOCAL = 1"
definition CONTROLLER_FLAG_REMOTE :: u32 where "CONTROLLER_FLAG_REMOTE = 2"

definition mark_remote :: "controller \<Rightarrow> controller" where
  "mark_remote d = d\<lparr>flags := (flags d AND NOT CONTROLLER_FLAG_LOCAL) OR CONTROLLER_FLAG_REMOTE\<rparr>"

text \<open>
  A description of a device the client has already: the zones it has are filled from the new ones of the
  same index, which must exist.
\<close>

definition merge_zone :: "controller \<Rightarrow> nat \<Rightarrow> controller \<Rightarrow> controller defined" where
  "merge_zone new i d = do {
     z \<leftarrow> nth_def (zones d) i;
     z' \<leftarrow> nth_def (zones new) i;
     Some (d\<lparr>zones := (zones d)[i := z\<lparr>zone_leds_count := zone_leds_count z', zone_segments := zone_segments z'\<rparr>]\<rparr>) }"

definition merge_controller :: "controller \<Rightarrow> controller \<Rightarrow> controller defined" where
  "merge_controller new d = do {
     d \<leftarrow> fold_def (merge_zone new) [0..<length (zones d)]
       (d\<lparr>active_mode := active_mode new, leds := leds new, colors := colors new\<rparr>);
     Some (SetupColors d) }"

text \<open>\<open>alloc\<close> is where \<open>new\<close> puts the controller. It is deleted again when the device was known.\<close>

definition ProcessReply_ControllerData :: "(client \<Rightarrow> nat) \<Rightarrow> u32 \<Rightarrow> byte list option \<Rightarrow> u32 \<Rightarrow> client \<Rightarrow> client defined" where
  "ProcessReply_ControllerData alloc data_size data dev_idx c = do {
     bs \<leftarrow> data;
     (n, p) \<leftarrow> rd_u32 bs 0;
     if data_size = n then do {
       d \<leftarrow> ReadDeviceDescription bs (GetProtocolVersion c) new_controller;
       let d = mark_remote d;
       if unat dev_idx \<ge> length (server_controllers c)
       then Some (c\<lparr>objects := (objects c)(alloc c \<mapsto> \<lparr>remote_idx = dev_idx, remote_ctl = d\<rparr>),
              server_controllers := server_controllers c @ [alloc c], controller_data_received := True\<rparr>)
       else do {
         r \<leftarrow> objects c (server_controllers c ! unat dev_idx);
         m \<leftarrow> merge_controller d (remote_ctl r);
         Some (c\<lparr>objects := (objects c)(server_controllers c ! unat dev_idx \<mapsto> r\<lparr>remote_ctl := m\<rparr>),
           controller_data_received := True\<rparr>) } }
     else Some c }"

text \<open>
  Removing the controllers of the server: the first occurrence of each in the shared vector is erased,
  then all are deleted.
\<close>

definition delete_object :: "nat \<Rightarrow> client \<Rightarrow> client defined" where
  "delete_object k c = (case objects c k of None \<Rightarrow> None | Some _ \<Rightarrow> Some (c\<lparr>objects := (objects c)(k := None)\<rparr>))"

definition drop_server_controllers :: "client \<Rightarrow> client defined" where
  "drop_server_controllers c = fold_def delete_object (server_controllers c)
     (c\<lparr>master := fold remove1 (server_controllers c) (master c), server_controllers := []\<rparr>)"

definition ProcessRequest_DeviceListChanged :: "client \<Rightarrow> client defined" where
  "ProcessRequest_DeviceListChanged c = do {
     c \<leftarrow> drop_server_controllers (c\<lparr>change_in_progress := True\<rparr>);
     Some (c\<lparr>controller_data_requested := False, controller_data_received := False, requested_controllers := 0,
       server_controller_count := 0, server_controller_count_requested := False,
       server_controller_count_received := False, server_initialized := False, change_in_progress := False\<rparr>) }"

text \<open>
  The reply to \<open>SendRequest_GetProfileList\<close>. Every read is at the start of the data: \<open>data_ptr\<close> is
  computed but not used.
\<close>

definition ProcessReply_ProfileList :: "u32 \<Rightarrow> byte list \<Rightarrow> client \<Rightarrow> (client \<times> cstring list) defined" where
  "ProcessReply_ProfileList data_size bs c = (if data_size > 0 then do {
       (num_profile, p) \<leftarrow> rd_u16 bs 0;
       names \<leftarrow> those (map (\<lambda>i. do {
         (name_len, p) \<leftarrow> rd_u16 bs 0;
         (nm, p) \<leftarrow> rd_bytes (unat name_len) bs 0;
         Some nm }) [0..<unat num_profile]);
       Some (c\<lparr>server_controller_count_received := True\<rparr>, replicate (unat data_size) [] @ names) }
     else Some (c, []))"

section \<open>The threads\<close>

definition client_dispatch :: "(client \<Rightarrow> nat) \<Rightarrow> NetPacketHeader \<Rightarrow> byte list option \<Rightarrow> client \<Rightarrow> (client \<times> bool) defined" where
  "client_dispatch alloc h data c = map_option (\<lambda>c. (c, False)) (case id_of (pkt_id h) of
     Some REQUEST_CONTROLLER_COUNT \<Rightarrow> ProcessReply_ControllerCount (pkt_size h) data c
   | Some REQUEST_CONTROLLER_DATA \<Rightarrow> ProcessReply_ControllerData alloc (pkt_size h) data (pkt_dev_idx h) c
   | Some REQUEST_PROTOCOL_VERSION \<Rightarrow> ProcessReply_ProtocolVersion (pkt_size h) data c
   | Some DEVICE_LIST_UPDATED \<Rightarrow> ProcessRequest_DeviceListChanged c
   | _ \<Rightarrow> Some c)"

text \<open>\<open>listen_done\<close> of the client. The version of the server stays known.\<close>

definition client_listen_done :: "client \<Rightarrow> client defined" where
  "client_listen_done c = drop_server_controllers (c\<lparr>client_string_sent := False, controller_data_requested := False,
     controller_data_received := False, protocol_initialized := False, requested_controllers := 0,
     server_controller_count := 0, server_controller_count_requested := False,
     server_controller_count_received := False, server_initialized := False, server_connected := False\<rparr>)"

text \<open>\<open>StopClient\<close> waits for the listener, which ends because the client is no longer connected.\<close>

definition StopClient :: "client \<Rightarrow> client defined" where
  "StopClient c = client_listen_done (c\<lparr>client_active := False, server_connected := False\<rparr>)"

definition add_to_master :: "client \<Rightarrow> client" where
  "add_to_master c = c\<lparr>master := master c @ server_controllers c, server_initialized := True\<rparr>"

text \<open>One pass over \<open>if(!server_initialized)\<close>.\<close>

definition request_devices :: "client \<Rightarrow> client" where
  "request_devices c =
     (if \<not> server_controller_count_requested c
      then (SendRequest_ControllerCount c)\<lparr>server_controller_count_requested := True\<rparr>
      else if \<not> server_controller_count_received c then c
      else if requested_controllers c < server_controller_count c then
        (let c = (if \<not> controller_data_requested c
             then (SendRequest_ControllerData (requested_controllers c) c)\<lparr>controller_data_requested := True\<rparr> else c)
         in if controller_data_received c
            then c\<lparr>requested_controllers := requested_controllers c + 1, controller_data_requested := False\<rparr> else c)
      else add_to_master c)"

definition initialize_connection :: "client \<Rightarrow> client" where
  "initialize_connection c =
     (let c = (if \<not> client_string_sent c then (SendData_ClientString c)\<lparr>client_string_sent := True\<rparr> else c)
      in if \<not> server_initialized c then request_devices c else c)"

text \<open>The condition of the \<open>while\<close> that waits for the version: wait again, or go on.\<close>

definition test_version :: "nat \<Rightarrow> client \<Rightarrow> client" where
  "test_version n c = (if server_protocol_version_received c
     then initialize_connection (c\<lparr>protocol_initialized := True, version_wait := None\<rparr>)
     else c\<lparr>version_wait := Some n\<rparr>)"

definition wake_up :: "nat \<Rightarrow> client \<Rightarrow> client" where
  "wake_up n c =
     (if \<not> client_active c then initialize_connection (c\<lparr>protocol_initialized := True, version_wait := None\<rparr>)
      else test_version (n + 1) (if n + 1 > 200
        then c\<lparr>server_protocol_version := 0, server_protocol_version_received := True\<rparr> else c))"

text \<open>\<open>connects\<close> tells whether \<open>tcp_client_connect\<close> succeeds.\<close>

definition connect :: "bool \<Rightarrow> client \<Rightarrow> client" where
  "connect connects c = (if \<not> server_connected c
     then (if connects then c\<lparr>server_initialized := False, server_connected := True\<rparr> else c\<lparr>server_initialized := False\<rparr>)
     else c)"

definition conn_step :: "bool \<Rightarrow> client \<Rightarrow> client" where
  "conn_step connects c = (case version_wait c of
     Some n \<Rightarrow> wake_up n c
   | None \<Rightarrow> if client_active c then
       (let c = connect connects c in
        if (\<not> protocol_initialized c \<or> \<not> client_string_sent c \<or> \<not> server_initialized c) \<and> server_connected c
        then (if \<not> protocol_initialized c then test_version 0 (SendRequest_ProtocolVersion c) else initialize_connection c)
        else c)
     else c)"

subsection \<open>Any server\<close>

datatype client_event = Connection_thread bool | Received_packet NetPacketHeader "byte list option"
  | Listener_done | Client_stopped

text \<open>The listener runs while the client is connected.\<close>

fun client_possible :: "client_event \<Rightarrow> client \<Rightarrow> bool" where
  "client_possible (Received_packet h data) c \<longleftrightarrow> server_connected c"
| "client_possible (Connection_thread connects) c \<longleftrightarrow> True"
| "client_possible Listener_done c \<longleftrightarrow> True"
| "client_possible Client_stopped c \<longleftrightarrow> True"

fun client_step :: "(client \<Rightarrow> nat) \<Rightarrow> client_event \<Rightarrow> client \<Rightarrow> client defined" where
  "client_step alloc (Connection_thread connects) c = Some (conn_step connects c)"
| "client_step alloc (Received_packet h data) c = map_option fst (client_dispatch alloc h data c)"
| "client_step alloc Listener_done c = client_listen_done c"
| "client_step alloc Client_stopped c = StopClient c"

definition new_client :: "cstring \<Rightarrow> nat list \<Rightarrow> client" where
  "new_client nm others = \<lparr>client_name = nm, outbox = [], client_active = True, client_string_sent = False,
     controller_data_received = False, controller_data_requested = False, protocol_initialized = False,
     server_connected = False, server_initialized = False, server_controller_count = 0,
     server_controller_count_requested = False, server_controller_count_received = False,
     server_protocol_version = 0, server_protocol_version_received = False, change_in_progress = False,
     requested_controllers = 0, master = others, server_controllers = [], objects = Map.empty, version_wait = None\<rparr>"

inductive client_reachable :: "(client \<Rightarrow> nat) \<Rightarrow> nat set \<Rightarrow> client \<Rightarrow> bool" for alloc F where
  init: "set others = F \<Longrightarrow> client_reachable alloc F (new_client nm others)"
| step: "client_reachable alloc F c \<Longrightarrow> client_possible e c \<Longrightarrow> client_step alloc e c = Some c' \<Longrightarrow>
    client_reachable alloc F c'"

end
