(* ===== verification/Net_Server_Props.thy ===== *)
theory Net_Server_Props
  imports Net_Server
begin

text \<open>
  What a packet can and cannot do to the server: it touches the device it names and the record of its own
  connection only; the versions of the clients stay within what the server speaks; the record of a
  connection lives as long as its listener, until the server is stopped and started again. Then the
  packets that read outside their data.
\<close>

section \<open>A server to start from\<close>

definition quiet_world :: world where
  "quiet_world = \<lparr>device = \<lambda>i dc c. Some c, load_profile = \<lambda>nm cs. cs, rescan = \<lambda>cs. cs, profile_list = [], junk = \<lambda>_. 0\<rparr>"

definition idle_server :: "controller list \<Rightarrow> server" where
  "idle_server cs = \<lparr>controllers = cs, infos = Map.empty, ServerClients = [], plugins = [], profile_manager = True,
     legacy_workaround_enabled = False, server_online = True, sent = [], effects = []\<rparr>"

definition idle_system :: "controller list \<Rightarrow> net_system" where
  "idle_system cs = \<lparr>srv = idle_server cs, listeners = []\<rparr>"

lemma reachable_idle: "reachable w E (idle_system cs)"
  by (rule reachable.start) (simp_all add: idle_system_def idle_server_def)

fun run_events :: "world \<Rightarrow> net_event list \<Rightarrow> net_system \<Rightarrow> net_system defined" where
  "run_events w [] \<sigma> = Some \<sigma>"
| "run_events w (e # es) \<sigma> = (if possible e \<sigma> then Option.bind (perform w e \<sigma>) (run_events w es) else None)"

lemma run_events_reachable:
  "run_events w es \<sigma> = Some \<sigma>' \<Longrightarrow> reachable w E \<sigma> \<Longrightarrow> list_all E es \<Longrightarrow> reachable w E \<sigma>'"
  by (induction es arbitrary: \<sigma>) (auto split: Option.bind_splits if_splits intro: reachable.step)

section \<open>What a packet changes\<close>

text \<open>
  Everything but device \<open>d\<close>, the records with the socket \<open>sock\<close> and what is sent to \<open>sock\<close> is as before.
\<close>

definition info_kept :: "nat \<Rightarrow> NetworkClientInfo option \<Rightarrow> NetworkClientInfo option \<Rightarrow> bool" where
  "info_kept sock i i' \<longleftrightarrow> i' = i \<or> (\<exists>ci ci'. i = Some ci \<and> i' = Some ci' \<and> info_sock ci = sock \<and> info_sock ci' = sock \<and>
     (client_protocol_version ci' = client_protocol_version ci \<or> client_protocol_version ci' \<le> OPENRGB_SDK_PROTOCOL_VERSION))"

definition touches_only :: "nat \<Rightarrow> nat \<Rightarrow> server \<Rightarrow> server \<Rightarrow> bool" where
  "touches_only sock d s s' \<longleftrightarrow>
     ServerClients s' = ServerClients s \<and> plugins s' = plugins s \<and> profile_manager s' = profile_manager s \<and>
     legacy_workaround_enabled s' = legacy_workaround_enabled s \<and> server_online s' = server_online s \<and>
     length (controllers s') = length (controllers s) \<and>
     (\<forall>i. i \<noteq> d \<longrightarrow> controllers s' ! i = controllers s ! i) \<and>
     (\<forall>a. info_kept sock (infos s a) (infos s' a)) \<and>
     (\<exists>ps. sent s' = sent s @ map (Pair sock) ps)"

lemma info_kept_refl [simp]: "info_kept sock i i"
  by (simp add: info_kept_def)

lemma info_kept_trans: "info_kept sock i j \<Longrightarrow> info_kept sock j k \<Longrightarrow> info_kept sock i k"
  unfolding info_kept_def by (metis option.inject)

lemma touches_refl [simp]: "touches_only sock d s s"
  by (simp add: touches_only_def)

lemma touches_trans: 
  assumes "touches_only sock d s t" "touches_only sock d t u"
  shows "touches_only sock d s u"
proof -
  obtain ps qs where "sent t = sent s @ map (Pair sock) ps" "sent u = sent t @ map (Pair sock) qs"
    using assms by (auto simp: touches_only_def)
  then have "sent u = sent s @ map (Pair sock) (ps @ qs)" by simp
  then have "\<exists>ps. sent u = sent s @ map (Pair sock) ps" by blast
  moreover have "info_kept sock (infos s a) (infos u a)" for a
    using assms info_kept_trans by (fastforce simp: touches_only_def)
  ultimately show ?thesis using assms unfolding touches_only_def by simp
qed

lemma touches_effect [simp]: "touches_only sock d s (effect e t) = touches_only sock d s t"
  by (simp add: touches_only_def effect_def)

lemma touches_ClientInfoChanged [simp]: "touches_only sock d s (ClientInfoChanged t) = touches_only sock d s t"
  by (simp add: ClientInfoChanged_def)

lemma touches_send: "touches_only sock d s (send_packet sock h bs s)"
  unfolding touches_only_def send_packet_def
  by (simp add: info_kept_def) (rule exI [of _ "[header_bytes h @ bs]"], simp)

lemma update_client_kept:
  "update_client sock f as m = Some m' \<Longrightarrow>
   m' a = m a \<or> (\<exists>ci. m a = Some ci \<and> info_sock ci = sock \<and> m' a = Some (f ci))"
  by (induction as) (auto split: option.splits if_splits)

lemma touches_update_client:
  assumes "update_client sock f (ServerClients s) (infos s) = Some m"
    and "\<And>ci. info_sock (f ci) = info_sock ci"
    and "\<And>ci. client_protocol_version (f ci) = client_protocol_version ci \<or>
      client_protocol_version (f ci) \<le> OPENRGB_SDK_PROTOCOL_VERSION"
  shows "touches_only sock d s (s\<lparr>infos := m\<rparr>)"
proof -
  have "info_kept sock (infos s a) (m a)" for a
    using update_client_kept [OF assms(1), of a] assms(2,3) by (auto simp: info_kept_def)
  then show ?thesis by (simp add: touches_only_def)
qed

lemma touches_description:
  "send_description sock dev i buf s = Some s' \<Longrightarrow> touches_only sock d s s'"
  by (auto simp: send_description_def touches_send split: Option.bind_splits)

lemma touches_change: "change_device d f s = Some s' \<Longrightarrow> touches_only sock d s s'"
  by (auto simp: change_device_def touches_only_def nth_list_update split: Option.bind_splits)

lemma touches_call: "call_device w d dc s = Some s' \<Longrightarrow> touches_only sock d s s'"
  by (auto simp: call_device_def touches_only_def effect_def nth_list_update split: Option.bind_splits)

lemma touches_save: "save_profile n b s = Some s' \<Longrightarrow> touches_only sock d s s'"
  by (auto simp: save_profile_def split: if_splits)

lemma touches_device:
  assumes "with_device h f s = Some s'"
    and "\<And>t t'. f (unat (pkt_dev_idx h)) t = Some t' \<Longrightarrow> touches_only sock (unat (pkt_dev_idx h)) t t'"
  shows "touches_only sock (unat (pkt_dev_idx h)) s s'"
  using assms by (auto simp: with_device_def split: if_splits)

lemma touches_requests:
  "request_data w sock h data s = Some s' \<Longrightarrow> touches_only sock (unat (pkt_dev_idx h)) s s'"
  "request_resize w h bs s = Some s' \<Longrightarrow> touches_only sock (unat (pkt_dev_idx h)) s s'"
  "request_clear_segments h bs s = Some s' \<Longrightarrow> touches_only sock (unat (pkt_dev_idx h)) s s'"
  "request_add_segment h data s = Some s' \<Longrightarrow> touches_only sock (unat (pkt_dev_idx h)) s s'"
  "request_plugin sock h data s = Some s' \<Longrightarrow> touches_only sock (unat (pkt_dev_idx h)) s s'"
  "ProcessRequest_ClientProtocolVersion sock n data s = Some s' \<Longrightarrow> touches_only sock d s s'"
  "ProcessRequest_ClientString sock n bs s = Some s' \<Longrightarrow> touches_only sock d s s'"
  "SendReply_ProfileList w sock s = Some s' \<Longrightarrow> touches_only sock d s s'"
  "SendReply_PluginList w sock s = Some s' \<Longrightarrow> touches_only sock d s s'"
  "with_profile_name h bs (\<lambda>nm. effect (e nm)) s = Some s' \<Longrightarrow> touches_only sock d s s'"
proof -
  show "request_data w sock h data s = Some s' \<Longrightarrow> touches_only sock (unat (pkt_dev_idx h)) s s'"
    by (auto simp: request_data_def SendReply_ControllerData_def touches_description
        split: Option.bind_splits if_splits)
  show "request_resize w h bs s = Some s' \<Longrightarrow> touches_only sock (unat (pkt_dev_idx h)) s s'"
    unfolding request_resize_def
    by (erule touches_device) (auto split: Option.bind_splits if_splits,
        meson touches_trans touches_call touches_save)
  show "request_clear_segments h bs s = Some s' \<Longrightarrow> touches_only sock (unat (pkt_dev_idx h)) s s'"
    unfolding request_clear_segments_def
    by (erule touches_device) (auto split: Option.bind_splits if_splits,
        meson touches_trans touches_change touches_save)
  show "request_add_segment h data s = Some s' \<Longrightarrow> touches_only sock (unat (pkt_dev_idx h)) s s'"
    unfolding request_add_segment_def
    by (auto split: Option.bind_splits if_splits elim!: touches_device,
        meson touches_trans touches_change touches_save)
  show "request_plugin sock h data s = Some s' \<Longrightarrow> touches_only sock (unat (pkt_dev_idx h)) s s'"
    by (auto simp: request_plugin_def SendReply_PluginSpecific_def touches_send
        split: Option.bind_splits if_splits option.splits prod.splits)
  show "ProcessRequest_ClientProtocolVersion sock n data s = Some s' \<Longrightarrow> touches_only sock d s s'"
    by (auto simp: ProcessRequest_ClientProtocolVersion_def split: Option.bind_splits)
      (erule touches_update_client; auto)
  show "ProcessRequest_ClientString sock n bs s = Some s' \<Longrightarrow> touches_only sock d s s'"
    by (auto simp: ProcessRequest_ClientString_def split: Option.bind_splits)
      (erule touches_update_client; auto)
  show "SendReply_ProfileList w sock s = Some s' \<Longrightarrow> touches_only sock d s s'"
    by (auto simp: SendReply_ProfileList_def touches_description split: Option.bind_splits if_splits)
  show "SendReply_PluginList w sock s = Some s' \<Longrightarrow> touches_only sock d s s'"
    by (auto simp: SendReply_PluginList_def touches_description split: Option.bind_splits)
  show "with_profile_name h bs (\<lambda>nm. effect (e nm)) s = Some s' \<Longrightarrow> touches_only sock d s s'"
    by (auto simp: with_profile_name_def split: Option.bind_splits if_splits)
qed

lemma touches_sized:
  assumes "sized_request close a h bs f s = Some (s', c)"
    and "\<And>t t'. f (unat (pkt_dev_idx h)) t = Some t' \<Longrightarrow> touches_only sock (unat (pkt_dev_idx h)) t t'"
  shows "touches_only sock (unat (pkt_dev_idx h)) s s'"
  using assms by (auto simp: sized_request_def split: Option.bind_splits if_splits elim!: touches_device)

lemma touches_color_requests:
  "request_leds w a h bs s = Some (s', c) \<Longrightarrow> touches_only sock (unat (pkt_dev_idx h)) s s'"
  "request_zone_leds w a h bs s = Some (s', c) \<Longrightarrow> touches_only sock (unat (pkt_dev_idx h)) s s'"
  "request_single_led w h bs s = Some (s', c) \<Longrightarrow> touches_only sock (unat (pkt_dev_idx h)) s s'"
  "request_mode w close dc a h bs s = Some (s', c) \<Longrightarrow> touches_only sock (unat (pkt_dev_idx h)) s s'"
proof -
  note split = Option.bind_splits
  show "request_leds w a h bs s = Some (s', c) \<Longrightarrow> touches_only sock (unat (pkt_dev_idx h)) s s'"
    unfolding request_leds_def
    by (erule touches_sized) (auto split: split, meson touches_trans touches_call touches_change)
  show "request_zone_leds w a h bs s = Some (s', c) \<Longrightarrow> touches_only sock (unat (pkt_dev_idx h)) s s'"
    unfolding request_zone_leds_def
    by (erule touches_sized) (auto split: split, meson touches_trans touches_call touches_change)
  show "request_single_led w h bs s = Some (s', c) \<Longrightarrow> touches_only sock (unat (pkt_dev_idx h)) s s'"
    unfolding request_single_led_def
    by (auto split: split if_splits elim!: touches_device, meson touches_trans touches_call touches_change)
  show "request_mode w close dc a h bs s = Some (s', c) \<Longrightarrow> touches_only sock (unat (pkt_dev_idx h)) s s'"
    unfolding request_mode_def
    by (erule touches_sized) (auto split: split, meson touches_trans touches_call touches_change)
qed


lemma dispatch_touches_only:
  assumes "dispatch w a sock h data s = Some (s', close)"
    and "id_of (pkt_id h) \<noteq> Some REQUEST_LOAD_PROFILE" "id_of (pkt_id h) \<noteq> Some REQUEST_RESCAN_DEVICES"
  shows "touches_only sock (unat (pkt_dev_idx h)) s s'"
proof (cases "id_of (pkt_id h)")
  case None
  then show ?thesis using assms(1) by (simp add: dispatch_def)
next
  case (Some i)
  have pv: "touches_only sock (unat (pkt_dev_idx h)) s t"
    if "ProcessRequest_ClientProtocolVersion sock (pkt_size h) data (SendReply_ProtocolVersion sock s) = Some t" for t
    using that by (rule touches_trans [rotated, OF touches_requests(6)])
      (simp add: SendReply_ProtocolVersion_def touches_send)
  show ?thesis
    using assms Some
    by (cases i) (auto simp: dispatch_def when_data_def SendReply_ControllerCount_def touches_send
        split: option.splits intro: touches_requests touches_color_requests pv
        elim!: touches_device touches_call)
qed

text \<open>C5: a packet other than a request to load a profile or to rescan, which are for all devices, touches the device it
  names, and none when there is no device with that index; of the clients it changes the record of the one that
  sent it only, and only that client gets a reply.\<close>

theorem packet_confined:
  assumes "dispatch w a sock h data s = Some (s', close)"
    and "id_of (pkt_id h) \<noteq> Some REQUEST_LOAD_PROFILE" "id_of (pkt_id h) \<noteq> Some REQUEST_RESCAN_DEVICES"
  shows "touches_only sock (unat (pkt_dev_idx h)) s s'"
  using assms by (rule dispatch_touches_only)

theorem packet_confined_witness:
  "\<exists>s' close. dispatch quiet_world 1 10 (InitNetPacketHeader 1 SETCUSTOMMODE 0) None (idle_server [sample_device, empty_device]) = Some (s', close) \<and>
     touches_only 10 1 (idle_server [sample_device, empty_device]) s'"
proof -
  let ?h = "InitNetPacketHeader 1 SETCUSTOMMODE 0"
  obtain r where r: "dispatch quiet_world 1 10 ?h None (idle_server [sample_device, empty_device]) = Some r"
    by (auto simp: dispatch_def with_device_def call_device_def idle_server_def quiet_world_def)
  moreover obtain s' close where "r = (s', close)" by (cases r)
  moreover have "touches_only 10 (unat (pkt_dev_idx ?h)) (idle_server [sample_device, empty_device]) s'"
    by (rule packet_confined [OF r [unfolded \<open>r = (s', close)\<close>]]) simp_all
  ultimately show ?thesis by auto
qed

section \<open>The life of a client\<close>

lemma fold_def_preserves:
  assumes "fold_def f xs s = Some s'" "P s" "\<And>x t t'. x \<in> set xs \<Longrightarrow> P t \<Longrightarrow> f x t = Some t' \<Longrightarrow> P t'"
  shows "P s'"
  using assms
proof (induction xs arbitrary: s)
  case (Cons x xs)
  from Cons.prems(1) obtain t where t: "f x s = Some t" "fold_def f xs t = Some s'"
    by (auto split: Option.bind_splits)
  have "P t" by (rule Cons.prems(3) [OF _ Cons.prems(2) t(1)]) simp
  with t(2) show ?case by (rule Cons.IH) (use Cons.prems(3) [OF list.set_intros(2)] in blast)
qed simp

definition clients_kept :: "nat \<Rightarrow> server \<Rightarrow> server \<Rightarrow> bool" where
  "clients_kept sock s s' \<longleftrightarrow> ServerClients s' = ServerClients s \<and> server_online s' = server_online s \<and>
     (\<forall>a. info_kept sock (infos s a) (infos s' a))"

lemma touches_clients_kept: "touches_only sock d s s' \<Longrightarrow> clients_kept sock s s'"
  by (simp add: touches_only_def clients_kept_def)

lemma info_kept_sock: "info_kept sock i i' \<Longrightarrow> map_option info_sock i' = map_option info_sock i"
  by (auto simp: info_kept_def)

lemma clients_kept_same: "infos s' = infos s \<Longrightarrow> ServerClients s' = ServerClients s \<Longrightarrow>
    server_online s' = server_online s \<Longrightarrow> clients_kept sock s s'"
  by (simp add: clients_kept_def)

lemma call_device_same:
  "call_device w i dc s = Some s' \<Longrightarrow>
   infos s' = infos s \<and> ServerClients s' = ServerClients s \<and> server_online s' = server_online s"
  by (auto simp: call_device_def effect_def split: Option.bind_splits)

lemma load_profile_same:
  assumes "request_load_profile w h bs s = Some s'"
  shows "infos s' = infos s \<and> ServerClients s' = ServerClients s \<and> server_online s' = server_online s"
proof -
  from assms obtain t where t: "with_profile_name h bs (do_load_profile w) s = Some t"
    and f: "fold_def (\<lambda>i. call_device w i Dev_UpdateLEDs) [0..<length (controllers t)] t = Some s'"
    by (auto simp: request_load_profile_def split: Option.bind_splits)
  have "infos s' = infos t \<and> ServerClients s' = ServerClients t \<and> server_online s' = server_online t"
    by (rule fold_def_preserves [OF f]) (auto dest: call_device_same)
  moreover have "infos t = infos s \<and> ServerClients t = ServerClients s \<and> server_online t = server_online s"
    using t by (auto simp: with_profile_name_def do_load_profile_def effect_def split: if_splits Option.bind_splits)
  ultimately show ?thesis by simp
qed

lemma dispatch_clients_kept:
  assumes "dispatch w a sock h data s = Some (s', close)"
  shows "clients_kept sock s s'"
proof (cases "id_of (pkt_id h) = Some REQUEST_LOAD_PROFILE \<or> id_of (pkt_id h) = Some REQUEST_RESCAN_DEVICES")
  case True
  then show ?thesis
    using assms by (auto simp: dispatch_def when_data_def effect_def split: option.splits
        intro!: clients_kept_same dest: load_profile_same)
next
  case False
  then show ?thesis using dispatch_touches_only [OF assms] by (auto intro: touches_clients_kept)
qed

definition versions_ok :: "server \<Rightarrow> bool" where
  "versions_ok s \<longleftrightarrow> (\<forall>a ci. infos s a = Some ci \<longrightarrow> client_protocol_version ci \<le> OPENRGB_SDK_PROTOCOL_VERSION)"

text \<open>
  Every listener has its record, the vector holds each record once, and nothing else is allocated.
\<close>

definition clients_alive :: "net_system \<Rightarrow> bool" where
  "clients_alive \<sigma> \<longleftrightarrow> distinct (ServerClients (srv \<sigma>)) \<and> dom (infos (srv \<sigma>)) = set (ServerClients (srv \<sigma>)) \<and>
     distinct (map fst (listeners \<sigma>)) \<and> fst ` set (listeners \<sigma>) = set (ServerClients (srv \<sigma>)) \<and>
     (\<forall>a sock. (a, sock) \<in> set (listeners \<sigma>) \<longrightarrow> map_option info_sock (infos (srv \<sigma>) a) = Some sock)"

lemma infos_ClientInfoChanged [simp]:
  "infos (ClientInfoChanged s) = infos s" "ServerClients (ClientInfoChanged s) = ServerClients s"
  "server_online (ClientInfoChanged s) = server_online s"
  by (simp_all add: ClientInfoChanged_def effect_def)

lemma delete_info_versions: "delete_info a s = Some s' \<Longrightarrow> versions_ok s \<Longrightarrow> versions_ok s'"
  by (auto simp: delete_info_def versions_ok_def split: option.splits if_splits)

lemma versions_kept: "clients_kept sock s s' \<Longrightarrow> versions_ok s \<Longrightarrow> versions_ok s'"
  unfolding clients_kept_def versions_ok_def info_kept_def
  by (metis option.inject)

lemma end_listener_versions:
  "end_listener a sock \<sigma> = Some \<sigma>' \<Longrightarrow> versions_ok (srv \<sigma>) \<Longrightarrow> versions_ok (srv \<sigma>')"
  by (auto simp: end_listener_def listen_done_def versions_ok_def split: Option.bind_splits if_splits
      dest!: delete_info_versions [unfolded versions_ok_def])

lemma perform_versions:
  assumes "perform w e \<sigma> = Some \<sigma>'" "versions_ok (srv \<sigma>)"
  shows "versions_ok (srv \<sigma>')"
proof (cases e)
  case (Packet a sock h data)
  with assms(1) obtain s c where d: "dispatch w a sock h data (srv \<sigma>) = Some (s, c)"
    and r: "(if c then end_listener a sock (\<sigma>\<lparr>srv := s\<rparr>) else Some (\<sigma>\<lparr>srv := s\<rparr>)) = Some \<sigma>'"
    by (auto split: Option.bind_splits)
  have "versions_ok s" by (rule versions_kept [OF dispatch_clients_kept [OF d] assms(2)])
  with r show ?thesis by (auto split: if_splits dest: end_listener_versions)
next
  case Stop
  with assms show ?thesis
    by (auto simp: StopServer_def versions_ok_def split: Option.bind_splits
        dest!: fold_def_preserves [where P = versions_ok, unfolded versions_ok_def]
        dest: delete_info_versions [unfolded versions_ok_def])
next
  case (Accept a sock ip)
  with assms show ?thesis
    by (auto simp: accept_client_def Let_def versions_ok_def new_client_info_def split: if_splits)
next
  case (Hang_up a sock)
  with assms show ?thesis by (auto dest: end_listener_versions)
next
  case Start
  with assms show ?thesis by (auto simp: versions_ok_def)
qed

text \<open>Whatever the clients send, the protocol version the server keeps for a client never exceeds its own; so
  \<open>client_protocol_version\<close> is always a version the readers of the mode packets know.\<close>

theorem client_versions_known:
  assumes "reachable w E \<sigma>" "infos (srv \<sigma>) a = Some ci"
  shows "client_protocol_version ci \<le> 5"
proof -
  from assms(1) have "versions_ok (srv \<sigma>)"
  proof (induction rule: reachable.induct)
    case (start \<sigma>)
    then show ?case by (simp add: versions_ok_def)
  next
    case (step \<sigma> e \<sigma>')
    show ?case by (rule perform_versions [OF step.hyps(4) step.IH])
  qed
  with assms(2) show ?thesis by (auto simp: versions_ok_def OPENRGB_SDK_PROTOCOL_VERSION_def)
qed

text \<open>A system with one client, whose first packet announces version 9.\<close>

definition one_client_events :: "net_event list" where
  "one_client_events = [Accept 1 10 (str8 ''ip''), Packet 1 10 (InitNetPacketHeader 0 REQUEST_PROTOCOL_VERSION 4) (Some [9, 0, 0, 0])]"

lemma one_client:
  "\<exists>\<sigma>. reachable w (\<lambda>e. e \<noteq> Stop) \<sigma> \<and> listeners \<sigma> = [(1, 10)] \<and> 
     infos (srv \<sigma>) 1 = Some \<lparr>info_sock = 10, client_string = str8 ''Client'', client_protocol_version = 5, client_ip = str8 ''ip''\<rparr>"
proof -
  note ev = one_client_events_def idle_system_def idle_server_def accept_client_def Let_def effect_def ClientInfoChanged_def
    dispatch_def ProcessRequest_ClientProtocolVersion_def SendReply_ProtocolVersion_def send_packet_def
    rd_u32_def rd_word_def le_word_Cons new_client_info_def OPENRGB_SDK_PROTOCOL_VERSION_def word_less_nat_alt
  have "run_events w one_client_events (idle_system []) \<noteq> None" by (simp add: ev)
  then obtain \<sigma> where \<sigma>: "run_events w one_client_events (idle_system []) = Some \<sigma>" by auto
  moreover from this have "listeners \<sigma> = [(1, 10)]"
     "infos (srv \<sigma>) 1 = Some \<lparr>info_sock = 10, client_string = str8 ''Client'', client_protocol_version = 5, client_ip = str8 ''ip''\<rparr>"
    by (auto simp: ev)
  ultimately show ?thesis using run_events_reachable [OF \<sigma> reachable_idle, of "\<lambda>e. e \<noteq> Stop"]
    by (intro exI [of _ \<sigma>]) (simp add: one_client_events_def)
qed

theorem client_versions_known_witness:
  "\<exists>(\<sigma> :: net_system) ci. listeners \<sigma> = [(1, 10)] \<and> infos (srv \<sigma>) 1 = Some ci \<and> client_protocol_version ci = 5 \<and> client_protocol_version ci \<le> 5"
proof -
  let ?ci = "\<lparr>info_sock = 10, client_string = str8 ''Client'', client_protocol_version = 5, client_ip = str8 ''ip''\<rparr>"
  obtain \<sigma> where \<sigma>: "reachable quiet_world (\<lambda>e. e \<noteq> Stop) \<sigma>" "infos (srv \<sigma>) 1 = Some ?ci" "listeners \<sigma> = [(1, 10)]"
    using one_client by blast
  show ?thesis using client_versions_known [OF \<sigma>(1,2)] \<sigma>(2,3) by (intro exI [of _ \<sigma>] exI [of _ ?ci]) simp
qed

lemma map_fst_remove1:
  "distinct (map fst ls) \<Longrightarrow> (a, b) \<in> set ls \<Longrightarrow> map fst (remove1 (a, b) ls) = remove1 a (map fst ls)"
  by (induction ls) force+

lemma end_listener_alive:
  assumes "clients_alive \<sigma>" "(a, sock) \<in> set (listeners \<sigma>)"
  shows "\<exists>\<sigma>'. end_listener a sock \<sigma> = Some \<sigma>' \<and> clients_alive \<sigma>'"
proof -
  let ?s = "srv \<sigma>" and ?ls = "listeners \<sigma>"
  obtain ci where ci: "infos ?s a = Some ci"
    using assms unfolding clients_alive_def by (metis map_option_eq_Some)
  then have a: "a \<in> set (ServerClients ?s)" using assms(1) by (auto simp: clients_alive_def)
  have dl: "distinct ?ls" "distinct (map fst ?ls)" using assms(1) by (simp_all add: clients_alive_def distinct_map)
  define ls where "ls = remove1 (a, sock) ?ls"
  define s where "s = ?s\<lparr>infos := (infos ?s)(a := None), ServerClients := remove1 a (ServerClients ?s)\<rparr>"
  have ls: "map fst ls = remove1 a (map fst ?ls)" "set ls = set ?ls - {(a, sock)}"
    using dl assms(2) by (simp_all add: ls_def map_fst_remove1)
  have other: "a' \<noteq> a" if "(a', sock') \<in> set ls" for a' sock'
  proof
    assume "a' = a"
    with that have "a \<in> set (map fst ls)" by force
    with ls(1) dl(2) show False by simp
  qed
  have "fst ` set ls = set (ServerClients ?s) - {a}"
    using assms(1) ls(1) dl(2) by (metis clients_alive_def set_map set_remove1_eq)
  then have "clients_alive \<lparr>srv = ClientInfoChanged s, listeners = ls\<rparr>"
    using assms(1) ls dl other unfolding clients_alive_def s_def by (auto simp: dom_def)
  moreover have "end_listener a sock \<sigma> = Some \<lparr>srv = ClientInfoChanged s, listeners = ls\<rparr>"
    using a ci by (simp add: end_listener_def listen_done_def delete_info_def s_def ls_def)
  ultimately show ?thesis by blast
qed

lemma perform_alive:
  assumes "clients_alive \<sigma>" "possible e \<sigma>" "e \<noteq> Stop" "perform w e \<sigma> = Some \<sigma>'"
  shows "clients_alive \<sigma>'"
proof (cases e)
  case (Accept a sock ip)
  then have "infos (srv \<sigma>) a = None" using assms(2) by simp
  then have new: "a \<notin> set (ServerClients (srv \<sigma>))" "a \<notin> fst ` set (listeners \<sigma>)"
    using assms(1) unfolding clients_alive_def by (metis domIff)+
  then have "(a, sock') \<notin> set (listeners \<sigma>)" for sock' by force
  moreover from Accept assms(4) have "\<sigma>' = accept_client a sock ip \<sigma>" by simp
  ultimately show ?thesis
    using new assms(1) unfolding clients_alive_def accept_client_def Let_def new_client_info_def
    by (auto simp: insert_commute intro: rev_image_eqI)
next
  case (Packet a sock h data)
  with assms(4) obtain s c where d: "dispatch w a sock h data (srv \<sigma>) = Some (s, c)"
    and r: "(if c then end_listener a sock (\<sigma>\<lparr>srv := s\<rparr>) else Some (\<sigma>\<lparr>srv := s\<rparr>)) = Some \<sigma>'"
    by (auto split: Option.bind_splits)
  have sc: "ServerClients s = ServerClients (srv \<sigma>)"
    and k: "map_option info_sock (infos s a') = map_option info_sock (infos (srv \<sigma>) a')" for a'
    using dispatch_clients_kept [OF d] by (auto simp: clients_kept_def intro: info_kept_sock)
  have dom: "dom (infos s) = dom (infos (srv \<sigma>))"
    using k by (auto simp: dom_def) (metis map_option_eq_Some)+
  have "clients_alive (\<sigma>\<lparr>srv := s\<rparr>)" using assms(1) sc k dom by (simp add: clients_alive_def del: map_option_eq_Some)
  with r assms(2) Packet end_listener_alive [of "\<sigma>\<lparr>srv := s\<rparr>" a sock] show ?thesis
    by (auto split: if_splits)
next
  case (Hang_up a sock)
  with assms end_listener_alive [OF assms(1), of a sock] show ?thesis by auto
next
  case Start
  with assms(4) have "\<sigma>' = \<sigma>\<lparr>srv := (srv \<sigma>)\<lparr>server_online := True\<rparr>\<rparr>" by simp
  with assms(1) show ?thesis by (simp add: clients_alive_def)
qed (use assms in simp)

lemma fold_delete_info:
  "distinct as \<Longrightarrow> set as \<subseteq> dom (infos s) \<Longrightarrow> \<exists>s'. fold_def delete_info as s = Some s'"
proof (induction as arbitrary: s)
  case (Cons a as)
  then obtain ci where ci: "infos s a = Some ci" by auto
  have "\<exists>s'. fold_def delete_info as (s\<lparr>infos := (infos s)(a := None)\<rparr>) = Some s'"
    using Cons.prems by (intro Cons.IH) auto
  moreover have "delete_info a s = Some (s\<lparr>infos := (infos s)(a := None)\<rparr>)"
    using ci by (simp add: delete_info_def)
  ultimately show ?case by simp
qed simp

text \<open>C35: in every run in which the server is never stopped, the record of every connection is allocated while its
  listener runs and is in the vector exactly once, and neither the end of a listener nor a first stop frees a
  record twice. (A stop frees the records of listeners that still run.)\<close>

theorem clients_live_with_listeners:
  assumes "reachable w (\<lambda>e. e \<noteq> Stop) \<sigma>"
  shows "clients_alive \<sigma> \<and>
    (\<forall>a sock. possible (Hang_up a sock) \<sigma> \<longrightarrow> perform w (Hang_up a sock) \<sigma> \<noteq> None) \<and>
    perform w Stop \<sigma> \<noteq> None"
proof -
  from assms have al: "clients_alive \<sigma>"
  proof (induction rule: reachable.induct)
    case (start \<sigma>)
    then show ?case by (simp add: clients_alive_def)
  next
    case (step \<sigma> e \<sigma>')
    show ?case by (rule perform_alive [OF step.IH step.hyps(3,2,4)])
  qed
  then have "\<exists>s'. fold_def delete_info (ServerClients (srv \<sigma>)) (srv \<sigma>\<lparr>server_online := False\<rparr>) = Some s'"
    by (intro fold_delete_info) (simp_all add: clients_alive_def)
  then have "perform w Stop \<sigma> \<noteq> None" by (auto simp: StopServer_def)
  with al end_listener_alive [OF al] show ?thesis by fastforce
qed

theorem clients_live_with_listeners_witness:
  "\<exists>\<sigma>. listeners \<sigma> = [(1, 10)] \<and> clients_alive \<sigma> \<and> perform quiet_world (Hang_up 1 10) \<sigma> \<noteq> None \<and> perform quiet_world Stop \<sigma> \<noteq> None"
proof -
  obtain \<sigma> where \<sigma>: "reachable quiet_world (\<lambda>e. e \<noteq> Stop) \<sigma>" "listeners \<sigma> = [(1, 10)]"
    using one_client by blast
  moreover have "possible (Hang_up 1 10) \<sigma>" using \<sigma>(2) by simp
  ultimately show ?thesis using clients_live_with_listeners [OF \<sigma>(1)] by (intro exI [of _ \<sigma>]) blast
qed

section \<open>A listener that outlives its client\<close>

text \<open>
  The server is stopped and started while the listener of a client still waits in \<open>select\<close>; the next client
  gets the address of the record that \<open>StopServer\<close> freed.
\<close>

definition stale_events :: "net_event list" where
  "stale_events = [Accept 1 10 [], Stop, Start, Accept 1 11 [], Hang_up 1 10]"


section \<open>Packets that read outside their data\<close>

text \<open>The size a packet carries is compared with the size in its header, but nothing compares either with the
  number of colors: a packet of six bytes that announces the colors of the whole device passes every check,
  and the setter reads behind the data.\<close>

theorem short_color_packet_overreads:
  assumes "pkt_id h = id_value UPDATELEDS" "pkt_size h = 6"
    and "i < length (controllers s)" "unat (pkt_dev_idx h) = i"
    and "n = length (colors (controllers s ! i))" "0 < n" "n < 65536"
  shows "dispatch w a sock h (Some (le_bytes 4 (6 :: u32) @ le_bytes 2 (of_nat n :: u16))) s = None"
proof -
  let ?bs = "le_bytes 4 (6 :: u32) @ le_bytes 2 (of_nat n :: u16)"
  have hd: "rd_u32 ?bs 0 = Some (6, 4)"
    by (simp add: rd_u32_def rd_word_def wire_simps)
  have n: "rd_u16 ?bs 4 = Some (of_nat n, 6)"
    by (simp add: rd_u16_def rd_word_def wire_simps)
  have r: "rd_store [0..<n] store_color ?bs 6 c = None" for c
    using assms(6) by (simp add: upt_conv_Cons rd_u32_def rd_word_def)
  have "SetColorDescription ?bs (controllers s ! i)
      = (if unat (of_nat n :: u16) > n then Some (controllers s ! i)
         else rd_store [0..<unat (of_nat n :: u16)] store_color ?bs 6 (controllers s ! i))"
    by (simp add: SetColorDescription_def n flip: assms(5))
  then have "SetColorDescription ?bs (controllers s ! i) = None"
    using assms(7) r by simp
  then show ?thesis
    using assms(1-4) by (simp add: dispatch_def when_data_def request_leds_def sized_request_def size_accepted_def
        hd with_device_def change_device_def)
qed

theorem short_color_packet_overreads_witness:
  "dispatch quiet_world 1 10 (InitNetPacketHeader 0 UPDATELEDS 6)
     (Some (le_bytes 4 (6 :: u32) @ le_bytes 2 (of_nat 3 :: u16))) (idle_server [sample_device]) = None"
  by (rule short_color_packet_overreads [where i = 0])
    (simp_all add: idle_server_def sample_defs)

text \<open>Two requests use the data without testing that there is any, and the requests that carry their size
  read it without testing that there are four bytes: an empty \<open>PLUGIN_SPECIFIC\<close> or \<open>ADDSEGMENT\<close> packet
  dereferences a null pointer, a shorter one reads behind its data.\<close>

theorem short_packets_undefined:
  assumes "id_of (pkt_id h) = Some i" "length bs < 4"
    and "i \<in> {PLUGIN_SPECIFIC, ADDSEGMENT} \<or> bs \<noteq> [] \<and> i \<in> {UPDATELEDS, UPDATEZONELEDS, UPDATEMODE, SAVEMODE}"
  shows "dispatch w a sock h (data_of bs) s = None"
  using assms
  by (auto simp: dispatch_def when_data_def data_of_def request_plugin_def request_add_segment_def request_leds_def
      request_zone_leds_def request_mode_def sized_request_def size_accepted_def rd_u32_def rd_word_def)

theorem short_packets_undefined_witness:
  "dispatch quiet_world 1 10 (InitNetPacketHeader 0 ADDSEGMENT 0) (data_of []) (idle_server []) = None"
  by (rule short_packets_undefined [where i = ADDSEGMENT]) simp_all

end
