(* ===== verification/Net_Client_Props.thy ===== *)
theory Net_Client_Props
  imports Net_Client Net_Server_Props
begin

text \<open>
  The client against any server: the shared list of controllers never holds a deleted one. Then where
  the client trusts the server too much, and how it can hang.
\<close>

section \<open>The list of controllers\<close>

text \<open>
  \<open>F\<close> are the controllers of the rest of the program. The ones of the server are allocated and in the
  shared list at most once, and not at all while the client is not initialized.
\<close>

definition master_ok :: "nat set \<Rightarrow> client \<Rightarrow> bool" where
  "master_ok F c \<longleftrightarrow> distinct (server_controllers c) \<and> dom (objects c) = set (server_controllers c) \<and>
     F \<inter> set (server_controllers c) = {} \<and> set (master c) \<subseteq> F \<union> set (server_controllers c) \<and>
     (\<forall>k \<in> set (server_controllers c). count_list (master c) k \<le> (if server_initialized c then 1 else 0)) \<and>
     (\<not> server_connected c \<longrightarrow> server_controllers c = [])"

text \<open>
  \<open>new\<close> returns an address that is not in use; \<open>next_address\<close> is such an allocation.
\<close>

definition alloc_ok :: "nat set \<Rightarrow> (client \<Rightarrow> nat) \<Rightarrow> bool" where
  "alloc_ok F alloc \<longleftrightarrow> (\<forall>c. dom (objects c) = set (server_controllers c) \<longrightarrow> alloc c \<notin> F \<and> objects c (alloc c) = None)"

definition next_address :: "nat \<Rightarrow> client \<Rightarrow> nat" where
  "next_address n c = Suc (fold max (server_controllers c) n)"

lemma fold_max_bound: "n \<le> fold max xs n \<and> (\<forall>x \<in> set xs. x \<le> fold max xs (n :: nat))"
proof (induction xs arbitrary: n)
  case (Cons x xs)
  from Cons.IH [of "max x n"] show ?case by simp
qed simp

lemma alloc_ok_next: "F \<subseteq> {..n} \<Longrightarrow> alloc_ok F (next_address n)"
proof -
  assume F: "F \<subseteq> {..n}"
  have "next_address n c \<notin> F \<and> objects c (next_address n c) = None"
    if d: "dom (objects c) = set (server_controllers c)" for c
  proof
    note b = fold_max_bound [of n "server_controllers c"]
    with F show "next_address n c \<notin> F" by (auto simp: next_address_def)
    have "next_address n c \<notin> set (server_controllers c)"
      using b by (auto simp: next_address_def not_less_eq_eq)
    with d show "objects c (next_address n c) = None" by auto
  qed
  then show ?thesis by (simp add: alloc_ok_def)
qed

lemma delete_objects:
  "distinct ks \<Longrightarrow> set ks \<subseteq> dom m \<Longrightarrow>
   fold_def delete_object ks (c\<lparr>objects := m\<rparr>) = Some (c\<lparr>objects := \<lambda>k. if k \<in> set ks then None else m k\<rparr>)"
proof (induction ks arbitrary: m)
  case (Cons k ks)
  have "delete_object k (c\<lparr>objects := m\<rparr>) = Some (c\<lparr>objects := m(k := None)\<rparr>)"
    using Cons.prems(2) by (auto simp: delete_object_def)
  moreover have "fold_def delete_object ks (c\<lparr>objects := m(k := None)\<rparr>)
      = Some (c\<lparr>objects := \<lambda>j. if j \<in> set ks then None else (m(k := None)) j\<rparr>)"
    using Cons.prems by (intro Cons.IH) auto
  moreover have "(\<lambda>j. if j \<in> set ks then None else (m(k := None)) j) = (\<lambda>j. if j \<in> set (k # ks) then None else m j)"
    by auto
  ultimately show ?case by (simp only: fold_def.simps Option.bind.simps)
qed simp

lemma count_list_remove1: "count_list (remove1 a xs) k = (if k = a then count_list xs k - 1 else count_list xs k)"
  by (induction xs) auto

lemma fold_remove1_count:
  "distinct ks \<Longrightarrow> count_list (fold remove1 ks xs) k = (if k \<in> set ks then count_list xs k - 1 else count_list xs k)"
proof (induction ks arbitrary: xs)
  case (Cons a ks)
  then have "count_list (fold remove1 ks (remove1 a xs)) k
      = (if k \<in> set ks then count_list (remove1 a xs) k - 1 else count_list (remove1 a xs) k)" by simp
  with Cons.prems show ?case by (auto simp: count_list_remove1)
qed simp

text \<open>What dropping the controllers of the server needs.\<close>

definition pool_ok :: "nat set \<Rightarrow> client \<Rightarrow> bool" where
  "pool_ok F c \<longleftrightarrow> distinct (server_controllers c) \<and> dom (objects c) = set (server_controllers c) \<and>
     set (master c) \<subseteq> F \<union> set (server_controllers c) \<and>
     (\<forall>k \<in> set (server_controllers c). count_list (master c) k \<le> 1)"

lemma pool_ok_master: "master_ok F c \<Longrightarrow> pool_ok F c"
  by (auto simp: master_ok_def pool_ok_def split: if_splits)

lemma drop_defined:
  assumes "pool_ok F c"
  shows "\<exists>c'. drop_server_controllers c = Some c' \<and> server_controllers c' = [] \<and> objects c' = Map.empty \<and> set (master c') \<subseteq> F"
proof -
  let ?ks = "server_controllers c" and ?m = "fold remove1 (server_controllers c) (master c)"
  have ks: "distinct ?ks" "set ?ks = dom (objects c)" using assms by (auto simp: pool_ok_def)
  define d where "d = c\<lparr>master := ?m, server_controllers := []\<rparr>"
  have "(\<lambda>k. if k \<in> set ?ks then None else objects c k) = Map.empty"
    using ks(2) by auto
  then have "fold_def delete_object ?ks (d\<lparr>objects := objects c\<rparr>) = Some (d\<lparr>objects := Map.empty\<rparr>)"
    using delete_objects [OF ks(1), of "objects c" d] ks(2) by simp
  moreover have "d\<lparr>objects := objects c\<rparr> = d" by (simp add: d_def)
  ultimately have "drop_server_controllers c = Some (c\<lparr>master := ?m, server_controllers := [], objects := Map.empty\<rparr>)"
    by (simp add: drop_server_controllers_def d_def)
  moreover have "set ?m \<subseteq> F"
  proof
    fix k assume k: "k \<in> set ?m"
    then have "count_list ?m k \<noteq> 0" by (simp add: count_list_0_iff)
    moreover have "count_list (master c) k - 1 = 0" if "k \<in> set ?ks"
      using assms that by (auto simp: pool_ok_def)
    ultimately have "k \<notin> set ?ks" using fold_remove1_count [OF ks(1), of "master c" k] by (auto split: if_splits)
    moreover have "k \<in> set (master c)"
      using k fold_remove1_count [OF ks(1), of "master c" k] by (metis count_list_0_iff diff_0_eq_0)
    ultimately show "k \<in> F" using assms by (auto simp: pool_ok_def)
  qed
  ultimately show ?thesis by simp
qed

text \<open>What \<open>master_ok\<close> depends on, and the steps that leave it alone.\<close>

definition core :: "client \<Rightarrow> (nat \<Rightarrow> remote option) \<times> nat list \<times> nat list \<times> bool \<times> bool" where
  "core c = (objects c, server_controllers c, master c, server_initialized c, server_connected c)"

lemma master_ok_core: "core c' = core c \<Longrightarrow> master_ok F c \<Longrightarrow> master_ok F c'"
  by (simp add: core_def master_ok_def)

lemma core_send [simp]:
  "core (client_send h bs c) = core c" "core (SendRequest_ControllerCount c) = core c"
  "core (SendRequest_ControllerData i c) = core c" "core (SendRequest_ProtocolVersion c) = core c"
  "core (SendData_ClientString c) = core c"
  by (simp_all add: core_def client_send_def SendRequest_ControllerCount_def SendRequest_ControllerData_def
      SendRequest_ProtocolVersion_def SendData_ClientString_def send_string_def Let_def)

lemma core_flags [simp]:
  "core (c\<lparr>client_string_sent := b\<rparr>) = core c" "core (c\<lparr>controller_data_requested := b\<rparr>) = core c"
  "core (c\<lparr>requested_controllers := n\<rparr>) = core c" "core (c\<lparr>server_controller_count_requested := b\<rparr>) = core c"
  "core (c\<lparr>protocol_initialized := b\<rparr>) = core c" "core (c\<lparr>version_wait := v\<rparr>) = core c"
  "core (c\<lparr>server_protocol_version := n\<rparr>) = core c" "core (c\<lparr>server_protocol_version_received := b\<rparr>) = core c"
  by (simp_all add: core_def)

lemma master_ok_core_eq: "core c' = core c \<Longrightarrow> master_ok F c' = master_ok F c"
  by (auto elim: master_ok_core [rotated])

lemmas master_ok_flags [simp] = core_send [THEN master_ok_core_eq] core_flags [THEN master_ok_core_eq]

lemma master_ok_add:
  assumes "master_ok F c" "\<not> server_initialized c"
  shows "master_ok F (add_to_master c)"
proof -
  have "count_list xs k \<le> 1" if "distinct xs" for xs and k :: nat
    using that by (induction xs) auto
  then show ?thesis using assms by (auto simp: master_ok_def add_to_master_def)
qed

lemma core_request_devices:
  "core (request_devices c) = core c \<or> request_devices c = add_to_master c"
  by (auto simp: request_devices_def Let_def)

lemma master_ok_initialize:
  assumes "master_ok F c"
  shows "master_ok F (initialize_connection c)"
proof -
  define d where "d = (if \<not> client_string_sent c then (SendData_ClientString c)\<lparr>client_string_sent := True\<rparr> else c)"
  have d: "master_ok F d" using assms by (simp add: d_def)
  have "master_ok F (request_devices d)" if "\<not> server_initialized d"
    using core_request_devices [of d]
  proof
    assume "core (request_devices d) = core d"
    then show ?thesis using d by (rule master_ok_core)
  qed (use master_ok_add [OF d that] in simp)
  with d show ?thesis by (simp add: initialize_connection_def Let_def flip: d_def)
qed

lemma master_ok_test_version: "master_ok F c \<Longrightarrow> master_ok F (test_version n c)"
  by (simp add: test_version_def master_ok_initialize)

lemma master_ok_conn_step:
  assumes "master_ok F c"
  shows "master_ok F (conn_step connects c)"
proof (cases "version_wait c")
  case (Some n)
  then show ?thesis
    using assms by (simp add: conn_step_def wake_up_def master_ok_initialize master_ok_test_version)
next
  case None
  have "master_ok F (connect connects c)"
    using assms by (auto simp: connect_def master_ok_def)
  with None assms show ?thesis
    by (simp add: conn_step_def Let_def master_ok_initialize master_ok_test_version)
qed

lemma master_ok_push:
  assumes "master_ok F c" "server_connected c" "k \<notin> F" "objects c k = None"
  shows "master_ok F (c\<lparr>objects := (objects c)(k \<mapsto> r), server_controllers := server_controllers c @ [k],
    controller_data_received := b\<rparr>)"
proof -
  have "k \<notin> set (server_controllers c)" using assms(1,4) by (auto simp: master_ok_def)
  moreover from this have "k \<notin> set (master c)" using assms(1,3) by (auto simp: master_ok_def)
  ultimately show ?thesis using assms by (auto simp: master_ok_def)
qed

lemma master_ok_data:
  assumes "master_ok F c" "server_connected c" "alloc_ok F alloc"
    and "ProcessReply_ControllerData alloc n data i c = Some c'"
  shows "master_ok F c'"
proof -
  have "alloc c \<notin> F" "objects c (alloc c) = None" using assms(1,3) by (auto simp: alloc_ok_def master_ok_def)
  note push = master_ok_push [OF assms(1,2) this]
  have "master_ok F (c\<lparr>objects := (objects c)(k \<mapsto> r), controller_data_received := b\<rparr>)"
    if "objects c k = Some r'" for k r r' b
    using assms(1) that by (auto simp: master_ok_def)
  with push assms show ?thesis
    by (auto simp: ProcessReply_ControllerData_def Let_def split: Option.bind_splits if_splits)
qed

text \<open>The steps that drop the controllers of the server.\<close>

lemma master_ok_empty:
  "server_controllers c = [] \<Longrightarrow> objects c = Map.empty \<Longrightarrow> set (master c) \<subseteq> F \<Longrightarrow> master_ok F c"
  by (simp add: master_ok_def)

lemma master_ok_dropped:
  assumes "pool_ok F c" "drop_server_controllers c = Some c'"
  shows "server_controllers c' = [] \<and> objects c' = Map.empty \<and> set (master c') \<subseteq> F"
  using drop_defined [OF assms(1)] assms(2) by auto

lemma listen_done_defined:
  assumes "pool_ok F c"
  shows "\<exists>c'. client_listen_done c = Some c' \<and> master_ok F c'"
proof -
  let ?d = "c\<lparr>client_string_sent := False, controller_data_requested := False,
     controller_data_received := False, protocol_initialized := False, requested_controllers := 0,
     server_controller_count := 0, server_controller_count_requested := False,
     server_controller_count_received := False, server_initialized := False, server_connected := False\<rparr>"
  have "pool_ok F ?d" using assms by (simp add: pool_ok_def)
  from drop_defined [OF this] show ?thesis
    by (auto simp: client_listen_done_def intro: master_ok_empty)
qed

lemma list_changed_defined:
  assumes "pool_ok F c"
  shows "\<exists>c'. ProcessRequest_DeviceListChanged c = Some c' \<and> master_ok F c'"
proof -
  have "pool_ok F (c\<lparr>change_in_progress := True\<rparr>)" using assms by (simp add: pool_ok_def)
  from drop_defined [OF this] obtain c1 where c1: "drop_server_controllers (c\<lparr>change_in_progress := True\<rparr>) = Some c1"
      "server_controllers c1 = []" "objects c1 = Map.empty" "set (master c1) \<subseteq> F" by blast
  then show ?thesis by (simp add: ProcessRequest_DeviceListChanged_def master_ok_empty)
qed

lemma master_ok_step:
  assumes "master_ok F c" "client_possible e c" "alloc_ok F alloc" "client_step alloc e c = Some c'"
  shows "master_ok F c'"
proof (cases e)
  case (Connection_thread b)
  with assms show ?thesis by (auto intro: master_ok_conn_step)
next
  case Listener_done
  with assms(4) listen_done_defined [OF pool_ok_master [OF assms(1)]] show ?thesis by auto
next
  case Client_stopped
  have "pool_ok F (c\<lparr>client_active := False, server_connected := False\<rparr>)"
    using pool_ok_master [OF assms(1)] by (simp add: pool_ok_def)
  from listen_done_defined [OF this] Client_stopped assms(4) show ?thesis by (auto simp: StopClient_def)
next
  case (Received_packet h data)
  then have conn: "server_connected c" using assms(2) by simp
  have flags: "master_ok F (c\<lparr>server_controller_count := n, server_controller_count_received := a,
      requested_controllers := m, controller_data_requested := b\<rparr>)"
    "master_ok F (c\<lparr>server_protocol_version := n, server_protocol_version_received := a\<rparr>)" for n m a b
    using assms(1) by (simp_all add: master_ok_def)
  obtain i where "id_of (pkt_id h) = None \<or> id_of (pkt_id h) = Some i" by (cases "id_of (pkt_id h)") auto
  with Received_packet assms flags master_ok_data [OF assms(1) conn assms(3)]
    list_changed_defined [OF pool_ok_master [OF assms(1)]]
  show ?thesis
    by (cases i) (auto simp: client_dispatch_def ProcessReply_ControllerCount_def ProcessReply_ProtocolVersion_def
        split: Option.bind_splits if_splits)
qed

text \<open>C7: whatever packets a server sends, and in whatever order the two threads of the client take their steps, the
  list of controllers the rest of the program sees holds its own controllers and controllers of the server
  that are allocated; no step deletes one twice; and a connection that is not initialized has none in the list.\<close>

theorem client_list_alive:
  assumes "client_reachable alloc F c" "alloc_ok F alloc"
  shows "set (master c) \<subseteq> F \<union> dom (objects c) \<and> F \<inter> dom (objects c) = {} \<and>
    (\<not> server_initialized c \<longrightarrow> set (master c) \<subseteq> F) \<and>
    client_listen_done c \<noteq> None \<and> ProcessRequest_DeviceListChanged c \<noteq> None"
proof -
  from assms(1) have ok: "master_ok F c"
  proof (induction rule: client_reachable.induct)
    case (init others nm)
    then show ?case by (simp add: master_ok_def new_client_def)
  next
    case (step c e c')
    show ?case by (rule master_ok_step [OF step.IH step.hyps(2) assms(2) step.hyps(3)])
  qed
  have "set (master c) \<subseteq> F" if "\<not> server_initialized c"
    using ok that by (auto simp: master_ok_def count_list_0_iff)
  with ok listen_done_defined [OF pool_ok_master [OF ok]] list_changed_defined [OF pool_ok_master [OF ok]]
  show ?thesis by (auto simp: master_ok_def)
qed

theorem client_list_alive_witness:
  "\<exists>c. client_reachable (next_address 5) {5} c \<and> server_connected c \<and>
    set (master c) \<subseteq> {5} \<union> dom (objects c) \<and> {5} \<inter> dom (objects c) = {} \<and>
    (server_initialized c \<or> set (master c) \<subseteq> {5}) \<and>
    client_listen_done c \<noteq> None \<and> ProcessRequest_DeviceListChanged c \<noteq> None"
proof -
  let ?c = "conn_step True (new_client (str8 ''me'') [5])"
  have r: "client_reachable (next_address 5) {5} ?c"
    by (rule client_reachable.step [OF client_reachable.init, where e = "Connection_thread True"]) simp_all
  have conn: "server_connected ?c"
    by (simp add: conn_step_def new_client_def connect_def test_version_def SendRequest_ProtocolVersion_def
        client_send_def Let_def)
  show ?thesis
    using client_list_alive [OF r alloc_ok_next] r conn by (intro exI [of _ ?c]) auto
qed

section \<open>Waiting for the version, and losing the connection meanwhile\<close>

lemma wake_up_cases:
  assumes "version_wait c = Some n" "client_active c"
  shows "version_wait (conn_step b c) = None \<and> protocol_initialized (conn_step b c) \<or>
    n < 200 \<and> version_wait (conn_step b c) = Some (Suc n) \<and> client_active (conn_step b c)"
proof -
  have i: "version_wait (initialize_connection d) = version_wait d"
      "protocol_initialized (initialize_connection d) = protocol_initialized d" for d
    by (simp_all add: initialize_connection_def request_devices_def Let_def SendData_ClientString_def send_string_def
        client_send_def SendRequest_ControllerCount_def SendRequest_ControllerData_def add_to_master_def)
  show ?thesis using assms by (simp add: conn_step_def wake_up_def test_version_def i)
qed

text \<open>C37: the wait for the version of the server ends after at most 201 passes, whether or not a reply comes.\<close>

theorem version_wait_ends:
  assumes "version_wait c = Some n" "n \<le> 200" "client_active c"
  shows "\<exists>k \<le> 201 - n. version_wait ((conn_step b ^^ k) c) = None \<and> protocol_initialized ((conn_step b ^^ k) c)"
  using assms
proof (induction "200 - n" arbitrary: n c)
  case 0
  then have "version_wait (conn_step b c) = None \<and> protocol_initialized (conn_step b c)"
    using wake_up_cases [of c n b] by auto
  with 0 show ?case by (intro exI [of _ 1]) simp
next
  case (Suc m)
  consider "version_wait (conn_step b c) = None \<and> protocol_initialized (conn_step b c)"
    | "version_wait (conn_step b c) = Some (Suc n)" "client_active (conn_step b c)"
    using wake_up_cases [of c n b] Suc.prems by auto
  then show ?case
  proof cases
    case 1
    with Suc show ?thesis by (intro exI [of _ 1]) simp
  next
    case 2
    have "\<exists>k \<le> 201 - Suc n. version_wait ((conn_step b ^^ k) (conn_step b c)) = None \<and>
        protocol_initialized ((conn_step b ^^ k) (conn_step b c))"
      using Suc.hyps(2) 2 by (intro Suc.hyps(1)) auto
    then obtain k where "k \<le> 201 - Suc n" "version_wait ((conn_step b ^^ Suc k) c) = None"
        "protocol_initialized ((conn_step b ^^ Suc k) c)"
      by (auto simp: funpow_swap1 simp flip: funpow_simps_right)
    with Suc.hyps(2) show ?thesis by (intro exI [of _ "Suc k"]) simp
  qed
qed

theorem version_wait_ends_witness:
  "\<exists>k \<le> 201. version_wait ((conn_step True ^^ k) (conn_step True (new_client [] []))) = None \<and>
     protocol_initialized ((conn_step True ^^ k) (conn_step True (new_client [] [])))"
  using version_wait_ends [of "conn_step True (new_client [] [])" 0 True]
  by (simp add: conn_step_def new_client_def connect_def test_version_def SendRequest_ProtocolVersion_def
      client_send_def Let_def)

text \<open>When the connection breaks after the version arrived and before the connection thread wakes up, that thread
  marks the lost connection as initialized; after connecting again it never asks for the devices, and stays in
  this state until the server sends a packet on its own.\<close>

definition stall_events :: "client_event list" where
  "stall_events = [Connection_thread True,
     Received_packet (InitNetPacketHeader 0 REQUEST_PROTOCOL_VERSION 4) (Some [5, 0, 0, 0]), Listener_done,
     Connection_thread True, Connection_thread True]"

fun run_client :: "(client \<Rightarrow> nat) \<Rightarrow> client_event list \<Rightarrow> client \<Rightarrow> client defined" where
  "run_client alloc [] c = Some c"
| "run_client alloc (e # es) c = (if client_possible e c then Option.bind (client_step alloc e c) (run_client alloc es) else None)"

lemma run_client_reachable:
  "run_client alloc es c = Some c' \<Longrightarrow> client_reachable alloc F c \<Longrightarrow> client_reachable alloc F c'"
  by (induction es arbitrary: c) (auto split: Option.bind_splits if_splits intro: client_reachable.step)

theorem reconnect_stalls:
  "\<exists>c. client_reachable alloc {} c \<and> client_active c \<and> server_connected c \<and> \<not> GetOnline c \<and>
     (\<forall>connects. conn_step connects c = c)"
proof -
  note defs = stall_events_def new_client_def conn_step_def connect_def test_version_def wake_up_def
    SendRequest_ProtocolVersion_def client_send_def Let_def client_dispatch_def ProcessReply_ProtocolVersion_def
    rd_u32_def rd_word_def le_word_Cons client_listen_done_def drop_server_controllers_def
    initialize_connection_def SendData_ClientString_def send_string_def request_devices_def
    SendRequest_ControllerCount_def GetOnline_def
  let ?c0 = "new_client [] []"
  have "run_client alloc stall_events ?c0 \<noteq> None" by (simp add: defs)
  then obtain c where c: "run_client alloc stall_events ?c0 = Some c" by auto
  then have "client_active c \<and> server_connected c \<and> \<not> GetOnline c \<and> (\<forall>connects. conn_step connects c = c)"
    by (auto simp: defs)
  moreover have "client_reachable alloc {} c"
    by (rule run_client_reachable [OF c]) (simp add: client_reachable.init)
  ultimately show ?thesis by blast
qed

section \<open>Replies the client does not check\<close>

lemma fold_def_None:
  assumes "x \<in> set xs" "\<And>s. f x s = None"
  shows "fold_def f xs s = None"
  using assms(1)
proof (induction xs arbitrary: s)
  case (Cons y ys)
  then show ?case using assms(2) by (cases "y = x") (auto split: Option.bind_splits)
qed simp

lemma description_starts_with_size:
  assumes "device_ok d" "length (wimage (device_writes pv d)) < 2 ^ 32"
  shows "rd_u32 (wimage (device_writes pv d)) 0 = Some (of_nat (length (wimage (device_writes pv d))), 4)"
proof -
  obtain r where r: "wimage (device_writes pv d) = le_bytes 4 (device_size pv d) @ r"
    using wimage_device_writes [OF assms(1)] by auto
  have "rd_u32 (le_bytes 4 (device_size pv d) @ r) 0 = Some (device_size pv d, 4)"
    by (simp add: rd_u32_def rd_word_def wire_simps)
  then show ?thesis by (simp only: flip: r device_size_wimage [OF assms(1)])
qed

text \<open>A description of a known device is copied zone by zone over the zones the client has; when the device at
  that index has fewer zones now, the copy reads behind the new zones.\<close>

theorem shrunk_device_overreads:
  assumes "device_ok d" "length (wimage (device_writes (GetProtocolVersion c) d)) < 2 ^ 32"
    and "GetDeviceDescription jk (GetProtocolVersion c) d = Some bs"
    and "unat i < length (server_controllers c)" "objects c (server_controllers c ! unat i) = Some r"
    and "length (zones d) < length (zones (remote_ctl r))"
  shows "ProcessReply_ControllerData alloc (of_nat (length bs)) (Some bs) i c = None"
proof -
  let ?pv = "GetProtocolVersion c"
  let ?n = "norm_device ?pv new_controller d"
  have bs: "bs = wimage (device_writes ?pv d)"
    using device_roundtrip_lemma(1) [OF assms(1,2), of jk] assms(3) by simp
  have rd: "ReadDeviceDescription bs ?pv new_controller = Some ?n"
    using device_roundtrip_lemma(2) [OF assms(1,2), of new_controller] by (simp add: bs)
  have sz: "rd_u32 bs 0 = Some (of_nat (length bs), 4)"
    using description_starts_with_size [OF assms(1,2)] by (simp add: bs)
  have len: "length (zones (mark_remote ?n)) = length (zones d)"
    by (simp add: mark_remote_def norm_device_def SetupColors_def Let_def new_controller_def empty_device_def)
  have "merge_zone (mark_remote ?n) (length (zones d)) e = None" for e
    by (simp add: merge_zone_def len split: Option.bind_splits)
  then have "fold_def (merge_zone (mark_remote ?n)) [0..<length (zones (remote_ctl r))] e = None" for e
    by (intro fold_def_None [of "length (zones d)"]) (use assms(6) in simp_all)
  then have "merge_controller (mark_remote ?n) (remote_ctl r) = None"
    by (simp add: merge_controller_def)
  then show ?thesis
    using assms(4,5) by (simp add: ProcessReply_ControllerData_def rd sz Let_def)
qed

definition sample_client :: client where
  "sample_client = (new_client [] [])\<lparr>server_protocol_version := 5, server_controllers := [1],
     objects := [1 \<mapsto> \<lparr>remote_idx = 0, remote_ctl = sample_device\<rparr>]\<rparr>"

lemma empty_device_image:
  "device_ok empty_device" "length (wimage (device_writes pv empty_device)) < 2 ^ 32"
proof -
  show ok: "device_ok empty_device"
    by (simp add: device_ok_def empty_device_def str_ok_def c_str_def fits16_def)
  show "length (wimage (device_writes pv empty_device)) < 2 ^ 32"
    by (simp add: wimage_device_writes [OF ok]) (simp add: empty_device_def c_str_def color_writes_def counted_def)
qed

theorem shrunk_device_overreads_witness:
  "\<exists>bs. GetDeviceDescription (\<lambda>_. 0) 5 empty_device = Some bs \<and>
     ProcessReply_ControllerData (next_address 0) (of_nat (length bs)) (Some bs) 0 sample_client = None"
proof -
  have pv: "GetProtocolVersion sample_client = 5"
    by (simp add: GetProtocolVersion_def OPENRGB_SDK_PROTOCOL_VERSION_def sample_client_def)
  obtain bs where bs: "GetDeviceDescription (\<lambda>_. 0) 5 empty_device = Some bs"
    using device_roundtrip_lemma(1) [OF empty_device_image] by blast
  have "zones empty_device = []" "zones sample_device \<noteq> []"
    by (simp_all add: sample_defs)
  then have "ProcessReply_ControllerData (next_address 0) (of_nat (length bs)) (Some bs) 0 sample_client = None"
    by (intro shrunk_device_overreads [OF empty_device_image(1), where jk = "\<lambda>_. 0" and
        r = "\<lparr>remote_idx = 0, remote_ctl = sample_device\<rparr>"])
      (use empty_device_image(2) [of 5] in \<open>simp_all add: pv bs\<close>, simp_all add: sample_client_def)
  with bs show ?thesis by blast
qed

text \<open>The client cannot read the list of profiles a server sends: it takes the size of the packet for the number of
  profiles and for the length of every name, and returns as many empty names as the packet has bytes, followed
  by as many copies of the whole packet.\<close>

theorem profile_list_misread:
  assumes "list_all str_ok ns" "fits16 ns" "6 + length (wimage (concat (map string_writes ns))) < 65536"
  shows "\<exists>bs. GetProfileListDescription jk ns = Some bs \<and>
    ProcessReply_ProfileList (of_nat (length bs)) bs c =
      Some (c\<lparr>server_controller_count_received := True\<rparr>, replicate (length bs) [] @ replicate (length bs) bs)"
proof -
  let ?ws = "put_u16 (count16 ns) # concat (map string_writes ns)"
  let ?n = "profile_list_size ns"
  let ?bs = "le_bytes 4 ?n @ wimage ?ws"
  have "sum_list (map (\<lambda>n. 2 + (of_nat (length (c_str n)) + 1)) ns) = (of_nat (length (wimage (concat (map string_writes ns)))) :: u32)"
    by (rule sizes_wimage) simp
  then have n: "?n = of_nat (4 + length (wimage ?ws))"
    using assms(2) by (simp add: profile_list_size_def)
  have t: "list_all tight ?ws"
    using assms(1) by (auto simp: list_all_iff [of str_ok] intro!: tight_concat)
  have len: "4 + length (wimage ?ws) < 2 ^ 32" using assms(3) by simp
  have bs: "GetProfileListDescription jk ns = Some ?bs"
    using packet_image(1) [OF t n len] assms(2) by (simp add: GetProfileListDescription_def)
  have un: "unat ?n = length ?bs" by (rule packet_image(3) [OF t n len])
  then have small: "unat ?n < 65536" "0 < unat ?n" using assms(3) by simp_all
  have "take 2 ?bs = take 2 (le_bytes 4 ?n)" by simp
  also have "le_word (take 2 (le_bytes 4 ?n)) = (ucast ?n :: u16)"
    by (rule bit_word_eqI) (auto simp: le_bytes_def upt_rec le_word_Cons bit_simps)
  finally have "rd_u16 ?bs 0 = Some (ucast ?n, 2)" using small(2) un
    by (simp add: rd_u16_def rd_word_def)
  moreover have "unat (ucast ?n :: u16) = length ?bs"
    using small(1) un by (simp add: unsigned_ucast_eq take_bit_nat_eq_self)
  moreover have "those (map (\<lambda>i. Some x) xs) = Some (replicate (length xs) x)" for x :: cstring and xs :: "nat list"
    by (induction xs) simp_all
  moreover have "(of_nat (length ?bs) :: u32) = ?n" by (simp only: un [symmetric] of_nat_unat ucast_id)
  moreover have "?n \<noteq> 0" using small(2) by auto
  ultimately have "ProcessReply_ProfileList (of_nat (length ?bs)) ?bs c
      = Some (c\<lparr>server_controller_count_received := True\<rparr>, replicate (length ?bs) [] @ replicate (length ?bs) ?bs)"
    using small(2) un by (simp add: ProcessReply_ProfileList_def rd_bytes_def word_gt_0)
  with bs show ?thesis by blast
qed

theorem profile_list_misread_witness:
  "\<exists>bs. GetProfileListDescription (\<lambda>_. 0) [str8 ''day'', str8 ''night''] = Some bs \<and>
    ProcessReply_ProfileList (of_nat (length bs)) bs c =
      Some (c\<lparr>server_controller_count_received := True\<rparr>, replicate (length bs) [] @ replicate (length bs) bs)"
  by (rule profile_list_misread) (simp_all add: str_ok_def str8_def c_str_def fits16_def)

end
