(* ===== verification/Net_Session.thy ===== *)
theory Net_Session
  imports Net_Client_Props
begin

text \<open>
  Server and client together, over the bytes on the wire: a client that connects lists the devices of the
  server, and what it asks a remote controller to do happens on the device of the server.
\<close>

section \<open>A session\<close>

text \<open>
  The client is known to the server by the record \<open>a\<close> and the socket \<open>sock\<close>. In an exchange the server
  handles everything the client has sent, and the client everything the server has sent to it since;
  \<open>cut\<close> is how the network splits the bytes. (\<open>listen\<close> stops where the bytes end: there the thread waits.)
\<close>

record link =
  world_of :: world
  record_of :: nat
  socket_of :: nat
  alloc_of :: "client \<Rightarrow> nat"
  can_new_of :: "nat \<Rightarrow> bool"
  cut :: "byte list \<Rightarrow> inbox"

definition replies :: "nat \<Rightarrow> server \<Rightarrow> server \<Rightarrow> byte list list" where
  "replies sock s s' = map snd (filter (\<lambda>p. fst p = sock) (drop (length (sent s)) (sent s')))"

definition exchange :: "link \<Rightarrow> client \<times> server \<Rightarrow> (client \<times> server) defined" where
  "exchange l = (\<lambda>(c, s). do {
     s' \<leftarrow> listen (can_new_of l) (dispatch (world_of l) (record_of l) (socket_of l)) (cut l (concat (outbox c))) s;
     c' \<leftarrow> listen (can_new_of l) (client_dispatch (alloc_of l)) (cut l (concat (replies (socket_of l) s s'))) (c\<lparr>outbox := []\<rparr>);
     Some (c', s') })"

text \<open>A pass of the connection thread, and an exchange while it waits.\<close>

definition round :: "link \<Rightarrow> client \<times> server \<Rightarrow> (client \<times> server) defined" where
  "round l = (\<lambda>(c, s). exchange l (conn_step True c, s))"

primrec rounds :: "nat \<Rightarrow> link \<Rightarrow> client \<times> server \<Rightarrow> (client \<times> server) defined" where
  "rounds 0 l st = Some st"
| "rounds (Suc k) l st = Option.bind (round l st) (rounds k l)"

text \<open>The network splits bytes, and does not lose them; memory suffices for packets below 2 GiB.\<close>

definition link_ok :: "nat set \<Rightarrow> link \<Rightarrow> bool" where
  "link_ok F l \<longleftrightarrow> (\<forall>bs. pieces (cut l bs) bs) \<and> (\<forall>n < 2 ^ 31. can_new_of l n) \<and> alloc_ok F (alloc_of l)"

lemma rounds_add: "rounds (j + k) l st = Option.bind (rounds j l st) (rounds k l)"
  by (induction j arbitrary: st) (auto split: Option.bind_splits)

section \<open>Frames\<close>

definition packet_fits :: "NetPacketHeader \<times> byte list \<Rightarrow> bool" where
  "packet_fits p \<longleftrightarrow> length (pkt_magic (fst p)) = 4 \<and> unat (pkt_size (fst p)) = length (snd p) \<and> length (snd p) < 2 ^ 31"

lemma listen_frames:
  assumes "link_ok F l" "list_all packet_fits ps"
  shows "listen (can_new_of l) handler (cut l (concat (map frame ps))) s = handle_packets handler ps s"
proof -
  have ok: "list_all (frame_ok (can_new_of l)) ps"
    using assms by (auto simp: list_all_iff packet_fits_def frame_ok_def link_ok_def)
  have p: "concat (cut l (concat (map frame ps))) = concat (map frame ps) @ []" "[] \<notin> set (cut l (concat (map frame ps)))"
    using assms(1) by (simp_all add: link_ok_def pieces_def)
  have q: "frame_ok (can_new_of l) (InitNetPacketHeader 0 REQUEST_CONTROLLER_COUNT 0, [])"
    using assms(1) by (simp add: frame_ok_def link_ok_def)
  have "strict_prefix [] (frame (InitNetPacketHeader 0 REQUEST_CONTROLLER_COUNT 0, []))"
    by (simp add: frame_def header_bytes_def openrgb_sdk_magic_def str8_def)
  then show ?thesis by (rule listen_complete_packets [OF p ok q])
qed

lemma exchange_frames:
  assumes "link_ok F l" "outbox c = map frame ps" "list_all packet_fits ps"
    and "handle_packets (dispatch (world_of l) (record_of l) (socket_of l)) ps s = Some s'"
    and "sent s' = sent s @ map (\<lambda>q. (socket_of l, frame q)) qs" "list_all packet_fits qs"
    and "handle_packets (client_dispatch (alloc_of l)) qs (c\<lparr>outbox := []\<rparr>) = Some c'"
  shows "exchange l (c, s) = Some (c', s')"
proof -
  have "replies (socket_of l) s s' = map frame qs"
    by (simp add: replies_def assms(5) filter_map comp_def)
  then show ?thesis
    using assms by (simp add: exchange_def listen_frames)
qed

lemma packet_fits_Init:
  "unat n = length bs \<Longrightarrow> length bs < 2 ^ 31 \<Longrightarrow> packet_fits (InitNetPacketHeader d i n, bs)"
  by (simp add: packet_fits_def)

lemma le_bytes_Nil [simp]: "le_bytes n w = [] \<longleftrightarrow> n = 0"
  by (simp add: le_bytes_def)

lemma data_of_word [simp]: "data_of (le_bytes 4 w) = Some (le_bytes 4 w)"
  by (simp add: data_of_def le_bytes_def upt_rec)

lemma rd_u32_word [simp]: "rd_u32 (le_bytes 4 w) 0 = Some (w, 4)"
  by (simp add: rd_u32_def rd_word_def wire_simps)

lemma client_send_frame [simp]: "outbox (client_send h bs c) = outbox c @ [frame (h, bs)]"
  by (simp add: client_send_def frame_def)

lemma send_packet_frame [simp]: "sent (send_packet sock h bs s) = sent s @ [(sock, frame (h, bs))]"
  by (simp add: send_packet_def frame_def)

section \<open>Collecting the devices\<close>

text \<open>The client's picture of device \<open>d\<close> of the server, with the index \<open>i\<close>.\<close>

definition mirror :: "u32 \<Rightarrow> controller \<Rightarrow> remote" where
  "mirror i d = \<lparr>remote_idx = i, remote_ctl = mark_remote (norm_device 5 new_controller d)\<rparr>"

definition device_fits :: "controller \<Rightarrow> bool" where
  "device_fits d \<longleftrightarrow> device_ok d \<and> length (wimage (device_writes 5 d)) < 2 ^ 31"

text \<open>The server side that stays the same: the devices, and that the records of the clients are allocated.\<close>

definition serves :: "controller list \<Rightarrow> server \<Rightarrow> bool" where
  "serves ds s \<longleftrightarrow> controllers s = ds \<and> (\<forall>b \<in> set (ServerClients s). infos s b \<noteq> None)"

text \<open>\<open>k\<close> devices are there, and the next one has to be requested.\<close>

definition collected :: "nat set \<Rightarrow> nat list \<Rightarrow> controller list \<Rightarrow> nat \<Rightarrow> client \<Rightarrow> bool" where
  "collected F others ds k c \<longleftrightarrow> outbox c = [] \<and> client_active c \<and> client_string_sent c \<and> protocol_initialized c \<and>
     server_connected c \<and> \<not> server_initialized c \<and> server_controller_count c = of_nat (length ds) \<and>
     server_controller_count_requested c \<and> server_controller_count_received c \<and>
     server_protocol_version c = 5 \<and> requested_controllers c = of_nat k \<and> \<not> controller_data_requested c \<and>
     version_wait c = None \<and> master c = others \<and>
     length (server_controllers c) = k \<and> distinct (server_controllers c) \<and> dom (objects c) = set (server_controllers c) \<and>
     (\<forall>i < k. objects c (server_controllers c ! i) = Some (mirror (of_nat i) (ds ! i)))"

lemma server_description:
  assumes "serves ds s" "k < length ds" "length ds < 2 ^ 32" "device_fits (ds ! k)"
  shows "\<exists>s' buf. dispatch w a sock (InitNetPacketHeader (of_nat k) REQUEST_CONTROLLER_DATA 4) (Some (le_bytes 4 (5 :: u32))) s = Some (s', False) \<and>
    serves ds s' \<and> buf = wimage (device_writes 5 (ds ! k)) \<and>
    sent s' = sent s @ [(sock, frame (InitNetPacketHeader (of_nat k) REQUEST_CONTROLLER_DATA (of_nat (length buf)), buf))]"
proof -
  let ?d = "ds ! k" and ?buf = "wimage (device_writes 5 (ds ! k))"
  have ok: "device_ok ?d" "length ?buf < 2 ^ 32" using assms(4) by (simp_all add: device_fits_def)
  have k: "unat (of_nat k :: u32) = k" using assms(2,3) by simp
  have "rd_bytes (length ?buf) ?buf 0 = Some (?buf, of_nat (length ?buf))" by (simp add: rd_bytes_def)
  moreover have "unat (of_nat (length ?buf) :: u32) = length ?buf" using ok(2) by simp
  ultimately have "send_description sock (of_nat k) REQUEST_CONTROLLER_DATA ?buf s
      = Some (send_packet sock (InitNetPacketHeader (of_nat k) REQUEST_CONTROLLER_DATA (of_nat (length ?buf))) ?buf s)"
    by (simp add: send_description_def description_starts_with_size [OF ok])
  then have "dispatch w a sock (InitNetPacketHeader (of_nat k) REQUEST_CONTROLLER_DATA 4) (Some (le_bytes 4 (5 :: u32))) s
      = Some (send_packet sock (InitNetPacketHeader (of_nat k) REQUEST_CONTROLLER_DATA (of_nat (length ?buf))) ?buf s, False)"
    using assms(1,2) by (simp add: dispatch_def request_data_def SendReply_ControllerData_def k serves_def
        device_roundtrip_lemma(1) [OF ok])
  then show ?thesis using assms(1) by (auto simp: serves_def send_packet_def frame_def)
qed

lemma client_takes_description:
  assumes "link_ok F l" "collected F others ds k c" "k < length ds" "length ds < 2 ^ 32" "device_fits (ds ! k)"
    and "c2 = c\<lparr>controller_data_received := False, controller_data_requested := True\<rparr>"
    and "buf = wimage (device_writes 5 (ds ! k))"
  shows "client_dispatch (alloc_of l) (InitNetPacketHeader (of_nat k) REQUEST_CONTROLLER_DATA (of_nat (length buf))) (Some buf) c2
    = Some (c2\<lparr>objects := (objects c)(alloc_of l c2 \<mapsto> mirror (of_nat k) (ds ! k)),
        server_controllers := server_controllers c @ [alloc_of l c2], controller_data_received := True\<rparr>, False)"
proof -
  let ?d = "ds ! k"
  have ok: "device_ok ?d" "length (wimage (device_writes 5 ?d)) < 2 ^ 32"
    using assms(5) by (simp_all add: device_fits_def)
  have pv: "GetProtocolVersion c2 = 5"
    using assms(2,6) by (simp add: collected_def GetProtocolVersion_def OPENRGB_SDK_PROTOCOL_VERSION_def)
  have "unat (of_nat k :: u32) = k" using assms(3,4) by simp
  moreover have "length (server_controllers c2) = k" "server_controllers c2 = server_controllers c"
      "objects c2 = objects c"
    using assms(2,6) by (simp_all add: collected_def)
  ultimately show ?thesis
    using device_roundtrip_lemma(2) [OF ok, of new_controller] description_starts_with_size [OF ok]
    by (simp add: client_dispatch_def ProcessReply_ControllerData_def pv assms(7) mirror_def Let_def)
qed

text \<open>Two passes collect one device.\<close>

lemma collect_one:
  assumes "link_ok F l" "collected F others ds k c" "serves ds s"
    and "k < length ds" "length ds < 2 ^ 32" "device_fits (ds ! k)"
  shows "\<exists>c' s'. rounds 2 l (c, s) = Some (c', s') \<and> collected F others ds (Suc k) c' \<and> serves ds s'"
proof -
  let ?buf = "wimage (device_writes 5 (ds ! k))"
  let ?req = "(InitNetPacketHeader (of_nat k) REQUEST_CONTROLLER_DATA 4, le_bytes 4 (5 :: u32))"
  let ?rep = "(InitNetPacketHeader (of_nat k) REQUEST_CONTROLLER_DATA (of_nat (length ?buf)), ?buf)"
  note c = assms(2) [unfolded collected_def]
  define c2 where "c2 = c\<lparr>controller_data_received := False, controller_data_requested := True\<rparr>"
  have kn: "(of_nat k :: u32) < of_nat (length ds)"
    using assms(4,5) by (simp add: word_less_nat_alt)
  have step: "conn_step True c = c2\<lparr>outbox := [frame ?req]\<rparr>"
    using c kn by (simp add: conn_step_def connect_def initialize_connection_def request_devices_def Let_def
        SendRequest_ControllerData_def client_send_def frame_def OPENRGB_SDK_PROTOCOL_VERSION_def c2_def)
  obtain s1 where s1: "dispatch (world_of l) (record_of l) (socket_of l) (fst ?req) (Some (snd ?req)) s = Some (s1, False)"
      "serves ds s1" "sent s1 = sent s @ [(socket_of l, frame ?rep)]"
    using server_description [OF assms(3-6)] by (metis fst_conv snd_conv)
  have buf: "?buf \<noteq> []" "length ?buf < 2 ^ 31" using assms(6) by (auto simp: device_fits_def wimage_device_writes)
  have fits: "packet_fits ?req" "packet_fits ?rep" using buf(2) by (simp_all add: packet_fits_Init)
  define c3 where "c3 = c2\<lparr>objects := (objects c)(alloc_of l c2 \<mapsto> mirror (of_nat k) (ds ! k)),
        server_controllers := server_controllers c @ [alloc_of l c2], controller_data_received := True\<rparr>"
  have ob1: "outbox c2 = []" using c by (simp add: c2_def)
  have ob: "c2\<lparr>outbox := []\<rparr> = c2" by (rule client.equality) (simp_all add: ob1)
  have r1: "round l (c, s) = Some (c3, s1)"
    unfolding round_def prod.case step
    by (rule exchange_frames [OF assms(1), where ps = "[?req]" and qs = "[?rep]"])
      (use s1 fits buf client_takes_description [OF assms(1,2,4,5,6) c2_def refl] ob in
        \<open>simp_all add: data_of_def [of ?buf] c3_def\<close>)
  have al: "alloc_of l c2 \<notin> set (server_controllers c)"
    using assms(1) c unfolding link_ok_def alloc_ok_def by (metis (no_types, lifting) c2_def client.select_convs(18,19)
        client.surjective client.update_convs(5,6) domIff)
  define c4 where "c4 = c3\<lparr>requested_controllers := requested_controllers c3 + 1, controller_data_requested := False\<rparr>"
  have step2: "conn_step True c3 = c4"
    using c kn by (simp add: conn_step_def connect_def initialize_connection_def request_devices_def Let_def c4_def c3_def c2_def)
  have r2: "round l (c3, s1) = Some (c4, s1)"
    unfolding round_def prod.case step2
    by (rule exchange_frames [OF assms(1), where ps = "[]" and qs = "[]"])
      (use ob1 in \<open>simp_all add: c4_def c3_def ob\<close>)
  have "server_controllers c ! i \<noteq> alloc_of l c2" if "i < length (server_controllers c)" for i
    using al nth_mem [OF that] by auto
  then have "collected F others ds (Suc k) c4"
    using c al by (auto simp: collected_def c4_def c3_def c2_def nth_append less_Suc_eq add.commute)
  moreover have "rounds 2 l (c, s) = Some (c4, s1)"
    using r1 r2 by (simp add: numeral_2_eq_2)
  ultimately show ?thesis using s1(2) by blast
qed

lemma collect_all:
  assumes "link_ok F l" "collected F others ds k c" "serves ds s" "k \<le> length ds" "length ds < 2 ^ 32" "list_all device_fits ds"
  shows "\<exists>c' s'. rounds (2 * (length ds - k)) l (c, s) = Some (c', s') \<and> collected F others ds (length ds) c' \<and> serves ds s'"
  using assms(2-4)
proof (induction "length ds - k" arbitrary: k c s)
  case 0
  then show ?case by simp
next
  case (Suc m)
  then have k: "k < length ds" "device_fits (ds ! k)" using assms(6) by (auto simp: list_all_length)
  obtain c1 s1 where 1: "rounds 2 l (c, s) = Some (c1, s1)" "collected F others ds (Suc k) c1" "serves ds s1"
    using collect_one [OF assms(1) Suc.prems(1,2) k(1) assms(5) k(2)] by blast
  then obtain c2 s2 where 2: "rounds (2 * (length ds - Suc k)) l (c1, s1) = Some (c2, s2)"
      "collected F others ds (length ds) c2" "serves ds s2"
    using Suc.hyps(1) [of "Suc k" c1 s1] Suc_inject [of m "length ds - Suc k"] Suc.hyps(2) k by (auto simp: Suc_diff_Suc)
  have "2 * (length ds - k) = 2 + 2 * (length ds - Suc k)" using k by simp
  then have "rounds (2 * (length ds - k)) l (c, s) = Some (c2, s2)"
    using 1(1) 2(1) by (simp only: rounds_add Option.bind.simps)
  with 2 show ?case by blast
qed

section \<open>Bringing up the connection\<close>

lemma update_client_defined:
  "\<forall>b \<in> set bs. m b \<noteq> None \<Longrightarrow> \<exists>m'. update_client sock f bs m = Some m' \<and> (\<forall>b. m b \<noteq> None \<longrightarrow> m' b \<noteq> None)"
  by (induction bs) auto

lemma serves_update:
  assumes "serves ds s" "update_client sock f (ServerClients s) (infos s) = Some m"
  shows "serves ds (ClientInfoChanged (s\<lparr>infos := m\<rparr>))" "sent (ClientInfoChanged (s\<lparr>infos := m\<rparr>)) = sent s"
proof -
  obtain m' where "update_client sock f (ServerClients s) (infos s) = Some m'" "\<forall>b. infos s b \<noteq> None \<longrightarrow> m' b \<noteq> None"
    using update_client_defined [of "ServerClients s" "infos s" sock f] assms(1) by (auto simp: serves_def)
  with assms show "serves ds (ClientInfoChanged (s\<lparr>infos := m\<rparr>))" "sent (ClientInfoChanged (s\<lparr>infos := m\<rparr>)) = sent s"
    by (simp_all add: serves_def ClientInfoChanged_def effect_def)
qed

lemma serves_version:
  assumes "serves ds s"
  shows "\<exists>s'. dispatch w a sock (InitNetPacketHeader 0 REQUEST_PROTOCOL_VERSION 4) (Some (le_bytes 4 OPENRGB_SDK_PROTOCOL_VERSION)) s
      = Some (s', False) \<and> serves ds s' \<and>
    sent s' = sent s @ [(sock, frame (InitNetPacketHeader 0 REQUEST_PROTOCOL_VERSION 4, le_bytes 4 OPENRGB_SDK_PROTOCOL_VERSION))]"
proof -
  let ?t = "SendReply_ProtocolVersion sock s"
  have t: "serves ds ?t" using assms by (simp add: serves_def SendReply_ProtocolVersion_def send_packet_def)
  let ?f = "\<lambda>ci. ci\<lparr>client_protocol_version := OPENRGB_SDK_PROTOCOL_VERSION\<rparr>"
  obtain m where m: "update_client sock ?f (ServerClients ?t) (infos ?t) = Some m"
    using update_client_defined [of "ServerClients ?t" "infos ?t" sock ?f] t by (auto simp: serves_def)
  then show ?thesis
    using serves_update [OF t m]
    by (simp add: dispatch_def ProcessRequest_ClientProtocolVersion_def)
      (simp add: SendReply_ProtocolVersion_def)
qed

lemma serves_name:
  assumes "serves ds s" "length (c_str nm) + 1 < 2 ^ 31"
  shows "\<exists>s'. dispatch w a sock (InitNetPacketHeader 0 SET_CLIENT_NAME (of_nat (length (c_str nm)) + 1)) (Some (c_str nm @ [0])) s
      = Some (s', False) \<and> serves ds s' \<and> sent s' = sent s"
proof -
  let ?f = "\<lambda>ci. ci\<lparr>client_string := c_str nm @ [0]\<rparr>"
  have "unat (of_nat (length (c_str nm) + 1) :: u32) = length (c_str nm) + 1"
    using assms(2) by (intro unat_of_nat_small) simp
  then have u: "unat (of_nat (length (c_str nm)) + 1 :: u32) = length (c_str nm) + 1" by (simp add: add.commute)
  obtain m where m: "update_client sock ?f (ServerClients s) (infos s) = Some m"
    using update_client_defined [of "ServerClients s" "infos s" sock ?f] assms by (auto simp: serves_def)
  then show ?thesis
    using serves_update [OF assms(1) m]
    by (simp add: dispatch_def when_data_def ProcessRequest_ClientString_def rd_bytes_def u)
qed

lemma serves_count:
  assumes "serves ds s"
  shows "\<exists>s'. dispatch w a sock (InitNetPacketHeader 0 REQUEST_CONTROLLER_COUNT 0) None s = Some (s', False) \<and> serves ds s' \<and>
    sent s' = sent s @ [(sock, frame (InitNetPacketHeader 0 REQUEST_CONTROLLER_COUNT 4, le_bytes 4 (of_nat (length ds) :: u32)))]"
  using assms by (auto simp: dispatch_def SendReply_ControllerCount_def serves_def send_packet_def frame_def)

lemma bring_up:
  assumes "link_ok F l" "serves ds s" "length ds < 2 ^ 32" "length (c_str nm) + 1 < 2 ^ 31"
  shows "\<exists>c' s'. rounds 2 l (new_client nm others, s) = Some (c', s') \<and> collected F others ds 0 c' \<and> serves ds s'"
proof -
  let ?c0 = "new_client nm others"
  let ?ver = "(InitNetPacketHeader 0 REQUEST_PROTOCOL_VERSION 4, le_bytes 4 OPENRGB_SDK_PROTOCOL_VERSION)"
  let ?name = "(InitNetPacketHeader 0 SET_CLIENT_NAME (of_nat (length (c_str nm)) + 1), c_str nm @ [0])"
  let ?count = "(InitNetPacketHeader 0 REQUEST_CONTROLLER_COUNT 0, [])"
  let ?n = "(InitNetPacketHeader 0 REQUEST_CONTROLLER_COUNT 4, le_bytes 4 (of_nat (length ds) :: u32))"
  have "unat (of_nat (length (c_str nm) + 1) :: u32) = length (c_str nm) + 1"
    using assms(4) by (intro unat_of_nat_small) simp
  then have u: "unat (of_nat (length (c_str nm)) + 1 :: u32) = length (c_str nm) + 1" by (simp add: add.commute)
  have fits: "packet_fits ?ver" "packet_fits ?name" "packet_fits ?count" "packet_fits ?n"
    using assms(4) u by (simp_all add: packet_fits_def)
  define c1 where "c1 = ?c0\<lparr>server_connected := True, version_wait := Some 0,
     server_protocol_version := 5, server_protocol_version_received := True\<rparr>"
  obtain s1 where s1: "dispatch (world_of l) (record_of l) (socket_of l) (fst ?ver) (Some (snd ?ver)) s = Some (s1, False)"
      "serves ds s1" "sent s1 = sent s @ [(socket_of l, frame ?ver)]"
    using serves_version [OF assms(2)] by (metis fst_conv snd_conv)
  have step1: "conn_step True ?c0 = ?c0\<lparr>server_connected := True, version_wait := Some 0, outbox := [frame ?ver]\<rparr>"
    by (simp add: conn_step_def new_client_def connect_def test_version_def SendRequest_ProtocolVersion_def
        client_send_def frame_def Let_def)
  have reply1: "client_dispatch (alloc_of l) (fst ?ver) (Some (snd ?ver)) (?c0\<lparr>server_connected := True, version_wait := Some 0\<rparr>)
      = Some (c1, False)"
    by (simp add: client_dispatch_def ProcessReply_ProtocolVersion_def c1_def OPENRGB_SDK_PROTOCOL_VERSION_def)
  have e: "?c0\<lparr>server_connected := True, version_wait := Some 0, outbox := []\<rparr> = ?c0\<lparr>server_connected := True, version_wait := Some 0\<rparr>"
    by (simp add: new_client_def)
  have r1: "round l (?c0, s) = Some (c1, s1)"
    unfolding round_def prod.case step1
    by (rule exchange_frames [OF assms(1), where ps = "[?ver]" and qs = "[?ver]"])
      (use s1 fits reply1 e in simp_all)
  obtain s2 where s2: "dispatch (world_of l) (record_of l) (socket_of l) (fst ?name) (Some (snd ?name)) s1 = Some (s2, False)"
      "serves ds s2" "sent s2 = sent s1"
    using serves_name [OF s1(2) assms(4)] by (metis fst_conv snd_conv)
  obtain s3 where s3: "dispatch (world_of l) (record_of l) (socket_of l) (fst ?count) None s2 = Some (s3, False)"
      "serves ds s3" "sent s3 = sent s2 @ [(socket_of l, frame ?n)]"
    using serves_count [OF s2(2)] by (metis fst_conv)
  define c2 where "c2 = c1\<lparr>protocol_initialized := True, version_wait := None, client_string_sent := True,
     server_controller_count_requested := True\<rparr>"
  define c3 where "c3 = c2\<lparr>server_controller_count := of_nat (length ds), server_controller_count_received := True\<rparr>"
  have step2: "conn_step True c1 = c2\<lparr>outbox := [frame ?name, frame ?count]\<rparr>"
    by (simp add: conn_step_def wake_up_def test_version_def initialize_connection_def SendData_ClientString_def
        send_string_def request_devices_def SendRequest_ControllerCount_def client_send_def frame_def c1_def c2_def
        new_client_def Let_def)
  have reply2: "client_dispatch (alloc_of l) (fst ?n) (Some (snd ?n)) (c2\<lparr>outbox := []\<rparr>) = Some (c3, False)"
    by (simp add: client_dispatch_def ProcessReply_ControllerCount_def c3_def c2_def c1_def new_client_def)
  have r2: "round l (c1, s1) = Some (c3, s3)"
    unfolding round_def prod.case step2
    by (rule exchange_frames [OF assms(1), where ps = "[?name, ?count]" and qs = "[?n]"])
      (use s2 s3 fits reply2 in \<open>simp_all add: data_of_def\<close>)
  have "collected F others ds 0 c3"
    by (simp add: collected_def c3_def c2_def c1_def new_client_def)
  with r1 r2 s3(2) show ?thesis by (simp add: numeral_2_eq_2)
qed

text \<open>C2: a client that connects to a server brings up the connection and lists every device of the server: after two
  passes of its connection thread for the version, the name and the number, two for each device and one more,
  the client is online, and the list of controllers it shares with the rest of the program has grown by one
  controller per device, in the order of the server, each of them what the description of the device carries.\<close>

theorem client_lists_devices:
  assumes "link_ok F l" "controllers s = ds" "\<forall>b \<in> set (ServerClients s). infos s b \<noteq> None"
    and "list_all device_fits ds" "length ds < 2 ^ 32" "length (c_str nm) + 1 < 2 ^ 31"
  shows "\<exists>c' s'. rounds (3 + 2 * length ds) l (new_client nm others, s) = Some (c', s') \<and> GetOnline c' \<and>
    controllers s' = ds \<and> master c' = others @ server_controllers c' \<and> length (server_controllers c') = length ds \<and>
    (\<forall>i < length ds. objects c' (server_controllers c' ! i) = Some (mirror (of_nat i) (ds ! i)))"
proof -
  have "serves ds s" using assms(2,3) by (simp add: serves_def)
  then obtain c1 s1 where 1: "rounds 2 l (new_client nm others, s) = Some (c1, s1)" "collected F others ds 0 c1" "serves ds s1"
    using bring_up [OF assms(1) _ assms(5,6)] by blast
  obtain c2 s2 where 2: "rounds (2 * length ds) l (c1, s1) = Some (c2, s2)" "collected F others ds (length ds) c2" "serves ds s2"
    using collect_all [OF assms(1) 1(2,3) _ assms(5,4)] by auto
  note c2 = 2(2) [unfolded collected_def]
  have step: "conn_step True c2 = add_to_master c2"
    using c2 by (simp add: conn_step_def connect_def initialize_connection_def request_devices_def Let_def)
  have ob: "(add_to_master c2)\<lparr>outbox := []\<rparr> = add_to_master c2"
    by (rule client.equality) (use c2 in \<open>simp_all add: add_to_master_def\<close>)
  have "round l (c2, s2) = Some (add_to_master c2, s2)"
    unfolding round_def prod.case step
    by (rule exchange_frames [OF assms(1), where ps = "[]" and qs = "[]"])
      (use c2 ob in \<open>simp_all add: add_to_master_def\<close>)
  then have r: "rounds 1 l (c2, s2) = Some (add_to_master c2, s2)" by simp
  have "3 + 2 * length ds = 2 + (2 * length ds + 1)" by simp
  then have "rounds (3 + 2 * length ds) l (new_client nm others, s) = Some (add_to_master c2, s2)"
    using 1(1) 2(1) r by (simp only: rounds_add Option.bind.simps)
  moreover have "GetOnline (add_to_master c2)" using c2 by (simp add: GetOnline_def add_to_master_def)
  ultimately show ?thesis
    using c2 2(3) by (intro exI [of _ "add_to_master c2"] exI [of _ s2]) (simp add: add_to_master_def serves_def add.commute)
qed

text \<open>One server with one device, one client; the network hands on what it gets, and addresses count up.\<close>

definition sample_link :: link where
  "sample_link = \<lparr>world_of = quiet_world, record_of = 1, socket_of = 10, alloc_of = next_address 0,
     can_new_of = \<lambda>_. True, cut = \<lambda>bs. if bs = [] then [] else [bs]\<rparr>"

definition sample_server :: server where
  "sample_server = (idle_server [sample_device])\<lparr>infos := [1 \<mapsto> (new_client_info 10 [])\<lparr>client_protocol_version := 5\<rparr>], ServerClients := [1]\<rparr>"

lemma sample_link_ok: "link_ok {} sample_link"
  by (simp add: link_ok_def sample_link_def pieces_def alloc_ok_next)

lemma sample_device_fits: "device_fits sample_device"
  using sample_device_below by (simp add: device_fits_def sample_device_ok)

theorem client_lists_devices_witness:
  "\<exists>c' s'. rounds 5 sample_link (new_client (str8 ''app'') [], sample_server) = Some (c', s') \<and> GetOnline c' \<and>
    length (master c') = 1 \<and> objects c' (master c' ! 0) = Some (mirror 0 sample_device)"
proof -
  have "list_all device_fits [sample_device]" by (simp add: sample_device_fits)
  moreover have "length (c_str (str8 ''app'')) + 1 < 2 ^ 31" by (simp add: str8_def c_str_def)
  moreover have "controllers sample_server = [sample_device]" "\<forall>b \<in> set (ServerClients sample_server). infos sample_server b \<noteq> None"
    by (simp_all add: sample_server_def idle_server_def)
  ultimately obtain c' s' where "rounds (3 + 2 * length [sample_device]) sample_link (new_client (str8 ''app'') [], sample_server) = Some (c', s')"
      "GetOnline c'" "master c' = [] @ server_controllers c'" "length (server_controllers c') = length [sample_device]"
      "\<forall>i < length [sample_device]. objects c' (server_controllers c' ! i) = Some (mirror (of_nat i) ([sample_device] ! i))"
    using client_lists_devices [OF sample_link_ok, of sample_server "[sample_device]" "str8 ''app''" "[]"] by auto
  then show ?thesis by (intro exI [of _ c'] exI [of _ s']) simp
qed

end
