(* ===== verification/Net_Remote.thy ===== *)
theory Net_Remote
  imports Net_Session
begin

text \<open>
  What a remote controller (\<open>RGBController_Network\<close>) is asked to do happens on the device of the server:
  the request is written from the controller of the client, crosses the network as a packet, passes the
  checks of the server and is read into the device.
\<close>

section \<open>Requests that carry a description\<close>

lemma rd_u32_take: "4 \<le> length bs \<Longrightarrow> take 4 bs = le_bytes 4 w \<Longrightarrow> rd_u32 bs 0 = Some (w, 4)"
  by (simp add: rd_u32_def rd_word_def wire_simps)

lemma send_own_sized:
  assumes "objects c k = Some r" "describe (remote_ctl r) = Some buf" "4 \<le> length buf" "length buf < 2 ^ 32"
    and "take 4 buf = le_bytes 4 (of_nat (length buf) :: u32)" "\<not> change_in_progress c"
  shows "send_own (device_request p) describe k c
    = Some (client_send (InitNetPacketHeader (remote_idx r) p (of_nat (length buf))) buf c)"
proof -
  have "unat (of_nat (length buf) :: u32) = length buf" using assms(4) by simp
  then show ?thesis
    using assms(1,2,6) rd_u32_take [OF assms(3,5)]
    by (simp add: send_own_def device_request_def rd_bytes_def)
qed

text \<open>A request without a reply leaves the client as it was before the request.\<close>

lemma exchange_request:
  assumes "link_ok F l" "outbox c = []" "buf \<noteq> []" "length buf < 2 ^ 31"
    and "dispatch (world_of l) (record_of l) (socket_of l) (InitNetPacketHeader d p (of_nat (length buf))) (Some buf) s
      = Some (s', False)" "sent s' = sent s"
  shows "exchange l (client_send (InitNetPacketHeader d p (of_nat (length buf))) buf c, s) = Some (c, s')"
proof -
  let ?p = "(InitNetPacketHeader d p (of_nat (length buf)), buf)"
  have "unat (of_nat (length buf) :: u32) = length buf" using assms(4) by (intro unat_of_nat_small) simp
  then have "packet_fits ?p" using assms(4) by (intro packet_fits_Init) simp_all
  moreover have "(client_send (fst ?p) (snd ?p) c)\<lparr>outbox := []\<rparr> = c"
    by (rule client.equality) (simp_all add: client_send_def assms(2))
  ultimately show ?thesis
    using assms by (intro exchange_frames [OF assms(1), where ps = "[?p]" and qs = "[]"])
      (simp_all add: data_of_def)
qed

lemma change_call_device:
  assumes "i < length (controllers s)" "f (controllers s ! i) = Some d1" "device w i dc d1 = Some d"
  shows "\<exists>s'. Option.bind (change_device i f s) (call_device w i dc) = Some s' \<and>
    controllers s' = (controllers s)[i := d] \<and> sent s' = sent s"
  using assms by (simp add: change_device_def call_device_def effect_def)

section \<open>Colors\<close>

text \<open>C10: updating a remote controller gives the device of the server the colors of the client's copy and calls its own
  \<open>UpdateLEDs\<close> once, when both sides have the same number of colors; no other device changes.\<close>

theorem remote_colors_reach_device:
  assumes "link_ok F l" "outbox c = []" "\<not> change_in_progress c"
    and "objects c k = Some r" "remote_idx r = of_nat i" "i < length (controllers s)" "i < 2 ^ 32"
    and "length (colors (remote_ctl r)) = length (colors (controllers s ! i))" "length (colors (remote_ctl r)) < 65536"
    and "device (world_of l) i Dev_UpdateLEDs ((controllers s ! i)\<lparr>colors := colors (remote_ctl r)\<rparr>) = Some d"
  shows "\<exists>c1 s'. Network_UpdateLEDs jk k c = Some c1 \<and> exchange l (c1, s) = Some (c, s') \<and>
    controllers s' = (controllers s)[i := d]"
proof -
  obtain buf where buf: "GetColorDescription jk (remote_ctl r) = Some buf" "length buf = 6 + 4 * length (colors (remote_ctl r))"
      "take 4 buf = le_bytes 4 (of_nat (length buf) :: u32)"
      "SetColorDescription buf (controllers s ! i) = Some ((controllers s ! i)\<lparr>colors := colors (remote_ctl r)\<rparr>)"
    using color_packet [OF assms(9), of jk] assms(8) by auto
  have small: "4 \<le> length buf" "length buf < 2 ^ 31" "buf \<noteq> []" using buf(2) assms(9) by auto
  let ?h = "InitNetPacketHeader (remote_idx r) UPDATELEDS (of_nat (length buf))"
  obtain s' where s': "Option.bind (change_device i (SetColorDescription buf) s) (call_device (world_of l) i Dev_UpdateLEDs) = Some s'"
      "controllers s' = (controllers s)[i := d]" "sent s' = sent s"
    using change_call_device [where f = "SetColorDescription buf", OF assms(6) buf(4) assms(10)] by blast
  have "unat (remote_idx r) = i" using assms(5,7) by simp
  then have "dispatch (world_of l) (record_of l) (socket_of l) ?h (Some buf) s = Some (s', False)"
    using s'(1) assms(6) rd_u32_take [OF small(1) buf(3)]
    by (simp add: dispatch_def when_data_def request_leds_def sized_request_def size_accepted_def with_device_def)
  then have "exchange l (client_send ?h buf c, s) = Some (c, s')"
    by (intro exchange_request [OF assms(1,2) small(3,2)]) (use s'(3) in simp_all)
  moreover have "Network_UpdateLEDs jk k c = Some (client_send ?h buf c)"
    unfolding Network_UpdateLEDs_def SendRequest_RGBController_UpdateLEDs_def
    using buf small assms(3,4) by (intro send_own_sized) simp_all
  ultimately show ?thesis using s'(2) by blast
qed

text \<open>A client that has the device of \<open>sample_server\<close> as object 1, with its own colors and mode.\<close>

definition remote_client :: client where
  "remote_client = (new_client [] [])\<lparr>server_protocol_version := 5, objects := [1 \<mapsto> \<lparr>remote_idx = 0,
     remote_ctl = sample_device\<lparr>colors := [1, 2, 3], active_mode := 0\<rparr>\<rparr>]\<rparr>"

theorem remote_colors_reach_device_witness:
  "\<exists>c1 s'. Network_UpdateLEDs (\<lambda>_. 0) 1 remote_client = Some c1 \<and> exchange sample_link (c1, sample_server) = Some (remote_client, s') \<and>
    controllers s' = [sample_device\<lparr>colors := [1, 2, 3]\<rparr>]"
proof -
  have "\<exists>c1 s'. Network_UpdateLEDs (\<lambda>_. 0) 1 remote_client = Some c1 \<and> exchange sample_link (c1, sample_server) = Some (remote_client, s') \<and>
      controllers s' = (controllers sample_server)[0 := sample_device\<lparr>colors := [1, 2, 3]\<rparr>]"
    by (rule remote_colors_reach_device [OF sample_link_ok, where r = "\<lparr>remote_idx = 0, remote_ctl = sample_device\<lparr>colors := [1, 2, 3], active_mode := 0\<rparr>\<rparr>"])
      (simp_all add: remote_client_def new_client_def sample_link_def sample_server_def idle_server_def quiet_world_def sample_defs)
  then show ?thesis by (simp add: sample_server_def idle_server_def)
qed

section \<open>Modes\<close>

lemma mode_packet_size:
  assumes "i < length (modes c)" "i < 2 ^ 31" "mode_ok (modes c ! i)" "GetModeDescription jk (of_nat i) pv c = Some buf"
  shows "take 4 buf = le_bytes 4 (of_nat (length buf) :: u32)" "4 \<le> length buf" "length buf < 2 ^ 31"
proof -
  let ?m = "modes c ! i"
  let ?ws = "put_u32 (of_nat i) # mode_writes pv ?m" and ?n = "mode_desc_size pv ?m"
  have t: "list_all tight ?ws" using assms by (simp add: tight_mode_writes)
  have n: "?n = of_nat (4 + length (wimage ?ws))"
    using assms by (simp add: mode_desc_size_def mode_size_wimage)
  have len: "length (wimage ?ws) < 2 ^ 20 + 4" using length_mode_writes [OF assms(3), of pv] by simp
  then have b: "4 + length (wimage ?ws) < 2 ^ 32" by simp
  have "buf = le_bytes 4 ?n @ wimage ?ws"
    using packet_image(1) [OF t n b, of jk] assms by (simp add: GetModeDescription_def)
  then show "take 4 buf = le_bytes 4 (of_nat (length buf) :: u32)" "4 \<le> length buf" "length buf < 2 ^ 31"
    using n len by simp_all
qed

text \<open>Changing the mode of a remote controller stores the mode, with its settings, in the device of the server and
  calls its \<open>UpdateMode\<close>, provided both ends use the same protocol version; at a version that carries no
  brightness the device keeps its own.\<close>

theorem remote_mode_reaches_device:
  assumes "link_ok F l" "outbox c = []" "\<not> change_in_progress c"
    and "objects c k = Some r" "remote_idx r = of_nat i" "i < length (controllers s)" "i < 2 ^ 32"
    and "active_mode (remote_ctl r) = of_nat m" "m < length (modes (remote_ctl r))" "m < length (modes (controllers s ! i))"
    and "m < 2 ^ 31" "mode_ok (modes (remote_ctl r) ! m)"
    and "infos s (record_of l) = Some ci" "client_protocol_version ci = GetProtocolVersion c"
    and "device (world_of l) i Dev_UpdateMode ((controllers s ! i)\<lparr>active_mode := of_nat m, modes := (modes (controllers s ! i))
      [m := norm_mode_into (GetProtocolVersion c) (modes (controllers s ! i) ! m) (modes (remote_ctl r) ! m)]\<rparr>) = Some d"
  shows "\<exists>c1 s'. Network_DeviceUpdateMode jk k c = Some c1 \<and> exchange l (c1, s) = Some (c, s') \<and>
    controllers s' = (controllers s)[i := d]"
proof -
  let ?pv = "GetProtocolVersion c"
  let ?f = "\<lambda>buf. SetModeDescription buf ?pv"
  obtain buf where buf: "GetModeDescription jk (of_nat m) ?pv (remote_ctl r) = Some buf"
      "?f buf (controllers s ! i) = Some ((controllers s ! i)\<lparr>active_mode := of_nat m, modes := (modes (controllers s ! i))
        [m := norm_mode_into ?pv (modes (controllers s ! i) ! m) (modes (remote_ctl r) ! m)]\<rparr>)"
    using mode_packet [OF assms(9,11,12,10)] by blast
  note size = mode_packet_size [OF assms(9,11,12) buf(1)]
  let ?h = "InitNetPacketHeader (remote_idx r) UPDATEMODE (of_nat (length buf))"
  obtain s' where s': "Option.bind (change_device i (?f buf) s) (call_device (world_of l) i Dev_UpdateMode) = Some s'"
      "controllers s' = (controllers s)[i := d]" "sent s' = sent s"
    using change_call_device [where f = "?f buf", OF assms(6) buf(2) assms(15)] by blast
  have "unat (remote_idx r) = i" using assms(5,7) by simp
  then have "dispatch (world_of l) (record_of l) (socket_of l) ?h (Some buf) s = Some (s', False)"
    using s'(1) assms(6,13,14) rd_u32_take [OF size(2,1)]
    by (simp add: dispatch_def when_data_def request_mode_def sized_request_def size_accepted_def with_device_def)
  then have "exchange l (client_send ?h buf c, s) = Some (c, s')"
    by (intro exchange_request [OF assms(1,2) _ size(3)]) (use s'(3) size(2) in auto)
  moreover have "Network_DeviceUpdateMode jk k c = Some (client_send ?h buf c)"
    unfolding Network_DeviceUpdateMode_def SendRequest_RGBController_UpdateMode_def
    using buf size assms(3,4,8) by (intro send_own_sized) simp_all
  ultimately show ?thesis using s'(2) by blast
qed

theorem remote_mode_reaches_device_witness:
  "\<exists>c1 s'. Network_DeviceUpdateMode (\<lambda>_. 0) 1 remote_client = Some c1 \<and> exchange sample_link (c1, sample_server) = Some (remote_client, s') \<and>
    length (controllers s') = 1"
proof -
  let ?d = "sample_device\<lparr>active_mode := of_nat 0, modes := (modes sample_device)[0 := norm_mode_into 5 (modes sample_device ! 0) (modes sample_device ! 0)]\<rparr>"
  have "mode_ok (modes sample_device ! 0)" "length (modes sample_device) = 1"
    using sample_device_ok by (simp_all add: device_ok_def list_all_length sample_defs)
  then have "\<exists>c1 s'. Network_DeviceUpdateMode (\<lambda>_. 0) 1 remote_client = Some c1 \<and> exchange sample_link (c1, sample_server) = Some (remote_client, s') \<and>
      controllers s' = (controllers sample_server)[0 := ?d]"
    by (intro remote_mode_reaches_device [OF sample_link_ok, where r = "\<lparr>remote_idx = 0, remote_ctl = sample_device\<lparr>colors := [1, 2, 3], active_mode := 0\<rparr>\<rparr>" and m = 0
        and ci = "(new_client_info 10 [])\<lparr>client_protocol_version := 5\<rparr>"])
      (simp_all add: remote_client_def new_client_def sample_link_def sample_server_def idle_server_def quiet_world_def
        GetProtocolVersion_def OPENRGB_SDK_PROTOCOL_VERSION_def)
  then show ?thesis by (auto simp: sample_server_def idle_server_def)
qed

end
