(* ===== verification/Prof_Manager.thy ===== *)
theory Prof_Manager
  imports Net_Client_Props "HOL-Library.AList"
begin

text \<open>
  \<open>ProfileManager.cpp\<close>: profiles are files of device descriptions. Saving writes the descriptions of the
  devices; loading reads them into temporary controllers and applies each to the device it matches.

  The file system is a list of paths and contents, in the order in which the directory iterator returns them
  (which the standard leaves open). Paths are POSIX paths. Reading a variable that was never written
  gives whatever bytes \<open>jk\<close> holds. Files are shorter than 4 GiB, and memory for them suffices. The
  function \<open>ResizeZone\<close> of the devices is a parameter.
\<close>

section \<open>Names and paths\<close>

definition remove_null_terminating_chars :: "cstring \<Rightarrow> cstring" where
  "remove_null_terminating_chars s = rev (dropWhile (\<lambda>b. b = 0) (rev s))"

text \<open>\<open>operator/\<close> of \<open>filesystem::path\<close>: an absolute path replaces the directory.\<close>

definition path_join :: "cstring \<Rightarrow> cstring \<Rightarrow> cstring" where
  "path_join dir n = (if take 1 n = str8 ''/'' then n
     else if dir = [] \<or> last dir = 47 then dir @ n else dir @ str8 ''/'' @ n)"

definition path_filename :: "cstring \<Rightarrow> cstring" where
  "path_filename p = rev (takeWhile (\<lambda>b. b \<noteq> 47) (rev p))"

text \<open>\<open>extension()\<close>: from the last dot of the file name, unless that is its first character.\<close>

definition path_extension :: "cstring \<Rightarrow> cstring" where
  "path_extension p = (let f = path_filename p; t = takeWhile (\<lambda>b. b \<noteq> 46) (rev f) in
     if f = str8 ''..'' \<or> length f \<le> length t + 1 then [] else rev (46 # t))"

record storage =
  files :: "(cstring \<times> byte list) list"
  configuration_directory :: cstring
  writable :: "cstring \<Rightarrow> bool"
  profile_names :: "cstring list"

text \<open>A file is opened by its path up to the first NUL.\<close>

definition read_file :: "storage \<Rightarrow> cstring \<Rightarrow> byte list option" where
  "read_file st p = map_of (files st) (c_str p)"

definition write_file :: "cstring \<Rightarrow> byte list \<Rightarrow> storage \<Rightarrow> storage" where
  "write_file p bs st = (if writable st (c_str p) then st\<lparr>files := AList.update (c_str p) bs (files st)\<rparr> else st)"

definition remove_file :: "cstring \<Rightarrow> storage \<Rightarrow> storage" where
  "remove_file p st = st\<lparr>files := AList.delete (c_str p) (files st)\<rparr>"

text \<open>The names of the files of a directory.\<close>

definition directory_entries :: "storage \<Rightarrow> cstring list" where
  "directory_entries st = map path_filename
     (filter (\<lambda>p. p = path_join (configuration_directory st) (path_filename p)) (map fst (files st)))"

section \<open>The file\<close>

definition OPENRGB_PROFILE_HEADER :: "byte list" where
  "OPENRGB_PROFILE_HEADER = str8 ''RGBSRV_PROFILE1'' @ [0]"

definition OPENRGB_PROFILE_VERSION :: u32 where
  "OPENRGB_PROFILE_VERSION = OPENRGB_SDK_PROTOCOL_VERSION"

definition CONTROLLER_FLAG_VIRTUAL :: u32 where "CONTROLLER_FLAG_VIRTUAL = 4"

definition orp :: cstring where "orp = str8 ''.orp''"
definition ors :: cstring where "ors = str8 ''.ors''"

text \<open>The \<open>break\<close> ends the loop at the first controller that is not to be saved.\<close>

fun save_devices :: "(nat \<Rightarrow> byte) \<Rightarrow> bool \<Rightarrow> controller list \<Rightarrow> byte list defined" where
  "save_devices jk sizes [] = Some []"
| "save_devices jk sizes (c # cs) =
     (if sizes \<and> (flags c AND CONTROLLER_FLAG_REMOTE \<noteq> 0 \<or> flags c AND CONTROLLER_FLAG_VIRTUAL \<noteq> 0) then Some []
      else do {
        buf \<leftarrow> GetDeviceDescription jk OPENRGB_PROFILE_VERSION c;
        (n, p) \<leftarrow> rd_u32 buf 0;
        (bs, p) \<leftarrow> rd_bytes (unat n) buf 0;
        rest \<leftarrow> save_devices jk sizes cs;
        Some (bs @ rest) })"

text \<open>
  \<open>strcmp\<close> against the header reads at most its 16 bytes. A file with fewer bytes leaves the rest of the
  buffer as it was.
\<close>

definition file_magic :: "byte list \<Rightarrow> byte list \<Rightarrow> byte list" where
  "file_magic old f = take 16 f @ drop (length f) old"

definition file_version :: "byte list \<Rightarrow> byte list \<Rightarrow> u32" where
  "file_version old f = le_word (take 4 (drop 16 f) @ drop (length f - 16) old)"

text \<open>
  Only the files in the configuration directory whose name contains \<open>.orp\<close>; their last four characters
  are erased. The two variables of the header are not initialised.
\<close>

definition listed :: "(nat \<Rightarrow> byte) \<Rightarrow> storage \<Rightarrow> cstring \<Rightarrow> bool" where
  "listed jk st n \<longleftrightarrow> sublist orp n \<and> (case read_file st (path_join (configuration_directory st) n) of
     None \<Rightarrow> map jk [0..<16] = OPENRGB_PROFILE_HEADER \<and> le_word (map jk [0..<4]) \<le> OPENRGB_PROFILE_VERSION
   | Some f \<Rightarrow> file_magic (map jk [0..<16]) f = OPENRGB_PROFILE_HEADER \<and>
       file_version (map jk [0..<4]) f \<le> OPENRGB_PROFILE_VERSION)"

definition UpdateProfileList :: "(nat \<Rightarrow> byte) \<Rightarrow> storage \<Rightarrow> storage" where
  "UpdateProfileList jk st = st\<lparr>profile_names :=
     map (\<lambda>n. take (length n - 4) n) (filter (listed jk st) (directory_entries st))\<rparr>"

definition SetConfigurationDirectory :: "(nat \<Rightarrow> byte) \<Rightarrow> cstring \<Rightarrow> storage \<Rightarrow> storage" where
  "SetConfigurationDirectory jk dir st = UpdateProfileList jk (st\<lparr>configuration_directory := dir\<rparr>)"

section \<open>Saving and deleting\<close>

definition SaveProfile :: "(nat \<Rightarrow> byte) \<Rightarrow> cstring \<Rightarrow> bool \<Rightarrow> controller list \<Rightarrow> storage \<Rightarrow> (bool \<times> storage) defined" where
  "SaveProfile jk profile_name sizes cs st = (let n = remove_null_terminating_chars profile_name in
     if n \<noteq> [] then do {
       bs \<leftarrow> save_devices jk sizes cs;
       Some (True, UpdateProfileList jk (write_file
         (path_join (configuration_directory st) (n @ (if sizes then ors else orp)))
         (OPENRGB_PROFILE_HEADER @ le_bytes 4 OPENRGB_PROFILE_VERSION @ bs) st)) }
     else Some (False, st))"

definition DeleteProfile :: "(nat \<Rightarrow> byte) \<Rightarrow> cstring \<Rightarrow> storage \<Rightarrow> storage" where
  "DeleteProfile jk profile_name st = UpdateProfileList jk (remove_file
     (path_join (configuration_directory st) (remove_null_terminating_chars profile_name) @ orp) st)"

section \<open>Reading a profile\<close>

lemma ReadDeviceDescription_nonempty: "ReadDeviceDescription bs pv c = Some d \<Longrightarrow> bs \<noteq> []"
  by (auto simp: ReadDeviceDescription_def read_device_def rd_u32_def rd_word_def)

text \<open>
  The loop at offset \<open>off\<close>; \<open>old\<close> are the bytes of \<open>controller_size\<close>. When the file ends inside the size or
  the data, the stream fails: what was not read stays as it was, and the loop ends after this device.
\<close>

function load_devices :: "(nat \<Rightarrow> byte) \<Rightarrow> u32 \<Rightarrow> byte list \<Rightarrow> byte list \<Rightarrow> nat \<Rightarrow> controller list defined" where
  "load_devices jk pv f old off = (if length f \<le> off then Some [] else
     let sz = take 4 (drop off f) @ drop (length f - off) old;
         n = unat (le_word sz :: u32);
         got = (if off + 4 \<le> length f then take n (drop off f) else [])
     in Option.bind (ReadDeviceDescription (got @ map jk [0..<n - length got]) pv new_controller) (\<lambda>d.
        if off + 4 \<le> length f \<and> off + n \<le> length f
        then map_option ((#) d) (load_devices jk pv f sz (off + n)) else Some [d]))"
  by pat_completeness auto
termination
  by (relation "measure (\<lambda>(jk, pv, f, old, off). length f - off)") (auto dest: ReadDeviceDescription_nonempty)

declare load_devices.simps [simp del]

definition load_path :: "cstring \<Rightarrow> bool \<Rightarrow> storage \<Rightarrow> cstring" where
  "load_path n sizes st = (let p = path_join (configuration_directory st) n in
     if sizes then p @ ors else if path_extension p \<noteq> orp then p @ orp else p)"

definition LoadProfileToList :: "(nat \<Rightarrow> byte) \<Rightarrow> cstring \<Rightarrow> bool \<Rightarrow> storage \<Rightarrow> controller list defined" where
  "LoadProfileToList jk n sizes st = (case read_file st (load_path n sizes st) of
     None \<Rightarrow> Some []
   | Some f \<Rightarrow> let v = file_version (replicate 4 0) f; v = (if v = 1 then 0 else v) in
       if 20 \<le> length f \<and> file_magic (replicate 16 0) f = OPENRGB_PROFILE_HEADER \<and> v \<le> OPENRGB_PROFILE_VERSION
       then load_devices jk v f (map jk [0..<4]) 20 else Some [])"

section \<open>Applying it to the devices\<close>

text \<open>\<open>rfind\<close>: the last position of a pattern.\<close>

definition rfind :: "cstring \<Rightarrow> cstring \<Rightarrow> nat option" where
  "rfind pat s = find (\<lambda>i. prefix pat (drop i s)) (rev [0..<Suc (length s)])"

definition location_check :: "controller \<Rightarrow> controller \<Rightarrow> bool" where
  "location_check tmp dev =
     (if prefix (str8 ''HID: '') (location dev) then True
      else if prefix (str8 ''I2C: '') (location dev) then
        (case rfind (str8 '', '') (location dev) of
           None \<Rightarrow> False | Some i \<Rightarrow> sublist (drop (i + 2) (location dev)) (location tmp))
      else location tmp = location dev)"

definition same_device :: "controller \<Rightarrow> controller \<Rightarrow> bool" where
  "same_device tmp dev \<longleftrightarrow> type tmp = type dev \<and> name tmp = name dev \<and> description tmp = description dev \<and>
     version tmp = version dev \<and> serial tmp = serial dev \<and> location_check tmp dev"

definition first_match :: "controller list \<Rightarrow> bool list \<Rightarrow> controller \<Rightarrow> nat option" where
  "first_match temps used dev = find (\<lambda>i. \<not> used ! i \<and> same_device (temps ! i) dev) [0..<length temps]"

definition same_zone :: "zone \<Rightarrow> zone \<Rightarrow> bool" where
  "same_zone y z \<longleftrightarrow> zone_name y = zone_name z \<and> zone_type y = zone_type z \<and>
     zone_leds_min y = zone_leds_min z \<and> zone_leds_max y = zone_leds_max z"

definition load_zone_size :: "(u32 \<Rightarrow> u32 \<Rightarrow> controller \<Rightarrow> controller defined) \<Rightarrow> controller \<Rightarrow> nat
    \<Rightarrow> controller \<Rightarrow> controller defined" where
  "load_zone_size rz tmp i dev = do {
     y \<leftarrow> nth_def (zones tmp) i;
     z \<leftarrow> nth_def (zones dev) i;
     if same_zone y z then do {
       dev \<leftarrow> (if zone_leds_count y \<noteq> zone_leds_count z then rz (of_nat i) (zone_leds_count y) dev else Some dev);
       z \<leftarrow> nth_def (zones dev) i;
       if length (zone_segments y) \<noteq> length (zone_segments z)
       then Some (dev\<lparr>zones := (zones dev)[i := z\<lparr>zone_segments := zone_segments y\<rparr>]\<rparr>) else Some dev }
     else Some dev }"

definition load_sizes :: "(u32 \<Rightarrow> u32 \<Rightarrow> controller \<Rightarrow> controller defined) \<Rightarrow> controller \<Rightarrow> controller \<Rightarrow> controller defined" where
  "load_sizes rz tmp dev = (if length (zones tmp) = length (zones dev)
     then fold_def (load_zone_size rz tmp) [0..<length (zones tmp)] dev else Some dev)"

definition same_mode :: "mode \<Rightarrow> mode \<Rightarrow> bool" where
  "same_mode y m \<longleftrightarrow> mode_name y = mode_name m \<and> mode_value y = mode_value m \<and> mode_flags y = mode_flags m \<and>
     mode_speed_min y = mode_speed_min m \<and> mode_speed_max y = mode_speed_max m \<and>
     mode_colors_min y = mode_colors_min m \<and> mode_colors_max y = mode_colors_max m"

definition load_mode :: "mode \<Rightarrow> mode \<Rightarrow> mode" where
  "load_mode y m = (if same_mode y m then m\<lparr>mode_speed := mode_speed y, mode_brightness := mode_brightness y,
     mode_direction := mode_direction y, mode_color_mode := mode_color_mode y, mode_colors := mode_colors y\<rparr> else m)"

definition load_settings :: "controller \<Rightarrow> controller \<Rightarrow> controller" where
  "load_settings tmp dev =
     (let dev = (if length (modes tmp) = length (modes dev)
          then dev\<lparr>modes := map2 load_mode (modes tmp) (modes dev), active_mode := active_mode tmp\<rparr> else dev)
      in if length (colors tmp) = length (colors dev) then dev\<lparr>colors := colors tmp\<rparr> else dev)"

text \<open>Whether a saved device matched, the flags of the saved devices, and the device.\<close>

definition LoadDeviceFromListWithOptions :: "(u32 \<Rightarrow> u32 \<Rightarrow> controller \<Rightarrow> controller defined) \<Rightarrow> controller list
    \<Rightarrow> bool \<Rightarrow> bool \<Rightarrow> bool list \<Rightarrow> controller \<Rightarrow> (bool \<times> bool list \<times> controller) defined" where
  "LoadDeviceFromListWithOptions rz temps load_size settings used dev = (case first_match temps used dev of
     None \<Rightarrow> Some (False, used, dev)
   | Some i \<Rightarrow> do {
       dev \<leftarrow> (if load_size then load_sizes rz (temps ! i) dev else Some dev);
       Some (True, used[i := True], if settings then load_settings (temps ! i) dev else dev) })"

text \<open>\<open>rz i\<close> is the \<open>ResizeZone\<close> of device \<open>i\<close>.\<close>

fun load_each :: "(nat \<Rightarrow> u32 \<Rightarrow> u32 \<Rightarrow> controller \<Rightarrow> controller defined) \<Rightarrow> controller list \<Rightarrow> bool \<Rightarrow> bool
    \<Rightarrow> nat \<Rightarrow> bool list \<Rightarrow> controller list \<Rightarrow> (bool \<times> controller list) defined" where
  "load_each rz temps load_size settings i used [] = Some (False, [])"
| "load_each rz temps load_size settings i used (dev # devs) = do {
     (b, used, dev) \<leftarrow> LoadDeviceFromListWithOptions (rz i) temps load_size settings used dev;
     (b', devs) \<leftarrow> load_each rz temps load_size settings (Suc i) used devs;
     Some (b \<or> b', dev # devs) }"

definition LoadProfileWithOptions :: "(nat \<Rightarrow> byte) \<Rightarrow> (nat \<Rightarrow> u32 \<Rightarrow> u32 \<Rightarrow> controller \<Rightarrow> controller defined) \<Rightarrow> cstring
    \<Rightarrow> bool \<Rightarrow> bool \<Rightarrow> storage \<Rightarrow> controller list \<Rightarrow> (bool \<times> controller list) defined" where
  "LoadProfileWithOptions jk rz n load_size settings st cs = do {
     temps \<leftarrow> LoadProfileToList jk n False st;
     load_each rz temps load_size settings 0 (replicate (length temps) False) cs }"

definition LoadProfile :: "(nat \<Rightarrow> byte) \<Rightarrow> (nat \<Rightarrow> u32 \<Rightarrow> u32 \<Rightarrow> controller \<Rightarrow> controller defined) \<Rightarrow> cstring
    \<Rightarrow> storage \<Rightarrow> controller list \<Rightarrow> (bool \<times> controller list) defined" where
  "LoadProfile jk rz n = LoadProfileWithOptions jk rz (remove_null_terminating_chars n) False True"

definition LoadSizeFromProfile :: "(nat \<Rightarrow> byte) \<Rightarrow> (nat \<Rightarrow> u32 \<Rightarrow> u32 \<Rightarrow> controller \<Rightarrow> controller defined) \<Rightarrow> cstring
    \<Rightarrow> storage \<Rightarrow> controller list \<Rightarrow> (bool \<times> controller list) defined" where
  "LoadSizeFromProfile jk rz n = LoadProfileWithOptions jk rz (remove_null_terminating_chars n) True False"

end
