(* ===== verification/Prof_Props.thy ===== *)
theory Prof_Props
  imports Prof_Manager
begin

text \<open>
  Properties of \<open>ProfileManager\<close>: what is saved is read back, loading restores the settings of the devices and
  touches nothing else.
\<close>

section \<open>Files\<close>

lemma remove_null_last [simp]: "n = [] \<or> last n \<noteq> 0 \<Longrightarrow> remove_null_terminating_chars n = n"
proof (cases n rule: rev_cases)
  case (snoc xs x)
  then show "n = [] \<or> last n \<noteq> 0 \<Longrightarrow> ?thesis" by (simp add: remove_null_terminating_chars_def)
qed (simp add: remove_null_terminating_chars_def)

lemma remove_null_idem [simp]:
  "remove_null_terminating_chars (remove_null_terminating_chars n) = remove_null_terminating_chars n"
  by (simp add: remove_null_terminating_chars_def)

lemma path_join_append: "n \<noteq> [] \<Longrightarrow> path_join dir (n @ e) = path_join dir n @ e"
  by (cases n) (auto simp: path_join_def)

lemma read_written:
  assumes "writable st (c_str p)"
  shows "read_file (UpdateProfileList jk (write_file p bs st)) p = Some bs"
  using assms by (simp add: read_file_def UpdateProfileList_def write_file_def update_conv)

lemma directory_written [simp]:
  "configuration_directory (UpdateProfileList jk st) = configuration_directory st"
  "configuration_directory (write_file p bs st) = configuration_directory st"
  by (simp_all add: UpdateProfileList_def write_file_def)

lemma header_simps [simp]: "length OPENRGB_PROFILE_HEADER = 16" "OPENRGB_PROFILE_VERSION = 5"
  by (simp_all add: OPENRGB_PROFILE_HEADER_def OPENRGB_PROFILE_VERSION_def OPENRGB_SDK_PROTOCOL_VERSION_def str8_def)

lemma header_read [simp]:
  "file_magic old (OPENRGB_PROFILE_HEADER @ le_bytes 4 (v :: u32) @ bs) = OPENRGB_PROFILE_HEADER"
  "length old = 4 \<Longrightarrow> file_version old (OPENRGB_PROFILE_HEADER @ le_bytes 4 v @ bs) = v" if "length old \<le> 16"
  using that by (simp_all add: file_magic_def file_version_def wire_simps)

section \<open>What is saved is read back\<close>

definition device_bytes :: "controller \<Rightarrow> byte list" where
  "device_bytes c = wimage (device_writes 5 c)"

definition saved_ok :: "controller \<Rightarrow> bool" where
  "saved_ok c \<longleftrightarrow> device_ok c \<and> length (device_bytes c) < 2 ^ 32"

text \<open>The devices that get into the file.\<close>

definition is_local :: "controller \<Rightarrow> bool" where
  "is_local c \<longleftrightarrow> flags c AND CONTROLLER_FLAG_REMOTE = 0 \<and> flags c AND CONTROLLER_FLAG_VIRTUAL = 0"

definition kept :: "bool \<Rightarrow> controller list \<Rightarrow> controller list" where
  "kept sizes cs = (if sizes then takeWhile is_local cs else cs)"

lemma saved_okD:
  assumes "saved_ok c"
  shows "device_ok c" "length (wimage (device_writes 5 c)) < 2 ^ 32"
  using assms by (simp_all add: saved_ok_def device_bytes_def)

lemma saved_description:
  assumes "saved_ok c"
  shows "GetDeviceDescription jk 5 c = Some (device_bytes c)"
    "ReadDeviceDescription (device_bytes c) 5 c0 = Some (norm_device 5 c0 c)"
    "rd_u32 (device_bytes c) 0 = Some (of_nat (length (device_bytes c)), 4)"
  unfolding device_bytes_def
  by (rule device_roundtrip_lemma [OF saved_okD [OF assms]] description_starts_with_size [OF saved_okD [OF assms]])+

lemma device_bytes_size:
  assumes "saved_ok c"
  shows "4 \<le> length (device_bytes c)" "le_word (take 4 (device_bytes c)) = (of_nat (length (device_bytes c)) :: u32)"
    "unat (of_nat (length (device_bytes c)) :: u32) = length (device_bytes c)"
  using assms saved_description(3) [OF assms]
  by (auto simp: saved_ok_def rd_u32_def rd_word_def split: if_splits)

lemma save_devices_images:
  "list_all saved_ok (kept sizes cs) \<Longrightarrow> save_devices jk sizes cs = Some (concat (map device_bytes (kept sizes cs)))"
proof (induction cs)
  case (Cons c cs)
  show ?case
  proof (cases "sizes \<and> \<not> is_local c")
    case True
    then show ?thesis by (auto simp: kept_def is_local_def)
  next
    case False
    then have k: "kept sizes (c # cs) = c # kept sizes cs" by (auto simp: kept_def)
    then have c: "saved_ok c" "list_all saved_ok (kept sizes cs)" using Cons.prems by simp_all
    have "rd_bytes (length (device_bytes c)) (device_bytes c) 0 = Some (device_bytes c, of_nat (length (device_bytes c)))"
      by (simp add: rd_bytes_def)
    then show ?thesis
      using False Cons.IH [OF c(2)] saved_description(1,3) [OF c(1)] device_bytes_size(3) [OF c(1)] by (auto simp: k is_local_def)
  qed
qed (simp add: kept_def)

lemma load_devices_images:
  assumes "list_all saved_ok cs" "length old = 4"
  shows "load_devices jk 5 (pre @ concat (map device_bytes cs)) old (length pre)
    = Some (map (norm_device 5 new_controller) cs)"
  using assms
proof (induction cs arbitrary: pre old)
  case Nil
  then show ?case by (subst load_devices.simps) simp
next
  case (Cons c cs)
  let ?f = "pre @ device_bytes c @ concat (map device_bytes cs)" and ?l = "length (device_bytes c)"
  have c: "saved_ok c" using Cons.prems by simp
  note sz = device_bytes_size [OF c]
  have old: "drop (?l + n) old = []" for n using sz(1) Cons.prems(2) by simp
  have "load_devices jk 5 ((pre @ device_bytes c) @ concat (map device_bytes cs)) (take 4 (device_bytes c)) (length (pre @ device_bytes c))
      = Some (map (norm_device 5 new_controller) cs)"
    using Cons.prems sz(1) by (intro Cons.IH) simp_all
  moreover have "device_bytes c \<noteq> []" using sz(1) by auto
  ultimately show ?case
    using sz saved_description(2) [OF c] by (subst load_devices.simps) (simp add: Let_def old)
qed

lemma profile_saved:
  assumes "remove_null_terminating_chars m = n" "n \<noteq> []" "list_all saved_ok (kept sizes cs)"
    and "sizes \<or> path_extension (path_join (configuration_directory st) n) \<noteq> orp" "\<forall>p. writable st p"
  shows "\<exists>st'. SaveProfile jk m sizes cs st = Some (True, st') \<and> configuration_directory st' = configuration_directory st \<and>
    LoadProfileToList jk' n sizes st' = Some (map (norm_device 5 new_controller) (kept sizes cs))"
proof -
  let ?f = "OPENRGB_PROFILE_HEADER @ le_bytes 4 (5 :: u32) @ concat (map device_bytes (kept sizes cs))"
  let ?p = "path_join (configuration_directory st) (n @ (if sizes then ors else orp))"
  let ?st = "UpdateProfileList jk (write_file ?p ?f st)"
  have path: "load_path n sizes ?st = ?p"
    using assms(2,4) by (auto simp: load_path_def path_join_append Let_def)
  have "length (OPENRGB_PROFILE_HEADER @ le_bytes 4 (5 :: u32)) = 20" by simp
  then have "load_devices jk' 5 ?f (map jk' [0..<4]) 20 = Some (map (norm_device 5 new_controller) (kept sizes cs))"
    using load_devices_images [OF assms(3), of "map jk' [0..<4]" jk' "OPENRGB_PROFILE_HEADER @ le_bytes 4 (5 :: u32)"]
    by simp
  moreover have "read_file ?st ?p = Some ?f" by (rule read_written) (simp add: assms(5))
  ultimately have "LoadProfileToList jk' n sizes ?st = Some (map (norm_device 5 new_controller) (kept sizes cs))"
    by (simp add: LoadProfileToList_def path)
  moreover have "SaveProfile jk m sizes cs st = Some (True, ?st)"
    using assms(1,2) save_devices_images [OF assms(3)] by (simp add: SaveProfile_def)
  ultimately show ?thesis by (intro exI [of _ ?st]) simp
qed

lemma kept_all:
  "sizes \<longrightarrow> (\<forall>c \<in> set cs. flags c AND CONTROLLER_FLAG_REMOTE = 0 \<and> flags c AND CONTROLLER_FLAG_VIRTUAL = 0) \<Longrightarrow> kept sizes cs = cs"
  by (auto simp: kept_def is_local_def takeWhile_eq_all_conv)

text \<open>C20: a profile of devices whose descriptions fit their fields is, once saved, read back as all these devices, in
  order, each as its description carries it; a profile of sizes if none of the devices is remote or virtual. The
  name must not end in \<open>.orp\<close> itself, and the file must be writable.\<close>

theorem profile_roundtrip:
  assumes "remove_null_terminating_chars m = n" "n \<noteq> []" "list_all saved_ok cs"
    and "sizes \<longrightarrow> (\<forall>c \<in> set cs. flags c AND CONTROLLER_FLAG_REMOTE = 0 \<and> flags c AND CONTROLLER_FLAG_VIRTUAL = 0)"
    and "sizes \<or> path_extension (path_join (configuration_directory st) n) \<noteq> orp" "\<forall>p. writable st p"
  shows "\<exists>st'. SaveProfile jk m sizes cs st = Some (True, st') \<and> configuration_directory st' = configuration_directory st \<and>
    LoadProfileToList jk' n sizes st' = Some (map (norm_device 5 new_controller) cs)"
  using profile_saved [OF assms(1,2) _ assms(5,6), of cs jk jk'] assms(3) kept_all [OF assms(4)] by simp

section \<open>Loading restores the settings\<close>

text \<open>A mode, and a device, with the same fields but for the settings a profile is about.\<close>

definition mode_settings_differ :: "mode \<Rightarrow> mode \<Rightarrow> bool" where
  "mode_settings_differ m m' \<longleftrightarrow> same_mode m m' \<and>
     mode_brightness_min m' = mode_brightness_min m \<and> mode_brightness_max m' = mode_brightness_max m"

definition settings_differ :: "controller \<Rightarrow> controller \<Rightarrow> bool" where
  "settings_differ c c' \<longleftrightarrow> name c' = name c \<and> vendor c' = vendor c \<and> description c' = description c \<and>
     version c' = version c \<and> serial c' = serial c \<and> location c' = location c \<and> leds c' = leds c \<and>
     zones c' = zones c \<and> type c' = type c \<and> led_alt_names c' = led_alt_names c \<and> flags c' = flags c \<and>
     list_all2 mode_settings_differ (modes c) (modes c') \<and> length (colors c') = length (colors c)"

text \<open>
  A device whose description carries all of it that loading compares and restores; its location, when it is on
  an I2C bus, has the comma that separates the bus from the address.
\<close>

definition restorable :: "controller \<Rightarrow> bool" where
  "restorable c \<longleftrightarrow> saved_ok c \<and> list_all clean [name c, description c, version c, serial c, location c] \<and>
     list_all (\<lambda>m. clean (mode_name m)) (modes c) \<and> length (colors c) = unat (total_leds (zones c)) \<and>
     (prefix (str8 ''I2C: '') (location c) \<longrightarrow> sublist (str8 '', '') (location c))"

lemma load_mode_restores: "mode_settings_differ m m' \<Longrightarrow> load_mode m m' = m"
  by (rule mode.equality) (simp_all add: load_mode_def mode_settings_differ_def same_mode_def)

lemma load_modes_restore: "list_all2 mode_settings_differ ms ms' \<Longrightarrow> map2 load_mode ms ms' = ms"
  by (induction rule: list_all2_induct) (simp_all add: load_mode_restores)

lemma norm_modes_clean: "list_all (\<lambda>m. clean (mode_name m)) ms \<Longrightarrow> map (norm_mode 5) ms = ms"
  by (induction ms) (auto simp: norm_mode_def norm_mode_into_def clean_def)

lemma total_leds_norm: "total_leds (map (norm_zone 5) zs) = total_leds zs"
proof -
  have "foldl (\<lambda>t z. t + leds_in_zone z) t (map (norm_zone 5) zs) = foldl (\<lambda>t z. t + leds_in_zone z) t zs" for t
    by (induction zs arbitrary: t) (simp_all add: leds_in_zone_def norm_zone_def hides_size_def)
  then show ?thesis by (simp add: total_leds_def)
qed

text \<open>What loading looks at in the temporary controller.\<close>

lemma temporary_controller:
  assumes "restorable c"
  defines "t \<equiv> norm_device 5 new_controller c"
  shows "name t = name c" "description t = description c" "version t = version c" "serial t = serial c"
    "location t = location c" "type t = type c" "modes t = modes c" "active_mode t = active_mode c" "colors t = colors c"
  using assms(1) unfolding t_def
  by (simp_all add: restorable_def clean_def norm_device_def SetupColors_def Let_def new_controller_def empty_device_def
      norm_modes_clean [unfolded clean_def] total_leds_norm) (metis vec_resize_length)

lemma load_settings_restores:
  assumes "restorable c" "settings_differ c c'"
  shows "load_settings (norm_device 5 new_controller c) c' = c"
proof -
  have "length (modes c) = length (modes c')" "length (colors c) = length (colors c')"
    using assms(2) by (auto simp: settings_differ_def dest: list_all2_lengthD)
  then show ?thesis
    using assms(2) load_modes_restore [of "modes c" "modes c'"]
    by (intro controller.equality) (simp_all add: load_settings_def temporary_controller [OF assms(1)] settings_differ_def Let_def)
qed

lemma same_device_restorable:
  assumes "restorable c" "settings_differ c c'"
  shows "same_device (norm_device 5 new_controller c) c'"
proof -
  have "\<exists>i. rfind (str8 '', '') (location c) = Some i" if "sublist (str8 '', '') (location c)"
  proof -
    from that obtain ps ss where l: "location c = ps @ str8 '', '' @ ss" by (auto simp: sublist_def)
    then have "length ps \<in> set (rev [0..<Suc (length (location c))])" "prefix (str8 '', '') (drop (length ps) (location c))"
      by simp_all
    then have "find (\<lambda>i. prefix (str8 '', '') (drop i (location c))) (rev [0..<Suc (length (location c))]) \<noteq> None"
      unfolding find_None_iff by blast
    then show ?thesis by (simp add: rfind_def)
  qed
  then show ?thesis
    using assms temporary_controller [OF assms(1)]
    by (auto simp: same_device_def location_check_def restorable_def settings_differ_def split: option.split)
qed

text \<open>The saved devices are used up in the order of the devices.\<close>

lemma load_each_restores:
  assumes "list_all2 settings_differ cs cs'" "list_all restorable cs" "length ts = k"
  shows "load_each rz (ts @ map (norm_device 5 new_controller) cs) False True i
    (replicate k True @ replicate (length cs) False) cs' = Some (cs \<noteq> [], cs)"
  using assms
proof (induction cs arbitrary: cs' ts k i)
  case Nil
  then show ?case by simp
next
  case (Cons c cs)
  obtain c' ds where cs': "cs' = c' # ds" "settings_differ c c'" "list_all2 settings_differ cs ds"
    using Cons.prems(1) by (auto simp: list_all2_Cons1)
  let ?n = "norm_device 5 new_controller"
  let ?ts = "ts @ map ?n (c # cs)" and ?used = "replicate k True @ replicate (length (c # cs)) False"
  have c: "restorable c" "list_all restorable cs" using Cons.prems(2) by simp_all
  have "same_device (?n c) c'" by (rule same_device_restorable [OF c(1) cs'(2)])
  then have "first_match ?ts ?used c' = Some k"
    unfolding first_match_def find_Some_iff using Cons.prems(3)
    by (intro exI [of _ k]) (simp add: nth_append)
  moreover have "?used[k := True] = replicate (Suc k) True @ replicate (length cs) False"
    by (simp add: list_update_append replicate_app_Cons_same)
  moreover have "load_settings (?n c) c' = c" by (rule load_settings_restores [OF c(1) cs'(2)])
  moreover have "load_each rz ((ts @ [?n c]) @ map ?n cs) False True (Suc i)
      (replicate (Suc k) True @ replicate (length cs) False) ds = Some (cs \<noteq> [], cs)"
    using Cons.prems(3) cs'(3) c(2) by (intro Cons.IH) simp_all
  ultimately show ?case
    using Cons.prems(3) by (simp add: cs'(1) LoadDeviceFromListWithOptions_def nth_append)
qed

lemma saved_profile_restores:
  assumes "remove_null_terminating_chars m = n" "n \<noteq> []" "list_all restorable cs" "list_all2 settings_differ cs cs'"
    and "path_extension (path_join (configuration_directory st) n) \<noteq> orp" "\<forall>p. writable st p"
  shows "\<exists>st'. SaveProfile jk m False cs st = Some (True, st') \<and> LoadProfile jk' rz m st' cs' = Some (cs \<noteq> [], cs)"
proof -
  have "list_all saved_ok (kept False cs)" using assms(3) by (simp add: kept_def list_all_iff restorable_def)
  from profile_saved [OF assms(1,2) this _ assms(6)] assms(5)
  obtain st' where st': "SaveProfile jk m False cs st = Some (True, st')"
      "LoadProfileToList jk' n False st' = Some (map (norm_device 5 new_controller) cs)"
    by (auto simp: kept_def)
  then have "LoadProfile jk' rz m st' cs' = Some (cs \<noteq> [], cs)"
    using load_each_restores [OF assms(4,3), of "[]" 0 rz 0]
    by (simp add: LoadProfile_def LoadProfileWithOptions_def assms(1))
  with st'(1) show ?thesis by blast
qed

text \<open>C11: loading a profile after the settings of the devices have been changed in any way restores every device
  exactly as it was when the profile was saved, also when several devices are of the same kind.\<close>

theorem profile_restores:
  assumes "remove_null_terminating_chars m = n" "n \<noteq> []" "list_all restorable cs" "list_all2 settings_differ cs cs'"
    and "path_extension (path_join (configuration_directory st) n) \<noteq> orp" "\<forall>p. writable st p"
  shows "\<exists>st'. SaveProfile jk m False cs st = Some (True, st') \<and> LoadProfile jk' rz m st' cs' = Some (cs \<noteq> [], cs)"
  using assms by (rule saved_profile_restores)

section \<open>Loading changes settings only\<close>

lemma settings_differ_load: "settings_differ dev (load_settings t dev)"
proof -
  have "list_all2 mode_settings_differ ms (map2 load_mode ys ms)" if "length ys = length ms" for ys ms
    using that by (induction ys ms rule: list_induct2) (simp_all add: load_mode_def mode_settings_differ_def same_mode_def)
  moreover have "list_all2 mode_settings_differ ms ms" for ms
    by (rule list.rel_refl) (simp add: mode_settings_differ_def same_mode_def)
  ultimately show ?thesis by (simp add: settings_differ_def load_settings_def Let_def)
qed

lemma settings_differ_refl: "settings_differ dev dev"
proof -
  have "list_all2 mode_settings_differ ms ms" for ms
    by (rule list.rel_refl) (simp add: mode_settings_differ_def same_mode_def)
  then show ?thesis by (simp add: settings_differ_def)
qed

text \<open>C21: whatever a profile file holds, loading it leaves the devices of the same shape: their names, LEDs, zones and
  the description of every mode stay, and so does the number of colors.\<close>

theorem profile_keeps_devices:
  assumes "LoadProfile jk rz n st cs = Some (b, cs')"
  shows "list_all2 settings_differ cs cs'"
proof -
  have "list_all2 settings_differ cs cs'" if "load_each rz ts False True i used cs = Some (b, cs')" for ts i used
    using that
    by (induction cs arbitrary: i used b cs')
      (auto simp: LoadDeviceFromListWithOptions_def settings_differ_load settings_differ_refl
        split: Option.bind_splits option.splits)
  with assms show ?thesis
    by (auto simp: LoadProfile_def LoadProfileWithOptions_def split: Option.bind_splits)
qed

text \<open>Saving sizes ends at the first remote or virtual controller: the ones after it are not saved.\<close>

theorem sizes_end_at_remote:
  assumes "flags r AND CONTROLLER_FLAG_REMOTE \<noteq> 0 \<or> flags r AND CONTROLLER_FLAG_VIRTUAL \<noteq> 0"
  shows "SaveProfile jk m True (cs @ r # ds) st = SaveProfile jk m True cs st"
proof -
  have eq: "save_devices jk True (cs @ r # ds) = save_devices jk True cs"
    using assms by (induction cs) simp_all
  show ?thesis unfolding SaveProfile_def eq by (rule refl)
qed

section \<open>Examples\<close>

definition sample_storage :: storage where
  "sample_storage = \<lparr>files = [], configuration_directory = str8 ''/c'', writable = \<lambda>_. True, profile_names = []\<rparr>"

definition changed_device :: controller where
  "changed_device = sample_device\<lparr>active_mode := 7, colors := [9, 9, 9]\<rparr>"

lemma sample_name: "remove_null_terminating_chars (str8 ''p'') = str8 ''p''" "str8 ''p'' \<noteq> []"
    "path_extension (path_join (configuration_directory sample_storage) (str8 ''p'')) \<noteq> orp"
  by (simp_all add: str8_def sample_storage_def path_join_def path_extension_def path_filename_def orp_def)

lemma sample_restorable: "restorable sample_device"
  using sample_device_ok sample_device_small
  by (simp add: restorable_def saved_ok_def device_bytes_def)
    (simp add: sample_defs clean_def c_str_def)

lemma sample_changed: "settings_differ sample_device changed_device"
  using settings_differ_refl [of sample_device]
  by (simp add: changed_device_def settings_differ_def) (simp add: sample_defs)

theorem profile_roundtrip_witness:
  "\<exists>st'. SaveProfile (\<lambda>_. 0) (str8 ''p'') True [sample_device] sample_storage = Some (True, st') \<and>
    LoadProfileToList (\<lambda>_. 1) (str8 ''p'') True st' = Some [norm_device 5 new_controller sample_device]"
proof -
  have "list_all saved_ok [sample_device]" using sample_restorable by (simp add: restorable_def)
  moreover have "flags sample_device AND CONTROLLER_FLAG_REMOTE = 0 \<and> flags sample_device AND CONTROLLER_FLAG_VIRTUAL = 0"
    by (simp add: sample_defs CONTROLLER_FLAG_REMOTE_def CONTROLLER_FLAG_VIRTUAL_def)
  moreover have "\<forall>p. writable sample_storage p" by (simp add: sample_storage_def)
  ultimately show ?thesis
    using profile_roundtrip [OF sample_name(1,2), of "[sample_device]" True sample_storage "\<lambda>_. 0" "\<lambda>_. 1"] by auto
qed

theorem profile_restores_witness:
  "\<exists>st'. SaveProfile (\<lambda>_. 0) (str8 ''p'') False [sample_device, sample_device] sample_storage = Some (True, st') \<and>
    LoadProfile (\<lambda>_. 1) (\<lambda>i z n c. None) (str8 ''p'') st' [changed_device, sample_device]
      = Some (True, [sample_device, sample_device])"
proof -
  have "list_all restorable [sample_device, sample_device]" using sample_restorable by simp
  moreover have "list_all2 settings_differ [sample_device, sample_device] [changed_device, sample_device]"
    using sample_changed settings_differ_refl by simp
  moreover have "\<forall>p. writable sample_storage p" by (simp add: sample_storage_def)
  ultimately show ?thesis
    using profile_restores [OF sample_name(1,2) _ _ sample_name(3), of "[sample_device, sample_device]"
        "[changed_device, sample_device]" "\<lambda>_. 0" "\<lambda>_. 1"] by auto
qed

theorem profile_keeps_devices_witness:
  "\<exists>st cs'. LoadProfile (\<lambda>_. 1) (\<lambda>i z n c. None) (str8 ''p'') st [changed_device] = Some (True, cs') \<and>
    list_all2 settings_differ [changed_device] cs'"
proof -
  have "\<forall>p. writable sample_storage p" by (simp add: sample_storage_def)
  then obtain st where st: "LoadProfile (\<lambda>_. 1) (\<lambda>i z n c. None) (str8 ''p'') st [changed_device] = Some (True, [sample_device])"
    using saved_profile_restores [OF sample_name(1,2) _ _ sample_name(3), of "[sample_device]" "[changed_device]" "\<lambda>_. 0" "\<lambda>_. 1" "\<lambda>i z n c. None"]
      sample_restorable sample_changed by auto
  then show ?thesis using profile_keeps_devices [OF st] by blast
qed

theorem sizes_end_at_remote_witness:
  "SaveProfile (\<lambda>_. 0) (str8 ''p'') True ([sample_device] @ empty_device\<lparr>flags := 2\<rparr> # [sample_device]) sample_storage
    = SaveProfile (\<lambda>_. 0) (str8 ''p'') True [sample_device] sample_storage"
  by (rule sizes_end_at_remote) (simp add: CONTROLLER_FLAG_REMOTE_def)

end
