(* ===== verification/Prof_Remote.thy ===== *)
theory Prof_Remote
  imports Net_Remote Prof_Props
begin

text \<open>
  Loading a profile over the network: the request of a client reaches the profile manager of the server, and
  every device of the server is restored and updated.
\<close>

definition with_profiles :: "(nat \<Rightarrow> byte) \<Rightarrow> (nat \<Rightarrow> u32 \<Rightarrow> u32 \<Rightarrow> controller \<Rightarrow> controller defined) \<Rightarrow> storage
    \<Rightarrow> cstring \<Rightarrow> controller list \<Rightarrow> controller list" where
  "with_profiles jk rz st nm cs = (case LoadProfile jk rz nm st cs of None \<Rightarrow> cs | Some (b, cs') \<Rightarrow> cs')"

lemma remove_null_sent:
  assumes "c_str nm = nm"
  shows "remove_null_terminating_chars (nm @ [0]) = nm" "remove_null_terminating_chars nm = nm"
proof -
  have "0 \<notin> set nm" using zero_notin_c_str [of nm] assms by simp
  then have "nm = [] \<or> last nm \<noteq> 0" by (metis last_in_set)
  then show "remove_null_terminating_chars nm = nm" by simp
  then show "remove_null_terminating_chars (nm @ [0]) = nm" by (simp add: remove_null_terminating_chars_def)
qed

lemma call_each_device:
  assumes "\<forall>i < length (controllers s). device w i dc (controllers s ! i) = Some (controllers s ! i)" "k \<le> length (controllers s)"
  shows "fold_def (\<lambda>i. call_device w i dc) [0..<k] s
    = Some (s\<lparr>effects := effects s @ map (\<lambda>i. Called i dc) [0..<k]\<rparr>)"
  using assms(2)
proof (induction k)
  case 0
  then show ?case by simp
next
  case (Suc k)
  then show ?case
    using assms(1) by (simp add: fold_def_append call_device_def effect_def)
qed

text \<open>C30: a client that asks the server to load a profile brings every device of the server back to what it was when the
  profile was saved, however its settings were changed since, and every device is updated once, in order.\<close>

theorem profile_request_restores:
  assumes "link_ok F l" "outbox c = []" "profile_manager s"
    and "load_profile (world_of l) = with_profiles jk rz st"
    and "SaveProfile jk' nm False cs st0 = Some (True, st)"
    and "c_str nm = nm" "nm \<noteq> []" "length nm + 1 < 2 ^ 31"
    and "path_extension (path_join (configuration_directory st0) nm) \<noteq> orp" "\<forall>p. writable st0 p"
    and "list_all restorable cs" "list_all2 settings_differ cs (controllers s)"
    and "\<forall>i < length cs. device (world_of l) i Dev_UpdateLEDs (cs ! i) = Some (cs ! i)"
  shows "\<exists>s'. exchange l (SendRequest_LoadProfile nm c, s) = Some (c, s') \<and> controllers s' = cs \<and>
    effects s' = effects s @ Loaded_profile (nm @ [0]) # map (\<lambda>i. Called i Dev_UpdateLEDs) [0..<length cs]"
proof -
  let ?buf = "nm @ [0]"
  let ?h = "InitNetPacketHeader 0 REQUEST_LOAD_PROFILE (of_nat (length ?buf))"
  note nul = remove_null_sent [OF assms(6)]
  have "LoadProfile jk rz nm st (controllers s) = Some (cs \<noteq> [], cs)"
    using saved_profile_restores [OF nul(2) assms(7,11,12,9,10), of jk' jk rz] assms(5) by auto
  then have load: "load_profile (world_of l) ?buf (controllers s) = cs"
    by (simp add: assms(4) with_profiles_def LoadProfile_def nul)
  let ?s1 = "do_load_profile (world_of l) ?buf s"
  let ?s2 = "?s1\<lparr>effects := effects ?s1 @ map (\<lambda>i. Called i Dev_UpdateLEDs) [0..<length (controllers ?s1)]\<rparr>"
  have s1: "controllers ?s1 = cs" by (simp add: do_load_profile_def effect_def load)
  have "length ?buf < 2 ^ LENGTH(32)" using assms(8) by simp
  then have n: "unat (pkt_size ?h) = length ?buf" by (simp only: InitNetPacketHeader_simps unat_of_nat_small)
  have "rd_bytes (length ?buf) ?buf 0 = Some (?buf, of_nat (length ?buf))" by (simp add: rd_bytes_def)
  then have "with_profile_name ?h ?buf (do_load_profile (world_of l)) s = Some ?s1"
    using assms(3) n by (simp add: with_profile_name_def del: length_append of_nat_add)
  moreover have "fold_def (\<lambda>i. call_device (world_of l) i Dev_UpdateLEDs) [0..<length (controllers ?s1)] ?s1 = Some ?s2"
    by (rule call_each_device) (simp_all add: s1 assms(13))
  ultimately have "dispatch (world_of l) (record_of l) (socket_of l) ?h (Some ?buf) s = Some (?s2, False)"
    by (simp add: dispatch_def when_data_def request_load_profile_def del: length_append of_nat_add)
  then have "exchange l (client_send ?h ?buf c, s) = Some (c, ?s2)"
    using assms(8) by (intro exchange_request [OF assms(1,2)]) (simp_all add: do_load_profile_def effect_def)
  moreover have "SendRequest_LoadProfile nm c = client_send ?h ?buf c"
    by (simp add: SendRequest_LoadProfile_def send_string_def assms(6) add.commute)
  ultimately show ?thesis
    by (intro exI [of _ ?s2]) (simp add: s1, simp add: do_load_profile_def effect_def)
qed

theorem profile_request_restores_witness:
  "\<exists>st l s s'. SaveProfile (\<lambda>_. 0) (str8 ''p'') False [sample_device] sample_storage = Some (True, st) \<and>
    controllers s = [changed_device] \<and>
    exchange l (SendRequest_LoadProfile (str8 ''p'') (new_client [] []), s) = Some (new_client [] [], s') \<and> controllers s' = [sample_device]"
proof -
  have w: "\<forall>p. writable sample_storage p" by (simp add: sample_storage_def)
  have r: "list_all restorable [sample_device]" "list_all2 settings_differ [sample_device] [changed_device]"
    using sample_restorable sample_changed by simp_all
  obtain st where st: "SaveProfile (\<lambda>_. 0) (str8 ''p'') False [sample_device] sample_storage = Some (True, st)"
    using saved_profile_restores [OF sample_name(1,2) r sample_name(3) w, of "\<lambda>_. 0" "\<lambda>_. 1" "\<lambda>i z n c. None"] by auto
  let ?w = "quiet_world\<lparr>load_profile := with_profiles (\<lambda>_. 1) (\<lambda>i z n c. None) st\<rparr>"
  let ?l = "sample_link\<lparr>world_of := ?w\<rparr>"
  have "\<exists>s'. exchange ?l (SendRequest_LoadProfile (str8 ''p'') (new_client [] []), idle_server [changed_device]) = Some (new_client [] [], s') \<and>
      controllers s' = [sample_device] \<and> effects s' = effects (idle_server [changed_device]) @ Loaded_profile (str8 ''p'' @ [0]) #
        map (\<lambda>i. Called i Dev_UpdateLEDs) [0..<length [sample_device]]"
    by (rule profile_request_restores [where F = "{}", OF _ _ _ _ st _ _ _ sample_name(3) w r(1)])
      (use sample_link_ok r(2) in \<open>simp_all add: link_ok_def sample_link_def new_client_def idle_server_def quiet_world_def str8_def c_str_def\<close>)
  moreover have "controllers (idle_server [changed_device]) = [changed_device]" by (simp add: idle_server_def)
  ultimately show ?thesis using st by blast
qed

end
