(* ===== verification/Rpc_Json.thy ===== *)
theory Rpc_Json
  imports Complex_Main Rgb_Controller
begin

text \<open>
  JSON values as \<open>nlohmann::json\<close> holds them, and the conversions the handler of JSON-RPC requests uses. A
  conversion either gives a value or throws; the text of the exception is the left of a sum. A number is an
  \<open>int64_t\<close>, a \<open>uint64_t\<close> (what the parser makes of a literal without a sign) or a \<open>double\<close>, of which the model
  keeps the rational value. Converting a \<open>double\<close> that is out of range is undefined in C++; what it gives is the
  argument \<open>cvt\<close>.
\<close>

section \<open>Values\<close>

datatype json = JNull | JBool bool | JInteger int | JUnsigned nat | JFloat rat
  | JString cstring | JArray "json list" | JObject "(cstring \<times> json) list"

definition jstr :: "string \<Rightarrow> json" where
  "jstr s = JString (str8 s)"

definition jobject :: "(string \<times> json) list \<Rightarrow> json" where
  "jobject fs = JObject (map (\<lambda>(k, v). (str8 k, v)) fs)"

definition contains :: "string \<Rightarrow> json \<Rightarrow> bool" where
  "contains k j = (case j of JObject fs \<Rightarrow> map_of fs (str8 k) \<noteq> None | _ \<Rightarrow> False)"

text \<open>\<open>j[k]\<close>; the code asks \<open>contains\<close> first.\<close>

definition field :: "string \<Rightarrow> json \<Rightarrow> json" where
  "field k j = (case j of JObject fs \<Rightarrow> (case map_of fs (str8 k) of Some v \<Rightarrow> v | None \<Rightarrow> JNull) | _ \<Rightarrow> JNull)"

fun type_name :: "json \<Rightarrow> string" where
  "type_name JNull = ''null''"
| "type_name (JBool b) = ''boolean''"
| "type_name (JString s) = ''string''"
| "type_name (JArray js) = ''array''"
| "type_name (JObject fs) = ''object''"
| "type_name _ = ''number''"

type_synonym 'a converted = "cstring + 'a"

definition type_error :: "string \<Rightarrow> string \<Rightarrow> json \<Rightarrow> 'a converted" where
  "type_error no text j = Inl (str8 (''[json.exception.type_error.'' @ no @ ''] '' @ text @ type_name j))"

section \<open>Conversions\<close>

definition trunc :: "rat \<Rightarrow> int" where
  "trunc r = (if r \<ge> 0 then \<lfloor>r\<rfloor> else \<lceil>r\<rceil>)"

definition get_u32 :: "(rat \<Rightarrow> u32) \<Rightarrow> json \<Rightarrow> u32 converted" where
  "get_u32 cvt j = (case j of
     JUnsigned n \<Rightarrow> Inr (of_nat n)
   | JInteger i \<Rightarrow> Inr (word_of_int i)
   | JFloat r \<Rightarrow> Inr (if 0 \<le> trunc r \<and> trunc r < 2 ^ 32 then word_of_int (trunc r) else cvt r)
   | JBool b \<Rightarrow> Inr (if b then 1 else 0)
   | _ \<Rightarrow> type_error ''302'' ''type must be number, but is '' j)"

definition get_int :: "(rat \<Rightarrow> u32) \<Rightarrow> json \<Rightarrow> u32 converted" where
  "get_int cvt j = (case j of
     JFloat r \<Rightarrow> Inr (if - (2 ^ 31) \<le> trunc r \<and> trunc r < 2 ^ 31 then word_of_int (trunc r) else cvt r)
   | _ \<Rightarrow> get_u32 cvt j)"

definition get_string :: "json \<Rightarrow> cstring converted" where
  "get_string j = (case j of JString s \<Rightarrow> Inr s | _ \<Rightarrow> type_error ''302'' ''type must be string, but is '' j)"

definition get_bool :: "json \<Rightarrow> bool converted" where
  "get_bool j = (case j of JBool b \<Rightarrow> Inr b | _ \<Rightarrow> type_error ''302'' ''type must be boolean, but is '' j)"

text \<open>\<open>j.value(k, d)\<close>.\<close>

definition value_or :: "(json \<Rightarrow> 'a converted) \<Rightarrow> string \<Rightarrow> 'a \<Rightarrow> json \<Rightarrow> 'a converted" where
  "value_or get k d j = (case j of
     JObject fs \<Rightarrow> (case map_of fs (str8 k) of Some v \<Rightarrow> get v | None \<Rightarrow> Inr d)
   | _ \<Rightarrow> type_error ''306'' ''cannot use value() with '' j)"

definition conv_bind :: "'a converted \<Rightarrow> ('a \<Rightarrow> 'b converted) \<Rightarrow> 'b converted" where
  "conv_bind x f = (case x of Inl e \<Rightarrow> Inl e | Inr v \<Rightarrow> f v)"

definition is_number :: "json \<Rightarrow> bool" where
  "is_number j \<longleftrightarrow> (case j of JInteger i \<Rightarrow> True | JUnsigned n \<Rightarrow> True | JFloat r \<Rightarrow> True | _ \<Rightarrow> False)"

definition is_boolean :: "json \<Rightarrow> bool" where
  "is_boolean j \<longleftrightarrow> (case j of JBool b \<Rightarrow> True | _ \<Rightarrow> False)"

section \<open>Colors\<close>

definition hex_digit :: "byte \<Rightarrow> u32 option" where
  "hex_digit b = (if 48 \<le> b \<and> b \<le> 57 then Some (ucast b - 48)
     else if 65 \<le> b \<and> b \<le> 70 then Some (ucast b - 55)
     else if 97 \<le> b \<and> b \<le> 102 then Some (ucast b - 87) else None)"

fun hex_value :: "u32 \<Rightarrow> cstring \<Rightarrow> u32" where
  "hex_value v [] = v"
| "hex_value v (b # bs) = (case hex_digit b of None \<Rightarrow> v | Some d \<Rightarrow> hex_value (16 * v + d) bs)"

definition is_space :: "byte \<Rightarrow> bool" where
  "is_space b \<longleftrightarrow> b = 32 \<or> 9 \<le> b \<and> b \<le> 13"

text \<open>
  \<open>ss >> color_val\<close> in hexadecimal: white space, a sign, the prefix \<open>0x\<close>, and the digits up to the first
  character that is none; 0 when there is no digit. When there is nothing but white space, \<open>color_val\<close> is not
  assigned: \<open>uninit\<close> is what it holds.
\<close>

definition skip_0x :: "cstring \<Rightarrow> cstring" where
  "skip_0x s = (if take 2 s = str8 ''0x'' \<or> take 2 s = str8 ''0X'' then drop 2 s else s)"

definition parse_hex :: "u32 \<Rightarrow> cstring \<Rightarrow> u32" where
  "parse_hex uninit s0 = (let s = dropWhile is_space s0 in
     if s = [] then uninit
     else if take 1 s = str8 ''-'' then - hex_value 0 (skip_0x (drop 1 s))
     else if take 1 s = str8 ''+'' then hex_value 0 (skip_0x (drop 1 s))
     else hex_value 0 (skip_0x s))"

definition ParseColor :: "(rat \<Rightarrow> u32) \<Rightarrow> u32 \<Rightarrow> json \<Rightarrow> RGBColor converted" where
  "ParseColor cvt uninit j =
     (if contains ''red'' j then
        conv_bind (get_u32 cvt (field ''red'' j)) (\<lambda>red.
        conv_bind (value_or (get_int cvt) ''green'' 0 j) (\<lambda>green.
        conv_bind (value_or (get_int cvt) ''blue'' 0 j) (\<lambda>blue.
        Inr (ToRGBColor red green blue))))
      else if is_number j then get_u32 cvt j
      else (case j of
        JString s \<Rightarrow> Inr (if length s = 7 \<and> take 1 s = str8 ''#'' then parse_hex uninit (drop 1 s) else 0)
      | _ \<Rightarrow> Inr 0))"

text \<open>A color of the array methods: three unsigned numbers that, as 32-bit integers, are at most 255.\<close>

definition parse_component :: "json \<Rightarrow> u32 option" where
  "parse_component j = (case j of JUnsigned n \<Rightarrow> if of_nat n > (255 :: u32) then None else Some (of_nat n) | _ \<Rightarrow> None)"

definition parse_rgb :: "json \<Rightarrow> RGBColor option" where
  "parse_rgb j = (case j of JArray [a, b, c] \<Rightarrow> do {
       r \<leftarrow> parse_component a;
       g \<leftarrow> parse_component b;
       b \<leftarrow> parse_component c;
       Some (ToRGBColor r g b) }
     | _ \<Rightarrow> None)"

definition parse_rgbs :: "json \<Rightarrow> RGBColor list option" where
  "parse_rgbs j = (case j of JArray js \<Rightarrow> those (map parse_rgb js) | _ \<Rightarrow> None)"

definition color_json :: "RGBColor \<Rightarrow> json" where
  "color_json c = jobject [(''red'', JUnsigned (unat (RGBGetRValue c))), (''green'', JUnsigned (unat (RGBGetGValue c))),
     (''blue'', JUnsigned (unat (RGBGetBValue c)))]"

end
