(* ===== verification/Rpc_Handler.thy ===== *)
theory Rpc_Handler
  imports Rpc_Json Prof_Manager
begin

text \<open>
  \<open>JSONRPCHandler.cpp\<close>: the methods of the JSON-RPC interface, on the devices of \<open>Rgb_Controller\<close> and the
  profiles of \<open>Prof_Manager\<close>. A method returns a JSON value or throws (the left of the sum, with the text of
  the exception), in a new state; undefined behaviour is \<open>None\<close>. What a method did before it throws stays done.

  The virtual functions of the devices, the initial content of variables and the texts of exceptions of the
  standard library are parameters. A method holds the lock of the device list while it works on it, so methods
  are taken one at a time. The handler and the profile manager work on the same list of devices.
\<close>

section \<open>State\<close>

text \<open>
  \<open>manager_set\<close> tells that there is a profile manager, \<open>websocket_set\<close> that there is a resource manager with a
  WebSocket server. \<open>rescan\<close> is the state of \<open>rescan_future\<close>. \<open>interface_profile_list\<close> is the member \<open>profile_list\<close> of
  \<open>ProfileManagerInterface\<close>, which the handler sees; the one \<open>ProfileManager\<close> fills is a member of its own
  (\<open>profile_names\<close> of the storage).
\<close>

datatype rescan_future = Not_valid | Scanning | Ready

datatype rpc_effect = Device_called nat dev_call | Profile_saved_event cstring | Profile_loaded_event cstring

record rpc_state =
  devices :: "controller list"
  storage_of :: storage
  manager_set :: bool
  websocket_set :: bool
  interface_profile_list :: "cstring list"
  shutdown_requested :: bool
  rescan_in_progress :: bool
  rescan :: rescan_future
  rpc_effects :: "rpc_effect list"

record rpc_env =
  cvt :: "rat \<Rightarrow> u32"
  device_fn :: "nat \<Rightarrow> dev_call \<Rightarrow> controller \<Rightarrow> controller defined"
  rpc_junk :: "nat \<Rightarrow> byte"
  junk_segment_type :: u32
  junk_color :: u32
  length_error :: cstring
  version_string :: cstring

type_synonym 'a outcome = "(rpc_state \<times> 'a converted) defined"
type_synonym rpc = "rpc_state \<Rightarrow> json outcome"

section \<open>Results\<close>

definition INVALID_REQUEST :: int where "INVALID_REQUEST = -32600"
definition METHOD_NOT_FOUND :: int where "METHOD_NOT_FOUND = -32601"
definition INVALID_PARAMS :: int where "INVALID_PARAMS = -32602"
definition INTERNAL_ERROR :: int where "INTERNAL_ERROR = -32603"
definition ERR_DEVICE_INDEX_OUT_OF_RANGE :: int where "ERR_DEVICE_INDEX_OUT_OF_RANGE = -32001"
definition ERR_ZONE_INDEX_OUT_OF_RANGE :: int where "ERR_ZONE_INDEX_OUT_OF_RANGE = -32002"
definition ERR_LED_INDEX_OUT_OF_RANGE :: int where "ERR_LED_INDEX_OUT_OF_RANGE = -32003"
definition ERR_MODE_INDEX_OUT_OF_RANGE :: int where "ERR_MODE_INDEX_OUT_OF_RANGE = -32004"
definition ERR_PROFILE_NOT_FOUND :: int where "ERR_PROFILE_NOT_FOUND = -32005"
definition ERR_PROFILE_SAVE_FAILED :: int where "ERR_PROFILE_SAVE_FAILED = -32006"
definition ERR_PLUGIN_NOT_FOUND :: int where "ERR_PLUGIN_NOT_FOUND = -32010"
definition ERR_OPERATION_NOT_PERMITTED :: int where "ERR_OPERATION_NOT_PERMITTED = -32012"
definition ERR_RESIZE_NOT_SUPPORTED :: int where "ERR_RESIZE_NOT_SUPPORTED = -32014"
definition ERR_KEY_NAME_NOT_FOUND :: int where "ERR_KEY_NAME_NOT_FOUND = -32017"

definition CreateError :: "int \<Rightarrow> cstring \<Rightarrow> json" where
  "CreateError code msg = jobject [(''error'', jobject [(''code'', JInteger code), (''message'', JString msg)])]"

definition CreateResult :: "json \<Rightarrow> u32 \<Rightarrow> json" where
  "CreateResult r i = jobject [(''jsonrpc'', jstr ''2.0''), (''result'', r), (''id'', JInteger (sint i))]"

definition reply :: "json \<Rightarrow> rpc" where
  "reply j st = Some (st, Inr j)"

definition fails :: "int \<Rightarrow> string \<Rightarrow> rpc" where
  "fails code msg = reply (CreateError code (str8 msg))"

definition success :: rpc where
  "success = reply (jobject [(''success'', JBool True)])"

section \<open>Steps of a method\<close>

text \<open>Converting a parameter may throw.\<close>

definition parsed :: "'a converted \<Rightarrow> ('a \<Rightarrow> rpc) \<Rightarrow> rpc" where
  "parsed x k st = (case x of Inl e \<Rightarrow> Some (st, Inl e) | Inr v \<Rightarrow> k v st)"

definition require :: "string list \<Rightarrow> string \<Rightarrow> json \<Rightarrow> rpc \<Rightarrow> rpc" where
  "require ks msg params k = (if list_all (\<lambda>f. contains f params) ks then k else fails INVALID_PARAMS msg)"

definition ValidateDeviceIndex :: "u32 \<Rightarrow> rpc_state \<Rightarrow> bool" where
  "ValidateDeviceIndex dev st \<longleftrightarrow> unat dev < length (devices st)"

definition ValidateZoneIndex :: "u32 \<Rightarrow> u32 \<Rightarrow> rpc_state \<Rightarrow> bool" where
  "ValidateZoneIndex dev z st \<longleftrightarrow> ValidateDeviceIndex dev st \<and> unat z < length (zones (devices st ! unat dev))"

text \<open>The device index is converted under the lock, then tested.\<close>

definition on_device :: "rpc_env \<Rightarrow> json \<Rightarrow> (nat \<Rightarrow> controller \<Rightarrow> rpc) \<Rightarrow> rpc" where
  "on_device env params k = parsed (get_u32 (cvt env) (field ''deviceIndex'' params)) (\<lambda>dev st.
     if ValidateDeviceIndex dev st then k (unat dev) (devices st ! unat dev) st
     else fails ERR_DEVICE_INDEX_OUT_OF_RANGE ''Device index out of range'' st)"

definition change :: "nat \<Rightarrow> (controller \<Rightarrow> controller defined) \<Rightarrow> rpc \<Rightarrow> rpc" where
  "change i f k st = do {
     d \<leftarrow> nth_def (devices st) i;
     d \<leftarrow> f d;
     k (st\<lparr>devices := (devices st)[i := d]\<rparr>) }"

definition call_dev :: "rpc_env \<Rightarrow> nat \<Rightarrow> dev_call \<Rightarrow> rpc \<Rightarrow> rpc" where
  "call_dev env i dc k = change i (device_fn env i dc) (\<lambda>st. k (st\<lparr>rpc_effects := rpc_effects st @ [Device_called i dc]\<rparr>))"

definition zone_in_range :: "u32 \<Rightarrow> controller \<Rightarrow> rpc \<Rightarrow> rpc" where
  "zone_in_range z d k = (if unat z < length (zones d) then k else fails ERR_ZONE_INDEX_OUT_OF_RANGE ''Zone index out of range'')"

section \<open>Descriptions\<close>

definition nat_json :: "nat \<Rightarrow> json" where "nat_json n = JUnsigned n"
definition u32_json :: "u32 \<Rightarrow> json" where "u32_json w = JUnsigned (unat w)"
definition int_json :: "u32 \<Rightarrow> json" where "int_json w = JInteger (sint w)"

definition ModeToJSON :: "mode \<Rightarrow> json" where
  "ModeToJSON m = jobject [(''name'', JString (mode_name m)), (''value'', int_json (mode_value m)),
     (''flags'', u32_json (mode_flags m)), (''speedMin'', u32_json (mode_speed_min m)), (''speedMax'', u32_json (mode_speed_max m)),
     (''brightnessMin'', u32_json (mode_brightness_min m)), (''brightnessMax'', u32_json (mode_brightness_max m)),
     (''colorsMin'', u32_json (mode_colors_min m)), (''colorsMax'', u32_json (mode_colors_max m)),
     (''speed'', u32_json (mode_speed m)), (''brightness'', u32_json (mode_brightness m)),
     (''direction'', u32_json (mode_direction m)), (''colorMode'', u32_json (mode_color_mode m)),
     (''colors'', JArray (map color_json (mode_colors m)))]"

definition segment_json :: "segment \<Rightarrow> json" where
  "segment_json s = jobject [(''name'', JString (seg_name s)), (''start'', u32_json (seg_start_idx s)),
     (''length'', u32_json (seg_leds_count s))]"

definition matrix_json :: "matrix_map_type \<Rightarrow> json defined" where
  "matrix_json m = do {
     xs \<leftarrow> those (map (nth_def (mm_map m)) [0..<unat (mm_height m * mm_width m)]);
     Some (jobject [(''height'', u32_json (mm_height m)), (''width'', u32_json (mm_width m)),
       (''map'', JArray (map u32_json xs))]) }"

definition ZoneToJSON :: "zone \<Rightarrow> json defined" where
  "ZoneToJSON z = do {
     m \<leftarrow> (case zone_matrix_map z of None \<Rightarrow> Some JNull | Some m \<Rightarrow> matrix_json m);
     Some (jobject [(''name'', JString (zone_name z)), (''type'', int_json (zone_type z)),
       (''ledsMin'', u32_json (zone_leds_min z)), (''ledsMax'', u32_json (zone_leds_max z)),
       (''ledsCount'', u32_json (zone_leds_count z)), (''matrixMap'', m),
       (''segments'', JArray (map segment_json (zone_segments z)))]) }"

text \<open>The cells of a matrix, row by row, and the first that holds a LED of the zone.\<close>

definition matrix_cells :: "matrix_map_type \<Rightarrow> (u32 \<times> u32) list" where
  "matrix_cells m = concat (map (\<lambda>y. map (\<lambda>x. (of_nat y, of_nat x)) [0..<unat (mm_width m)]) [0..<unat (mm_height m)])"

fun find_cell :: "matrix_map_type \<Rightarrow> u32 \<Rightarrow> (u32 \<times> u32) list \<Rightarrow> (u32 \<times> u32) option defined" where
  "find_cell m k [] = Some None"
| "find_cell m k ((y, x) # cells) = do {
     v \<leftarrow> nth_def (mm_map m) (unat (y * mm_width m + x));
     if v = k then Some (Some (y, x)) else find_cell m k cells }"

definition ZONE_TYPE_MATRIX :: u32 where "ZONE_TYPE_MATRIX = 2"

fun find_led :: "u32 \<Rightarrow> zone list \<Rightarrow> (u32 \<times> u32) option defined" where
  "find_led i [] = Some None"
| "find_led i (z # zs) = (case zone_matrix_map z of
     None \<Rightarrow> find_led i zs
   | Some m \<Rightarrow>
       if zone_type z \<noteq> ZONE_TYPE_MATRIX \<or> i < zone_start_idx z \<or> zone_start_idx z + zone_leds_count z \<le> i then find_led i zs
       else do {
         r \<leftarrow> find_cell m (i - zone_start_idx z) (matrix_cells m);
         case r of None \<Rightarrow> find_led i zs | Some yx \<Rightarrow> Some (Some yx) })"

definition LEDToJSON :: "controller \<Rightarrow> nat \<Rightarrow> json defined" where
  "LEDToJSON d i = do {
     l \<leftarrow> nth_def (leds d) i;
     r \<leftarrow> find_led (of_nat i) (zones d);
     Some (jobject ([(''name'', JString (led_name l)), (''protocolAddress'', JInteger (int i))]
       @ (case r of None \<Rightarrow> [] | Some (y, x) \<Rightarrow> [(''position'', JArray [u32_json x, u32_json y])]))) }"

text \<open>
  \<open>modes_array[active_mode]["name"]\<close> on a value that is not constant: an index behind the array fills it with
  null. A negative index is a \<open>size_t\<close> of at least \<open>2 ^ 63\<close>: \<open>-1\<close> resizes the array to nothing and reads
  behind it, the others throw.
\<close>

definition active_mode_name :: "rpc_env \<Rightarrow> controller \<Rightarrow> json converted defined" where
  "active_mode_name env d = (if active_mode d = - 1 then None
     else if sint (active_mode d) < 0 then Some (Inl (length_error env))
     else if unat (active_mode d) < length (modes d) then Some (Inr (JString (mode_name (modes d ! unat (active_mode d)))))
     else Some (Inr JNull))"

definition ControllerToJSON :: "rpc_env \<Rightarrow> controller \<Rightarrow> json converted defined" where
  "ControllerToJSON env d = do {
     ls \<leftarrow> those (map (LEDToJSON d) [0..<length (leds d)]);
     am \<leftarrow> active_mode_name env d;
     Some (conv_bind am (\<lambda>am. Inr (jobject [(''name'', JString (name d)), (''vendor'', JString (vendor d)),
       (''description'', JString (description d)), (''type'', int_json (type d)), (''location'', JString (location d)),
       (''serial'', JString (serial d)), (''ledCount'', nat_json (length (leds d))), (''zoneCount'', nat_json (length (zones d))),
       (''modeCount'', nat_json (length (modes d))), (''activeMode'', int_json (active_mode d)),
       (''colors'', JArray (map color_json (colors d))), (''leds'', JArray ls),
       (''modes'', JArray (map ModeToJSON (modes d))), (''activeModeName'', am)]))) }"

definition ControllerToScanCompleteJSON :: "rpc_env \<Rightarrow> controller \<Rightarrow> json converted defined" where
  "ControllerToScanCompleteJSON = ControllerToJSON"

text \<open>The LEDs of a matrix with their positions; nothing calls this.\<close>

definition LEDToScanCompleteJSON :: "controller \<Rightarrow> u32 \<Rightarrow> u32 \<Rightarrow> u32 \<Rightarrow> json defined" where
  "LEDToScanCompleteJSON d i x y = map_option (\<lambda>l. jobject [(''name'', JString (led_name l)),
     (''position'', JArray [u32_json x, u32_json y]), (''protocolAddress'', u32_json i)]) (nth_def (leds d) (unat i))"

definition MatrixLEDsToScanCompleteJSON :: "controller \<Rightarrow> zone \<Rightarrow> json defined" where
  "MatrixLEDsToScanCompleteJSON d z = do {
     m \<leftarrow> zone_matrix_map z;
     jss \<leftarrow> those (map (\<lambda>(y, x). do {
       v \<leftarrow> nth_def (mm_map m) (unat (y * mm_width m + x));
       if v = 0xFFFFFFFF \<or> v \<ge> zone_leds_count z then Some []
       else (let i = zone_start_idx z + v in
         if unat i \<ge> length (leds d) then Some [] else map_option (\<lambda>j. [j]) (LEDToScanCompleteJSON d i x y)) }) (matrix_cells m));
     Some (JArray (concat jss)) }"

text \<open>The loop over the devices stops at the first that throws.\<close>

fun controllers_json :: "rpc_env \<Rightarrow> controller list \<Rightarrow> json list converted defined" where
  "controllers_json env [] = Some (Inr [])"
| "controllers_json env (d # ds) = do {
     x \<leftarrow> ControllerToJSON env d;
     (case x of Inl e \<Rightarrow> Some (Inl e)
      | Inr j \<Rightarrow> map_option (\<lambda>y. conv_bind y (\<lambda>js. Inr (j # js))) (controllers_json env ds)) }"

definition computed :: "'a converted defined \<Rightarrow> ('a \<Rightarrow> rpc) \<Rightarrow> rpc" where
  "computed x k st = Option.bind x (\<lambda>r. parsed r k st)"

definition GetControllers :: "rpc_env \<Rightarrow> rpc" where
  "GetControllers env st = computed (controllers_json env (devices st))
     (\<lambda>js. reply (jobject [(''controllers'', JArray js)])) st"

definition GetControllerCount :: rpc where
  "GetControllerCount st = reply (jobject [(''count'', nat_json (length (devices st)))]) st"

definition GetControllerData :: "rpc_env \<Rightarrow> json \<Rightarrow> rpc" where
  "GetControllerData env params = require [''deviceIndex''] ''Missing 'deviceIndex' parameter'' params
     (on_device env params (\<lambda>i d. computed (ControllerToJSON env d) (\<lambda>j. reply (jobject [(''controller'', j)]))))"

definition GetControllerInfo :: "rpc_env \<Rightarrow> json \<Rightarrow> rpc" where
  "GetControllerInfo env params = require [''deviceIndex''] ''Missing 'deviceIndex' parameter'' params
     (on_device env params (\<lambda>i d. reply (jobject [(''name'', JString (name d)), (''vendor'', JString (vendor d)),
       (''description'', JString (description d)), (''type'', int_json (type d)), (''location'', JString (location d)),
       (''serial'', JString (serial d))])))"

definition GetZones :: "rpc_env \<Rightarrow> json \<Rightarrow> rpc" where
  "GetZones env params = require [''deviceIndex''] ''Missing 'deviceIndex' parameter'' params
     (on_device env params (\<lambda>i d st. do {
        zs \<leftarrow> those (map ZoneToJSON (zones d));
        reply (jobject [(''zones'', JArray zs)]) st }))"

section \<open>Rescanning\<close>

definition RescanDevices :: rpc where
  "RescanDevices st = (if rescan_in_progress st \<and> rescan st = Scanning
     then reply (jobject [(''success'', JBool False), (''message'', jstr ''Rescan already in progress'')]) st
     else reply (jobject [(''success'', JBool True), (''message'', jstr ''Rescan started'')])
       (st\<lparr>rescan_in_progress := True, rescan := Scanning\<rparr>))"

text \<open>The background thread ends: normally, or because \<open>ResourceManager::RescanDevices\<close> throws.\<close>

definition rescan_ends :: "bool \<Rightarrow> controller list \<Rightarrow> rpc_state \<Rightarrow> rpc_state" where
  "rescan_ends throws ds st = st\<lparr>rescan := Ready, devices := ds,
     rescan_in_progress := (if throws then rescan_in_progress st else False)\<rparr>"

end
