(* ===== verification/Rpc_Methods.thy ===== *)
theory Rpc_Methods
  imports Rpc_Handler
begin

text \<open>
  \<open>JSONRPCHandler.cpp\<close>, continued: the methods that set colors and modes, change zones, save and load profiles, and
  the dispatch of requests.
\<close>

section \<open>Colors\<close>

definition SetLEDColor :: "rpc_env \<Rightarrow> json \<Rightarrow> rpc" where
  "SetLEDColor env params = require [''deviceIndex'', ''ledIndex'', ''color'']
     ''Missing required parameters: deviceIndex, ledIndex, color'' params
     (parsed (get_u32 (cvt env) (field ''ledIndex'' params)) (\<lambda>led.
      parsed (ParseColor (cvt env) (junk_color env) (field ''color'' params)) (\<lambda>col.
      on_device env params (\<lambda>i d.
        if unat led \<ge> length (leds d) then fails ERR_LED_INDEX_OUT_OF_RANGE ''LED index out of range''
        else change i (\<lambda>d. Some (SetLED d led col)) (call_dev env i Dev_UpdateLEDs success)))))"

definition SetZoneColor :: "rpc_env \<Rightarrow> json \<Rightarrow> rpc" where
  "SetZoneColor env params = require [''deviceIndex'', ''zoneIndex'', ''color'']
     ''Missing required parameters: deviceIndex, zoneIndex, color'' params
     (parsed (get_u32 (cvt env) (field ''zoneIndex'' params)) (\<lambda>zi.
      parsed (ParseColor (cvt env) (junk_color env) (field ''color'' params)) (\<lambda>col.
      on_device env params (\<lambda>i d. zone_in_range zi d
        (change i (SetAllZoneLEDs zi col) (call_dev env i Dev_UpdateLEDs success))))))"

text \<open>The parameter \<open>Force\<close>, when there is one, must be a boolean.\<close>

definition with_force :: "json \<Rightarrow> (bool \<Rightarrow> rpc) \<Rightarrow> rpc" where
  "with_force params k = (if contains ''Force'' params \<and> \<not> is_boolean (field ''Force'' params)
     then fails INVALID_PARAMS '''Force' must be a boolean''
     else parsed (value_or get_bool ''Force'' False params) k)"

definition forced_zone :: "nat \<Rightarrow> zone \<Rightarrow> zone" where
  "forced_zone n z = z\<lparr>zone_leds_count := of_nat n, zone_flags := zone_flags z AND NOT ZONE_FLAG_RESIZE_EFFECTS_ONLY\<rparr>"

definition new_led :: led where "new_led = \<lparr>led_name = [], led_value = 0\<rparr>"

text \<open>\<open>controller->leds.resize(total_led_count); controller->SetupColors();\<close>\<close>

definition relayout :: "controller \<Rightarrow> controller" where
  "relayout d = SetupColors (d\<lparr>leds := vec_resize (sum_list (map (\<lambda>z. unat (leds_in_zone z)) (zones d))) new_led (leds d)\<rparr>)"

definition store_colors :: "nat \<Rightarrow> RGBColor list \<Rightarrow> controller \<Rightarrow> controller defined" where
  "store_colors zi cols d = fold_def (\<lambda>j. store_zone_color zi j (cols ! j)) [0..<length cols] d"

definition is_empty_array :: "json \<Rightarrow> bool" where
  "is_empty_array j \<longleftrightarrow> (case j of JArray js \<Rightarrow> js = [] | _ \<Rightarrow> False)"

definition is_array :: "json \<Rightarrow> bool" where
  "is_array j \<longleftrightarrow> (case j of JArray js \<Rightarrow> True | _ \<Rightarrow> False)"

text \<open>Whether the zone has now the number of LEDs that was asked for.\<close>

definition resized :: "rpc_env \<Rightarrow> nat \<Rightarrow> nat \<Rightarrow> nat \<Rightarrow> rpc \<Rightarrow> rpc" where
  "resized env i zi n k = call_dev env i (Dev_ResizeZone (of_nat zi) (of_nat n)) (\<lambda>st. do {
     z \<leftarrow> nth_def (zones (devices st ! i)) zi;
     if unat (zone_leds_count z) \<noteq> n
     then fails ERR_RESIZE_NOT_SUPPORTED ''Zone does not support the requested LED count'' st else k st })"

definition count_fits :: "nat \<Rightarrow> zone \<Rightarrow> bool" where
  "count_fits n z \<longleftrightarrow> unat (zone_leds_min z) \<le> n \<and> n \<le> unat (zone_leds_max z)"

definition SetZoneMultipleLed :: "rpc_env \<Rightarrow> json \<Rightarrow> rpc" where
  "SetZoneMultipleLed env params = require [''deviceIndex'', ''zoneIndex'', ''color'']
     ''Missing required parameters: deviceIndex, zoneIndex, color'' params
     (with_force params (\<lambda>force.
      if \<not> is_array (field ''color'' params) \<or> is_empty_array (field ''color'' params)
      then fails INVALID_PARAMS '''color' must be a non-empty array of RGB arrays''
      else (case parse_rgbs (field ''color'' params) of
        None \<Rightarrow> fails INVALID_PARAMS ''Each color must be an RGB array containing three integers from 0 to 255''
      | Some cols \<Rightarrow>
         parsed (get_u32 (cvt env) (field ''deviceIndex'' params)) (\<lambda>_.
         parsed (get_u32 (cvt env) (field ''zoneIndex'' params)) (\<lambda>zi.
         on_device env params (\<lambda>i d. zone_in_range zi d
          (let z = zones d ! unat zi; n = length cols;
               store = change i (store_colors (unat zi) cols) (call_dev env i Dev_UpdateLEDs
                 (reply (jobject [(''success'', JBool True), (''ledCount'', nat_json n), (''forced'', JBool force)])))
           in if n = unat (zone_leds_count z) then store
              else if force then change i (\<lambda>d. Some (relayout (d\<lparr>zones := (zones d)[unat zi := forced_zone n z]\<rparr>))) store
              else if \<not> count_fits n z
              then fails INVALID_PARAMS ''Color count is outside the zone's supported LED count range''
              else resized env i (unat zi) n store)))))))"

subsection \<open>All zones of a device\<close>

text \<open>One array of colors for each of the first zones. \<open>zone_colors_error\<close> is the error of the first bad entry.\<close>

fun parse_zone_colors :: "bool \<Rightarrow> json list \<Rightarrow> string + RGBColor list list" where
  "parse_zone_colors force [] = Inr []"
| "parse_zone_colors force (j # js) =
     (if \<not> is_array j \<or> is_empty_array j \<and> \<not> force
      then Inl (if force then ''Each zone entry must be an array'' else ''Each zone must contain a non-empty array of RGB arrays'')
      else (case parse_rgbs j of
        None \<Rightarrow> Inl ''Each color must be an RGB array containing three integers from 0 to 255''
      | Some cols \<Rightarrow> (case parse_zone_colors force js of Inl e \<Rightarrow> Inl e | Inr colss \<Rightarrow> Inr (cols # colss))))"

text \<open>Without force: all counts are checked first, then the zones are resized one after the other.\<close>

definition counts_fit :: "RGBColor list list \<Rightarrow> controller \<Rightarrow> bool" where
  "counts_fit colss d \<longleftrightarrow> list_all2 (\<lambda>cols z. length cols = unat (zone_leds_count z) \<or> count_fits (length cols) z) colss (zones d)"

fun resize_zones :: "rpc_env \<Rightarrow> nat \<Rightarrow> nat \<Rightarrow> RGBColor list list \<Rightarrow> rpc \<Rightarrow> rpc" where
  "resize_zones env i zi [] k = k"
| "resize_zones env i zi (cols # colss) k = (\<lambda>st. do {
     z \<leftarrow> nth_def (zones (devices st ! i)) zi;
     if length cols \<noteq> unat (zone_leds_count z)
     then resized env i zi (length cols) (resize_zones env i (Suc zi) colss k) st
     else resize_zones env i (Suc zi) colss k st })"

text \<open>With force: the colors of all zones are saved, the zones with colors resized, and the others restored.\<close>

definition saved_colors :: "controller \<Rightarrow> nat \<Rightarrow> RGBColor list defined" where
  "saved_colors d zi = do {
     z \<leftarrow> nth_def (zones d) zi;
     those (map (\<lambda>j. Option.bind (zone_colors z) (\<lambda>b. nth_def (colors d) (b + j))) [0..<unat (zone_leds_count z)]) }"

definition force_zones :: "RGBColor list list \<Rightarrow> controller \<Rightarrow> controller" where
  "force_zones colss d = d\<lparr>zones := map (\<lambda>(zi, z). if zi < length colss \<and> colss ! zi \<noteq> []
     then forced_zone (length (colss ! zi)) z else z) (zip [0..<length (zones d)] (zones d))\<rparr>"

definition restore_zones :: "RGBColor list list \<Rightarrow> RGBColor list list \<Rightarrow> controller \<Rightarrow> controller defined" where
  "restore_zones colss saved d = fold_def (\<lambda>zi d. if zi < length colss \<and> colss ! zi \<noteq> [] then Some d
     else store_colors zi (saved ! zi) d) [0..<length (zones d)] d"

definition force_layout :: "RGBColor list list \<Rightarrow> controller \<Rightarrow> controller defined" where
  "force_layout colss d = do {
     saved \<leftarrow> those (map (saved_colors d) [0..<length (zones d)]);
     restore_zones colss saved (relayout (force_zones colss d)) }"

definition store_all_colors :: "RGBColor list list \<Rightarrow> controller \<Rightarrow> controller defined" where
  "store_all_colors colss d = fold_def (\<lambda>zi. store_colors zi (colss ! zi)) [0..<length colss] d"

definition SetMultipleZoneMultipleLed :: "rpc_env \<Rightarrow> json \<Rightarrow> rpc" where
  "SetMultipleZoneMultipleLed env params = require [''deviceIndex'', ''color'']
     ''Missing required parameters: deviceIndex, color'' params
     (with_force params (\<lambda>force.
      (case field ''color'' params of
        JArray (j # js) \<Rightarrow> (case parse_zone_colors force (j # js) of
          Inl e \<Rightarrow> fails INVALID_PARAMS e
        | Inr colss \<Rightarrow> on_device env params (\<lambda>i d.
           if length colss > length (zones d) \<or> \<not> force \<and> length colss \<noteq> length (zones d)
           then fails INVALID_PARAMS (if force then ''The number of zone color arrays cannot exceed the device zone count''
             else ''The number of zone color arrays must match the device zone count'')
           else (let store = change i (store_all_colors colss) (call_dev env i Dev_UpdateLEDs
                   (reply (jobject [(''success'', JBool True), (''zoneCount'', nat_json (length colss)),
                     (''ledCounts'', JArray (map (\<lambda>cols. if cols = [] then JNull else nat_json (length cols)) colss)),
                     (''forced'', JBool force)])))
                 in if force then change i (force_layout colss) store
                    else if \<not> counts_fit colss d
                    then fails INVALID_PARAMS ''Color count is outside a zone's supported LED count range''
                    else resize_zones env i 0 colss store)))
      | _ \<Rightarrow> fails INVALID_PARAMS '''color' must be a non-empty array of zone color arrays'')))"

subsection \<open>Other color methods\<close>

definition SetAllColors :: "rpc_env \<Rightarrow> json \<Rightarrow> rpc" where
  "SetAllColors env params = require [''deviceIndex'', ''color'']
     ''Missing required parameters: deviceIndex, color'' params
     (parsed (ParseColor (cvt env) (junk_color env) (field ''color'' params)) (\<lambda>col.
      on_device env params (\<lambda>i d. change i (SetAllLEDs col) (call_dev env i Dev_UpdateLEDs success))))"

fun set_each :: "rpc_env \<Rightarrow> nat \<Rightarrow> json list \<Rightarrow> rpc \<Rightarrow> rpc" where
  "set_each env i [] k = k"
| "set_each env i (j # js) k =
     (if \<not> contains ''ledIndex'' j \<or> \<not> contains ''color'' j then set_each env i js k
      else parsed (get_u32 (cvt env) (field ''ledIndex'' j)) (\<lambda>led st.
        if unat led < length (leds (devices st ! i))
        then parsed (ParseColor (cvt env) (junk_color env) (field ''color'' j)) (\<lambda>col.
          change i (\<lambda>d. Some (SetLED d led col)) (set_each env i js k)) st
        else set_each env i js k st))"

definition SetMultipleColors :: "rpc_env \<Rightarrow> json \<Rightarrow> rpc" where
  "SetMultipleColors env params = require [''deviceIndex'', ''colors'']
     ''Missing required parameters: deviceIndex, colors'' params
     (case field ''colors'' params of
        JArray js \<Rightarrow> on_device env params (\<lambda>i d. set_each env i js (call_dev env i Dev_UpdateLEDs success))
      | _ \<Rightarrow> fails INVALID_PARAMS '''colors' must be an array'')"

definition SetKeyColor :: "rpc_env \<Rightarrow> json \<Rightarrow> rpc" where
  "SetKeyColor env params = require [''deviceIndex'', ''key'', ''color'']
     ''Missing required parameters: deviceIndex, key, color'' params
     (parsed (get_string (field ''key'' params)) (\<lambda>key.
      parsed (ParseColor (cvt env) (junk_color env) (field ''color'' params)) (\<lambda>col.
      on_device env params (\<lambda>i d. case first_index (\<lambda>l. led_name l = key) 0 (leds d) of
        Some led \<Rightarrow> change i (\<lambda>d. Some (SetLED d (of_nat led) col)) (call_dev env i Dev_UpdateLEDs success)
      | None \<Rightarrow> reply (CreateError ERR_KEY_NAME_NOT_FOUND (str8 ''Key name not found: '' @ key))))))"

section \<open>Modes\<close>

text \<open>\<open>RGBController::SetMode\<close>.\<close>

definition set_mode :: "rpc_env \<Rightarrow> nat \<Rightarrow> u32 \<Rightarrow> rpc \<Rightarrow> rpc" where
  "set_mode env i m k = change i (\<lambda>d. Some (d\<lparr>active_mode := m\<rparr>)) (call_dev env i Dev_UpdateMode k)"

definition mode_in_range :: "u32 \<Rightarrow> controller \<Rightarrow> rpc \<Rightarrow> rpc" where
  "mode_in_range m d k = (if unat m < length (modes d) then k else fails ERR_MODE_INDEX_OUT_OF_RANGE ''Mode index out of range'')"

definition SetMode_method :: "rpc_env \<Rightarrow> json \<Rightarrow> rpc" where
  "SetMode_method env params = require [''deviceIndex'', ''modeIndex'']
     ''Missing required parameters: deviceIndex, modeIndex'' params
     (parsed (get_u32 (cvt env) (field ''modeIndex'' params)) (\<lambda>m.
      on_device env params (\<lambda>i d. mode_in_range m d (set_mode env i m (call_dev env i Dev_UpdateLEDs success)))))"

definition SetCustomMode_method :: "rpc_env \<Rightarrow> json \<Rightarrow> rpc" where
  "SetCustomMode_method env params = require [''deviceIndex''] ''Missing 'deviceIndex' parameter'' params
     (on_device env params (\<lambda>i d. call_dev env i Dev_SetCustomMode (call_dev env i Dev_UpdateLEDs success)))"

definition change_mode :: "nat \<Rightarrow> nat \<Rightarrow> (mode \<Rightarrow> mode) \<Rightarrow> rpc \<Rightarrow> rpc" where
  "change_mode i m f k = change i (\<lambda>d. do {
     md \<leftarrow> nth_def (modes d) m;
     Some (d\<lparr>modes := (modes d)[m := f md]\<rparr>) }) k"

text \<open>A field of the mode, when the request has it.\<close>

definition optional_field :: "string \<Rightarrow> json \<Rightarrow> (json \<Rightarrow> rpc \<Rightarrow> rpc) \<Rightarrow> rpc \<Rightarrow> rpc" where
  "optional_field key j f k = (if contains key j then f (field key j) k else k)"

fun push_colors :: "rpc_env \<Rightarrow> nat \<Rightarrow> nat \<Rightarrow> json list \<Rightarrow> rpc \<Rightarrow> rpc" where
  "push_colors env i m [] k = k"
| "push_colors env i m (j # js) k = parsed (ParseColor (cvt env) (junk_color env) j) (\<lambda>col.
     change_mode i m (\<lambda>md. md\<lparr>mode_colors := mode_colors md @ [col]\<rparr>) (push_colors env i m js k))"

definition UpdateMode_method :: "rpc_env \<Rightarrow> json \<Rightarrow> rpc" where
  "UpdateMode_method env params = require [''deviceIndex'', ''mode'']
     ''Missing required parameters: deviceIndex, mode'' params
     (let obj = field ''mode'' params in require [''index''] ''Mode object missing 'index' field'' obj
     (parsed (get_u32 (cvt env) (field ''index'' obj)) (\<lambda>m.
      on_device env params (\<lambda>i d. mode_in_range m d
       (optional_field ''speed'' obj (\<lambda>j k. parsed (get_u32 (cvt env) j) (\<lambda>v. change_mode i (unat m) (\<lambda>md. md\<lparr>mode_speed := v\<rparr>) k))
       (optional_field ''direction'' obj (\<lambda>j k. parsed (get_u32 (cvt env) j) (\<lambda>v. change_mode i (unat m) (\<lambda>md. md\<lparr>mode_direction := v\<rparr>) k))
       (optional_field ''colors'' obj (\<lambda>j k. case j of
            JArray js \<Rightarrow> change_mode i (unat m) (\<lambda>md. md\<lparr>mode_colors := []\<rparr>) (push_colors env i (unat m) js k)
          | _ \<Rightarrow> k)
       (set_mode env i m (call_dev env i Dev_UpdateLEDs success)))))))))"

section \<open>Zones\<close>

definition ResizeZone :: "rpc_env \<Rightarrow> json \<Rightarrow> rpc" where
  "ResizeZone env params = require [''deviceIndex'', ''zoneIndex'', ''newSize'']
     ''Missing required parameters: deviceIndex, zoneIndex, newSize'' params
     (parsed (get_u32 (cvt env) (field ''zoneIndex'' params)) (\<lambda>zi.
      parsed (get_int (cvt env) (field ''newSize'' params)) (\<lambda>n.
      on_device env params (\<lambda>i d. zone_in_range zi d
       (if zone_leds_min (zones d ! unat zi) = zone_leds_max (zones d ! unat zi)
        then fails ERR_RESIZE_NOT_SUPPORTED ''Zone is not resizeable''
        else call_dev env i (Dev_ResizeZone zi n) success)))))"

definition ClearSegments_method :: "rpc_env \<Rightarrow> json \<Rightarrow> rpc" where
  "ClearSegments_method env params = require [''deviceIndex'', ''zoneIndex'']
     ''Missing required parameters: deviceIndex, zoneIndex'' params
     (parsed (get_u32 (cvt env) (field ''zoneIndex'' params)) (\<lambda>zi.
      on_device env params (\<lambda>i d. zone_in_range zi d (change i (ClearSegments (unat zi)) success))))"

text \<open>\<open>new_seg.type\<close> is not initialised.\<close>

definition AddSegment_method :: "rpc_env \<Rightarrow> json \<Rightarrow> rpc" where
  "AddSegment_method env params = require [''deviceIndex'', ''zoneIndex'', ''segment'']
     ''Missing required parameters: deviceIndex, zoneIndex, segment'' params
     (parsed (get_u32 (cvt env) (field ''zoneIndex'' params)) (\<lambda>zi.
      let obj = field ''segment'' params in
      parsed (value_or (get_int (cvt env)) ''start'' 0 obj) (\<lambda>start.
      parsed (value_or (get_int (cvt env)) ''length'' 0 obj) (\<lambda>len.
      parsed (value_or get_string ''name'' [] obj) (\<lambda>nm.
      on_device env params (\<lambda>i d. zone_in_range zi d
       (change i (AddSegment (unat zi) \<lparr>seg_name = nm, seg_type = junk_segment_type env, seg_start_idx = start, seg_leds_count = len\<rparr>)
         success)))))))"

section \<open>Profiles\<close>

definition GetProfiles :: rpc where
  "GetProfiles st = reply (jobject [(''profiles'',
     JArray (if manager_set st then map JString (interface_profile_list st) else []))]) st"

definition notify :: "rpc_effect \<Rightarrow> rpc_state \<Rightarrow> rpc_state" where
  "notify e st = st\<lparr>rpc_effects := rpc_effects st @ [e]\<rparr>"

text \<open>Events of profiles go to the WebSocket server, if there is one.\<close>

definition announce :: "rpc_effect \<Rightarrow> rpc_state \<Rightarrow> rpc_state" where
  "announce e st = (if websocket_set st then notify e st else st)"

definition SaveProfile_method :: "rpc_env \<Rightarrow> json \<Rightarrow> rpc" where
  "SaveProfile_method env params = require [''profileName''] ''Missing 'profileName' parameter'' params
     (parsed (get_string (field ''profileName'' params)) (\<lambda>nm.
      parsed (value_or get_bool ''includeSizes'' True params) (\<lambda>sizes st.
        if \<not> manager_set st then fails ERR_PROFILE_SAVE_FAILED ''Profile manager not initialized'' st
        else do {
          (ok, fs) \<leftarrow> SaveProfile (rpc_junk env) nm sizes (devices st) (storage_of st);
          success (announce (Profile_saved_event nm) (st\<lparr>storage_of := fs\<rparr>)) })))"

text \<open>The name must be in the list of the interface.\<close>

definition listed_profile :: "json \<Rightarrow> (cstring \<Rightarrow> rpc) \<Rightarrow> rpc" where
  "listed_profile params k = require [''profileName''] ''Missing 'profileName' parameter'' params
     (parsed (get_string (field ''profileName'' params)) (\<lambda>nm st.
        if \<not> manager_set st then fails ERR_PROFILE_NOT_FOUND ''Profile manager not initialized'' st
        else if nm \<notin> set (interface_profile_list st)
        then reply (CreateError ERR_PROFILE_NOT_FOUND (str8 ''Profile not found: '' @ nm)) st
        else k nm st))"

definition resize_fn :: "rpc_env \<Rightarrow> nat \<Rightarrow> u32 \<Rightarrow> u32 \<Rightarrow> controller \<Rightarrow> controller defined" where
  "resize_fn env i z n = device_fn env i (Dev_ResizeZone z n)"

definition LoadProfile_method :: "rpc_env \<Rightarrow> json \<Rightarrow> rpc" where
  "LoadProfile_method env params = listed_profile params (\<lambda>nm st. do {
     (b, ds) \<leftarrow> LoadProfile (rpc_junk env) (resize_fn env) nm (storage_of st) (devices st);
     (b, ds) \<leftarrow> LoadSizeFromProfile (rpc_junk env) (resize_fn env) nm (storage_of st) ds;
     success (announce (Profile_loaded_event nm) (st\<lparr>devices := ds\<rparr>)) })"

definition DeleteProfile_method :: "rpc_env \<Rightarrow> json \<Rightarrow> rpc" where
  "DeleteProfile_method env params = listed_profile params (\<lambda>nm st.
     success (st\<lparr>storage_of := DeleteProfile (rpc_junk env) nm (storage_of st)\<rparr>))"

section \<open>The server\<close>

definition GetProtocolVersion_method :: rpc where
  "GetProtocolVersion_method = reply (jobject [(''protocolVersion'', jstr ''1.0''), (''jsonrpcVersion'', jstr ''2.0'')])"

definition GetServerInfo :: "rpc_env \<Rightarrow> rpc" where
  "GetServerInfo env = reply (jobject [(''serverVersion'', JString (version_string env)), (''protocolVersion'', jstr ''1.0''),
     (''sdkVersion'', jstr ''1.0''), (''capabilities'', JArray (map jstr [''deviceManagement'', ''colorControl'',
       ''modeControl'', ''zoneManagement'', ''profileManagement'', ''eventNotifications'']))])"

definition GetClients :: rpc where
  "GetClients = reply (jobject [(''clients'', JArray [])])"

definition ShutdownServer :: "bool \<Rightarrow> rpc" where
  "ShutdownServer client_is_loopback st = (if \<not> client_is_loopback
     then fails ERR_OPERATION_NOT_PERMITTED ''Shutdown is only permitted from loopback clients'' st
     else reply (jobject [(''success'', JBool True), (''message'', jstr ''Shutdown scheduled'')]) (st\<lparr>shutdown_requested := True\<rparr>))"

definition TakeShutdownRequested :: "rpc_state \<Rightarrow> bool \<times> rpc_state" where
  "TakeShutdownRequested st = (shutdown_requested st, st\<lparr>shutdown_requested := False\<rparr>)"

definition GetPlugins :: rpc where
  "GetPlugins = reply (jobject [(''plugins'', JArray [])])"

definition CallPlugin :: "json \<Rightarrow> rpc" where
  "CallPlugin params = require [''pluginName'', ''method'', ''params'']
     ''Missing required parameters: pluginName, method, params'' params
     (fails ERR_PLUGIN_NOT_FOUND ''Plugin support not yet implemented'')"

section \<open>Requests\<close>

text \<open>The methods by name, in the order they are compared.\<close>

definition methods :: "rpc_env \<Rightarrow> bool \<Rightarrow> json \<Rightarrow> (string \<times> rpc) list" where
  "methods env client_is_loopback params = [
     (''device.getControllers'', GetControllers env), (''device.getControllerCount'', GetControllerCount),
     (''device.getControllerData'', GetControllerData env params), (''device.getControllerInfo'', GetControllerInfo env params),
     (''device.rescan'', RescanDevices),
     (''device.setLEDColor'', SetLEDColor env params), (''device.setZoneColor'', SetZoneColor env params),
     (''device.setZoneMultipleLed'', SetZoneMultipleLed env params),
     (''device.setMultipleZoneMultipleLed'', SetMultipleZoneMultipleLed env params),
     (''device.setAllColors'', SetAllColors env params), (''device.setMultipleColors'', SetMultipleColors env params),
     (''device.setKeyColor'', SetKeyColor env params),
     (''device.setMode'', SetMode_method env params), (''device.setCustomMode'', SetCustomMode_method env params),
     (''device.updateMode'', UpdateMode_method env params),
     (''device.getZones'', GetZones env params), (''device.resizeZone'', ResizeZone env params),
     (''zone.clearSegments'', ClearSegments_method env params), (''zone.addSegment'', AddSegment_method env params),
     (''profile.getProfiles'', GetProfiles), (''profile.saveProfile'', SaveProfile_method env params),
     (''profile.loadProfile'', LoadProfile_method env params), (''profile.deleteProfile'', DeleteProfile_method env params),
     (''server.getProtocolVersion'', GetProtocolVersion_method), (''server.getServerInfo'', GetServerInfo env),
     (''server.getClients'', GetClients), (''server.shutdown'', ShutdownServer client_is_loopback),
     (''plugin.getPlugins'', GetPlugins), (''plugin.callPlugin'', CallPlugin params)]"

definition CallMethod :: "rpc_env \<Rightarrow> cstring \<Rightarrow> json \<Rightarrow> bool \<Rightarrow> rpc" where
  "CallMethod env meth params client_is_loopback =
     (case map_of (map (\<lambda>(n, f). (str8 n, f)) (methods env client_is_loopback params)) meth of
        Some f \<Rightarrow> f
      | None \<Rightarrow> reply (CreateError METHOD_NOT_FOUND (str8 ''Method not found: '' @ meth)))"

text \<open>Exceptions of the request or the method end in an internal error.\<close>

definition caught :: "rpc \<Rightarrow> rpc_state \<Rightarrow> (rpc_state \<times> json) defined" where
  "caught f st = map_option (\<lambda>(st, r). (st, case r of
     Inl what \<Rightarrow> CreateError INTERNAL_ERROR (str8 ''Internal error: '' @ what) | Inr j \<Rightarrow> j)) (f st)"

definition answer :: "u32 \<Rightarrow> json \<Rightarrow> json" where
  "answer i r = (if contains ''error'' r
     then jobject [(''jsonrpc'', jstr ''2.0''), (''error'', field ''error'' r), (''id'', JInteger (sint i))]
     else CreateResult r i)"

definition HandleRequest :: "rpc_env \<Rightarrow> json \<Rightarrow> bool \<Rightarrow> rpc_state \<Rightarrow> (rpc_state \<times> json) defined" where
  "HandleRequest env request client_is_loopback = caught
     (if \<not> contains ''jsonrpc'' request \<or> field ''jsonrpc'' request \<noteq> jstr ''2.0''
      then fails INVALID_REQUEST ''Missing or invalid 'jsonrpc' field''
      else if \<not> contains ''method'' request then fails INVALID_REQUEST ''Missing 'method' field''
      else parsed (get_string (field ''method'' request)) (\<lambda>meth.
           parsed (value_or Inr ''params'' (JObject []) request) (\<lambda>params.
           parsed (value_or (get_int (cvt env)) ''id'' 0 request) (\<lambda>i st.
             map_option (\<lambda>(st, r). (st, case r of Inl w \<Rightarrow> Inl w | Inr j \<Rightarrow> Inr (answer i j)))
               (CallMethod env meth params client_is_loopback st)))))"

fun handle_all :: "rpc_env \<Rightarrow> bool \<Rightarrow> json list \<Rightarrow> rpc_state \<Rightarrow> (rpc_state \<times> json list) defined" where
  "handle_all env client_is_loopback [] st = Some (st, [])"
| "handle_all env client_is_loopback (r # rs) st = do {
     (st, j) \<leftarrow> HandleRequest env r client_is_loopback st;
     (st, js) \<leftarrow> handle_all env client_is_loopback rs st;
     Some (st, j # js) }"

definition HandleBatchRequest :: "rpc_env \<Rightarrow> json \<Rightarrow> bool \<Rightarrow> rpc_state \<Rightarrow> (rpc_state \<times> json) defined" where
  "HandleBatchRequest env requests client_is_loopback st = (case requests of
     JArray rs \<Rightarrow> map_option (\<lambda>(st, js). (st, JArray js)) (handle_all env client_is_loopback rs st)
   | _ \<Rightarrow> Some (st, CreateError INVALID_REQUEST (str8 ''Batch request must be an array'')))"

end
