(* ===== verification/Ws_Server.thy ===== *)
theory Ws_Server
  imports Rpc_Methods
begin

text \<open>
  \<open>WebSocketServer.cpp\<close> and \<open>WebSocketClientInfo\<close>: connections, authentication, messages and notifications, in front
  of the JSON-RPC handler.

  \<open>websocketpp\<close> and the text form of JSON are third-party code and parameters. What the server relies on: a
  connection has a handle; \<open>send\<close> and \<open>close\<close> throw when the connection is not open; an exception that leaves
  a handler leaves \<open>run\<close>, so it ends the thread of the server; \<open>init_asio\<close> throws when it was called before.
\<close>

section \<open>State\<close>

record WebSocketClientInfo =
  client_ip :: cstring
  client_port :: u16
  auth_token :: cstring
  authenticated :: bool

datatype ws_effect = Ws_sent nat cstring | Ws_closed nat string | Ws_client_info_changed | Ws_shutdown_scheduled

text \<open>
  \<open>clients\<close> maps handles to the addresses of the client infos, in the order of the handles; \<open>infos_at\<close> holds the
  infos that are allocated. \<open>open_handles\<close> are the connections \<open>websocketpp\<close> regards as open, \<open>stopping\<close> tells that
  a thread is between the two halves of \<open>StopServer\<close>.
\<close>

record ws_state =
  handler :: rpc_state
  enabled :: bool
  server_online :: bool
  io_running :: bool
  stopping :: bool
  asio_initialised :: bool
  last_error :: cstring
  require_auth :: bool
  auth_tokens :: "cstring list"
  clients :: "(nat \<times> nat) list"
  infos_at :: "nat \<Rightarrow> WebSocketClientInfo option"
  open_handles :: "nat list"
  ws_effects :: "ws_effect list"

record ws_env =
  rpc_of :: rpc_env
  parse_json :: "cstring \<Rightarrow> json option"
  dump :: "json \<Rightarrow> cstring option"
  remote_endpoint :: "nat \<Rightarrow> cstring option"
  uri_of :: "nat \<Rightarrow> cstring option"
  listen_error :: "cstring option"
  init_error :: cstring

text \<open>What runs on the thread of the server returns the state and whether an exception leaves it.\<close>

type_synonym ws_result = "ws_state \<times> bool"

definition ws_effect :: "ws_effect \<Rightarrow> ws_state \<Rightarrow> ws_state" where
  "ws_effect e st = st\<lparr>ws_effects := ws_effects st @ [e]\<rparr>"

section \<open>Addresses and tokens\<close>

definition IsLoopbackAddress :: "cstring \<Rightarrow> bool" where
  "IsLoopbackAddress ip \<longleftrightarrow> ip = str8 ''127.0.0.1'' \<or> ip = str8 ''::1'' \<or> ip = str8 ''localhost''
     \<or> 8 \<le> length ip \<and> take 4 ip = str8 ''127.''"

text \<open>The first place of a string in another.\<close>

fun find_string :: "cstring \<Rightarrow> cstring \<Rightarrow> nat option" where
  "find_string p [] = (if p = [] then Some 0 else None)"
| "find_string p (b # bs) = (if take (length p) (b # bs) = p then Some 0 else map_option Suc (find_string p bs))"

definition token_key :: cstring where "token_key = str8 ''token=''"

definition ExtractTokenFromUri :: "cstring \<Rightarrow> cstring" where
  "ExtractTokenFromUri uri = (case find_string token_key uri of
     None \<Rightarrow> []
   | Some pos \<Rightarrow> takeWhile (\<lambda>b. b \<noteq> of_char (CHR ''&'')) (drop (pos + length token_key) uri))"

definition AuthenticateClient :: "ws_state \<Rightarrow> cstring \<Rightarrow> bool" where
  "AuthenticateClient st token \<longleftrightarrow> \<not> require_auth st \<or> token \<noteq> [] \<and> token \<in> set (auth_tokens st)"

definition GetRemoteIP :: "ws_env \<Rightarrow> nat \<Rightarrow> cstring" where
  "GetRemoteIP env h = (case remote_endpoint env h of
     None \<Rightarrow> []
   | Some endpoint \<Rightarrow> (case rfind (str8 '':'') endpoint of Some i \<Rightarrow> take i endpoint | None \<Rightarrow> endpoint))"

text \<open>\<open>atoi\<close> of what follows the last colon, as 16 bits.\<close>

definition is_digit :: "byte \<Rightarrow> bool" where
  "is_digit b \<longleftrightarrow> 48 \<le> b \<and> b \<le> 57"

definition digits_value :: "cstring \<Rightarrow> int" where
  "digits_value s = foldl (\<lambda>n b. 10 * n + (uint b - 48)) 0 (takeWhile is_digit s)"

definition atoi :: "cstring \<Rightarrow> int" where
  "atoi s0 = (let s = dropWhile is_space s0 in
     if take 1 s = str8 ''-'' then - digits_value (drop 1 s)
     else if take 1 s = str8 ''+'' then digits_value (drop 1 s) else digits_value s)"

definition remote_port :: "ws_env \<Rightarrow> nat \<Rightarrow> u16" where
  "remote_port env h = (case remote_endpoint env h of
     None \<Rightarrow> 0
   | Some endpoint \<Rightarrow> (case rfind (str8 '':'') endpoint of Some i \<Rightarrow> word_of_int (atoi (drop (i + 1) endpoint)) | None \<Rightarrow> 0))"

section \<open>Sending\<close>

definition SendToClient :: "ws_env \<Rightarrow> nat \<Rightarrow> json \<Rightarrow> ws_state \<Rightarrow> ws_result" where
  "SendToClient env h response st = (case dump env response of
     None \<Rightarrow> (st, True)
   | Some s \<Rightarrow> (if h \<in> set (open_handles st) then ws_effect (Ws_sent h s) st else st, False))"

definition close_handle :: "nat \<Rightarrow> string \<Rightarrow> ws_state \<Rightarrow> ws_state" where
  "close_handle h reason st = (if h \<in> set (open_handles st)
     then ws_effect (Ws_closed h reason) (st\<lparr>open_handles := removeAll h (open_handles st)\<rparr>) else st)"

definition notification :: "string \<Rightarrow> json \<Rightarrow> json" where
  "notification event data = jobject [(''jsonrpc'', jstr ''2.0''), (''method'', jstr ''notification''),
     (''params'', jobject [(''event'', jstr event), (''data'', data)])]"

text \<open>A client whose connection is dead leaves the map; its info is not deleted.\<close>

definition broadcast_message :: "cstring \<Rightarrow> ws_state \<Rightarrow> ws_state" where
  "broadcast_message msg st = (let live = filter (\<lambda>(h, a). h \<in> set (open_handles st)) (clients st) in
     st\<lparr>clients := live, ws_effects := ws_effects st @ map (\<lambda>(h, a). Ws_sent h msg) live\<rparr>)"

definition BroadcastNotification :: "ws_env \<Rightarrow> string \<Rightarrow> json \<Rightarrow> ws_state \<Rightarrow> ws_result" where
  "BroadcastNotification env event data st = (case dump env (notification event data) of
     None \<Rightarrow> (st, True) | Some msg \<Rightarrow> (broadcast_message msg st, False))"

definition NotifyClientInfoCallbacks :: "ws_state \<Rightarrow> ws_state" where
  "NotifyClientInfoCallbacks = ws_effect Ws_client_info_changed"

text \<open>When the broadcast throws, what follows is not reached.\<close>

definition broadcast_then :: "ws_env \<Rightarrow> string \<Rightarrow> json \<Rightarrow> (ws_state \<Rightarrow> ws_state) \<Rightarrow> ws_state \<Rightarrow> ws_result" where
  "broadcast_then env event data f st = (let (st, threw) = BroadcastNotification env event data st in
     (if threw then st else f st, threw))"

definition DeviceListChanged_ws :: "ws_env \<Rightarrow> u32 \<Rightarrow> ws_state \<Rightarrow> ws_result" where
  "DeviceListChanged_ws env n = BroadcastNotification env ''deviceListChanged'' (jobject [(''controllerCount'', u32_json n)])"

definition DeviceListChanged_all :: "ws_env \<Rightarrow> ws_state \<Rightarrow> ws_result" where
  "DeviceListChanged_all env st = DeviceListChanged_ws env (of_nat (length (devices (handler st)))) st"

definition ProfileListChanged :: "ws_env \<Rightarrow> ws_state \<Rightarrow> ws_result" where
  "ProfileListChanged env = BroadcastNotification env ''profileSaved'' (jobject [(''message'', jstr ''Profile list changed'')])"

definition DeviceConnected :: "ws_env \<Rightarrow> u32 \<Rightarrow> cstring \<Rightarrow> ws_state \<Rightarrow> ws_result" where
  "DeviceConnected env i nm = BroadcastNotification env ''deviceConnected''
     (jobject [(''deviceIndex'', u32_json i), (''deviceName'', JString nm)])"

definition DeviceDisconnected :: "ws_env \<Rightarrow> u32 \<Rightarrow> ws_state \<Rightarrow> ws_result" where
  "DeviceDisconnected env i = BroadcastNotification env ''deviceDisconnected'' (jobject [(''deviceIndex'', u32_json i)])"

definition ProfileSaved :: "ws_env \<Rightarrow> cstring \<Rightarrow> ws_state \<Rightarrow> ws_result" where
  "ProfileSaved env nm = BroadcastNotification env ''profileSaved'' (jobject [(''profileName'', JString nm)])"

definition ProfileLoaded :: "ws_env \<Rightarrow> cstring \<Rightarrow> ws_state \<Rightarrow> ws_result" where
  "ProfileLoaded env nm = BroadcastNotification env ''profileLoaded'' (jobject [(''profileName'', JString nm)])"

definition DEVICE_TYPE_KEYBOARD :: u32 where "DEVICE_TYPE_KEYBOARD = 5"

text \<open>The controllers in turn, up to the first that throws.\<close>

fun scan_json :: "rpc_env \<Rightarrow> controller list \<Rightarrow> json list converted defined" where
  "scan_json env [] = Some (Inr [])"
| "scan_json env (d # ds) = do {
     x \<leftarrow> (if type d = DEVICE_TYPE_KEYBOARD then ControllerToScanCompleteJSON env d else ControllerToJSON env d);
     (case x of Inl e \<Rightarrow> Some (Inl e)
      | Inr j \<Rightarrow> map_option (\<lambda>y. conv_bind y (\<lambda>js. Inr (j # js))) (scan_json env ds)) }"

definition ScanComplete :: "ws_env \<Rightarrow> u32 \<Rightarrow> ws_state \<Rightarrow> ws_result defined" where
  "ScanComplete env n st = do {
     x \<leftarrow> scan_json (rpc_of env) (devices (handler st));
     Some (case x of
       Inl e \<Rightarrow> (st, True)
     | Inr js \<Rightarrow> BroadcastNotification env ''scanComplete'' (jobject [(''controllerCount'', u32_json n),
         (''message'', jstr ''Device scan completed''), (''controllers'', JArray js)]) st) }"

section \<open>Handlers\<close>

definition AUTHENTICATION_FAILED :: json where
  "AUTHENTICATION_FAILED = jobject [(''jsonrpc'', jstr ''2.0''),
     (''error'', jobject [(''code'', JInteger (-32015)), (''message'', jstr ''Authentication failed'')]), (''id'', JNull)]"

text \<open>A connection that is not let in gets an error and is closed, unless sending throws.\<close>

definition reject :: "ws_env \<Rightarrow> nat \<Rightarrow> ws_state \<Rightarrow> ws_state" where
  "reject env h st = (case dump env AUTHENTICATION_FAILED of
     None \<Rightarrow> st
   | Some s \<Rightarrow> if h \<in> set (open_handles st) then close_handle h ''Authentication failed'' (ws_effect (Ws_sent h s) st) else st)"

fun put_client :: "nat \<Rightarrow> nat \<Rightarrow> (nat \<times> nat) list \<Rightarrow> (nat \<times> nat) list" where
  "put_client h a [] = [(h, a)]"
| "put_client h a ((k, b) # cs) = (if h < k then (h, a) # (k, b) # cs
     else if h = k then (h, a) # cs else (k, b) # put_client h a cs)"

definition client_token :: "ws_env \<Rightarrow> nat \<Rightarrow> cstring" where
  "client_token env h = (case uri_of env h of None \<Rightarrow> [] | Some uri \<Rightarrow> ExtractTokenFromUri uri)"

text \<open>\<open>a\<close> is the address of the new client info.\<close>

definition OnOpen :: "ws_env \<Rightarrow> nat \<Rightarrow> nat \<Rightarrow> ws_state \<Rightarrow> ws_result" where
  "OnOpen env a h st = (let ip = GetRemoteIP env h; token = client_token env h in
     if require_auth st \<and> \<not> AuthenticateClient st token then (reject env h st, False)
     else broadcast_then env ''clientConnected'' (jobject [(''clientIP'', JString ip)]) NotifyClientInfoCallbacks
       (st\<lparr>infos_at := (infos_at st)(a \<mapsto> \<lparr>client_ip = ip, client_port = remote_port env h,
             auth_token = token, authenticated = require_auth st\<rparr>),
          clients := put_client h a (clients st)\<rparr>))"

text \<open>\<open>delete it->second; clients.erase(it);\<close> deleting an info that is not allocated is undefined.\<close>

definition remove_client :: "nat \<Rightarrow> ws_state \<Rightarrow> (cstring \<times> ws_state) defined" where
  "remove_client h st = (case map_of (clients st) h of
     None \<Rightarrow> Some ([], st)
   | Some a \<Rightarrow> (case infos_at st a of
       None \<Rightarrow> None
     | Some ci \<Rightarrow> Some (client_ip ci, st\<lparr>infos_at := (infos_at st)(a := None),
         clients := filter (\<lambda>(k, b). k \<noteq> h) (clients st)\<rparr>)))"

definition OnClose :: "ws_env \<Rightarrow> nat \<Rightarrow> ws_state \<Rightarrow> ws_result defined" where
  "OnClose env h st = do {
     (ip, st) \<leftarrow> remove_client h st;
     Some (broadcast_then env ''clientDisconnected'' (jobject [(''clientIP'', JString ip)]) NotifyClientInfoCallbacks st) }"

definition OnFail :: "nat \<Rightarrow> ws_state \<Rightarrow> ws_result defined" where
  "OnFail h st = map_option (\<lambda>(ip, st). (st, False)) (remove_client h st)"

definition ScheduleShutdown :: "ws_state \<Rightarrow> ws_state" where
  "ScheduleShutdown = ws_effect Ws_shutdown_scheduled"

subsection \<open>Messages\<close>

definition PARSE_FAILED :: json where
  "PARSE_FAILED = jobject [(''jsonrpc'', jstr ''2.0''),
     (''error'', jobject [(''code'', JInteger (-32700)), (''message'', jstr ''Parse error'')]), (''id'', JNull)]"

definition is_shutdown :: "json \<Rightarrow> bool" where
  "is_shutdown request \<longleftrightarrow> \<not> is_array request \<and> contains ''method'' request \<and> field ''method'' request = jstr ''server.shutdown''"

definition shutdown_response :: "bool \<Rightarrow> u32 \<Rightarrow> json" where
  "shutdown_response loopback i = jobject [(''jsonrpc'', jstr ''2.0''), (''id'', int_json i),
     (if loopback then (''result'', jobject [(''success'', JBool True), (''message'', jstr ''Shutdown scheduled'')])
      else (''error'', jobject [(''code'', JInteger ERR_OPERATION_NOT_PERMITTED),
        (''message'', jstr ''Shutdown is only permitted from loopback clients'')]))]"

definition answer_shutdown :: "ws_env \<Rightarrow> nat \<Rightarrow> bool \<Rightarrow> json \<Rightarrow> ws_state \<Rightarrow> ws_result" where
  "answer_shutdown env h loopback request st = (case value_or (get_int (cvt (rpc_of env))) ''id'' 0 request of
     Inl e \<Rightarrow> (st, True)
   | Inr i \<Rightarrow> (let (st, threw) = SendToClient env h (shutdown_response loopback i) st in
       (if loopback \<and> \<not> threw then ScheduleShutdown st else st, threw)))"

text \<open>The notifications a request caused, before it was answered.\<close>

fun broadcast_events :: "ws_env \<Rightarrow> rpc_effect list \<Rightarrow> ws_state \<Rightarrow> ws_state" where
  "broadcast_events env [] st = st"
| "broadcast_events env (Profile_saved_event nm # es) st = broadcast_events env es (fst (ProfileSaved env nm st))"
| "broadcast_events env (Profile_loaded_event nm # es) st = broadcast_events env es (fst (ProfileLoaded env nm st))"
| "broadcast_events env (Device_called i dc # es) st = broadcast_events env es st"

text \<open>After the handler: the flag of a shutdown is taken, the response sent, the shutdown scheduled.\<close>

definition finish_message :: "ws_env \<Rightarrow> nat \<Rightarrow> rpc_state \<times> json \<Rightarrow> ws_state \<Rightarrow> ws_result" where
  "finish_message env h r st = (let (hs, response) = r;
       es = drop (length (rpc_effects (handler st))) (rpc_effects hs);
       (requested, hs) = TakeShutdownRequested hs;
       (st, threw) = SendToClient env h response (broadcast_events env es (st\<lparr>handler := hs\<rparr>)) in
     (if requested \<and> \<not> threw then ScheduleShutdown st else st, threw))"

definition handle_request :: "ws_env \<Rightarrow> nat \<Rightarrow> bool \<Rightarrow> json \<Rightarrow> ws_state \<Rightarrow> ws_result defined" where
  "handle_request env h loopback request st = do {
     r \<leftarrow> (if is_array request then HandleBatchRequest (rpc_of env) request loopback (handler st)
           else HandleRequest (rpc_of env) request loopback (handler st));
     Some (finish_message env h r st) }"

text \<open>The activity time of the client is written to its info.\<close>

definition touch_client :: "nat \<Rightarrow> ws_state \<Rightarrow> unit defined" where
  "touch_client h st = (case map_of (clients st) h of
     None \<Rightarrow> Some () | Some a \<Rightarrow> map_option (\<lambda>ci. ()) (infos_at st a))"

definition OnMessage :: "ws_env \<Rightarrow> nat \<Rightarrow> bool \<Rightarrow> cstring \<Rightarrow> ws_state \<Rightarrow> ws_result defined" where
  "OnMessage env h is_text payload st = do {
     touch_client h st;
     if \<not> is_text then Some (close_handle h ''Binary messages not supported'' st, False)
     else (case parse_json env payload of
       None \<Rightarrow> Some (SendToClient env h PARSE_FAILED st)
     | Some request \<Rightarrow> (let loopback = IsLoopbackAddress (GetRemoteIP env h) in
         if is_shutdown request then Some (answer_shutdown env h loopback request st)
         else handle_request env h loopback request st)) }"

text \<open>\<open>RunThread\<close>: an exception that leaves a handler ends the thread.\<close>

definition on_thread :: "ws_result \<Rightarrow> ws_state" where
  "on_thread r = (let (st, threw) = r in if threw then st\<lparr>io_running := False\<rparr> else st)"

section \<open>Starting and stopping\<close>

definition StartServer :: "ws_env \<Rightarrow> ws_state \<Rightarrow> ws_state" where
  "StartServer env st =
     (if server_online st then st
      else if \<not> enabled st then st\<lparr>last_error := str8 ''server is not enabled''\<rparr>
      else if asio_initialised st then st\<lparr>last_error := init_error env, server_online := False\<rparr>
      else (case listen_error env of
        Some e \<Rightarrow> st\<lparr>asio_initialised := True, last_error := e, server_online := False\<rparr>
      | None \<Rightarrow> st\<lparr>asio_initialised := True, last_error := [], server_online := True, io_running := True\<rparr>))"

text \<open>
  \<open>StopServer\<close> closes the connections and waits; the handlers of the closed connections run meanwhile. Then the thread
  ends and the infos of the clients that are left are deleted.
\<close>

definition CloseAllConnections :: "ws_state \<Rightarrow> ws_state" where
  "CloseAllConnections st = fold (\<lambda>(h, a). close_handle h ''Server shutting down'') (clients st) st"

definition StopServer_begins :: "ws_state \<Rightarrow> ws_state" where
  "StopServer_begins st = (if server_online st then CloseAllConnections (st\<lparr>server_online := False, stopping := True\<rparr>) else st)"

definition delete_clients :: "(nat \<times> nat) list \<Rightarrow> (nat \<Rightarrow> WebSocketClientInfo option) \<Rightarrow> (nat \<Rightarrow> WebSocketClientInfo option) defined" where
  "delete_clients cs m = fold_def (\<lambda>(h, a) m. if m a = None then None else Some (m(a := None))) cs m"

definition StopServer_ends :: "ws_state \<Rightarrow> ws_state defined" where
  "StopServer_ends st = do {
     m \<leftarrow> delete_clients (clients st) (infos_at st);
     Some (NotifyClientInfoCallbacks (st\<lparr>io_running := False, stopping := False, infos_at := m, clients := []\<rparr>)) }"

section \<open>Client information\<close>

definition nth_client :: "ws_state \<Rightarrow> u32 \<Rightarrow> WebSocketClientInfo option defined" where
  "nth_client st i = (if unat i \<ge> length (clients st) then Some None
     else map_option Some (infos_at st (snd (clients st ! unat i))))"

definition GetClientIP_ws :: "ws_state \<Rightarrow> u32 \<Rightarrow> cstring defined" where
  "GetClientIP_ws st i = map_option (\<lambda>c. case c of None \<Rightarrow> [] | Some ci \<Rightarrow> client_ip ci) (nth_client st i)"

definition GetClientString_ws :: "ws_state \<Rightarrow> u32 \<Rightarrow> cstring defined" where
  "GetClientString_ws st i = map_option (\<lambda>c. case c of None \<Rightarrow> []
     | Some ci \<Rightarrow> client_ip ci @ str8 '':'' @ decimal (unat (client_port ci))) (nth_client st i)"

definition GetNumClients_ws :: "ws_state \<Rightarrow> nat" where
  "GetNumClients_ws st = length (clients st)"

section \<open>Runs\<close>

text \<open>
  What happens to the server: \<open>websocketpp\<close> opens a connection (\<open>a\<close> is the address of the next client info), a
  connection breaks, its handlers run; other threads end a scan, send notifications, start and stop the server.
\<close>

datatype ws_event = Opened nat nat | Lost nat | Closed nat | Failed nat | Message nat bool cstring
  | Scan_ends bool "controller list" | Scan_complete u32 | Start | Stop_begins | Stop_ends

definition ws_step :: "ws_env \<Rightarrow> ws_event \<Rightarrow> ws_state \<Rightarrow> ws_state defined" where
  "ws_step env ev st = (case ev of
     Opened h a \<Rightarrow> if io_running st \<and> h \<notin> set (open_handles st) \<and> h \<notin> fst ` set (clients st) \<and> infos_at st a = None
       then Some (on_thread (OnOpen env a h (st\<lparr>open_handles := h # open_handles st\<rparr>))) else Some st
   | Lost h \<Rightarrow> Some (st\<lparr>open_handles := removeAll h (open_handles st)\<rparr>)
   | Closed h \<Rightarrow> if io_running st then map_option on_thread (OnClose env h (st\<lparr>open_handles := removeAll h (open_handles st)\<rparr>)) else Some st
   | Failed h \<Rightarrow> if io_running st then map_option on_thread (OnFail h (st\<lparr>open_handles := removeAll h (open_handles st)\<rparr>)) else Some st
   | Message h is_text payload \<Rightarrow> if io_running st \<and> h \<in> set (open_handles st)
       then map_option on_thread (OnMessage env h is_text payload st) else Some st
   | Scan_ends throws ds \<Rightarrow> Some (if rescan (handler st) = Scanning then st\<lparr>handler := rescan_ends throws ds (handler st)\<rparr> else st)
   | Scan_complete n \<Rightarrow> map_option fst (ScanComplete env n st)
   | Start \<Rightarrow> Some (StartServer env st)
   | Stop_begins \<Rightarrow> Some (StopServer_begins st)
   | Stop_ends \<Rightarrow> if stopping st then StopServer_ends st else Some st)"

end
