(* ===== verification/Rpc_Frame.thy ===== *)
theory Rpc_Frame
  imports Rpc_Methods
begin

text \<open>
  What a method may change. \<open>step_relation\<close> is the interface: a relation between states that every single step of
  a method obeys. The lemmas follow the combinators, and then the methods; each interpretation gives
  a fact about all requests.
\<close>

section \<open>The interface\<close>

definition obeys :: "(rpc_state \<Rightarrow> rpc_state \<Rightarrow> bool) \<Rightarrow> rpc \<Rightarrow> bool" where
  "obeys R f \<longleftrightarrow> (\<forall>st st' r. f st = Some (st', r) \<longrightarrow> R st st')"

text \<open>
  \<open>may i\<close> tells which devices may change. What concerns the whole state (a rescan, the storage of profiles, loading one,
  a shutdown) is a law of its own, which an interpretation need not have.
\<close>

locale step_relation =
  fixes R :: "rpc_state \<Rightarrow> rpc_state \<Rightarrow> bool" and may :: "nat \<Rightarrow> bool"
  assumes refl: "R st st"
    and trans: "R s t \<Longrightarrow> R t u \<Longrightarrow> R s u"
    and device: "may i \<Longrightarrow> R st (st\<lparr>devices := (devices st)[i := d]\<rparr>)"
    and effects: "R st (st\<lparr>rpc_effects := es\<rparr>)"
begin

lemma obeysD: "obeys R f \<Longrightarrow> f st = Some (st', r) \<Longrightarrow> R st st'"
  by (simp add: obeys_def)

lemma obeys_reply: "obeys R (reply j)" "obeys R (fails c m)" "obeys R success"
  by (simp_all add: obeys_def reply_def fails_def success_def refl)

lemma obeys_parsed: "(\<And>v. x = Inr v \<Longrightarrow> obeys R (k v)) \<Longrightarrow> obeys R (parsed x k)"
  by (auto simp: obeys_def parsed_def refl split: sum.splits)

lemma obeys_require: "obeys R k \<Longrightarrow> obeys R (require ks m params k)"
  by (simp add: require_def obeys_reply)

lemma obeys_if: "obeys R a \<Longrightarrow> obeys R b \<Longrightarrow> obeys R (if c then a else b)"
  by simp

lemma obeys_on_device:
  "(\<And>dev d. get_u32 (cvt env) (field ''deviceIndex'' params) = Inr dev \<Longrightarrow> obeys R (k (unat dev) d)) \<Longrightarrow>
   obeys R (on_device env params k)"
  unfolding on_device_def
  by (rule obeys_parsed) (auto simp: obeys_def fails_def reply_def refl)

lemma obeys_change: "may i \<Longrightarrow> obeys R k \<Longrightarrow> obeys R (change i f k)"
  by (auto simp: obeys_def change_def nth_def_eq_Some_iff split: Option.bind_splits) (rule trans [OF device], blast+)

lemma obeys_call: "may i \<Longrightarrow> obeys R k \<Longrightarrow> obeys R (call_dev env i dc k)"
  unfolding call_dev_def
  by (rule obeys_change) (auto simp: obeys_def, rule trans [OF effects], blast)

lemma obeys_zone: "obeys R k \<Longrightarrow> obeys R (zone_in_range z d k)"
  "obeys R k \<Longrightarrow> obeys R (mode_in_range m d k)"
  by (simp_all add: zone_in_range_def mode_in_range_def obeys_reply)

lemma obeys_computed: "(\<And>v. obeys R (k v)) \<Longrightarrow> obeys R (computed x k)"
proof -
  assume k: "\<And>v. obeys R (k v)"
  have "obeys R (parsed r k)" for r by (rule obeys_parsed) (rule k)
  then show ?thesis by (auto simp: obeys_def computed_def split: Option.bind_splits)
qed

lemma obeys_defined: "(\<And>v. x st = Some v \<Longrightarrow> k v st = Some (st', r) \<Longrightarrow> R st st') \<Longrightarrow>
    Option.bind (x st) (\<lambda>v. k v st) = Some (st', r) \<Longrightarrow> R st st'"
  by (auto split: Option.bind_splits)

lemmas obeys_steps = obeys_reply obeys_parsed obeys_require obeys_if obeys_on_device obeys_change
  obeys_call obeys_zone obeys_computed

lemma obeys_force: "(\<And>b. obeys R (k b)) \<Longrightarrow> obeys R (with_force params k)"
  unfolding with_force_def by (intro obeys_steps)

lemma obeys_resized:
  assumes "may i" "obeys R k"
  shows "obeys R (resized env i zi n k)"
  unfolding resized_def
  by (rule obeys_call [OF assms(1)])
    (use assms(2) in \<open>auto simp: obeys_def fails_def reply_def refl split: Option.bind_splits if_splits\<close>)

lemma obeys_resize_zones: "may i \<Longrightarrow> obeys R k \<Longrightarrow> obeys R (resize_zones env i zi colss k)"
proof (induction colss arbitrary: zi)
  case (Cons cols colss)
  then have "obeys R (resized env i zi (length cols) (resize_zones env i (Suc zi) colss k))"
      "obeys R (resize_zones env i (Suc zi) colss k)"
    by (simp_all add: obeys_resized)
  then show ?case by (auto simp: obeys_def split: Option.bind_splits if_splits)
qed simp

lemma obeys_set_each: "may i \<Longrightarrow> obeys R k \<Longrightarrow> obeys R (set_each env i js k)"
proof (induction js)
  case (Cons j js)
  then have IH: "obeys R (set_each env i js k)" by simp
  have "obeys R (parsed (ParseColor (cvt env) (junk_color env) (field ''color'' j)) (\<lambda>col.
      change i (\<lambda>d. Some (SetLED d led col)) (set_each env i js k)))" for led
    by (intro obeys_steps IH Cons.prems)
  then have "obeys R (\<lambda>st. if unat led < length (leds (devices st ! i))
        then parsed (ParseColor (cvt env) (junk_color env) (field ''color'' j)) (\<lambda>col.
          change i (\<lambda>d. Some (SetLED d led col)) (set_each env i js k)) st
        else set_each env i js k st)" for led
    using IH by (simp add: obeys_def)
  then have "obeys R (parsed (get_u32 (cvt env) (field ''ledIndex'' j)) (\<lambda>led st.
        if unat led < length (leds (devices st ! i))
        then parsed (ParseColor (cvt env) (junk_color env) (field ''color'' j)) (\<lambda>col.
          change i (\<lambda>d. Some (SetLED d led col)) (set_each env i js k)) st
        else set_each env i js k st))"
    by (rule obeys_parsed)
  with IH show ?case by simp
qed simp

lemma obeys_modes:
  "may i \<Longrightarrow> obeys R k \<Longrightarrow> obeys R (set_mode env i m k)"
  "may i \<Longrightarrow> obeys R k \<Longrightarrow> obeys R (change_mode i n f k)"
  "(\<And>v. obeys R (g v k)) \<Longrightarrow> obeys R k \<Longrightarrow> obeys R (optional_field key j g k)"
  by (auto simp: set_mode_def change_mode_def optional_field_def intro!: obeys_steps)

lemma obeys_push: "may i \<Longrightarrow> obeys R k \<Longrightarrow> obeys R (push_colors env i m js k)"
  by (induction js) (auto intro!: obeys_steps obeys_modes)

lemma obeys_cases:
  "obeys R a \<Longrightarrow> (\<And>v. obeys R (k v)) \<Longrightarrow> obeys R (case x of None \<Rightarrow> a | Some v \<Rightarrow> k v)"
  "(\<And>e. obeys R (f e)) \<Longrightarrow> (\<And>v. obeys R (g v)) \<Longrightarrow> obeys R (case y of Inl e \<Rightarrow> f e | Inr v \<Rightarrow> g v)"
  "obeys R (h w) \<Longrightarrow> obeys R (let z = w in h z)"
  by (simp_all split: option.split sum.split)

lemma obeys_array:
  "obeys R a \<Longrightarrow> (\<And>js. obeys R (g js)) \<Longrightarrow> obeys R (case j of JArray js \<Rightarrow> g js | _ \<Rightarrow> a)"
  "obeys R a \<Longrightarrow> (\<And>j js. obeys R (f j js)) \<Longrightarrow> obeys R (case j of JArray (j # js) \<Rightarrow> f j js | _ \<Rightarrow> a)"
  by (simp_all split: json.split list.split)

lemmas obeys_intros = obeys_steps obeys_force obeys_resized obeys_resize_zones obeys_set_each obeys_modes obeys_push
  obeys_cases obeys_array

lemma color_methods:
  assumes "\<And>dev. get_u32 (cvt env) (field ''deviceIndex'' params) = Inr dev \<Longrightarrow> may (unat dev)"
  shows "obeys R (SetLEDColor env params)" "obeys R (SetZoneColor env params)" "obeys R (SetZoneMultipleLed env params)" "obeys R (SetMultipleZoneMultipleLed env params)" "obeys R (SetAllColors env params)" "obeys R (SetMultipleColors env params)" "obeys R (SetKeyColor env params)"
proof -
  show "obeys R (SetLEDColor env params)"
    unfolding SetLEDColor_def by (intro obeys_intros assms; assumption?)
  show "obeys R (SetZoneColor env params)"
    unfolding SetZoneColor_def by (intro obeys_intros assms; assumption?)
  show "obeys R (SetZoneMultipleLed env params)"
    unfolding SetZoneMultipleLed_def by (intro obeys_intros assms; assumption?)
  show "obeys R (SetMultipleZoneMultipleLed env params)"
    unfolding SetMultipleZoneMultipleLed_def by (intro obeys_intros assms; assumption?)
  show "obeys R (SetAllColors env params)"
    unfolding SetAllColors_def by (intro obeys_intros assms; assumption?)
  show "obeys R (SetMultipleColors env params)"
    unfolding SetMultipleColors_def by (intro obeys_intros assms; assumption?)
  show "obeys R (SetKeyColor env params)"
    unfolding SetKeyColor_def by (intro obeys_intros assms; assumption?)
qed

lemma mode_zone_methods:
  assumes "\<And>dev. get_u32 (cvt env) (field ''deviceIndex'' params) = Inr dev \<Longrightarrow> may (unat dev)"
  shows "obeys R (SetMode_method env params)" "obeys R (SetCustomMode_method env params)" "obeys R (UpdateMode_method env params)" "obeys R (ResizeZone env params)" "obeys R (ClearSegments_method env params)" "obeys R (AddSegment_method env params)"
proof -
  show "obeys R (SetMode_method env params)"
    unfolding SetMode_method_def by (intro obeys_intros assms; assumption?)
  show "obeys R (SetCustomMode_method env params)"
    unfolding SetCustomMode_method_def by (intro obeys_intros assms; assumption?)
  show "obeys R (UpdateMode_method env params)"
    unfolding UpdateMode_method_def by (intro obeys_intros assms; assumption?)
  show "obeys R (ResizeZone env params)"
    unfolding ResizeZone_def by (intro obeys_intros assms; assumption?)
  show "obeys R (ClearSegments_method env params)"
    unfolding ClearSegments_method_def by (intro obeys_intros assms; assumption?)
  show "obeys R (AddSegment_method env params)"
    unfolding AddSegment_method_def by (intro obeys_intros assms; assumption?)
qed

text \<open>Methods that only look at the state.\<close>

lemma obeys_reads: "(\<And>s. obeys R (k s)) \<Longrightarrow> obeys R (\<lambda>st. k st st)"
  by (auto simp: obeys_def)

lemma obeys_bind: "(\<And>v. obeys R (k v)) \<Longrightarrow> obeys R (\<lambda>st. Option.bind x (\<lambda>v. k v st))"
  by (auto simp: obeys_def split: Option.bind_splits)

lemma query_methods:
  "obeys R (GetControllers env)" "obeys R GetControllerCount" "obeys R (GetControllerData env params)"
  "obeys R (GetControllerInfo env params)" "obeys R (GetZones env params)" "obeys R GetProfiles"
  "obeys R GetProtocolVersion_method" "obeys R (GetServerInfo env)" "obeys R GetClients" "obeys R GetPlugins"
  "obeys R (CallPlugin params)"
proof -
  show "obeys R (GetControllers env)"
    unfolding GetControllers_def [abs_def] by (rule obeys_reads) (intro obeys_intros)
  show "obeys R GetControllerCount" "obeys R GetProfiles"
    unfolding GetControllerCount_def [abs_def] GetProfiles_def [abs_def] by (rule obeys_reads, rule obeys_reply)+
  show "obeys R (GetControllerData env params)" "obeys R (GetControllerInfo env params)"
    unfolding GetControllerData_def GetControllerInfo_def by (intro obeys_intros)+
  show "obeys R (GetZones env params)"
    unfolding GetZones_def by (intro obeys_intros obeys_bind)
  show "obeys R GetProtocolVersion_method" "obeys R (GetServerInfo env)" "obeys R GetClients" "obeys R GetPlugins"
    unfolding GetProtocolVersion_method_def GetServerInfo_def GetClients_def GetPlugins_def by (rule obeys_reply)+
  show "obeys R (CallPlugin params)"
    unfolding CallPlugin_def by (intro obeys_intros)
qed

text \<open>The methods that change more than a device.\<close>

lemma obeys_rescan:
  assumes "\<And>st. R st (st\<lparr>rescan_in_progress := True, rescan := Scanning\<rparr>)"
  shows "obeys R RescanDevices"
  using assms by (auto simp: obeys_def RescanDevices_def reply_def refl)

lemma obeys_shutdown:
  assumes "lb \<Longrightarrow> (\<And>st. R st (st\<lparr>shutdown_requested := True\<rparr>))"
  shows "obeys R (ShutdownServer lb)"
  using assms by (auto simp: obeys_def ShutdownServer_def fails_def reply_def refl)

lemma obeys_listed: "(\<And>nm. obeys R (k nm)) \<Longrightarrow> obeys R (listed_profile params k)"
  unfolding listed_profile_def
  by (intro obeys_steps) (auto simp: obeys_def fails_def reply_def refl split: if_splits)

lemma obeys_profiles:
  assumes "\<And>st fs. R st (st\<lparr>storage_of := fs\<rparr>)"
  shows "obeys R (SaveProfile_method env params)" "obeys R (DeleteProfile_method env params)"
proof -
  have "R st (st\<lparr>storage_of := fs, rpc_effects := es\<rparr>)" for st fs es
    using trans [OF assms [of st fs] effects [of _ es]] by simp
  with assms show "obeys R (SaveProfile_method env params)"
    unfolding SaveProfile_method_def
    by (intro obeys_steps) (auto simp: obeys_def fails_def reply_def success_def notify_def announce_def refl split: if_splits Option.bind_splits)
  show "obeys R (DeleteProfile_method env params)"
    unfolding DeleteProfile_method_def using assms by (intro obeys_listed) (auto simp: obeys_def success_def reply_def)
qed

lemma obeys_load:
  assumes "\<And>st ds. R st (st\<lparr>devices := ds\<rparr>)"
  shows "obeys R (LoadProfile_method env params)"
proof -
  have "R st (st\<lparr>devices := ds, rpc_effects := es\<rparr>)" for st ds es
    using trans [OF assms [of st ds] effects [of _ es]] by simp
  with assms show ?thesis
    unfolding LoadProfile_method_def
    by (intro obeys_listed) (auto simp: obeys_def reply_def success_def notify_def announce_def split: Option.bind_splits)
qed

end

end
