(* ===== verification/Rpc_Runs.thy ===== *)
theory Rpc_Runs
  imports Rpc_Frame
begin

text \<open>
  Requests as a whole: what a request may change, by the interpretations of \<open>step_relation\<close>, and runs of the
  handler, in which requests, batches, the end of a rescan and the look for a shutdown follow each other.
\<close>

section \<open>From methods to requests\<close>

text \<open>The methods that change more than a device, and the rest.\<close>

definition special_methods :: "rpc_env \<Rightarrow> bool \<Rightarrow> json \<Rightarrow> (string \<times> rpc) list" where
  "special_methods env lb params = [(''device.rescan'', RescanDevices), (''profile.saveProfile'', SaveProfile_method env params),
     (''profile.loadProfile'', LoadProfile_method env params), (''profile.deleteProfile'', DeleteProfile_method env params),
     (''server.shutdown'', ShutdownServer lb)]"

definition params_of :: "json \<Rightarrow> json" where
  "params_of request = (if contains ''params'' request then field ''params'' request else JObject [])"

lemma value_params: "value_or Inr ''params'' (JObject []) request = Inr params \<Longrightarrow> params = params_of request"
  by (auto simp: value_or_def params_of_def contains_def field_def type_error_def split: json.splits option.splits)

lemma get_string_Inr: "get_string j = Inr s \<longleftrightarrow> j = JString s"
  by (auto simp: get_string_def type_error_def split: json.splits)

context step_relation
begin

lemma methods_obey:
  assumes "x \<in> set (methods env lb params)"
    and "\<And>dev. get_u32 (cvt env) (field ''deviceIndex'' params) = Inr dev \<Longrightarrow> may (unat dev)"
  shows "x \<in> set (special_methods env lb params) \<or> obeys R (snd x)"
proof -
  note ok = color_methods [OF assms(2)] mode_zone_methods [OF assms(2)] query_methods
  have "\<forall>x \<in> set (methods env lb params). x \<in> set (special_methods env lb params) \<or> obeys R (snd x)"
    unfolding methods_def special_methods_def list.set ball_simps snd_conv
    by (intro conjI; (rule disjI2, rule ok)?) (simp_all only: insert_iff simp_thms)
  then show ?thesis using assms(1) by blast
qed

lemma CallMethod_obeys:
  assumes "\<And>dev. get_u32 (cvt env) (field ''deviceIndex'' params) = Inr dev \<Longrightarrow> may (unat dev)"
    and "\<And>n f. (n, f) \<in> set (special_methods env lb params) \<Longrightarrow> str8 n = meth \<Longrightarrow> obeys R f"
  shows "obeys R (CallMethod env meth params lb)"
proof (cases "map_of (map (\<lambda>(n, f). (str8 n, f)) (methods env lb params)) meth")
  case None
  then show ?thesis by (simp add: CallMethod_def obeys_reply)
next
  case (Some f)
  then obtain n where n: "(n, f) \<in> set (methods env lb params)" "str8 n = meth"
    using map_of_SomeD by force
  have "obeys R f" using methods_obey [OF n(1) assms(1)] assms(2) n(2) by fastforce
  then show ?thesis using Some by (simp add: CallMethod_def)
qed

lemma HandleRequest_obeys:
  assumes "HandleRequest env request lb st = Some (st', j)"
    and "\<And>dev. get_u32 (cvt env) (field ''deviceIndex'' (params_of request)) = Inr dev \<Longrightarrow> may (unat dev)"
    and "\<And>n f. (n, f) \<in> set (special_methods env lb (params_of request)) \<Longrightarrow> field ''method'' request = jstr n \<Longrightarrow> obeys R f"
  shows "R st st'"
proof -
  have "obeys R (\<lambda>st. map_option (\<lambda>(st, r). (st, case r of Inl w \<Rightarrow> Inl w | Inr j \<Rightarrow> Inr (answer i j)))
      (CallMethod env meth params lb st))"
    if m: "get_string (field ''method'' request) = Inr meth" and p: "value_or Inr ''params'' (JObject []) request = Inr params"
    for meth params i
  proof -
    have "obeys R (CallMethod env meth params lb)"
      using assms(2,3) m unfolding value_params [OF p]
      by (intro CallMethod_obeys) (auto simp: get_string_Inr jstr_def)
    then show ?thesis by (auto simp: obeys_def)
  qed
  then have "obeys R (if \<not> contains ''jsonrpc'' request \<or> field ''jsonrpc'' request \<noteq> jstr ''2.0''
      then fails INVALID_REQUEST ''Missing or invalid 'jsonrpc' field''
      else if \<not> contains ''method'' request then fails INVALID_REQUEST ''Missing 'method' field''
      else parsed (get_string (field ''method'' request)) (\<lambda>meth.
           parsed (value_or Inr ''params'' (JObject []) request) (\<lambda>params.
           parsed (value_or (get_int (cvt env)) ''id'' 0 request) (\<lambda>i st.
             map_option (\<lambda>(st, r). (st, case r of Inl w \<Rightarrow> Inl w | Inr j \<Rightarrow> Inr (answer i j)))
               (CallMethod env meth params lb st)))))"
    by (intro obeys_steps)
  then show ?thesis using assms(1) by (auto simp: HandleRequest_def caught_def obeys_def)
qed

lemma handle_all_obeys:
  "handle_all env lb rs st = Some (st', js) \<Longrightarrow>
   (\<And>r s s' j. r \<in> set rs \<Longrightarrow> HandleRequest env r lb s = Some (s', j) \<Longrightarrow> R s s') \<Longrightarrow> R st st'"
proof (induction rs arbitrary: st js)
  case Nil
  then show ?case by (simp add: refl)
next
  case (Cons r rs)
  then obtain s j js' where "HandleRequest env r lb st = Some (s, j)" "handle_all env lb rs s = Some (st', js')"
    by (auto split: Option.bind_splits)
  with Cons show ?case by (meson list.set_intros trans)
qed

lemma HandleBatchRequest_obeys:
  "HandleBatchRequest env rs lb st = Some (st', j) \<Longrightarrow>
   (\<And>r s s' j. HandleRequest env r lb s = Some (s', j) \<Longrightarrow> R s s') \<Longrightarrow> R st st'"
  by (auto simp: HandleBatchRequest_def refl split: json.splits dest: handle_all_obeys)

end

section \<open>Interpretations\<close>

text \<open>Only the devices of a set change, and none comes or goes.\<close>

definition only_devices :: "nat set \<Rightarrow> rpc_state \<Rightarrow> rpc_state \<Rightarrow> bool" where
  "only_devices A st st' \<longleftrightarrow> length (devices st') = length (devices st) \<and>
     (\<forall>k. k < length (devices st) \<longrightarrow> k \<notin> A \<longrightarrow> devices st' ! k = devices st ! k)"

interpretation confined: step_relation "only_devices A" "\<lambda>i. i \<in> A" for A
  by unfold_locales (auto simp: only_devices_def, metis nth_list_update_neq)

text \<open>What the handler itself remembers.\<close>

definition same_shutdown :: "rpc_state \<Rightarrow> rpc_state \<Rightarrow> bool" where
  "same_shutdown st st' \<longleftrightarrow> shutdown_requested st' = shutdown_requested st"

interpretation shutdown: step_relation same_shutdown "\<lambda>i. True"
  by unfold_locales (auto simp: same_shutdown_def)

definition same_lists :: "rpc_state \<Rightarrow> rpc_state \<Rightarrow> bool" where
  "same_lists st st' \<longleftrightarrow> interface_profile_list st' = interface_profile_list st \<and> manager_set st' = manager_set st"

interpretation lists: step_relation same_lists "\<lambda>i. True"
  by unfold_locales (auto simp: same_lists_def)

definition same_storage :: "rpc_state \<Rightarrow> rpc_state \<Rightarrow> bool" where
  "same_storage st st' \<longleftrightarrow> storage_of st' = storage_of st"

interpretation files: step_relation same_storage "\<lambda>i. True"
  by unfold_locales (auto simp: same_storage_def)

text \<open>A scan in the background is remembered.\<close>

definition scan_noted :: "rpc_state \<Rightarrow> bool" where
  "scan_noted st \<longleftrightarrow> (rescan st = Scanning \<longrightarrow> rescan_in_progress st)"

definition keeps_scan :: "rpc_state \<Rightarrow> rpc_state \<Rightarrow> bool" where
  "keeps_scan st st' \<longleftrightarrow> (scan_noted st \<longrightarrow> scan_noted st')"

interpretation scan: step_relation keeps_scan "\<lambda>i. True"
  by unfold_locales (auto simp: keeps_scan_def scan_noted_def)

section \<open>Runs\<close>

text \<open>
  What happens to the handler: a request or a batch from a client that is on this computer or not, the end of the scan in
  the background, and \<open>TakeShutdownRequested\<close>.
\<close>

datatype rpc_event = Request json bool | Batch json bool | Rescan_ends bool "controller list" | Take_shutdown

definition rpc_step :: "rpc_env \<Rightarrow> rpc_event \<Rightarrow> rpc_state \<Rightarrow> rpc_state defined" where
  "rpc_step env ev st = (case ev of
     Request r lb \<Rightarrow> map_option fst (HandleRequest env r lb st)
   | Batch rs lb \<Rightarrow> map_option fst (HandleBatchRequest env rs lb st)
   | Rescan_ends throws ds \<Rightarrow> Some (if rescan st = Scanning then rescan_ends throws ds st else st)
   | Take_shutdown \<Rightarrow> Some (snd (TakeShutdownRequested st)))"

definition new_handler :: "controller list \<Rightarrow> storage \<Rightarrow> bool \<Rightarrow> bool \<Rightarrow> rpc_state" where
  "new_handler ds fs manager ws = \<lparr>devices = ds, storage_of = fs, manager_set = manager, websocket_set = ws, interface_profile_list = [],
     shutdown_requested = False, rescan_in_progress = False, rescan = Not_valid, rpc_effects = []\<rparr>"

text \<open>What every event keeps, a run keeps.\<close>

lemma run_invariant:
  "fold_def f evs st = Some st' \<Longrightarrow> P st \<Longrightarrow>
   (\<And>ev s s'. ev \<in> set evs \<Longrightarrow> f ev s = Some s' \<Longrightarrow> P s \<Longrightarrow> P s') \<Longrightarrow> P st'"
proof (induction evs arbitrary: st)
  case (Cons ev evs)
  then obtain s where "f ev st = Some s" "fold_def f evs s = Some st'"
    by (auto split: Option.bind_splits)
  with Cons show ?case by (meson list.set_intros)
qed simp

context step_relation
begin

lemma run_obeys:
  assumes "fold_def (rpc_step env) evs st = Some st'"
    and "\<And>r lb s s' j. HandleRequest env r lb s = Some (s', j) \<Longrightarrow> R s s'"
    and "\<And>throws ds s. R s (rescan_ends throws ds s)" "\<And>s. R s (s\<lparr>shutdown_requested := False\<rparr>)"
  shows "R st st'"
proof (rule run_invariant [OF assms(1), where P = "R st"])
  fix ev s s'
  assume step: "rpc_step env ev s = Some s'" and s: "R st s"
  have "R s s'"
  proof (cases ev)
    case (Batch rs lb)
    then obtain j where "HandleBatchRequest env rs lb s = Some (s', j)" using step by (auto simp: rpc_step_def)
    then show ?thesis by (rule HandleBatchRequest_obeys) (rule assms(2))
  qed (use step in \<open>auto simp: rpc_step_def TakeShutdownRequested_def refl intro: assms(2-) split: if_splits\<close>)
  with s show "R st s'" by (rule trans)
qed (rule refl)

end

lemma request_keeps_shutdown:
  assumes "HandleRequest env r lb st = Some (st', j)" "field ''method'' r = jstr ''server.shutdown'' \<Longrightarrow> \<not> lb"
  shows "same_shutdown st st'"
proof (rule shutdown.HandleRequest_obeys [OF assms(1)])
  fix n f
  assume "(n, f) \<in> set (special_methods env lb (params_of r))" "field ''method'' r = jstr n"
  then show "obeys same_shutdown f" using assms(2)
    by (auto simp: special_methods_def same_shutdown_def intro!: shutdown.obeys_rescan shutdown.obeys_shutdown
      shutdown.obeys_load shutdown.obeys_profiles)
qed simp

lemma request_keeps_lists:
  assumes "HandleRequest env r lb st = Some (st', j)"
  shows "same_lists st st'"
  by (rule lists.HandleRequest_obeys [OF assms])
    (auto simp: special_methods_def same_lists_def intro!: lists.obeys_rescan lists.obeys_shutdown
      lists.obeys_load lists.obeys_profiles)

lemma request_keeps_scan:
  assumes "HandleRequest env r lb st = Some (st', j)"
  shows "keeps_scan st st'"
  by (rule scan.HandleRequest_obeys [OF assms])
    (auto simp: special_methods_def keeps_scan_def scan_noted_def intro!: scan.obeys_rescan scan.obeys_shutdown
      scan.obeys_load scan.obeys_profiles)

lemma request_keeps_files:
  assumes "HandleRequest env r lb st = Some (st', j)"
    and "field ''method'' r \<noteq> jstr ''profile.saveProfile''" "field ''method'' r \<noteq> jstr ''profile.deleteProfile''"
  shows "same_storage st st'"
  by (rule files.HandleRequest_obeys [OF assms(1)])
    (use assms(2,3) in \<open>auto simp: special_methods_def same_storage_def intro!: files.obeys_rescan files.obeys_shutdown files.obeys_load\<close>)

lemma request_confined:
  assumes "HandleRequest env r lb st = Some (st', j)" "field ''method'' r \<noteq> jstr ''profile.loadProfile''"
  shows "only_devices {k. \<exists>dev. get_u32 (cvt env) (field ''deviceIndex'' (params_of r)) = Inr dev \<and> k = unat dev} st st'"
  by (rule confined.HandleRequest_obeys [OF assms(1)])
    (use assms(2) in \<open>auto simp: special_methods_def only_devices_def intro!: confined.obeys_rescan confined.obeys_shutdown
      confined.obeys_profiles\<close>)

end
