(* ===== verification/Rpc_Props.thy ===== *)
theory Rpc_Props
  imports Rpc_Runs Rgb_Layout
begin

text \<open>
  Properties of the JSON-RPC handler: what a request can change, who can shut the server down, the profiles, the shape of
  the answers, and the colors.
\<close>

section \<open>Reading requests\<close>

lemma byte_of_char_inject [simp]: "(of_char a :: byte) = of_char b \<longleftrightarrow> a = b"
proof
  have small: "(of_char c :: nat) < 2 ^ 8" for c using nat_of_char_less_256 [of c] by simp
  assume "(of_char a :: byte) = of_char b"
  then have "unat (of_nat (of_char a) :: byte) = unat (of_nat (of_char b) :: byte)" by (simp only: of_nat_of_char)
  then have "(of_char a :: nat) = of_char b" using small by (simp add: unat_of_nat take_bit_nat_eq_self)
  then show "a = b" by simp
qed simp

lemma str8_inject [simp]: "str8 a = str8 b \<longleftrightarrow> a = b"
  by (simp add: str8_def inj_map_eq_map inj_def)

lemma map_of_str8: "map_of (map (\<lambda>(k, v). (str8 k, v)) fs) (str8 k) = map_of fs k"
  by (induction fs) auto

lemma contains_jobject [simp]: "contains k (jobject fs) \<longleftrightarrow> map_of fs k \<noteq> None"
  by (simp add: contains_def jobject_def map_of_str8)

lemma field_jobject [simp]: "field k (jobject fs) = (case map_of fs k of Some v \<Rightarrow> v | None \<Rightarrow> JNull)"
  by (simp add: field_def jobject_def map_of_str8)

lemma value_or_jobject [simp]: "value_or get k d (jobject fs) = (case map_of fs k of Some v \<Rightarrow> get v | None \<Rightarrow> Inr d)"
  by (simp add: value_or_def jobject_def map_of_str8)

lemma jstr_inject [simp]: "jstr a = jstr b \<longleftrightarrow> a = b"
  by (simp add: jstr_def)

text \<open>A well-formed request.\<close>

definition rpc_request :: "string \<Rightarrow> (string \<times> json) list \<Rightarrow> u32 \<Rightarrow> json" where
  "rpc_request m fs i = jobject [(''jsonrpc'', jstr ''2.0''), (''method'', jstr m), (''params'', jobject fs), (''id'', int_json i)]"

lemma rpc_request_fields [simp]:
  "field ''method'' (rpc_request m fs i) = jstr m" "params_of (rpc_request m fs i) = jobject fs"
  by (simp_all add: rpc_request_def params_of_def)

lemma method_lookup:
  "map_of (methods env lb params) ''device.rescan'' = Some RescanDevices"
  "map_of (methods env lb params) ''device.setLEDColor'' = Some (SetLEDColor env params)"
  "map_of (methods env lb params) ''device.setZoneMultipleLed'' = Some (SetZoneMultipleLed env params)"
  "map_of (methods env lb params) ''device.setMultipleZoneMultipleLed'' = Some (SetMultipleZoneMultipleLed env params)"
  "map_of (methods env lb params) ''device.getControllerData'' = Some (GetControllerData env params)"
  "map_of (methods env lb params) ''server.shutdown'' = Some (ShutdownServer lb)"
  "map_of (methods env lb params) ''profile.getProfiles'' = Some GetProfiles"
  "map_of (methods env lb params) ''profile.saveProfile'' = Some (SaveProfile_method env params)"
  "map_of (methods env lb params) ''profile.loadProfile'' = Some (LoadProfile_method env params)"
  "map_of (methods env lb params) ''profile.deleteProfile'' = Some (DeleteProfile_method env params)"
  by (simp_all add: methods_def)

lemma HandleRequest_request:
  assumes "map_of (methods env lb (jobject fs)) m = Some f"
  shows "HandleRequest env (rpc_request m fs i) lb st = map_option (\<lambda>(st, r). (st, case r of
     Inl what \<Rightarrow> CreateError INTERNAL_ERROR (str8 ''Internal error: '' @ what) | Inr j \<Rightarrow> answer i j)) (f st)"
proof -
  have "CallMethod env (str8 m) (jobject fs) lb = f"
    using assms by (simp add: CallMethod_def map_of_str8)
  then show ?thesis
    by (simp add: HandleRequest_def rpc_request_def parsed_def caught_def get_string_def jstr_def get_int_def get_u32_def int_json_def
      option.map_comp comp_def case_prod_unfold sum.case_distrib [of "case_sum _ _"] cong: sum.case_cong)
qed

section \<open>What a request can change\<close>

text \<open>C12: Except for \<open>profile.loadProfile\<close>, a request changes at most the device whose index it gives, and never the number
  of devices; and it changes nothing on disk except when it saves or deletes a profile.
\<close>

theorem rpc_confined:
  assumes "HandleRequest env r lb st = Some (st', j)" "field ''method'' r \<noteq> jstr ''profile.loadProfile''"
  shows "length (devices st') = length (devices st) \<and>
    (\<forall>k < length (devices st). devices st' ! k \<noteq> devices st ! k \<longrightarrow>
      (\<exists>dev. get_u32 (cvt env) (field ''deviceIndex'' (params_of r)) = Inr dev \<and> k = unat dev)) \<and>
    (field ''method'' r \<noteq> jstr ''profile.saveProfile'' \<and> field ''method'' r \<noteq> jstr ''profile.deleteProfile'' \<longrightarrow>
      storage_of st' = storage_of st)"
  using request_confined [OF assms] request_keeps_files [OF assms(1)] by (auto simp: only_devices_def same_storage_def)

lemma batch_keeps_shutdown:
  assumes "HandleBatchRequest env rs lb st = Some (st', j)"
    and "\<And>xs r. rs = JArray xs \<Longrightarrow> r \<in> set xs \<Longrightarrow> field ''method'' r = jstr ''server.shutdown'' \<Longrightarrow> \<not> lb"
  shows "same_shutdown st st'"
proof (cases rs)
  case (JArray xs)
  then obtain js where "handle_all env lb xs st = Some (st', js)" using assms(1) by (auto simp: HandleBatchRequest_def)
  then show ?thesis
    by (rule shutdown.handle_all_obeys) (use assms(2) JArray request_keeps_shutdown in blast)
qed (use assms(1) in \<open>auto simp: HandleBatchRequest_def same_shutdown_def\<close>)

text \<open>In a run of the handler, a shutdown is only ever noted because a client on this computer sent
  \<open>server.shutdown\<close>, alone or in a batch.
\<close>

theorem shutdown_needs_loopback:
  assumes "fold_def (rpc_step env) evs st = Some st'" "\<not> shutdown_requested st" "shutdown_requested st'"
  shows "\<exists>r. field ''method'' r = jstr ''server.shutdown'' \<and>
    (Request r True \<in> set evs \<or> (\<exists>rs. r \<in> set rs \<and> Batch (JArray rs) True \<in> set evs))"
proof (rule ccontr)
  assume none: "\<not> ?thesis"
  have "\<not> shutdown_requested st'"
  proof (rule run_invariant [OF assms(1), where P = "\<lambda>s. \<not> shutdown_requested s"])
    fix ev s s'
    assume ev: "ev \<in> set evs" "rpc_step env ev s = Some s'" and s: "\<not> shutdown_requested s"
    show "\<not> shutdown_requested s'"
    proof (cases ev)
      case (Request r lb)
      then obtain j where "HandleRequest env r lb s = Some (s', j)" using ev(2) by (auto simp: rpc_step_def)
      then have "same_shutdown s s'" by (rule request_keeps_shutdown) (use none ev(1) Request in \<open>cases lb; auto\<close>)
      then show ?thesis using s by (simp add: same_shutdown_def)
    next
      case (Batch rs lb)
      then obtain j where "HandleBatchRequest env rs lb s = Some (s', j)" using ev(2) by (auto simp: rpc_step_def)
      then have "same_shutdown s s'" by (rule batch_keeps_shutdown) (use none ev(1) Batch in \<open>cases lb; auto\<close>)
      then show ?thesis using s by (simp add: same_shutdown_def)
    qed (use ev(2) s in \<open>auto simp: rpc_step_def rescan_ends_def TakeShutdownRequested_def split: if_splits\<close>)
  qed (rule assms(2))
  with assms(3) show False by simp
qed

section \<open>Profiles\<close>

lemma run_keeps_lists:
  assumes "fold_def (rpc_step env) evs st = Some st'"
  shows "same_lists st st'"
  by (rule lists.run_obeys [OF assms request_keeps_lists]) (simp_all add: same_lists_def rescan_ends_def)

text \<open>The handler looks for profiles in a list that nothing fills: however many profiles were saved over JSON-RPC, or
  were there before, they are not listed, and loading or deleting one by name fails and changes nothing.
\<close>

theorem profiles_unreachable:
  assumes "fold_def (rpc_step env) evs (new_handler ds fs True ws) = Some st"
  shows "HandleRequest env (rpc_request ''profile.getProfiles'' [] i) lb st
      = Some (st, CreateResult (jobject [(''profiles'', JArray [])]) i) \<and>
    (\<forall>m \<in> {''profile.loadProfile'', ''profile.deleteProfile''}.
      HandleRequest env (rpc_request m [(''profileName'', JString nm)] i) lb st
        = Some (st, answer i (CreateError ERR_PROFILE_NOT_FOUND (str8 ''Profile not found: '' @ nm))))"
proof -
  have "interface_profile_list st = []" "manager_set st"
    using run_keeps_lists [OF assms] by (simp_all add: same_lists_def new_handler_def)
  then show ?thesis
    by (simp add: HandleRequest_request method_lookup GetProfiles_def LoadProfile_method_def DeleteProfile_method_def
        listed_profile_def require_def parsed_def get_string_def reply_def answer_def)
qed

section \<open>Rescans\<close>

lemma run_notes_scan:
  assumes "fold_def (rpc_step env) evs (new_handler ds fs manager ws) = Some st"
  shows "scan_noted st"
proof -
  have "keeps_scan (new_handler ds fs manager ws) st"
    by (rule scan.run_obeys [OF assms request_keeps_scan]) (simp_all add: keeps_scan_def scan_noted_def rescan_ends_def)
  then show ?thesis by (simp add: keeps_scan_def scan_noted_def new_handler_def)
qed

text \<open>While a scan runs in the background, asking for another is refused and changes nothing; once it has ended, normally or
  by an exception, the next request starts one.
\<close>

theorem one_scan_at_a_time:
  assumes "fold_def (rpc_step env) evs (new_handler ds fs manager ws) = Some st" "rescan st = Scanning"
  shows "HandleRequest env (rpc_request ''device.rescan'' [] i) lb st
      = Some (st, CreateResult (jobject [(''success'', JBool False), (''message'', jstr ''Rescan already in progress'')]) i) \<and>
    (\<exists>st'. HandleRequest env (rpc_request ''device.rescan'' [] i) lb (rescan_ends throws ds' st)
      = Some (st', CreateResult (jobject [(''success'', JBool True), (''message'', jstr ''Rescan started'')]) i) \<and>
      rescan st' = Scanning \<and> devices st' = ds')"
  using run_notes_scan [OF assms(1)] assms(2) unfolding scan_noted_def
  by (simp add: HandleRequest_request method_lookup RescanDevices_def scan_noted_def reply_def answer_def rescan_ends_def)

end
