(* ===== verification/Ws_Props.thy ===== *)
theory Ws_Props
  imports Ws_Server Rpc_Props Prof_Props
begin

text \<open>
  Properties of the WebSocket server. \<open>ws_quiet\<close> is the interface of an invariant that sending, dropping dead clients, closing
  connections and the work of the JSON-RPC handler keep; the lemmas carry it through the operations.
\<close>

section \<open>Invariants\<close>

locale ws_quiet =
  fixes P :: "ws_state \<Rightarrow> bool"
  assumes send: "P st \<Longrightarrow> Ws_shutdown_scheduled \<notin> set es \<Longrightarrow> P (st\<lparr>ws_effects := ws_effects st @ es\<rparr>)"
    and drop: "P st \<Longrightarrow> P (st\<lparr>clients := filter Q (clients st)\<rparr>)"
    and close: "P st \<Longrightarrow> P (st\<lparr>open_handles := removeAll h (open_handles st)\<rparr>)"
    and handle: "P st \<Longrightarrow> \<not> shutdown_requested hs \<Longrightarrow> P (st\<lparr>handler := hs\<rparr>)"
    and idle: "P st \<Longrightarrow> \<not> shutdown_requested (handler st)"
begin

lemma quiet_effect: "P st \<Longrightarrow> e \<noteq> Ws_shutdown_scheduled \<Longrightarrow> P (ws_effect e st)"
  using send [of st "[e]"] by (simp add: ws_effect_def)

lemma quiet_send: "P st \<Longrightarrow> P (fst (SendToClient env h j st))"
  by (simp add: SendToClient_def quiet_effect split: option.split)

lemma quiet_close: "P st \<Longrightarrow> P (close_handle h r st)"
  using close by (simp add: close_handle_def quiet_effect)

lemma quiet_broadcast: "P st \<Longrightarrow> P (broadcast_message m st)"
proof -
  assume st: "P st"
  let ?live = "filter (\<lambda>(h, a). h \<in> set (open_handles st)) (clients st)"
  have "P ((st\<lparr>clients := ?live\<rparr>)\<lparr>ws_effects := ws_effects (st\<lparr>clients := ?live\<rparr>) @ map (\<lambda>(h, a). Ws_sent h m) ?live\<rparr>)"
    using st by (intro send drop) auto
  then show ?thesis by (simp add: broadcast_message_def Let_def)
qed

lemma quiet_notification: "P st \<Longrightarrow> P (fst (BroadcastNotification env ev d st))"
  by (simp add: BroadcastNotification_def quiet_broadcast split: option.split)

lemma quiet_broadcast_then: "P st \<Longrightarrow> P (fst (broadcast_then env ev d NotifyClientInfoCallbacks st))"
  using quiet_notification [of st env ev d] quiet_effect
  by (simp add: broadcast_then_def NotifyClientInfoCallbacks_def case_prod_unfold Let_def)

lemma quiet_reject: "P st \<Longrightarrow> P (reject env h st)"
  by (simp add: reject_def quiet_close quiet_effect split: option.split)

lemma quiet_events: "P st \<Longrightarrow> P (broadcast_events env es st)"
  by (induction env es st rule: broadcast_events.induct)
    (simp_all add: ProfileSaved_def ProfileLoaded_def quiet_notification)

lemma quiet_scan: "P st \<Longrightarrow> ScanComplete env n st = Some r \<Longrightarrow> P (fst r)"
  by (auto simp: ScanComplete_def quiet_notification split: Option.bind_splits sum.splits)

lemma quiet_close_all: "P st \<Longrightarrow> P (CloseAllConnections st)"
proof -
  have "P st \<Longrightarrow> P (fold (\<lambda>(h, a). close_handle h r) cs st)" for cs r
    by (induction cs arbitrary: st) (auto simp: quiet_close)
  then show "P st \<Longrightarrow> ?thesis" by (simp add: CloseAllConnections_def)
qed

lemma quiet_finish:
  assumes "P st" "shutdown_requested (fst r) \<Longrightarrow> (\<And>s. P s \<Longrightarrow> P (ScheduleShutdown s))"
  shows "P (fst (finish_message env h r st))"
proof -
  have "P (st\<lparr>handler := snd (TakeShutdownRequested (fst r))\<rparr>)"
    by (intro handle assms(1)) (simp add: TakeShutdownRequested_def)
  then show ?thesis using assms(2)
    by (auto simp: finish_message_def TakeShutdownRequested_def case_prod_unfold Let_def quiet_events quiet_send)
qed

text \<open>A message, when a shutdown is only scheduled for a client on this computer.\<close>

lemma quiet_message:
  assumes st: "P st"
    and "OnMessage env h is_text payload st = Some r"
    and "IsLoopbackAddress (GetRemoteIP env h) \<Longrightarrow> is_text \<Longrightarrow> (\<And>s. P s \<Longrightarrow> P (ScheduleShutdown s))"
  shows "P (fst r)"
proof (cases "is_text \<and> (\<exists>request. parse_json env payload = Some request)")
  case True
  then obtain request where req: "parse_json env payload = Some request" "is_text" by blast
  let ?lb = "IsLoopbackAddress (GetRemoteIP env h)"
  have "P (fst (answer_shutdown env h ?lb request st))"
    using st assms(3) req(2) by (simp add: answer_shutdown_def case_prod_unfold Let_def quiet_send split: sum.split)
  moreover have "P (fst r')" if "handle_request env h ?lb request st = Some r'" for r'
  proof -
    obtain x where x: "(if is_array request then HandleBatchRequest (rpc_of env) request ?lb (handler st)
        else HandleRequest (rpc_of env) request ?lb (handler st)) = Some x" "r' = finish_message env h x st"
      using \<open>handle_request env h ?lb request st = Some r'\<close> by (auto simp: handle_request_def split: Option.bind_splits)
    have "?lb" if "shutdown_requested (fst x)"
    proof (rule ccontr)
      assume "\<not> ?lb"
      then have "same_shutdown (handler st) (fst x)"
        using x(1) request_keeps_shutdown [of "rpc_of env" request ?lb "handler st" "fst x" "snd x"]
          batch_keeps_shutdown [of "rpc_of env" request ?lb "handler st" "fst x" "snd x"]
        by (auto split: if_splits)
      with that idle [OF st] show False by (simp add: same_shutdown_def)
    qed
    then show ?thesis unfolding x(2) using assms(3) req(2) by (intro quiet_finish st) blast
  qed
  ultimately show ?thesis using assms(2) req by (auto simp: OnMessage_def Let_def split: Option.bind_splits if_splits)
next
  case False
  then show ?thesis using assms(2) st
    by (auto simp: OnMessage_def quiet_close quiet_send split: Option.bind_splits if_splits option.splits)
qed

end

text \<open>What every event keeps: with the laws for opening a connection, removing a client, starting and stopping.\<close>

locale ws_invariant = ws_quiet P for P :: "ws_state \<Rightarrow> bool" +
  fixes env :: ws_env
  assumes thread: "P st \<Longrightarrow> P (st\<lparr>io_running := False\<rparr>)"
    and opened: "P st \<Longrightarrow> io_running st \<Longrightarrow> h \<notin> set (open_handles st) \<Longrightarrow> h \<notin> fst ` set (clients st) \<Longrightarrow> infos_at st a = None \<Longrightarrow>
      P (fst (OnOpen env a h (st\<lparr>open_handles := h # open_handles st\<rparr>)))"
    and removed: "P st \<Longrightarrow> remove_client h st = Some (ip, st') \<Longrightarrow> P st'"
    and started: "P st \<Longrightarrow> P (StartServer env st)"
    and stopped: "P st \<Longrightarrow> P (st\<lparr>server_online := False, stopping := True\<rparr>)"
    and ended: "P st \<Longrightarrow> StopServer_ends st = Some st' \<Longrightarrow> P st'"
begin

lemma keeps_on_thread: "P (fst r) \<Longrightarrow> P (on_thread r)"
  using thread by (simp add: on_thread_def case_prod_unfold Let_def)

lemma keeps_step:
  assumes "ws_step env ev st = Some st'" "P st"
    and "\<And>h payload s. ev = Message h True payload \<Longrightarrow> IsLoopbackAddress (GetRemoteIP env h) \<Longrightarrow> P s \<Longrightarrow> P (ScheduleShutdown s)"
  shows "P st'"
proof (cases ev)
  case (Opened h a)
  then show ?thesis using assms(1,2) by (auto simp: ws_step_def intro: keeps_on_thread opened split: if_splits)
next
  case (Closed h)
  show ?thesis
  proof (cases "io_running st")
    case True
    then obtain ip s where s: "remove_client h (st\<lparr>open_handles := removeAll h (open_handles st)\<rparr>) = Some (ip, s)"
        "st' = on_thread (broadcast_then env ''clientDisconnected'' (jobject [(''clientIP'', JString ip)]) NotifyClientInfoCallbacks s)"
      using assms(1) Closed by (auto simp: ws_step_def OnClose_def split: Option.bind_splits)
    show ?thesis unfolding s(2)
      by (intro keeps_on_thread quiet_broadcast_then removed [OF close s(1)] assms(2))
  qed (use assms(1,2) Closed in \<open>auto simp: ws_step_def\<close>)
next
  case (Failed h)
  then show ?thesis
    using assms(1,2) close by (auto simp: ws_step_def OnFail_def intro!: keeps_on_thread dest: removed [rotated] split: if_splits)
next
  case (Message h is_text payload)
  show ?thesis
  proof (cases "io_running st \<and> h \<in> set (open_handles st)")
    case True
    then obtain r where r: "OnMessage env h is_text payload st = Some r" "st' = on_thread r"
      using assms(1) Message by (auto simp: ws_step_def)
    have "P (fst r)" by (rule quiet_message [OF assms(2) r(1)]) (use assms(3) Message in auto)
    then show ?thesis unfolding r(2) by (rule keeps_on_thread)
  qed (use assms(1,2) Message in \<open>auto simp: ws_step_def\<close>)
next
  case (Scan_ends throws ds)
  have "P (st\<lparr>handler := rescan_ends throws ds (handler st)\<rparr>)"
    by (intro handle assms(2)) (use idle [OF assms(2)] in \<open>simp add: rescan_ends_def\<close>)
  then show ?thesis using assms(1,2) Scan_ends by (auto simp: ws_step_def split: if_splits)
next
  case (Scan_complete n)
  then show ?thesis using assms(1,2) quiet_scan [of st env n] by (auto simp: ws_step_def)
qed (use assms(1,2) in \<open>auto simp: ws_step_def StopServer_begins_def intro: close started stopped ended quiet_close_all split: if_splits\<close>)

lemma keeps_run:
  assumes "fold_def (ws_step env) evs st = Some st'" "P st"
    and "\<And>h payload s. Message h True payload \<in> set evs \<Longrightarrow> IsLoopbackAddress (GetRemoteIP env h) \<Longrightarrow> P s \<Longrightarrow> P (ScheduleShutdown s)"
  shows "P st'"
proof (rule run_invariant [where P = P, OF assms(1,2)])
  fix ev s s'
  assume "ev \<in> set evs" "ws_step env ev s = Some s'" "P s"
  then show "P s'" by (intro keeps_step [of ev s s']) (use assms(3) in auto)
qed

end

section \<open>The clients\<close>

text \<open>Every client of the map has an info of its own.\<close>

definition clients_ok :: "ws_state \<Rightarrow> bool" where
  "clients_ok st \<longleftrightarrow> distinct (map fst (clients st)) \<and> distinct (map snd (clients st)) \<and>
     (\<forall>(h, a) \<in> set (clients st). infos_at st a \<noteq> None) \<and> \<not> shutdown_requested (handler st)"

lemma set_put_client: "h \<notin> fst ` set cs \<Longrightarrow> set (put_client h a cs) = insert (h, a) (set cs)"
  by (induction h a cs rule: put_client.induct) auto

lemma distinct_put_client:
  "h \<notin> fst ` set cs \<Longrightarrow> distinct (map f (put_client h a cs)) \<longleftrightarrow> distinct (map f cs) \<and> f (h, a) \<notin> f ` set cs"
  by (induction h a cs rule: put_client.induct) (auto simp: set_put_client)

lemma remove_client_eq:
  assumes "remove_client h st = Some (ip, st')" "map_of (clients st) h = Some a"
  shows "st' = st\<lparr>infos_at := (infos_at st)(a := None), clients := filter (\<lambda>(k, b). k \<noteq> h) (clients st)\<rparr>"
  using assms by (auto simp: remove_client_def split: option.splits)

lemma StopServer_ends_eq:
  assumes "StopServer_ends st = Some st'"
  shows "\<exists>m. delete_clients (clients st) (infos_at st) = Some m \<and> st' = st\<lparr>io_running := False, stopping := False, infos_at := m,
    clients := [], ws_effects := ws_effects st @ [Ws_client_info_changed]\<rparr>"
  using assms by (auto simp: StopServer_ends_def NotifyClientInfoCallbacks_def ws_effect_def split: Option.bind_splits)

interpretation alive: ws_quiet clients_ok
  by unfold_locales (auto simp: clients_ok_def distinct_map_filter)

lemma alive_opened:
  assumes "clients_ok st" "h \<notin> fst ` set (clients st)" "infos_at st a = None"
  shows "clients_ok (fst (OnOpen env a h (st\<lparr>open_handles := h # open_handles st\<rparr>)))"
proof -
  have "a \<notin> snd ` set (clients st)" using assms(1,3) by (force simp: clients_ok_def)
  moreover have "clients_ok (st\<lparr>open_handles := h # open_handles st\<rparr>)" using assms(1) by (simp add: clients_ok_def)
  ultimately show ?thesis
    using assms unfolding OnOpen_def Let_def
    by (auto simp: alive.quiet_reject intro!: alive.quiet_broadcast_then)
      (auto simp: clients_ok_def distinct_put_client set_put_client)
qed

lemma alive_removed: "clients_ok st \<Longrightarrow> remove_client h st = Some (ip, st') \<Longrightarrow> clients_ok st'"
proof (cases "map_of (clients st) h")
  case (Some a)
  assume ok: "clients_ok st" and r: "remove_client h st = Some (ip, st')"
  have "(h, a) \<in> set (clients st)" using Some by (rule map_of_SomeD)
  moreover have "inj_on snd (set (clients st))" using ok by (simp add: clients_ok_def distinct_map)
  ultimately have "b \<noteq> a" if "(k, b) \<in> set (clients st)" "k \<noteq> h" for k b
    using that inj_onD [of snd "set (clients st)" "(k, b)" "(h, a)"] by auto
  then show ?thesis using ok unfolding remove_client_eq [OF r Some]
    by (auto simp: clients_ok_def distinct_map_filter)
qed (simp add: remove_client_def)

interpretation alive: ws_invariant clients_ok env for env
proof
  show "clients_ok st \<Longrightarrow> StopServer_ends st = Some st' \<Longrightarrow> clients_ok st'" for st st'
    by (auto simp: clients_ok_def dest!: StopServer_ends_eq)
qed (simp_all add: alive_opened alive_removed, simp_all add: clients_ok_def StartServer_def split: option.split)

lemma delete_clients_defined:
  "distinct (map snd cs) \<Longrightarrow> \<forall>(h, a) \<in> set cs. m a \<noteq> None \<Longrightarrow> delete_clients cs m \<noteq> None"
proof (induction cs arbitrary: m)
  case Nil
  show ?case by (simp add: delete_clients_def)
next
  case (Cons c cs)
  obtain h a where c: "c = (h, a)" by (cases c)
  have "\<forall>(k, b) \<in> set cs. (m(a := None)) b \<noteq> None"
    using Cons.prems c by force
  then have "delete_clients cs (m(a := None)) \<noteq> None" using Cons.prems(1) by (intro Cons.IH) simp_all
  then show ?case using Cons.prems(2) c by (auto simp: delete_clients_def)
qed

definition new_ws :: "rpc_state \<Rightarrow> bool \<Rightarrow> bool \<Rightarrow> cstring list \<Rightarrow> ws_state" where
  "new_ws hs en req tokens = \<lparr>handler = hs, enabled = en, server_online = False, io_running = False, stopping = False,
     asio_initialised = False, last_error = [], require_auth = req, auth_tokens = tokens, clients = [], infos_at = Map.empty,
     open_handles = [], ws_effects = []\<rparr>"

text \<open>C23: in every run from the start, the client map and the allocated infos fit together, so that closing a connection, stopping the
  server, a message and the queries of the user interface never touch an info that was deleted.\<close>

theorem ws_clients_alive:
  assumes "fold_def (ws_step env) evs (new_ws hs en req tokens) = Some st" "\<not> shutdown_requested hs"
  shows "OnClose env h st \<noteq> None \<and> OnFail h st \<noteq> None \<and> StopServer_ends st \<noteq> None \<and> touch_client h st \<noteq> None \<and>
    nth_client st i \<noteq> None"
proof -
  have ok: "clients_ok st"
    by (rule alive.keeps_run [OF assms(1)]) (use assms(2) in \<open>auto simp: clients_ok_def new_ws_def ScheduleShutdown_def ws_effect_def\<close>)
  have "infos_at st a \<noteq> None" if "map_of (clients st) h = Some a" for a
    using that ok by (auto simp: clients_ok_def dest: map_of_SomeD)
  then have "remove_client h st \<noteq> None" "touch_client h st \<noteq> None"
    by (auto simp: remove_client_def touch_client_def split: option.splits)
  moreover have "delete_clients (clients st) (infos_at st) \<noteq> None"
    using ok by (intro delete_clients_defined) (auto simp: clients_ok_def)
  moreover have "nth_client st i \<noteq> None"
    using ok nth_mem [of "unat i" "clients st"]
    by (cases "clients st ! unat i") (auto simp: clients_ok_def nth_client_def)
  ultimately show ?thesis
    by (auto simp: OnClose_def OnFail_def StopServer_ends_def split: Option.bind_splits)
qed

section \<open>Shutdown\<close>

definition unscheduled :: "ws_state \<Rightarrow> bool" where
  "unscheduled st \<longleftrightarrow> Ws_shutdown_scheduled \<notin> set (ws_effects st) \<and> \<not> shutdown_requested (handler st)"

lemma remove_client_keeps:
  assumes "remove_client h st = Some (ip, st')"
  shows "ws_effects st' = ws_effects st" "handler st' = handler st" "open_handles st' = open_handles st"
    "io_running st' = io_running st" "asio_initialised st' = asio_initialised st" "require_auth st' = require_auth st"
    "auth_tokens st' = auth_tokens st"
  using assms by (auto simp: remove_client_def split: option.splits)

interpretation scheduled: ws_quiet unscheduled
  by unfold_locales (auto simp: unscheduled_def)

interpretation scheduled: ws_invariant unscheduled env for env
proof
  show "unscheduled (fst (OnOpen env a h (st\<lparr>open_handles := h # open_handles st\<rparr>)))" if "unscheduled st" for st a h
    using that unfolding OnOpen_def Let_def
    by (auto intro!: scheduled.quiet_broadcast_then scheduled.quiet_reject) (simp_all add: unscheduled_def)
  show "unscheduled st \<Longrightarrow> StopServer_ends st = Some st' \<Longrightarrow> unscheduled st'" for st st'
    by (auto simp: unscheduled_def dest!: StopServer_ends_eq)
qed (auto simp: unscheduled_def StartServer_def remove_client_keeps split: option.split)

text \<open>C14: the program is only shut down because of a text message from a client whose address is one of this computer.\<close>

theorem ws_shutdown_needs_loopback:
  assumes "fold_def (ws_step env) evs (new_ws hs en req tokens) = Some st" "\<not> shutdown_requested hs"
    and "Ws_shutdown_scheduled \<in> set (ws_effects st)"
  shows "\<exists>h payload. Message h True payload \<in> set evs \<and> IsLoopbackAddress (GetRemoteIP env h)"
proof (rule ccontr)
  assume "\<not> ?thesis"
  then have "unscheduled st"
    by (intro scheduled.keeps_run [OF assms(1)]) (use assms(2) in \<open>auto simp: unscheduled_def new_ws_def\<close>)
  with assms(3) show False by (simp add: unscheduled_def)
qed

section \<open>Authentication\<close>

definition only_authenticated :: "ws_env \<Rightarrow> cstring list \<Rightarrow> ws_state \<Rightarrow> bool" where
  "only_authenticated env tokens st \<longleftrightarrow> \<not> shutdown_requested (handler st) \<and>
     (dump env AUTHENTICATION_FAILED \<noteq> None \<longrightarrow> require_auth st \<and> auth_tokens st = tokens \<and>
       (\<forall>h \<in> set (open_handles st). client_token env h \<noteq> [] \<and> client_token env h \<in> set tokens))"

interpretation authenticated: ws_quiet "only_authenticated env tokens" for env tokens
  by unfold_locales (auto simp: only_authenticated_def)

lemma authenticated_opened:
  assumes "only_authenticated env tokens st"
  shows "only_authenticated env tokens (fst (OnOpen env a h (st\<lparr>open_handles := h # open_handles st\<rparr>)))"
proof (cases "dump env AUTHENTICATION_FAILED")
  case None
  then have "only_authenticated env tokens (st\<lparr>open_handles := h # open_handles st\<rparr>)"
      "only_authenticated env tokens (st\<lparr>open_handles := h # open_handles st, infos_at := m, clients := cs\<rparr>)" for m cs
    using assms by (simp_all add: only_authenticated_def)
  then show ?thesis
    by (simp add: OnOpen_def Let_def authenticated.quiet_reject authenticated.quiet_broadcast_then)
next
  case (Some s)
  show ?thesis
  proof (cases "client_token env h \<noteq> [] \<and> client_token env h \<in> set tokens")
    case True
    then show ?thesis using assms Some unfolding OnOpen_def Let_def
      by (auto simp: AuthenticateClient_def only_authenticated_def [of _ _ st] intro!: authenticated.quiet_broadcast_then)
        (auto simp: only_authenticated_def)
  next
    case False
    then have "fst (OnOpen env a h (st\<lparr>open_handles := h # open_handles st\<rparr>)) = reject env h (st\<lparr>open_handles := h # open_handles st\<rparr>)"
      using assms Some by (auto simp: OnOpen_def Let_def AuthenticateClient_def only_authenticated_def)
    then show ?thesis using assms Some
      by (auto simp: reject_def close_handle_def ws_effect_def only_authenticated_def)
  qed
qed

interpretation authenticated: ws_invariant "only_authenticated env tokens" env for env tokens
proof
  show "only_authenticated env tokens st \<Longrightarrow> StopServer_ends st = Some st' \<Longrightarrow> only_authenticated env tokens st'" for st st'
    by (auto simp: only_authenticated_def dest!: StopServer_ends_eq)
qed (simp_all add: authenticated_opened, auto simp: only_authenticated_def StartServer_def remove_client_keeps split: option.split)

text \<open>C26: when the server asks for a token, every message that reaches the JSON-RPC handler comes from a connection that gave one
  of the tokens of the server.\<close>

theorem ws_requests_authenticated:
  assumes "fold_def (ws_step env) evs (new_ws hs en True tokens) = Some st" "\<not> shutdown_requested hs"
    and "dump env AUTHENTICATION_FAILED \<noteq> None"
    and "ws_step env (Message h is_text payload) st = Some st'" "st' \<noteq> st"
  shows "client_token env h \<noteq> [] \<and> client_token env h \<in> set tokens"
proof -
  have "only_authenticated env tokens st"
    by (rule authenticated.keeps_run [OF assms(1)])
      (use assms(2) in \<open>auto simp: only_authenticated_def new_ws_def ScheduleShutdown_def ws_effect_def\<close>)
  moreover have "h \<in> set (open_handles st)" using assms(4,5) by (auto simp: ws_step_def split: if_splits)
  ultimately show ?thesis using assms(3) by (simp add: only_authenticated_def)
qed

section \<open>The thread of the server\<close>

text \<open>Once the thread has ended, nothing starts it again.\<close>

definition dead :: "ws_state \<Rightarrow> bool" where
  "dead st \<longleftrightarrow> \<not> io_running st \<and> asio_initialised st \<and> \<not> shutdown_requested (handler st)"

interpretation dead: ws_quiet dead
  by unfold_locales (auto simp: dead_def)

interpretation dead: ws_invariant dead env for env
proof
  show "dead st \<Longrightarrow> StopServer_ends st = Some st' \<Longrightarrow> dead st'" for st st'
    by (auto simp: dead_def dest!: StopServer_ends_eq)
qed (auto simp: dead_def StartServer_def remove_client_keeps split: option.split)

text \<open>The text messages that end the thread are, as long as every response has a text form, exactly the requests for a shutdown
  whose id is no number, from whatever client.\<close>

theorem message_ends_thread_iff:
  assumes "\<forall>j. dump env j \<noteq> None" "OnMessage env h True payload st = Some (st', threw)"
  shows "threw \<longleftrightarrow> (\<exists>request. parse_json env payload = Some request \<and> is_shutdown request \<and>
    isl (value_or (get_int (cvt (rpc_of env))) ''id'' 0 request))"
proof -
  have send: "\<not> snd (SendToClient env h j s)" for j s
    using assms(1) by (auto simp: SendToClient_def split: option.split)
  then have "\<not> snd (finish_message env h r s)" for r s
    by (simp add: finish_message_def case_prod_unfold Let_def)
  then have handled: "handle_request env h lb request s = Some (s', b) \<Longrightarrow> \<not> b" for lb request s s' b
    by (auto simp: handle_request_def split: Option.bind_splits) (metis snd_conv)
  have "snd (answer_shutdown env h lb request s) \<longleftrightarrow> isl (value_or (get_int (cvt (rpc_of env))) ''id'' 0 request)" for lb request s
    using send by (auto simp: answer_shutdown_def case_prod_unfold Let_def split: sum.split)
  then have shut: "answer_shutdown env h lb request s = (s', b) \<Longrightarrow> b \<longleftrightarrow> isl (value_or (get_int (cvt (rpc_of env))) ''id'' 0 request)"
    for lb request s s' b by (metis snd_conv)
  have sent: "SendToClient env h j s = (s', b) \<Longrightarrow> \<not> b" for j s s' b using send [of j s] by simp
  show ?thesis
    using assms(2) unfolding OnMessage_def Let_def
    by (auto dest: sent handled shut split: Option.bind_splits option.splits if_splits)
qed

text \<open>One such message, which any client may send, ends the service for good: the server still counts as online, no later
  message or connection is handled, and neither stopping and starting it nor anything else brings the thread back.\<close>

theorem bad_shutdown_id_ends_service:
  assumes "io_running st" "asio_initialised st" "\<not> shutdown_requested (handler st)" "h \<in> set (open_handles st)"
    and "touch_client h st = Some ()" "parse_json env payload = Some request" "is_shutdown request"
    and "value_or (get_int (cvt (rpc_of env))) ''id'' 0 request = Inl e"
  shows "\<exists>st1. ws_step env (Message h True payload) st = Some st1 \<and> server_online st1 = server_online st \<and>
    (\<forall>evs st2. fold_def (ws_step env) evs st1 = Some st2 \<longrightarrow> \<not> io_running st2 \<and>
      (\<forall>k is_text text. ws_step env (Message k is_text text) st2 = Some st2))"
proof -
  let ?st1 = "st\<lparr>io_running := False\<rparr>"
  have "ws_step env (Message h True payload) st = Some ?st1"
    using assms by (simp add: ws_step_def OnMessage_def answer_shutdown_def on_thread_def Let_def)
  moreover have "\<not> io_running st2" if "fold_def (ws_step env) evs ?st1 = Some st2" for evs st2
    using dead.keeps_run [OF that] assms(2,3) by (auto simp: dead_def ScheduleShutdown_def ws_effect_def)
  ultimately show ?thesis by (auto simp: ws_step_def)
qed

section \<open>Dead connections\<close>

text \<open>Nothing deletes an info that is no longer in the map.\<close>

definition leaked :: "nat \<Rightarrow> WebSocketClientInfo \<Rightarrow> ws_state \<Rightarrow> bool" where
  "leaked a ci st \<longleftrightarrow> infos_at st a = Some ci \<and> a \<notin> snd ` set (clients st) \<and> \<not> shutdown_requested (handler st)"

interpretation leaked: ws_quiet "leaked a ci" for a ci
  by unfold_locales (auto simp: leaked_def)

lemma leaked_opened:
  assumes "leaked a ci st" "infos_at st b = None" "h \<notin> fst ` set (clients st)"
  shows "leaked a ci (fst (OnOpen env b h (st\<lparr>open_handles := h # open_handles st\<rparr>)))"
proof -
  have "leaked a ci (st\<lparr>open_handles := h # open_handles st\<rparr>)" using assms(1) by (simp add: leaked_def)
  moreover have "leaked a ci (st\<lparr>open_handles := h # open_handles st, infos_at := (infos_at st)(b \<mapsto> x),
      clients := put_client h b (clients st)\<rparr>)" for x
    using assms by (auto simp: leaked_def set_put_client)
  ultimately show ?thesis
    by (simp add: OnOpen_def Let_def leaked.quiet_reject leaked.quiet_broadcast_then)
qed

lemma delete_clients_other: "delete_clients cs m = Some m' \<Longrightarrow> a \<notin> snd ` set cs \<Longrightarrow> m' a = m a"
  unfolding delete_clients_def
  by (induction cs arbitrary: m) (auto split: Option.bind_splits if_splits)

lemma leaked_removed: "leaked a ci st \<Longrightarrow> remove_client h st = Some (ip, st') \<Longrightarrow> leaked a ci st'"
proof (cases "map_of (clients st) h")
  case (Some b)
  assume l: "leaked a ci st" and r: "remove_client h st = Some (ip, st')"
  have "b \<in> snd ` set (clients st)" using map_of_SomeD [OF Some] image_eqI [of b snd "(h, b)"] by simp
  moreover have "a \<notin> snd ` set (clients st)" using l by (simp add: leaked_def)
  moreover have "snd ` set (filter Q (clients st)) \<subseteq> snd ` set (clients st)" for Q by auto
  ultimately have "b \<noteq> a" "a \<notin> snd ` set (filter Q (clients st))" for Q by blast+
  then show ?thesis using l unfolding remove_client_eq [OF r Some] leaked_def by simp
qed (simp add: remove_client_def)

interpretation leaked: ws_invariant "leaked a ci" env for a ci env
proof
  show "leaked a ci st \<Longrightarrow> StopServer_ends st = Some st' \<Longrightarrow> leaked a ci st'" for st st'
    by (auto simp: leaked_def dest!: StopServer_ends_eq dest: delete_clients_other)
qed (simp_all add: leaked_opened leaked_removed, auto simp: leaked_def StartServer_def split: option.split)

text \<open>The info of a client whose dead connection a notification drops from the map is never deleted, whatever happens
  later: the handlers that would delete it look for the client in the map.\<close>

theorem dropped_client_leaks:
  assumes "clients_ok st" "(h, a) \<in> set (clients st)" "h \<notin> set (open_handles st)" "infos_at st a = Some ci"
    and "BroadcastNotification env event data st = (st1, False)" "fold_def (ws_step env) evs st1 = Some st2"
  shows "map_of (clients st1) h = None \<and> infos_at st2 a = Some ci"
proof -
  let ?live = "filter (\<lambda>(k, b). k \<in> set (open_handles st)) (clients st)"
  have st1: "clients st1 = ?live" "infos_at st1 = infos_at st" "handler st1 = handler st"
    using assms(5) by (auto simp: BroadcastNotification_def broadcast_message_def Let_def split: option.splits)
  have inj: "inj_on snd (set (clients st))" using assms(1) by (simp add: clients_ok_def distinct_map)
  have "k = h" if "(k, a) \<in> set (clients st)" for k
    using inj_onD [OF inj, of "(k, a)" "(h, a)"] that assms(2) by simp
  then have "a \<notin> snd ` set ?live" using assms(3) by auto
  then have "leaked a ci st1" using assms(1,4) st1 by (simp add: leaked_def clients_ok_def)
  then have "leaked a ci st2"
    by (intro leaked.keeps_run [OF assms(6)]) (simp_all add: leaked_def ScheduleShutdown_def ws_effect_def)
  moreover have "h \<notin> fst ` set ?live" using assms(3) by auto
  then have "map_of (clients st1) h = None" unfolding st1(1) map_of_eq_None_iff .
  ultimately show ?thesis by (simp add: leaked_def)
qed

section \<open>Addresses\<close>

lemma find_last: "find P (rev [0..<n]) = Some k \<longleftrightarrow> k < n \<and> P k \<and> (\<forall>j < n. k < j \<longrightarrow> \<not> P j)"
  by (induction n) (auto simp: less_Suc_eq)

lemma rfind_last:
  assumes "c \<notin> set b"
  shows "rfind [c] (a @ c # b) = Some (length a)"
proof -
  have pre: "prefix [c] (drop i s) \<longleftrightarrow> i < length s \<and> s ! i = c" for i and s :: cstring
    by (cases "i < length s") (auto simp: Cons_nth_drop_Suc [symmetric])
  have "(a @ c # b) ! i \<noteq> c" if "length a < i" "i < length (a @ c # b)" for i
    using that assms nth_mem [of "i - Suc (length a)" b] by (auto simp: nth_append nth_Cons')
  then show ?thesis unfolding rfind_def find_last pre by auto
qed
text \<open>The address of a client is what stands before the last colon of its endpoint, so an IPv4 loopback address counts as local, and
  an IPv6 address, which stands in brackets, never does.\<close>

theorem loopback_is_ipv4:
  assumes "of_char (CHR '':'') \<notin> set port"
    and "remote_endpoint env h = Some (addr @ str8 '':'' @ port)" "remote_endpoint env k = Some (str8 ''['' @ addr6 @ str8 '']'' @ str8 '':'' @ port)"
  shows "GetRemoteIP env h = addr \<and> GetRemoteIP env k = str8 ''['' @ addr6 @ str8 '']'' \<and>
    \<not> IsLoopbackAddress (GetRemoteIP env k) \<and> (addr = str8 ''127.0.0.1'' \<longrightarrow> IsLoopbackAddress (GetRemoteIP env h))"
proof -
  have ip: "GetRemoteIP env n = a" if "remote_endpoint env n = Some (a @ str8 '':'' @ port)" for n a
    using rfind_last [OF assms(1), of a] that by (simp add: GetRemoteIP_def str8_def)
  have "GetRemoteIP env h = addr" by (rule ip) (rule assms(2))
  moreover have "GetRemoteIP env k = str8 ''['' @ addr6 @ str8 '']''" by (rule ip) (simp add: assms(3))
  moreover have "\<not> IsLoopbackAddress (str8 ''['' @ addr6 @ str8 '']'')" by (simp add: IsLoopbackAddress_def str8_def)
  ultimately show ?thesis by (simp add: IsLoopbackAddress_def)
qed

section \<open>Notifications\<close>

lemma save_request_handled:
  assumes "manager_set hs" "websocket_set hs" "SaveProfile (rpc_junk env) nm sizes (devices hs) (storage_of hs) = Some (ok, fs)"
  shows "HandleRequest env (rpc_request ''profile.saveProfile'' [(''profileName'', JString nm), (''includeSizes'', JBool sizes)] i) lb hs =
    Some (notify (Profile_saved_event nm) (hs\<lparr>storage_of := fs\<rparr>), CreateResult (jobject [(''success'', JBool True)]) i)"
  using assms by (simp add: HandleRequest_request method_lookup SaveProfile_method_def require_def parsed_def get_string_def
    get_bool_def success_def reply_def answer_def announce_def)

text \<open>C27: when a client saves a profile over the WebSocket, under a name and with devices that can be saved, the devices are read back
  from the stored profile; this is announced to every client whose connection is open, the sender included, and then
  answered, and the clients whose connection is dead leave the map. Both messages must have a text, as they have
  when the name is UTF-8.\<close>

theorem profile_saved_announced:
  assumes "dump env (notification ''profileSaved'' (jobject [(''profileName'', JString nm)])) = Some note"
    and "dump env (CreateResult (jobject [(''success'', JBool True)]) i) = Some reply_text"
    and "touch_client h st = Some ()" "h \<in> set (open_handles st)"
    and "parse_json env payload = Some (rpc_request ''profile.saveProfile'' [(''profileName'', JString nm), (''includeSizes'', JBool sizes)] i)"
    and "manager_set (handler st)" "websocket_set (handler st)" "\<not> shutdown_requested (handler st)"
    and "remove_null_terminating_chars nm = file" "file \<noteq> []" "list_all saved_ok (devices (handler st))"
    and "sizes \<longrightarrow> (\<forall>c \<in> set (devices (handler st)). flags c AND CONTROLLER_FLAG_REMOTE = 0 \<and> flags c AND CONTROLLER_FLAG_VIRTUAL = 0)"
    and "sizes \<or> path_extension (path_join (configuration_directory (storage_of (handler st))) file) \<noteq> orp"
    and "\<forall>p. writable (storage_of (handler st)) p"
  shows "\<exists>st'. OnMessage env h True payload st = Some (st', False) \<and>
    LoadProfileToList jk file sizes (storage_of (handler st')) = Some (map (norm_device 5 new_controller) (devices (handler st))) \<and>
    clients st' = filter (\<lambda>(k, a). k \<in> set (open_handles st)) (clients st) \<and>
    ws_effects st' = ws_effects st @ map (\<lambda>(k, a). Ws_sent k note) (clients st') @ [Ws_sent h reply_text]"
proof -
  let ?req = "rpc_request ''profile.saveProfile'' [(''profileName'', JString nm), (''includeSizes'', JBool sizes)] i"
  obtain fs where fs: "SaveProfile (rpc_junk (rpc_of env)) nm sizes (devices (handler st)) (storage_of (handler st)) = Some (True, fs)"
      "LoadProfileToList jk file sizes fs = Some (map (norm_device 5 new_controller) (devices (handler st)))"
    using profile_saved [OF assms(9,10) _ assms(13,14), of "devices (handler st)" "rpc_junk (rpc_of env)" jk] assms(11) kept_all [OF assms(12)]
    by auto
  have "\<not> is_array ?req" "\<not> is_shutdown ?req"
    by (simp_all add: is_array_def is_shutdown_def rpc_request_def jobject_def field_def map_of_str8)
  then show ?thesis
    using assms(1-8) fs(2) save_request_handled [OF assms(6,7) fs(1)]
    by (simp add: OnMessage_def handle_request_def finish_message_def TakeShutdownRequested_def notify_def
      ProfileSaved_def BroadcastNotification_def broadcast_message_def SendToClient_def ws_effect_def Let_def)
qed

end
