(* ===== verification/Rpc_Colors.thy ===== *)
theory Rpc_Colors
  imports Rpc_Props
begin

text \<open>
  Properties of the color methods of the JSON-RPC handler.
\<close>

section \<open>Colors in JSON\<close>

lemma ToRGBColor_components: "ToRGBColor (RGBGetRValue c) (RGBGetGValue c) (RGBGetBValue c) = c AND 0xFFFFFF"
proof -
  have "(255 :: u32) = mask 8" "(0xFFFFFF :: u32) = mask 24" by (simp_all add: mask_eq_exp_minus_1)
  moreover have "bit (ToRGBColor (c AND mask 8) (drop_bit 8 c AND mask 8) (drop_bit 16 c AND mask 8)) n = bit (c AND mask 24) n"
    if "n < 32" for n
    using that by (cases "n < 8"; cases "n < 16") (auto simp: ToRGBColor_def bit_simps)
  ultimately show ?thesis
    by (intro bit_word_eqI) (simp add: RGBGetRValue_def RGBGetGValue_def RGBGetBValue_def)
qed

lemma ParseColor_color_json [simp]: "ParseColor f u (color_json c) = Inr (c AND 0xFFFFFF)"
  by (simp add: ParseColor_def color_json_def conv_bind_def get_u32_def get_int_def ToRGBColor_components)

lemma ParseColor_number [simp]: "ParseColor f u (u32_json c) = Inr c"
  by (simp add: ParseColor_def u32_json_def contains_def is_number_def get_u32_def)

lemma color_json_low [simp]: "color_json (c AND 0xFFFFFF) = color_json c"
proof -
  have m: "(255 :: u32) = mask 8" "(0xFFFFFF :: u32) = mask 24" by (simp_all add: mask_eq_exp_minus_1)
  have "RGBGetRValue (c AND 0xFFFFFF) = RGBGetRValue c" "RGBGetGValue (c AND 0xFFFFFF) = RGBGetGValue c"
      "RGBGetBValue (c AND 0xFFFFFF) = RGBGetBValue c"
    unfolding RGBGetRValue_def RGBGetGValue_def RGBGetBValue_def m by (intro bit_word_eqI; auto simp: bit_simps)+
  then show ?thesis by (simp add: color_json_def)
qed

lemma ControllerToJSON_colors:
  assumes "ControllerToJSON env d = Some (Inr jd)"
  shows "\<exists>jd'. ControllerToJSON env (d\<lparr>colors := cs\<rparr>) = Some (Inr jd') \<and> field ''colors'' jd' = JArray (map color_json cs)"
proof -
  have "LEDToJSON (d\<lparr>colors := cs\<rparr>) = LEDToJSON d" by (rule ext) (simp add: LEDToJSON_def)
  moreover have "active_mode_name env (d\<lparr>colors := cs\<rparr>) = active_mode_name env d" by (simp add: active_mode_name_def)
  ultimately show ?thesis
    using assms by (auto simp: ControllerToJSON_def conv_bind_def split: Option.bind_splits sum.splits)
qed

text \<open>C22: a color that \<open>device.setLEDColor\<close> is given for a LED, as an object of its three components or as a number, is the
  color that \<open>device.getControllerData\<close> shows for it afterwards, and the other colors are shown as before. (A text
  \<open>#RRGGBB\<close> is taken with red and blue exchanged.)
\<close>

theorem set_color_is_shown:
  assumes "i < length (devices st)" "i < 2 ^ 32" "devices st ! i = d" "unat led < length (leds d)" "length (colors d) = length (leds d)"
    and "device_fn env i Dev_UpdateLEDs = Some" "ControllerToJSON env d = Some (Inr jd)" "cj = color_json c \<or> cj = u32_json c"
  shows "\<exists>st1 jd1. HandleRequest env (rpc_request ''device.setLEDColor''
        [(''deviceIndex'', JUnsigned i), (''ledIndex'', u32_json led), (''color'', cj)] n) lb st
      = Some (st1, CreateResult (jobject [(''success'', JBool True)]) n) \<and>
    HandleRequest env (rpc_request ''device.getControllerData'' [(''deviceIndex'', JUnsigned i)] n') lb' st1
      = Some (st1, CreateResult (jobject [(''controller'', jd1)]) n') \<and>
    field ''colors'' jd1 = JArray (map color_json ((colors d)[unat led := c]))"
proof -
  obtain col where col: "ParseColor (cvt env) (junk_color env) cj = Inr col" "color_json col = color_json c"
    using assms(8) by auto
  let ?d = "d\<lparr>colors := (colors d)[unat led := col]\<rparr>"
  obtain jd1 where "ControllerToJSON env ?d = Some (Inr jd1)"
      "field ''colors'' jd1 = JArray (map color_json ((colors d)[unat led := col]))"
    using ControllerToJSON_colors [OF assms(7)] by blast
  then have jd1: "ControllerToJSON env ?d = Some (Inr jd1)" "field ''colors'' jd1 = JArray (map color_json ((colors d)[unat led := c]))"
    using col(2) by (simp_all add: map_update)
  have "SetLEDColor env (jobject [(''deviceIndex'', JUnsigned i), (''ledIndex'', u32_json led), (''color'', cj)]) st
      = Some (st\<lparr>devices := (devices st)[i := ?d], rpc_effects := rpc_effects st @ [Device_called i Dev_UpdateLEDs]\<rparr>,
          Inr (jobject [(''success'', JBool True)]))"
    using assms(1-7) col(1) by (simp add: SetLEDColor_def require_def parsed_def get_u32_def u32_json_def on_device_def ValidateDeviceIndex_def
        change_def call_dev_def SetLED_def success_def reply_def)
  moreover have "GetControllerData env (jobject [(''deviceIndex'', JUnsigned i)])
      (st\<lparr>devices := (devices st)[i := ?d], rpc_effects := rpc_effects st @ [Device_called i Dev_UpdateLEDs]\<rparr>)
      = Some (st\<lparr>devices := (devices st)[i := ?d], rpc_effects := rpc_effects st @ [Device_called i Dev_UpdateLEDs]\<rparr>,
          Inr (jobject [(''controller'', jd1)]))"
    using assms(1-3) jd1(1) by (simp add: GetControllerData_def require_def parsed_def get_u32_def on_device_def ValidateDeviceIndex_def
        computed_def reply_def)
  ultimately show ?thesis
    using jd1(2) by (simp add: HandleRequest_request method_lookup answer_def) blast
qed

section \<open>Hexadecimal colors\<close>

definition hex_char :: "nat \<Rightarrow> byte" where
  "hex_char n = str8 ''0123456789ABCDEF'' ! n"

definition hex_byte :: "byte \<Rightarrow> cstring" where
  "hex_byte b = [hex_char (unat (drop_bit 4 b)), hex_char (unat (b AND 15))]"

lemma hex_char_digit:
  assumes "n < 16"
  shows "hex_digit (hex_char n) = Some (of_nat n)" "\<not> is_space (hex_char n)" "hex_char n \<notin> {43, 45, 88, 120}"
proof -
  have "list_all (\<lambda>n. hex_digit (hex_char n) = Some (of_nat n) \<and> \<not> is_space (hex_char n) \<and>
      hex_char n \<noteq> 43 \<and> hex_char n \<noteq> 45 \<and> hex_char n \<noteq> 88 \<and> hex_char n \<noteq> 120) [0..<16]" by code_simp
  then show "hex_digit (hex_char n) = Some (of_nat n)" "\<not> is_space (hex_char n)" "hex_char n \<notin> {43, 45, 88, 120}"
    using assms by (simp_all add: list_all_iff)
qed

lemma nibbles: "unat (drop_bit 4 (b :: byte)) < 16" "unat (b AND 15) < 16"
  "16 * of_nat (unat (drop_bit 4 b)) + of_nat (unat (b AND 15)) = (ucast b :: u32)"
proof -
  have m: "(15 :: byte) = mask 4" by (simp add: mask_eq_exp_minus_1)
  have d: "unat (drop_bit 4 b) = unat b div 16" "unat (b AND 15) = unat b mod 16"
    using unat_drop_bit_eq [of 4 b] unsigned_take_bit_eq [of 4 b, where ?'a = nat]
    by (simp_all only: m flip: take_bit_eq_mask) (simp_all add: drop_bit_eq_div take_bit_eq_mod)
  have "unat b < 256" using unsigned_less [of b, where ?'a = nat] by simp
  then show "unat (drop_bit 4 b) < 16" "unat (b AND 15) < 16" by (simp_all add: d)
  have "of_nat (16 * (unat b div 16) + unat b mod 16) = (of_nat (unat b) :: u32)" by simp
  then show "16 * of_nat (unat (drop_bit 4 b)) + of_nat (unat (b AND 15)) = (ucast b :: u32)"
    by (simp only: d of_nat_add of_nat_mult) (simp add: of_nat_unat_ucast)
qed

lemma hex_value_byte: "hex_value v (hex_byte b @ bs) = hex_value (push_bit 8 v OR ucast b) bs"
proof -
  have "bit b n \<Longrightarrow> n < 8" for n using bit_imp_le_length [of b n] by simp
  then have "push_bit 8 v AND ucast b = (0 :: u32)" by (intro bit_word_eqI) (auto simp: bit_simps, fastforce)
  then have "push_bit 8 v OR ucast b = push_bit 8 v + ucast b"
    using word_plus_and_or [of "push_bit 8 v" "ucast b :: u32"] by simp
  also have "\<dots> = 256 * v + (16 * of_nat (unat (drop_bit 4 b)) + of_nat (unat (b AND 15)))"
    by (simp only: nibbles(3)) (simp add: push_bit_eq_mult)
  also have "\<dots> = 16 * (16 * v + of_nat (unat (drop_bit 4 b))) + of_nat (unat (b AND 15))"
    by (simp only: distrib_left mult.assoc [symmetric] add.assoc) simp
  finally have "16 * (16 * v + of_nat (unat (drop_bit 4 b))) + of_nat (unat (b AND 15)) = push_bit 8 v OR ucast b" ..
  moreover have "hex_value v (hex_byte b @ bs)
      = hex_value (16 * (16 * v + of_nat (unat (drop_bit 4 b))) + of_nat (unat (b AND 15))) bs"
    using nibbles(1,2) [of b] by (simp add: hex_byte_def hex_char_digit)
  ultimately show ?thesis by (simp only:)
qed

text \<open>A color written \<open>#RRGGBB\<close> is taken with red and blue exchanged: the same three bytes as an object mean the other color.
\<close>

theorem hex_color_swapped:
  "ParseColor f u (JString (str8 ''#'' @ hex_byte r @ hex_byte g @ hex_byte b)) = Inr (ToRGBColor (ucast b) (ucast g) (ucast r)) \<and>
   ParseColor f u (jobject [(''red'', JUnsigned (unat r)), (''green'', JUnsigned (unat g)), (''blue'', JUnsigned (unat b))])
     = Inr (ToRGBColor (ucast r) (ucast g) (ucast b))"
proof -
  note d = hex_char_digit [OF nibbles(1)] hex_char_digit [OF nibbles(2)]
  let ?s = "hex_byte r @ hex_byte g @ hex_byte b"
  have "dropWhile is_space ?s = ?s" "take 1 ?s \<noteq> str8 ''-''" "take 1 ?s \<noteq> str8 ''+''" "skip_0x ?s = ?s"
    using d [of r] by (auto simp: hex_byte_def skip_0x_def str8_def)
  then have "parse_hex u ?s = hex_value 0 ?s" by (simp add: parse_hex_def) (simp add: hex_byte_def)
  also have "\<dots> = push_bit 8 (push_bit 8 (ucast r) OR ucast g) OR ucast b"
    using hex_value_byte [of _ b "[]"] by (simp add: hex_value_byte)
  also have "\<dots> = ToRGBColor (ucast b) (ucast g) (ucast r)"
    by (simp add: ToRGBColor_def ac_simps)
  finally have "ParseColor f u (JString (str8 ''#'' @ ?s)) = Inr (ToRGBColor (ucast b) (ucast g) (ucast r))"
    by (simp add: ParseColor_def contains_def is_number_def hex_byte_def str8_def)
  then show ?thesis
    by (rule conjI) (simp add: ParseColor_def conv_bind_def get_u32_def get_int_def of_nat_unat_ucast)
qed

end
