(* ===== verification/Rpc_Zones.thy ===== *)
theory Rpc_Zones
  imports Rpc_Colors
begin

text \<open>
  Properties of the methods that set the colors of whole zones, and change the number of their LEDs.
\<close>

section \<open>Storing the colors of zones\<close>

lemma store_colors_fold:
  "store_colors k cols d = fold_def (\<lambda>(j, col). store_zone_color k j col) (zip [0..<length cols] cols) d"
proof -
  have "fold_def (\<lambda>j. store_zone_color k j (cols ! j)) ns d
      = fold_def (\<lambda>(j, col). store_zone_color k j col) (map (\<lambda>j. (j, cols ! j)) ns) d" for ns
    by (induction ns arbitrary: d) (auto split: Option.bind_splits)
  moreover have "map (\<lambda>j. (j, cols ! j)) [0..<length cols] = zip [0..<length cols] cols"
    by (rule nth_equalityI) simp_all
  ultimately show ?thesis by (simp add: store_colors_def)
qed

lemma store_colors_slice:
  assumes "zone_valid k d" "length cols = unat (leds_in_zone (zones d ! k))"
  shows "store_colors k cols d = Some (put_zone_slice k cols d)"
  using slice.store_all [OF assms(1), of cols] assms by (simp add: store_colors_fold length_zone_slice)

lemma zones_put_slice [simp]: "zones (put_zone_slice k cols d) = zones d" "leds (put_zone_slice k cols d) = leds d"
  by (simp_all add: put_zone_slice_def)

lemma store_slices:
  assumes "layout_ok d" "n \<le> length (zones d)"
    and "\<forall>k < n. P k \<longrightarrow> length (cs k) = unat (leds_in_zone (zones d ! k))"
  shows "\<exists>d'. fold_def (\<lambda>k d. if P k then store_colors k (cs k) d else Some d) [0..<n] d = Some d' \<and>
    layout_ok d' \<and> zones d' = zones d \<and> leds d' = leds d \<and>
    (\<forall>k < length (zones d). zone_slice k d' = (if k < n \<and> P k then cs k else zone_slice k d))"
  using assms(2,3)
proof (induction n)
  case 0
  then show ?case using assms(1) by simp
next
  case (Suc n)
  then obtain d' where d': "fold_def (\<lambda>k d. if P k then store_colors k (cs k) d else Some d) [0..<n] d = Some d'"
      "layout_ok d'" "zones d' = zones d" "leds d' = leds d"
      "\<forall>k < length (zones d). zone_slice k d' = (if k < n \<and> P k then cs k else zone_slice k d)"
    by auto
  show ?case
  proof (cases "P n")
    case True
    have v: "zone_valid n d'" using d'(2,3) Suc.prems(1) by (simp add: zone_valid_def)
    have len: "length (cs n) = length (zone_slice n d')" using True Suc.prems d'(3) by (simp add: length_zone_slice [OF v])
    have "zone_slice k (put_zone_slice n (cs n) d') = (if k = n then cs n else zone_slice k d')" if "k < length (zones d)" for k
      using slice.view_put [OF v len] zone_slice_other [OF v len] that d'(3) by simp
    moreover have "layout_ok (put_zone_slice n (cs n) d')"
      using slice.valid_put [OF v len] by (simp add: zone_valid_def)
    moreover have "store_colors n (cs n) d' = Some (put_zone_slice n (cs n) d')"
      by (rule store_colors_slice [OF v]) (use True Suc.prems d'(3) in simp)
    ultimately show ?thesis using True d' by (simp add: fold_def_append less_Suc_eq)
  next
    case False
    then show ?thesis using d' by (auto simp: fold_def_append less_Suc_eq)
  qed
qed

section \<open>Forcing a layout\<close>

abbreviation recolored :: "RGBColor list list \<Rightarrow> nat \<Rightarrow> bool" where
  "recolored colss k \<equiv> k < length colss \<and> colss ! k \<noteq> []"

definition forced_count :: "RGBColor list list \<Rightarrow> controller \<Rightarrow> nat \<Rightarrow> nat" where
  "forced_count colss d k = (if recolored colss k then length (colss ! k) else unat (leds_in_zone (zones d ! k)))"

lemma leds_in_forced_zone: "leds_in_zone (forced_zone n z) = of_nat n"
proof -
  have "(zone_flags z AND NOT ZONE_FLAG_RESIZE_EFFECTS_ONLY) AND ZONE_FLAG_RESIZE_EFFECTS_ONLY = 0"
    by (rule bit_word_eqI) (auto simp: bit_simps)
  then show ?thesis by (simp add: forced_zone_def leds_in_zone_def)
qed

lemma force_zones_nth:
  assumes "k < length (zones d)"
  shows "zones (force_zones colss d) ! k = (if recolored colss k then forced_zone (length (colss ! k)) (zones d ! k) else zones d ! k)"
  using assms by (simp add: force_zones_def)

lemma length_force_zones [simp]: "length (zones (force_zones colss d)) = length (zones d)"
  by (simp add: force_zones_def)

lemma those_map: "(\<And>x. x \<in> set xs \<Longrightarrow> f x = Some (g x)) \<Longrightarrow> those (map f xs) = Some (map g xs)"
  by (induction xs) auto

lemma fold_def_cong: "(\<And>x s. x \<in> set xs \<Longrightarrow> f x s = g x s) \<Longrightarrow> fold_def f xs s = fold_def g xs s"
  by (induction xs arbitrary: s) (auto split: Option.bind_splits)

lemma saved_colors_defined:
  assumes "layout_ok d" "k < length (zones d)"
    and "zone_leds_count (zones d ! k) \<noteq> 0 \<longrightarrow> leds_in_zone (zones d ! k) \<noteq> 0"
    and "zone_offset (zones d) k + unat (zone_leds_count (zones d ! k)) \<le> length (colors d)"
  shows "saved_colors d k
    = Some (map (\<lambda>j. colors d ! (zone_offset (zones d) k + j)) [0..<unat (zone_leds_count (zones d ! k))])"
proof -
  have "zone_colors (zones d ! k) = Some (zone_offset (zones d) k)" if "0 < unat (zone_leds_count (zones d ! k))"
    using that assms(1-3) by (auto simp: layout_ok_def)
  then show ?thesis using assms(2,4) by (auto simp: saved_colors_def intro!: those_map)
qed

text \<open>
  When the colors of all zones can be read, and the zones that are not given show all their LEDs, the layout can be
  forced.
\<close>

definition forceable :: "RGBColor list list \<Rightarrow> controller \<Rightarrow> bool" where
  "forceable colss d \<longleftrightarrow> layout_ok d \<and> length colss \<le> length (zones d) \<and>
     (\<Sum>k < length (zones d). forced_count colss d k) < 2 ^ 32 \<and>
     (\<forall>k < length (zones d). (zone_leds_count (zones d ! k) \<noteq> 0 \<longrightarrow> leds_in_zone (zones d ! k) \<noteq> 0) \<and>
        zone_offset (zones d) k + unat (zone_leds_count (zones d ! k)) \<le> length (colors d) \<and>
        (\<not> recolored colss k \<longrightarrow> leds_in_zone (zones d ! k) = zone_leds_count (zones d ! k)))"

lemma force_layout_slices:
  assumes "forceable colss d"
  shows "\<exists>d'. force_layout colss d = Some d' \<and> layout_ok d' \<and> length (zones d') = length (zones d) \<and>
    length (leds d') = length (colors d') \<and>
    (\<forall>k < length (zones d). unat (leds_in_zone (zones d' ! k)) = forced_count colss d k \<and>
      (\<not> recolored colss k \<longrightarrow> zone_slice k d' = zone_slice k d))"
proof -
  let ?n = "length (zones d)" and ?f = "force_zones colss d"
  have layout: "layout_ok d" and total: "(\<Sum>k < ?n. forced_count colss d k) < 2 ^ 32"
    and reads: "\<forall>k < ?n. (zone_leds_count (zones d ! k) \<noteq> 0 \<longrightarrow> leds_in_zone (zones d ! k) \<noteq> 0) \<and>
      zone_offset (zones d) k + unat (zone_leds_count (zones d ! k)) \<le> length (colors d)"
    and kept: "\<forall>k < ?n. \<not> recolored colss k \<longrightarrow> leds_in_zone (zones d ! k) = zone_leds_count (zones d ! k)"
    using assms by (auto simp: forceable_def)
  define saved where "saved k = map (\<lambda>j. colors d ! (zone_offset (zones d) k + j)) [0..<unat (zone_leds_count (zones d ! k))]" for k
  have small: "forced_count colss d k < 2 ^ 32" if "k < ?n" for k
    using member_le_sum [of k "{..<?n}" "forced_count colss d"] that total by simp
  have count: "unat (leds_in_zone (zones ?f ! k)) = forced_count colss d k" if "k < ?n" for k
    using small [OF that] that by (auto simp: force_zones_nth leds_in_forced_zone forced_count_def)
  have "zone_offset (zones ?f) ?n = (\<Sum>k < ?n. forced_count colss d k)"
    by (simp add: zone_offset_def sum_list_sum_nth atLeast0LessThan count)
  then have total': "zone_offset (zones ?f) ?n < 2 ^ 32" using total by simp
  have zs: "map leds_in_zone (zones (relayout ?f)) = map leds_in_zone (zones ?f)" by (simp add: relayout_def SetupColors_def Let_def)
  have ok: "layout_ok (relayout ?f)"
    unfolding relayout_def using total' by (intro layout_ok_SetupColors) simp
  have zones': "length (zones (relayout ?f)) = ?n" using arg_cong [OF zs, of length] by simp
  have count': "leds_in_zone (zones (relayout ?f) ! k) = leds_in_zone (zones ?f ! k)" if "k < ?n" for k
    using arg_cong [OF zs, of "\<lambda>xs. xs ! k"] that zones' by simp
  have leds': "length (leds (relayout ?f)) = length (colors (relayout ?f))"
    using ok zone_offset_cong [OF zs, of ?n] zones'
    by (simp add: layout_ok_def) (simp add: relayout_def SetupColors_def Let_def zone_offset_def)
  let ?P = "\<lambda>k. \<not> recolored colss k"
  have saved: "those (map (saved_colors d) [0..<?n]) = Some (map saved [0..<?n])"
    using saved_colors_defined [OF layout] reads by (intro those_map) (simp add: saved_def)
  have restore: "restore_zones colss (map saved [0..<?n]) (relayout ?f)
      = fold_def (\<lambda>k d. if ?P k then store_colors k (saved k) d else Some d) [0..<?n] (relayout ?f)"
    unfolding restore_zones_def zones' by (rule fold_def_cong) auto
  have slice: "saved k = zone_slice k d" if "k < ?n" "?P k" for k
    using that kept zone_valid_end [of k d] layout
    by (intro nth_equalityI) (auto simp: saved_def zone_slice_def zone_valid_def)
  have "length (saved k) = unat (leds_in_zone (zones (relayout ?f) ! k))" if "k < ?n" "?P k" for k
    using that kept by (auto simp: saved_def count' force_zones_nth)
  then obtain d' where d': "force_layout colss d = Some d'" "layout_ok d'" "zones d' = zones (relayout ?f)"
      "leds d' = leds (relayout ?f)"
      "\<forall>k < ?n. zone_slice k d' = (if k < ?n \<and> ?P k then saved k else zone_slice k (relayout ?f))"
    using store_slices [OF ok, of ?n ?P saved] by (auto simp: force_layout_def saved restore zones')
  have "length (leds d') = length (colors d')"
    using d'(2,3,4) ok leds' by (simp add: layout_ok_def)
  then show ?thesis
    using d' zones' count count' slice by (intro exI [of _ d']) simp
qed

section \<open>Requests\<close>

definition rgb_json :: "RGBColor \<Rightarrow> json" where
  "rgb_json c = JArray [JUnsigned (unat (RGBGetRValue c)), JUnsigned (unat (RGBGetGValue c)), JUnsigned (unat (RGBGetBValue c))]"

definition colors_json :: "RGBColor list \<Rightarrow> json" where
  "colors_json cols = JArray (map rgb_json cols)"

definition plain :: "RGBColor \<Rightarrow> RGBColor" where
  "plain c = c AND 0xFFFFFF"

lemma parse_rgb_json: "parse_rgb (rgb_json c) = Some (plain c)"
proof -
  have "RGBGetRValue c \<le> 255" "RGBGetGValue c \<le> 255" "RGBGetBValue c \<le> 255"
    by (simp_all add: RGBGetRValue_def RGBGetGValue_def RGBGetBValue_def word_and_le1)
  then show ?thesis
    by (simp add: rgb_json_def parse_rgb_def parse_component_def ToRGBColor_components plain_def not_less [symmetric])
qed

lemma parse_colors_json: "parse_rgbs (colors_json cols) = Some (map plain cols)"
  using those_map [of cols "parse_rgb \<circ> rgb_json" plain] by (simp add: parse_rgbs_def colors_json_def parse_rgb_json)

lemma parse_zones_json: "parse_zone_colors True (map colors_json colss) = Inr (map (map plain) colss)"
  by (induction colss) (simp_all add: parse_colors_json, simp_all add: colors_json_def is_array_def)

lemma store_all_slices:
  assumes "layout_ok d" "length colss \<le> length (zones d)"
    and "\<forall>k < length (zones d). recolored colss k \<longrightarrow> length (colss ! k) = unat (leds_in_zone (zones d ! k))"
  shows "\<exists>d'. store_all_colors colss d = Some d' \<and> layout_ok d' \<and> zones d' = zones d \<and>
    (\<forall>k < length (zones d). zone_slice k d' = (if recolored colss k then colss ! k else zone_slice k d))"
proof -
  have "store_all_colors colss d = fold_def (\<lambda>k d. if colss ! k \<noteq> [] then store_colors k (colss ! k) d else Some d) [0..<length colss] d"
    unfolding store_all_colors_def by (rule fold_def_cong) (auto simp: store_colors_def)
  then show ?thesis
    using store_slices [OF assms(1,2), of "\<lambda>k. colss ! k \<noteq> []" "(!) colss"] assms(2,3) by auto
qed


text \<open>On a zone that shows one LED for all of its LEDs (an effects-only zone) at the end of the color buffer,
  \<open>device.setZoneMultipleLed\<close> with the number of colors the zone claims to have writes behind the buffer.
\<close>

theorem effects_zone_overrun:
  assumes "i < length (devices st)" "i < 2 ^ 32" "devices st ! i = d" "layout_ok d"
    and "zones d = zs @ [z]" "length zs < 2 ^ 32" "zone_flags z AND ZONE_FLAG_RESIZE_EFFECTS_ONLY \<noteq> 0"
    and "1 < length cols" "length cols < 2 ^ 32" "zone_leds_count z = of_nat (length cols)"
  shows "HandleRequest env (rpc_request ''device.setZoneMultipleLed''
    [(''deviceIndex'', JUnsigned i), (''zoneIndex'', JUnsigned (length zs)), (''color'', colors_json cols)] n) lb st = None"
proof -
  let ?k = "length zs" and ?o = "zone_offset (zones d) (length zs)"
  have one: "leds_in_zone z = 1"
    using assms(7,8,9,10) by (simp add: leds_in_zone_def word_less_nat_alt)
  then have "zone_colors (zones d ! ?k) = Some ?o" "length (colors d) = ?o + 1"
    using assms(4,5) zone_offset_Suc [of ?k "zones d"] by (auto simp: layout_ok_def)
  then have p: "points_to ?k ?o d" "length (drop ?o (colors d)) < length (map plain cols)"
    using assms(5,8) by (simp_all add: points_to_def)
  have "store_colors ?k (map plain cols) d = None"
    unfolding store_colors_fold by (rule tail.store_all_overrun [OF p])
  moreover have "is_array (colors_json cols)" "\<not> is_empty_array (colors_json cols)"
    using assms(8) by (auto simp: colors_json_def is_array_def is_empty_array_def)
  ultimately show ?thesis
    using assms by (simp add: HandleRequest_request method_lookup SetZoneMultipleLed_def require_def with_force_def parsed_def
      parse_colors_json get_u32_def on_device_def ValidateDeviceIndex_def zone_in_range_def change_def Let_def)
qed

end
