(* ===== verification/Rpc_Samples.thy ===== *)
theory Rpc_Samples
  imports Rpc_Zones Prof_Props
begin

text \<open>
  The properties of the JSON-RPC handler at concrete requests.
\<close>

definition sample_env :: rpc_env where
  "sample_env = \<lparr>cvt = \<lambda>_. 0, device_fn = \<lambda>i dc. Some, rpc_junk = \<lambda>_. 0, junk_segment_type = 0, junk_color = 0, length_error = [],
     version_string = str8 ''1.0''\<rparr>"

definition sample_handler :: rpc_state where
  "sample_handler = new_handler [sample_device, sample_device] sample_storage True True"

lemma handler_device [simp]: "devices sample_handler = [sample_device, sample_device]" "\<not> shutdown_requested sample_handler"
  by (simp_all add: sample_handler_def new_handler_def)

lemma sample_device_simps: "length (leds sample_device) = 3" "colors sample_device = [0, 0, 0]" "layout_ok sample_device"
    "length (zones sample_device) = 2"
proof -
  show "layout_ok sample_device"
    unfolding sample_device_def
    by (rule layout_ok_SetupColors) (simp add: sample_zones_def zone_offset_def leds_in_zone_def)
qed (code_simp, code_simp, code_simp)

theorem rpc_confined_witness:
  "\<exists>st' j. HandleRequest sample_env (rpc_request ''device.setLEDColor'' [(''deviceIndex'', JUnsigned 0), (''ledIndex'', u32_json 1),
      (''color'', color_json 9)] 1) False sample_handler = Some (st', j) \<and>
    devices st' ! 1 = sample_device \<and> colors (devices st' ! 0) = [0, 9, 0]"
proof -
  let ?r = "rpc_request ''device.setLEDColor'' [(''deviceIndex'', JUnsigned 0), (''ledIndex'', u32_json 1), (''color'', color_json 9)] 1"
  obtain st' j where st': "HandleRequest sample_env ?r False sample_handler = Some (st', j)" "colors (devices st' ! 0) = [0, 9, 0]"
    by (simp add: HandleRequest_request method_lookup SetLEDColor_def require_def parsed_def get_u32_def u32_json_def on_device_def
      ValidateDeviceIndex_def sample_device_simps change_def call_dev_def success_def reply_def sample_env_def SetLED_def)
  have "\<not> (\<exists>dev. get_u32 (cvt sample_env) (field ''deviceIndex'' (params_of ?r)) = Inr dev \<and> 1 = unat dev)"
    by (simp add: get_u32_def)
  then have "devices st' ! 1 = devices sample_handler ! 1"
    using rpc_confined [OF st'(1)] by auto
  with st' show ?thesis by auto
qed

theorem shutdown_needs_loopback_witness:
  "\<exists>r. field ''method'' r = jstr ''server.shutdown'' \<and>
    (Request r True \<in> set [Request (rpc_request ''server.shutdown'' [] 1) True, Rescan_ends False []] \<or>
     (\<exists>rs. r \<in> set rs \<and> Batch (JArray rs) True \<in> set [Request (rpc_request ''server.shutdown'' [] 1) True, Rescan_ends False []]))"
proof -
  have "\<exists>st'. fold_def (rpc_step sample_env) [Request (rpc_request ''server.shutdown'' [] 1) True, Rescan_ends False []] sample_handler
      = Some st' \<and> shutdown_requested st'"
    by (simp add: rpc_step_def HandleRequest_request method_lookup ShutdownServer_def reply_def rescan_ends_def)
  then obtain st' where st': "fold_def (rpc_step sample_env) [Request (rpc_request ''server.shutdown'' [] 1) True, Rescan_ends False []]
      sample_handler = Some st'" "shutdown_requested st'" by blast
  show ?thesis by (rule shutdown_needs_loopback [OF st'(1) _ st'(2)]) simp
qed

theorem profiles_unreachable_witness:
  "\<exists>st st'. HandleRequest sample_env (rpc_request ''profile.saveProfile'' [(''profileName'', jstr ''p''), (''includeSizes'', JBool False)] 1)
      False sample_handler = Some (st, CreateResult (jobject [(''success'', JBool True)]) 1) \<and>
    LoadProfileToList (\<lambda>_. 0) (str8 ''p'') False (storage_of st) \<noteq> Some [] \<and>
    HandleRequest sample_env (rpc_request ''profile.loadProfile'' [(''profileName'', jstr ''p'')] 2) False st
      = Some (st, answer 2 (CreateError ERR_PROFILE_NOT_FOUND (str8 ''Profile not found: p'')))"
proof -
  have "list_all saved_ok (kept False [sample_device, sample_device])"
    using sample_restorable by (simp add: kept_def restorable_def)
  moreover have "\<forall>p. writable sample_storage p" by (simp add: sample_storage_def)
  ultimately obtain fs where fs: "SaveProfile (\<lambda>_. 0) (str8 ''p'') False [sample_device, sample_device] sample_storage = Some (True, fs)"
      "LoadProfileToList (\<lambda>_. 0) (str8 ''p'') False fs \<noteq> Some []"
    using profile_saved [OF sample_name(1,2), of False "[sample_device, sample_device]" sample_storage "\<lambda>_. 0" "\<lambda>_. 0"] sample_name(3)
    by (auto simp: kept_def)
  let ?r = "rpc_request ''profile.saveProfile'' [(''profileName'', jstr ''p''), (''includeSizes'', JBool False)] 1"
  have "storage_of sample_handler = sample_storage" "manager_set sample_handler" "websocket_set sample_handler"
    by (simp_all add: sample_handler_def new_handler_def)
  then obtain st where st: "HandleRequest sample_env ?r False sample_handler = Some (st, CreateResult (jobject [(''success'', JBool True)]) 1)"
      "storage_of st = fs"
    using fs(1) by (simp add: HandleRequest_request method_lookup SaveProfile_method_def require_def parsed_def get_string_def jstr_def
      get_bool_def sample_env_def success_def reply_def notify_def announce_def answer_def)
  then have "fold_def (rpc_step sample_env) [Request ?r False] (new_handler [sample_device, sample_device] sample_storage True True) = Some st"
    by (simp add: rpc_step_def flip: sample_handler_def)
  from profiles_unreachable [OF this, of 2 False "str8 ''p''"] st fs(2) show ?thesis
    by (auto simp: jstr_def str8_def)
qed

theorem one_scan_at_a_time_witness:
  "\<exists>st. fold_def (rpc_step sample_env) [Request (rpc_request ''device.rescan'' [] 1) False] (new_handler [] sample_storage True True) = Some st \<and>
    HandleRequest sample_env (rpc_request ''device.rescan'' [] 2) False st
      = Some (st, CreateResult (jobject [(''success'', JBool False), (''message'', jstr ''Rescan already in progress'')]) 2)"
proof -
  obtain st where st: "fold_def (rpc_step sample_env) [Request (rpc_request ''device.rescan'' [] 1) False] (new_handler [] sample_storage True True) = Some st"
      "rescan st = Scanning"
    by (simp add: rpc_step_def HandleRequest_request method_lookup RescanDevices_def reply_def new_handler_def)
  from one_scan_at_a_time [OF st, of 2 False True "[]"] st(1) show ?thesis by blast
qed

theorem set_color_is_shown_witness:
  "\<exists>st1 jd1. HandleRequest sample_env (rpc_request ''device.setLEDColor''
        [(''deviceIndex'', JUnsigned 1), (''ledIndex'', u32_json 2), (''color'', u32_json 0x332211)] 1) False sample_handler
      = Some (st1, CreateResult (jobject [(''success'', JBool True)]) 1) \<and>
    HandleRequest sample_env (rpc_request ''device.getControllerData'' [(''deviceIndex'', JUnsigned 1)] 2) True st1
      = Some (st1, CreateResult (jobject [(''controller'', jd1)]) 2) \<and>
    field ''colors'' jd1 = JArray (map color_json [0, 0, 0x332211])"
proof -
  have "case ControllerToJSON sample_env sample_device of Some (Inr jd) \<Rightarrow> True | _ \<Rightarrow> False" by code_simp
  then obtain jd where jd: "ControllerToJSON sample_env sample_device = Some (Inr jd)"
    by (auto split: option.splits sum.splits)
  from set_color_is_shown [where i = 1 and st = sample_handler and d = sample_device and led = 2 and env = sample_env
      and c = "0x332211" and cj = "u32_json 0x332211" and n = 1 and n' = 2 and lb = False and lb' = True, OF _ _ _ _ _ _ jd]
  show ?thesis by (simp add: sample_device_simps sample_env_def)
qed

text \<open>The second zone gets three LEDs instead of one; the colors of the first are kept.\<close>

definition bright_device :: controller where
  "bright_device = sample_device\<lparr>colors := [1, 2, 3]\<rparr>"


definition strip_device :: controller where
  "strip_device = SetupColors (empty_device\<lparr>zones := [new_zone\<lparr>zone_leds_count := 2, zone_flags := 1\<rparr>]\<rparr>)"

theorem effects_zone_overrun_witness:
  "HandleRequest sample_env (rpc_request ''device.setZoneMultipleLed''
    [(''deviceIndex'', JUnsigned 0), (''zoneIndex'', JUnsigned 0), (''color'', colors_json [1, 2])] 1) False
    (new_handler [strip_device] sample_storage True True) = None"
proof -
  have "map zone_flags (zones strip_device) = [1] \<and> map zone_leds_count (zones strip_device) = [2]" by code_simp
  then obtain z where z: "zones strip_device = [] @ [z]" "zone_flags z = 1" "zone_leds_count z = of_nat (length [1, 2 :: RGBColor])"
    by (cases "zones strip_device") auto
  have "layout_ok strip_device"
    unfolding strip_device_def by (rule layout_ok_SetupColors) (simp add: zone_offset_def leds_in_zone_def)
  from effects_zone_overrun [OF _ _ _ this z(1) _ _ _ _ z(3), of 0 "new_handler [strip_device] sample_storage True True" sample_env 1 False] z(2)
  show ?thesis by (simp add: new_handler_def ZONE_FLAG_RESIZE_EFFECTS_ONLY_def)
qed

end
