(* ===== verification/Ws_Samples.thy ===== *)
theory Ws_Samples
  imports Ws_Props Rpc_Samples
begin

text \<open>
  The properties of the WebSocket server at concrete events.
\<close>

definition local_env :: "json \<Rightarrow> ws_env" where
  "local_env request = \<lparr>rpc_of = sample_env, parse_json = \<lambda>s. Some request, dump = \<lambda>j. Some [],
     remote_endpoint = \<lambda>h. Some (str8 ''127.0.0.1'' @ str8 '':'' @ str8 ''5000''), uri_of = \<lambda>h. Some (str8 ''ws://h/?token=s''),
     listen_error = None, init_error = []\<rparr>"

definition running_ws :: ws_state where
  "running_ws = (new_ws sample_handler True False [])\<lparr>server_online := True, io_running := True, asio_initialised := True,
     clients := [(1, 7), (2, 8)], infos_at := [7 \<mapsto> \<lparr>client_ip = [], client_port = 0, auth_token = [], authenticated = False\<rparr>,
       8 \<mapsto> \<lparr>client_ip = [], client_port = 0, auth_token = [], authenticated = False\<rparr>],
     open_handles := [1]\<rparr>"

lemma local_env_simps [simp]: "dump (local_env r) j = Some []" "parse_json (local_env r) s = Some r" "rpc_of (local_env r) = sample_env"
  by (simp_all add: local_env_def)

lemma local_address [simp]: "GetRemoteIP (local_env r) h = str8 ''127.0.0.1''"
  using rfind_last [of "of_char (CHR '':'')" "str8 ''5000''" "str8 ''127.0.0.1''"]
  by (simp add: GetRemoteIP_def local_env_def) (simp add: str8_def)

lemma local_is_local [simp]: "IsLoopbackAddress (str8 ''127.0.0.1'')"
  by (simp add: IsLoopbackAddress_def)

lemma local_token [simp]: "client_token (local_env r) h = str8 ''s''"
  by (simp add: client_token_def local_env_def) code_simp

lemma Start_runs: "ws_step (local_env r) Start (new_ws hs True req tokens)
    = Some ((new_ws hs True req tokens)\<lparr>server_online := True, io_running := True, asio_initialised := True\<rparr>)"
  by (simp add: ws_step_def StartServer_def new_ws_def local_env_def)

lemma Opened_runs:
  assumes "io_running st" "h \<notin> set (open_handles st)" "clients st = []" "infos_at st a = None" "auth_tokens st = [str8 ''s'']"
  shows "\<exists>ci es. ws_step (local_env r) (Opened h a) st = Some (st\<lparr>open_handles := h # open_handles st,
    infos_at := (infos_at st)(a \<mapsto> ci), clients := [(h, a)], ws_effects := es\<rparr>)"
  using assms by (simp add: ws_step_def OnOpen_def AuthenticateClient_def str8_def on_thread_def broadcast_then_def
      BroadcastNotification_def broadcast_message_def NotifyClientInfoCallbacks_def ws_effect_def Let_def)
    (intro exI, rule refl)

text \<open>A client connects to a server that was started.\<close>

lemma one_ws_client:
  obtains st ci where "fold_def (ws_step (local_env r)) [Start, Opened 1 7] (new_ws sample_handler True req [str8 ''s'']) = Some st"
    "io_running st" "open_handles st = [1]" "clients st = [(1, 7)]" "infos_at st 7 = Some ci"
proof -
  define s0 where "s0 = (new_ws sample_handler True req [str8 ''s''])\<lparr>server_online := True, io_running := True, asio_initialised := True\<rparr>"
  have s0: "io_running s0" "open_handles s0 = []" "clients s0 = []" "infos_at s0 7 = None" "auth_tokens s0 = [str8 ''s'']"
    by (simp_all add: s0_def new_ws_def)
  have start: "ws_step (local_env r) Start (new_ws sample_handler True req [str8 ''s'']) = Some s0"
    unfolding s0_def by (rule Start_runs)
  have fresh: "1 \<notin> set (open_handles s0)" by (simp add: s0(2))
  obtain ci es where "ws_step (local_env r) (Opened 1 7) s0 = Some (s0\<lparr>open_handles := 1 # open_handles s0,
      infos_at := (infos_at s0)(7 \<mapsto> ci), clients := [(1, 7)], ws_effects := es\<rparr>)" (is "_ = Some ?st")
    using Opened_runs [OF s0(1) fresh s0(3,4,5), of r] by (elim exE)
  then have "fold_def (ws_step (local_env r)) [Start, Opened 1 7] (new_ws sample_handler True req [str8 ''s'']) = Some ?st"
    by (simp add: start)
  then show thesis by (rule that) (simp_all add: s0)
qed

theorem ws_clients_alive_witness:
  "\<exists>st. fold_def (ws_step (local_env JNull)) [Start, Opened 1 7] (new_ws sample_handler True True [str8 ''s'']) = Some st \<and>
    clients st = [(1, 7)] \<and> OnClose (local_env JNull) 1 st \<noteq> None \<and> StopServer_ends st \<noteq> None"
proof -
  obtain st where st: "fold_def (ws_step (local_env JNull)) [Start, Opened 1 7] (new_ws sample_handler True True [str8 ''s'']) = Some st"
      "clients st = [(1, 7)]"
    by (rule one_ws_client [of JNull True])
  from ws_clients_alive [OF st(1), of 1 0] st show ?thesis by simp
qed

theorem ws_shutdown_needs_loopback_witness:
  "\<exists>h payload. Message h True payload \<in> set [Start, Opened 1 7, Message 1 True []] \<and>
    IsLoopbackAddress (GetRemoteIP (local_env (rpc_request ''server.shutdown'' [] 1)) h)"
proof -
  let ?r = "rpc_request ''server.shutdown'' [] 1" let ?st0 = "new_ws sample_handler True False [str8 ''s'']"
  obtain st ci where st: "fold_def (ws_step (local_env ?r)) [Start, Opened 1 7] ?st0 = Some st" "io_running st"
      "open_handles st = [1]" "clients st = [(1, 7)]" "infos_at st 7 = Some ci"
    by (rule one_ws_client [of ?r False])
  have "is_shutdown ?r" "value_or (get_int f) ''id'' 0 ?r = Inr 1" for f
    by (simp_all add: is_shutdown_def is_array_def rpc_request_def jobject_def contains_def field_def map_of_str8 value_or_def
      get_int_def get_u32_def int_json_def)
  then obtain st' where "ws_step (local_env ?r) (Message 1 True []) st = Some st'" "Ws_shutdown_scheduled \<in> set (ws_effects st')"
    using st by (auto simp: ws_step_def OnMessage_def touch_client_def answer_shutdown_def SendToClient_def ScheduleShutdown_def
      ws_effect_def on_thread_def Let_def)
  then have run: "fold_def (ws_step (local_env ?r)) ([Start, Opened 1 7] @ [Message 1 True []]) ?st0 = Some st'"
      "Ws_shutdown_scheduled \<in> set (ws_effects st')"
    unfolding fold_def_append st(1) by simp_all
  from ws_shutdown_needs_loopback [OF run(1) _ run(2)] show ?thesis by simp
qed

theorem ws_requests_authenticated_witness:
  "client_token (local_env JNull) 1 \<noteq> [] \<and> client_token (local_env JNull) 1 \<in> set [str8 ''s'']"
proof -
  obtain st ci where st: "fold_def (ws_step (local_env JNull)) [Start, Opened 1 7] (new_ws sample_handler True True [str8 ''s'']) = Some st"
      "io_running st" "open_handles st = [1]" "clients st = [(1, 7)]" "infos_at st 7 = Some ci"
    by (rule one_ws_client [of JNull True])
  let ?st' = "close_handle 1 ''Binary messages not supported'' st"
  have "ws_step (local_env JNull) (Message 1 False []) st = Some ?st'" "open_handles ?st' = []"
    using st by (simp_all add: ws_step_def OnMessage_def touch_client_def on_thread_def close_handle_def ws_effect_def)
  moreover from this(2) have "?st' \<noteq> st" using st(3) by auto
  ultimately show ?thesis using ws_requests_authenticated [OF st(1), of 1 False "[]" ?st'] by simp
qed

lemma running_ws_simps: "io_running running_ws" "asio_initialised running_ws" "\<not> shutdown_requested (handler running_ws)"
    "open_handles running_ws = [1]" "touch_client 1 running_ws = Some ()" "server_online running_ws" "clients running_ws = [(1, 7), (2, 8)]"
    "manager_set (handler running_ws)" "websocket_set (handler running_ws)" "devices (handler running_ws) = [sample_device, sample_device]"
    "storage_of (handler running_ws) = sample_storage"
  by (simp_all add: running_ws_def new_ws_def touch_client_def) (simp_all add: sample_handler_def new_handler_def)

definition bad_shutdown :: json where
  "bad_shutdown = jobject [(''method'', jstr ''server.shutdown''), (''id'', jstr ''x'')]"

lemma bad_shutdown_simps: "is_shutdown bad_shutdown" "\<exists>e. value_or (get_int f) ''id'' 0 bad_shutdown = Inl e"
  by (simp_all add: bad_shutdown_def is_shutdown_def is_array_def jobject_def contains_def field_def map_of_str8 value_or_def
    get_int_def get_u32_def jstr_def type_error_def)

theorem message_ends_thread_iff_witness:
  "\<exists>st'. OnMessage (local_env bad_shutdown) 1 True [] running_ws = Some (st', True) \<and>
    (True \<longleftrightarrow> (\<exists>request. parse_json (local_env bad_shutdown) [] = Some request \<and> is_shutdown request \<and>
      isl (value_or (get_int (cvt (rpc_of (local_env bad_shutdown)))) ''id'' 0 request)))"
proof -
  obtain e where "value_or (get_int (cvt sample_env)) ''id'' 0 bad_shutdown = Inl e" using bad_shutdown_simps(2) by blast
  then have "OnMessage (local_env bad_shutdown) 1 True [] running_ws = Some (running_ws, True)"
    using bad_shutdown_simps(1) by (simp add: OnMessage_def running_ws_simps(5) [simplified] answer_shutdown_def)
  then show ?thesis using message_ends_thread_iff [of "local_env bad_shutdown" 1 "[]" running_ws running_ws True] by simp
qed

theorem bad_shutdown_id_ends_service_witness:
  "\<exists>st1. ws_step (local_env bad_shutdown) (Message 1 True []) running_ws = Some st1 \<and> server_online st1 \<and>
    (\<forall>evs st2. fold_def (ws_step (local_env bad_shutdown)) evs st1 = Some st2 \<longrightarrow> \<not> io_running st2 \<and>
      (\<forall>k is_text text. ws_step (local_env bad_shutdown) (Message k is_text text) st2 = Some st2))"
proof -
  obtain e where "value_or (get_int (cvt sample_env)) ''id'' 0 bad_shutdown = Inl e" using bad_shutdown_simps(2) by blast
  then show ?thesis
    using bad_shutdown_id_ends_service [OF running_ws_simps(1,2,3) _ running_ws_simps(5) _ bad_shutdown_simps(1), where env = "local_env bad_shutdown"]
      running_ws_simps(4,6) by simp
qed

theorem dropped_client_leaks_witness:
  "\<exists>st1 ci. BroadcastNotification (local_env JNull) ''deviceListChanged'' JNull running_ws = (st1, False) \<and>
    map_of (clients st1) 2 = None \<and>
    (\<forall>st2. fold_def (ws_step (local_env JNull)) [Closed 2, Stop_begins, Stop_ends] st1 = Some st2 \<longrightarrow> infos_at st2 8 = Some ci)"
proof -
  obtain ci where ci: "infos_at running_ws 8 = Some ci" by (simp add: running_ws_def)
  have ok: "clients_ok running_ws" by (simp add: clients_ok_def running_ws_def new_ws_def)
  obtain st1 where st1: "BroadcastNotification (local_env JNull) ''deviceListChanged'' JNull running_ws = (st1, False)"
    by (simp add: BroadcastNotification_def)
  have "(2, 8) \<in> set (clients running_ws)" "2 \<notin> set (open_handles running_ws)" by (simp_all add: running_ws_simps)
  note leak = dropped_client_leaks [OF ok this ci st1]
  have "map_of (clients st1) 2 = None" using leak [of "[]"] by simp
  then show ?thesis using st1 leak by blast
qed

theorem loopback_is_ipv4_witness:
  "GetRemoteIP ((local_env JNull)\<lparr>remote_endpoint := \<lambda>h. Some (if h = 1 then str8 ''127.0.0.1'' @ str8 '':'' @ str8 ''80''
      else str8 ''['' @ str8 ''::1'' @ str8 '']'' @ str8 '':'' @ str8 ''80'')\<rparr>) 2 = str8 ''[::1]'' \<and>
    \<not> IsLoopbackAddress (str8 ''[::1]'')"
proof -
  let ?e = "(local_env JNull)\<lparr>remote_endpoint := \<lambda>h. Some (if h = 1 then str8 ''127.0.0.1'' @ str8 '':'' @ str8 ''80''
      else str8 ''['' @ str8 ''::1'' @ str8 '']'' @ str8 '':'' @ str8 ''80'')\<rparr>"
  have "remote_endpoint ?e 1 = Some (str8 ''127.0.0.1'' @ str8 '':'' @ str8 ''80'')"
    "remote_endpoint ?e 2 = Some (str8 ''['' @ str8 ''::1'' @ str8 '']'' @ str8 '':'' @ str8 ''80'')" by simp_all
  moreover have "(of_char (CHR '':'') :: byte) \<notin> set (str8 ''80'')" by (simp add: str8_def)
  ultimately have ip: "GetRemoteIP ?e 2 = str8 ''['' @ str8 ''::1'' @ str8 '']'' \<and> \<not> IsLoopbackAddress (GetRemoteIP ?e 2)"
    using loopback_is_ipv4 by blast
  have "str8 ''['' @ str8 ''::1'' @ str8 '']'' = str8 ''[::1]''" by (simp add: str8_def)
  then show ?thesis using ip by metis
qed

text \<open>Notifications are written as one byte, answers as another.\<close>

definition saving_env :: ws_env where
  "saving_env = (local_env (rpc_request ''profile.saveProfile'' [(''profileName'', JString (str8 ''p'')), (''includeSizes'', JBool False)] 3))
     \<lparr>dump := \<lambda>j. Some (if contains ''params'' j then [1] else [2])\<rparr>"

theorem profile_saved_announced_witness:
  "\<exists>st'. OnMessage saving_env 1 True [] running_ws = Some (st', False) \<and>
    LoadProfileToList (\<lambda>_. 0) (str8 ''p'') False (storage_of (handler st')) =
      Some (map (norm_device 5 new_controller) [sample_device, sample_device]) \<and>
    clients st' = [(1, 7)] \<and> ws_effects st' = [Ws_sent 1 [1], Ws_sent 1 [2]]"
proof -
  have e: "ws_effects running_ws = []" by (simp add: running_ws_def new_ws_def)
  have d: "dump saving_env (notification ''profileSaved'' (jobject [(''profileName'', JString (str8 ''p''))])) = Some [1]"
    "dump saving_env (CreateResult (jobject [(''success'', JBool True)]) 3) = Some [2]"
    by (simp_all add: saving_env_def notification_def CreateResult_def contains_def jobject_def map_of_str8)
  have p: "parse_json saving_env [] =
      Some (rpc_request ''profile.saveProfile'' [(''profileName'', JString (str8 ''p'')), (''includeSizes'', JBool False)] 3)"
    by (simp add: saving_env_def)
  have "list_all saved_ok [sample_device, sample_device]" using sample_restorable by (simp add: restorable_def)
  moreover have "\<forall>p. writable sample_storage p" by (simp add: sample_storage_def)
  ultimately show ?thesis
    using profile_saved_announced [OF d running_ws_simps(5) _ p running_ws_simps(8,9,3) sample_name(1,2), of "\<lambda>_. 0"]
      sample_name(3) by (auto simp: running_ws_simps(4,7,10,11) e)
qed

end
