(* ===== verification/Settings.thy ===== *)
theory Settings
  imports Rpc_Json Prof_Manager
begin

text \<open>
  \<open>SettingsManager.cpp\<close>: the settings of the program, one JSON value that is kept in a file. The text form of JSON is
  third-party code and a parameter. The functions lock a mutex by hand, so an exception between \<open>lock\<close> and
  \<open>unlock\<close> leaves it locked; a later call then never returns (\<open>Blocks\<close>).
\<close>

section \<open>Calls that may throw or block\<close>

datatype 'a call = Returns 'a | Throws cstring | Blocks

definition call_of :: "'a converted \<Rightarrow> 'a call" where
  "call_of x = (case x of Inl e \<Rightarrow> Throws e | Inr v \<Rightarrow> Returns v)"

section \<open>JSON as a store\<close>

text \<open>\<open>clear()\<close> keeps the type of the value.\<close>

fun clear_json :: "json \<Rightarrow> json" where
  "clear_json JNull = JNull"
| "clear_json (JBool b) = JBool False"
| "clear_json (JInteger i) = JInteger 0"
| "clear_json (JUnsigned n) = JUnsigned 0"
| "clear_json (JFloat r) = JFloat 0"
| "clear_json (JString s) = JString []"
| "clear_json (JArray js) = JArray []"
| "clear_json (JObject fs) = JObject []"

text \<open>\<open>j[k] = v\<close>: \<open>null\<close> becomes an object first. The order of the members is not observable here.\<close>

definition json_set :: "string \<Rightarrow> json \<Rightarrow> json \<Rightarrow> json converted" where
  "json_set k v j = (case j of
     JNull \<Rightarrow> Inr (JObject [(str8 k, v)])
   | JObject fs \<Rightarrow> Inr (JObject (AList.update (str8 k) v fs))
   | _ \<Rightarrow> type_error ''305'' ''cannot use operator[] with a string argument with '' j)"

section \<open>The manager\<close>

record settings_manager =
  settings_data :: json
  settings_filename :: cstring
  config_found :: bool
  settings_locked :: bool

definition new_settings :: settings_manager where
  "new_settings = \<lparr>settings_data = JNull, settings_filename = [], config_found = False, settings_locked = False\<rparr>"

definition GetSettings :: "string \<Rightarrow> settings_manager \<Rightarrow> json call" where
  "GetSettings k s = (if settings_locked s then Blocks
     else Returns (if contains k (settings_data s) then field k (settings_data s) else JNull))"

definition SetSettings :: "string \<Rightarrow> json \<Rightarrow> settings_manager \<Rightarrow> settings_manager \<times> unit call" where
  "SetSettings k v s = (if settings_locked s then (s, Blocks) else
     (case json_set k v (settings_data s) of
        Inl e \<Rightarrow> (s\<lparr>settings_locked := True\<rparr>, Throws e)
      | Inr j \<Rightarrow> (s\<lparr>settings_data := j\<rparr>, Returns ())))"

text \<open>\<open>parse\<close> gives the value, or what was read when it throws; that is cleared.\<close>

definition LoadSettings :: "(byte list \<Rightarrow> json + json) \<Rightarrow> storage \<Rightarrow> cstring \<Rightarrow> settings_manager
    \<Rightarrow> settings_manager \<times> unit call" where
  "LoadSettings parse st p s = (if settings_locked s then (s, Blocks) else
     (s\<lparr>settings_filename := p, config_found := read_file st p \<noteq> None,
        settings_data := (case read_file st p of
            None \<Rightarrow> clear_json (settings_data s)
          | Some bs \<Rightarrow> (case parse bs of Inr j \<Rightarrow> j | Inl partial \<Rightarrow> clear_json partial))\<rparr>, Returns ()))"

text \<open>Opening the file empties it; \<open>dump\<close> throws on strings that are not UTF-8.\<close>

definition SaveSettings :: "(json \<Rightarrow> byte list option) \<Rightarrow> settings_manager \<Rightarrow> storage \<Rightarrow> storage call" where
  "SaveSettings dump s st = (if settings_locked s then Blocks else Returns (write_file (settings_filename s)
     (case dump (settings_data s) of Some bs \<Rightarrow> bs | None \<Rightarrow> []) st))"

section \<open>Lemmas\<close>

lemma str8_eq_iff: "str8 a = str8 b \<longleftrightarrow> map (of_char :: char \<Rightarrow> byte) a = map of_char b"
  by (simp add: str8_def)

lemma json_set_get:
  "json_set k v j = Inr j' \<Longrightarrow> contains k j' \<and> field k j' = v"
  by (auto simp: json_set_def contains_def field_def type_error_def update_conv' split: json.splits)

lemma json_set_other:
  "json_set k v j = Inr j' \<Longrightarrow> str8 k' \<noteq> str8 k \<Longrightarrow> contains k' j' = contains k' j \<and> field k' j' = field k' j"
  by (auto simp: json_set_def contains_def field_def type_error_def update_conv' split: json.splits)

lemma json_set_throws: "json_set k v j = Inl e \<Longrightarrow> json_set k' v' j = Inl e"
  by (auto simp: json_set_def type_error_def split: json.splits)

lemma GetSettings_cong: "settings_data s = settings_data s' \<Longrightarrow> settings_locked s = settings_locked s' \<Longrightarrow>
    GetSettings k s = GetSettings k s'"
  by (simp add: GetSettings_def)

lemma read_write_file: "writable st (c_str p) \<Longrightarrow> read_file (write_file p bs st) p = Some bs"
  by (simp add: read_file_def write_file_def update_conv')

end
