(* ===== verification/Res_Devices.thy ===== *)
theory Res_Devices
  imports Settings
begin

text \<open>
  \<open>ResourceManager.cpp\<close>: the lists of devices. Controllers are objects at addresses; \<open>rgb_controllers_hw\<close> are the
  ones this program has detected, \<open>rgb_controllers\<close> is the list the rest of the program sees. A rescan moves the
  detected ones to \<open>rgb_controllers_hw_cleanup_pending\<close>, from where their settings are carried over to the new
  controllers, and deletes them at its end.

  Callbacks, notifications, calls of detectors and requests to other programs are recorded as events, in order. Messages to the log and
  the display of the progress are left out.
\<close>

section \<open>State\<close>

record i2c_bus =
  pci_vendor :: int
  pci_device :: int
  pci_subsystem_vendor :: int
  pci_subsystem_device :: int

record hid_device_info =
  vendor_id :: u16
  product_id :: u16
  usage_page :: u16
  usage :: u16
  interface_number :: int

text \<open>The memory modules of a bus: addresses and JEDEC numbers.\<close>

type_synonym slots = "(byte \<times> u16) list"

text \<open>A call of a detector, with what it is given.\<close>

datatype detector_call = Call_bus nat | Call_i2c string "i2c_bus list" | Call_dimm string i2c_bus slots
  | Call_pci string i2c_bus byte | Call_hid string hid_device_info | Call_wrapped string hid_device_info
  | Call_libusb string hid_device_info | Call_device string | Call_dynamic nat | Call_hook nat

datatype res_event = Ev_device_list | Ev_server_list | Ev_connected nat cstring | Ev_disconnected nat
  | Ev_list_changed nat | Ev_scan_complete nat | Ev_detection_start | Ev_detection_end | Ev_progress | Ev_bus_list
  | Ev_call detector_call | Ev_client_rescan nat | Ev_client_info | Ev_hid_init | Ev_hid_exit | Ev_start_server
  | Ev_start_websocket | Ev_post_options

datatype coroutine = Co_init | Co_detect | Co_hid_exit

text \<open>
  \<open>controllers_at\<close> holds the controllers that are allocated. \<open>detect_locked\<close> tells that \<open>DetectDeviceMutex\<close> is
  held by a scan that will not end, \<open>background_stuck\<close> that the background thread waits forever.
\<close>

record resources =
  controllers_at :: "nat \<Rightarrow> controller option"
  rgb_controllers_sizes :: "controller list"
  rgb_controllers_hw :: "nat list"
  rgb_controllers :: "nat list"
  rgb_controllers_hw_cleanup_pending :: "nat list"
  rgb_controllers_hw_matched :: "nat list"
  detection_prev_size :: nat
  detection_size_entry_used :: "bool list"
  detection_enabled :: bool
  detection_is_required :: bool
  dynamic_detectors_processed :: bool
  initial_detection :: bool
  try_auto_connect :: bool
  start_server :: bool
  apply_post_options :: bool
  init_finished :: bool
  auto_connection_active :: bool
  auto_connection_client :: "nat option"
  network_clients :: "nat list"
  busses :: "i2c_bus list"
  detect_locked :: bool
  scheduled :: "coroutine option"
  background_stuck :: bool
  settings :: settings_manager
  config_files :: storage
  res_events :: "res_event list"

definition emit :: "res_event list \<Rightarrow> resources \<Rightarrow> resources" where
  "emit es st = st\<lparr>res_events := res_events st @ es\<rparr>"

section \<open>The list of devices\<close>

text \<open>\<open>insert(begin() + i, x)\<close> and \<open>erase(begin() + i)\<close>.\<close>

definition insert_index :: "nat \<Rightarrow> 'a \<Rightarrow> 'a list \<Rightarrow> 'a list defined" where
  "insert_index i x xs = (if i \<le> length xs then Some (take i xs @ x # drop i xs) else None)"

definition erase_index :: "nat \<Rightarrow> 'a list \<Rightarrow> 'a list" where
  "erase_index i xs = take i xs @ drop (Suc i) xs"

text \<open>One pass of the loop: the list, and whether the controller was not in it.\<close>

definition place_controller :: "nat \<Rightarrow> 'a \<Rightarrow> 'a list \<Rightarrow> ('a list \<times> bool) defined" where
  "place_controller i p xs = (if i < length xs \<and> xs ! i = p then Some (xs, False)
     else (case first_index (\<lambda>q. q = p) 0 xs of
        Some j \<Rightarrow> map_option (\<lambda>ys. (ys, False)) (insert_index i p (erase_index j xs))
      | None \<Rightarrow> map_option (\<lambda>ys. (ys, True)) (insert_index i p xs)))"

fun insert_hw :: "nat \<Rightarrow> 'a list \<Rightarrow> 'a list \<Rightarrow> ('a list \<times> (nat \<times> 'a) list) defined" where
  "insert_hw i [] xs = Some (xs, [])"
| "insert_hw i (p # ps) xs = do {
     (ys, new) \<leftarrow> place_controller i p xs;
     (zs, added) \<leftarrow> insert_hw (Suc i) ps ys;
     Some (zs, if new then (i, p) # added else added) }"

definition removed_indices :: "'a list \<Rightarrow> 'a list \<Rightarrow> nat list" where
  "removed_indices hw xs = filter (\<lambda>i. xs ! i \<notin> set hw) [0..<length xs]"

definition remove_gone :: "'a list \<Rightarrow> 'a list \<Rightarrow> 'a list" where
  "remove_gone hw xs = fold remove1 (filter (\<lambda>p. p \<notin> set hw) xs) xs"

definition UpdateDeviceList :: "resources \<Rightarrow> resources defined" where
  "UpdateDeviceList st = do {
     (ys, added) \<leftarrow> insert_hw 0 (rgb_controllers_hw st) (rgb_controllers st);
     named \<leftarrow> those (map (\<lambda>(i, p). map_option (\<lambda>d. Ev_connected i (name d)) (controllers_at st p)) added);
     let zs = remove_gone (rgb_controllers_hw st) ys in
     Some (emit ([Ev_device_list, Ev_server_list] @ named @
         map Ev_disconnected (removed_indices (rgb_controllers_hw st) ys) @ [Ev_list_changed (length zs)])
       (st\<lparr>rgb_controllers := zs\<rparr>)) }"

section \<open>Registering a device\<close>

text \<open>The first pending controller that is not matched yet and is the same device.\<close>

fun find_existing :: "(nat \<Rightarrow> controller option) \<Rightarrow> nat list \<Rightarrow> controller \<Rightarrow> nat list \<Rightarrow> nat option defined" where
  "find_existing h matched d [] = Some None"
| "find_existing h matched d (e # es) = (if e \<in> set matched then find_existing h matched d es
     else Option.bind (h e) (\<lambda>old. if same_device old d then Some (Some e) else find_existing h matched d es))"

definition named_mode :: "mode \<Rightarrow> mode \<Rightarrow> bool" where
  "named_mode a b \<longleftrightarrow> mode_name a = mode_name b \<and> mode_value a = mode_value b"

definition restore_active :: "controller \<Rightarrow> controller \<Rightarrow> controller" where
  "restore_active old d = (if 0 \<le> sint (active_mode old) \<and> sint (active_mode old) < int (length (modes old))
     then (case first_index (\<lambda>m. named_mode m (modes old ! unat (active_mode old))) 0 (modes d) of
         Some i \<Rightarrow> d\<lparr>active_mode := of_nat i\<rparr> | None \<Rightarrow> d)
     else d)"

definition restore_mode :: "mode list \<Rightarrow> mode \<Rightarrow> mode" where
  "restore_mode olds m = (case find (\<lambda>y. named_mode m y) olds of
     None \<Rightarrow> m
   | Some y \<Rightarrow> m\<lparr>mode_speed := mode_speed y, mode_brightness := mode_brightness y, mode_direction := mode_direction y,
       mode_color_mode := mode_color_mode y,
       mode_colors := (if length (mode_colors m) = length (mode_colors y) then mode_colors y else mode_colors m)\<rparr>)"

definition restore_state :: "controller \<Rightarrow> controller \<Rightarrow> controller" where
  "restore_state old d = (let d = restore_active old d; d = d\<lparr>modes := map (restore_mode (modes old)) (modes d)\<rparr>
     in if length (colors d) = length (colors old) then d\<lparr>colors := colors old\<rparr> else d)"

definition carry_over :: "nat \<Rightarrow> resources \<Rightarrow> resources defined" where
  "carry_over p st = do {
     d \<leftarrow> controllers_at st p;
     found \<leftarrow> find_existing (controllers_at st) (rgb_controllers_hw_matched st) d (rgb_controllers_hw_cleanup_pending st);
     case found of
       None \<Rightarrow> Some st
     | Some e \<Rightarrow> do {
         old \<leftarrow> controllers_at st e;
         Some (st\<lparr>rgb_controllers_hw_matched := rgb_controllers_hw_matched st @ [e],
           controllers_at := (controllers_at st)(p \<mapsto> restore_state old d)\<rparr>) } }"

text \<open>
  \<open>rz p\<close> is the \<open>ResizeZone\<close> of the controller at \<open>p\<close>. The flags of the sizes are a vector that only a scan
  brings to the length of the sizes; reading behind it is undefined.
\<close>

definition load_sizes_of :: "(nat \<Rightarrow> u32 \<Rightarrow> u32 \<Rightarrow> controller \<Rightarrow> controller defined) \<Rightarrow> nat \<Rightarrow> resources
    \<Rightarrow> resources defined" where
  "load_sizes_of rz p st = (let temps = rgb_controllers_sizes st; used = detection_size_entry_used st in do {
     d \<leftarrow> controllers_at st p;
     if length temps \<le> length used \<or> (\<exists>i \<in> set [0..<length used]. \<not> used ! i \<and> same_device (temps ! i) d)
     then do {
       (b, used, d) \<leftarrow> LoadDeviceFromListWithOptions (rz p) temps True False used d;
       Some (st\<lparr>detection_size_entry_used := used, controllers_at := (controllers_at st)(p \<mapsto> d)\<rparr>) }
     else None })"

definition mark_local :: "controller \<Rightarrow> controller" where
  "mark_local d = d\<lparr>flags := (flags d AND NOT CONTROLLER_FLAG_REMOTE) OR CONTROLLER_FLAG_LOCAL\<rparr>"

definition own_device :: "nat \<Rightarrow> resources \<Rightarrow> resources defined" where
  "own_device p st = do {
     d \<leftarrow> controllers_at st p;
     Some (st\<lparr>controllers_at := (controllers_at st)(p \<mapsto> mark_local d),
       rgb_controllers_hw := rgb_controllers_hw st @ [p]\<rparr>) }"

definition list_new_devices :: "(nat \<Rightarrow> u32 \<Rightarrow> u32 \<Rightarrow> controller \<Rightarrow> controller defined) \<Rightarrow> resources
    \<Rightarrow> resources defined" where
  "list_new_devices rz st = (if length (rgb_controllers_hw st) \<noteq> detection_prev_size st
     then Option.bind (fold_def (load_sizes_of rz) (drop (detection_prev_size st) (rgb_controllers_hw st)) st) UpdateDeviceList
     else Some st)"

definition RegisterRGBController :: "(nat \<Rightarrow> u32 \<Rightarrow> u32 \<Rightarrow> controller \<Rightarrow> controller defined) \<Rightarrow> nat \<Rightarrow> resources
    \<Rightarrow> resources defined" where
  "RegisterRGBController rz p st = do {
     st \<leftarrow> (if rgb_controllers_hw_cleanup_pending st \<noteq> [] then carry_over p st else Some st);
     st \<leftarrow> own_device p st;
     st \<leftarrow> list_new_devices rz st;
     UpdateDeviceList (st\<lparr>detection_prev_size := length (rgb_controllers_hw st)\<rparr>) }"

definition UnregisterRGBController :: "nat \<Rightarrow> resources \<Rightarrow> resources defined" where
  "UnregisterRGBController p st = do {
     d \<leftarrow> controllers_at st p;
     UpdateDeviceList (st\<lparr>rgb_controllers_hw := remove1 p (rgb_controllers_hw st),
       rgb_controllers := remove1 p (rgb_controllers st)\<rparr>) }"

section \<open>Network clients\<close>

definition RegisterNetworkClient :: "nat \<Rightarrow> resources \<Rightarrow> resources" where
  "RegisterNetworkClient c st = st\<lparr>network_clients := network_clients st @ [c]\<rparr>"

text \<open>A client that lists the controllers of its server, and one that takes them back (\<open>NetworkClient.cpp\<close>).\<close>

definition client_lists :: "nat list \<Rightarrow> resources \<Rightarrow> resources" where
  "client_lists ps st = emit [Ev_client_info, Ev_device_list] (st\<lparr>rgb_controllers := rgb_controllers st @ ps\<rparr>)"

definition client_withdraws :: "nat list \<Rightarrow> resources \<Rightarrow> resources" where
  "client_withdraws ps st = st\<lparr>rgb_controllers := fold remove1 ps (rgb_controllers st),
     controllers_at := (\<lambda>p. if p \<in> set ps then None else controllers_at st p)\<rparr>"

definition UnregisterNetworkClient :: "nat \<Rightarrow> nat list \<Rightarrow> resources \<Rightarrow> resources defined" where
  "UnregisterNetworkClient c ps st = UpdateDeviceList (client_withdraws ps
     (st\<lparr>network_clients := remove1 c (network_clients st)\<rparr>))"

section \<open>Around a scan\<close>

text \<open>A coroutine that is scheduled replaces one that has not been started yet.\<close>

definition schedule_coroutine :: "coroutine \<Rightarrow> resources \<Rightarrow> resources" where
  "schedule_coroutine co st = st\<lparr>scheduled := Some co\<rparr>"

definition HidExitCoroutine :: "resources \<Rightarrow> resources" where
  "HidExitCoroutine = emit [Ev_hid_exit]"

text \<open>\<open>bg\<close> tells whether the caller is the background thread, which runs coroutines at once.\<close>

definition Cleanup :: "bool \<Rightarrow> resources \<Rightarrow> resources \<times> unit call" where
  "Cleanup bg st = (if detect_locked st then (st, Blocks) else
     let st = st\<lparr>rgb_controllers_hw_cleanup_pending :=
              (if rgb_controllers_hw_cleanup_pending st = [] then rgb_controllers_hw st
               else rgb_controllers_hw_cleanup_pending st),
            rgb_controllers_hw_matched := [], rgb_controllers_hw := [], detection_prev_size := 0, busses := []\<rparr>
     in (if bg then HidExitCoroutine st else schedule_coroutine Co_hid_exit st, Returns ()))"

text \<open>The pending controllers that are not listed are deleted; deleting one twice is undefined.\<close>

fun delete_unlisted :: "nat list \<Rightarrow> nat list \<Rightarrow> (nat \<Rightarrow> controller option) \<Rightarrow> (nat \<Rightarrow> controller option) defined" where
  "delete_unlisted ls [] h = Some h"
| "delete_unlisted ls (p # ps) h = (if p \<in> set ls then delete_unlisted ls ps h
     else if h p = None then None else delete_unlisted ls ps (h(p := None)))"

definition ProcessPostDetection :: "resources \<Rightarrow> resources defined" where
  "ProcessPostDetection st = do {
     h \<leftarrow> delete_unlisted (rgb_controllers st) (rgb_controllers_hw_cleanup_pending st) (controllers_at st);
     Some (emit [Ev_progress, Ev_detection_end, Ev_scan_complete (length (rgb_controllers st))]
       (st\<lparr>detection_is_required := False, controllers_at := h, rgb_controllers_hw_cleanup_pending := [],
          rgb_controllers_hw_matched := []\<rparr>)) }"

end
