(* ===== verification/Res_Detect.thy ===== *)
theory Res_Detect
  imports Res_Devices
begin

text \<open>
  \<open>ResourceManager.cpp\<close>, continued: detecting devices. The detectors of the vendors, the enumeration of HID devices
  and reading the memory modules are parameters. A detector is called with what it is given, and may register
  controllers, meet a stop of the scan, or throw. An exception leaves the coroutine, and \<open>DetectDeviceMutex\<close>, locked by
  hand, stays locked.
\<close>

section \<open>Detectors\<close>

record hid_block =
  block_name :: string
  vid :: u16
  pid :: u16
  want_interface :: int
  want_usage_page :: int
  want_usage :: int

text \<open>\<open>BasicHIDBlock::compare\<close> where \<open>hidapi\<close> reports usages (\<open>USE_HID_USAGE\<close>); -1 stands for any.\<close>

definition compare_block :: "hid_block \<Rightarrow> hid_device_info \<Rightarrow> bool" where
  "compare_block b info \<longleftrightarrow> vid b = vendor_id info \<and> pid b = product_id info \<and>
     (want_usage_page b = -1 \<or> want_usage_page b = uint (usage_page info)) \<and>
     (want_usage b = -1 \<or> want_usage b = uint (usage info)) \<and>
     (want_interface b = -1 \<or> want_interface b = interface_number info)"

record pci_block =
  pci_name :: string
  ven_id :: u16
  dev_id :: u16
  subven_id :: u16
  subdev_id :: u16
  i2c_addr :: byte

record dimm_block =
  dimm_name :: string
  jedec_id :: u16
  dimm_type :: byte

record detectors =
  pre_detection_hooks :: nat
  dynamic_detectors :: nat
  i2c_bus_detectors :: nat
  i2c_device_detectors :: "string list"
  i2c_dimm_device_detectors :: "dimm_block list"
  i2c_pci_device_detectors :: "pci_block list"
  hid_device_detectors :: "hid_block list"
  hid_wrapped_device_detectors :: "hid_block list"
  device_detectors :: "string list"

text \<open>
  What a call of a detector does: the controllers it creates and registers, the busses it registers (only the
  detectors of busses do), whether somebody has asked to stop the scan meanwhile, and the exception it throws, if any.
  Hooks and dynamic detectors register more detectors; \<open>detectors\<close> are the ones that are there afterwards.
\<close>

record detected =
  new_controllers :: "(nat \<times> controller) list"
  new_busses :: "i2c_bus list"
  stop_asked :: bool
  thrown :: "cstring option"

text \<open>
  The outside: the detectors, HID devices by vendor and product (0 for all), the devices of \<open>libusb\<close> where that library
  is used, memory modules by bus, address and the type met so far, \<open>ResizeZone\<close>, JSON as text,
  the client that reaches a local server, if one does, a new client, and whether the WebSocket server is enabled.
\<close>

record res_env =
  run_detector :: "detector_call \<Rightarrow> resources \<Rightarrow> detected"
  hid_enumerate :: "u16 \<Rightarrow> u16 \<Rightarrow> hid_device_info list"
  libusb_devices :: "hid_device_info list"
  read_spd :: "i2c_bus \<Rightarrow> byte \<Rightarrow> byte \<Rightarrow> (byte \<times> u16) option"
  resize_zone :: "nat \<Rightarrow> u32 \<Rightarrow> u32 \<Rightarrow> controller \<Rightarrow> controller defined"
  dump_settings :: "json \<Rightarrow> byte list option"
  local_client :: "resources \<Rightarrow> nat option"
  new_client :: "resources \<Rightarrow> nat"
  websocket_enabled :: bool

section \<open>Parts of a scan\<close>

text \<open>A part of a scan runs on the state and returns, throws or blocks; undefined behaviour is \<open>None\<close>.\<close>

type_synonym 'a scan = "resources \<Rightarrow> (resources \<times> 'a call) defined"

definition done_scan :: "'a \<Rightarrow> 'a scan" where
  "done_scan v st = Some (st, Returns v)"

definition then_scan :: "'a scan \<Rightarrow> ('a \<Rightarrow> 'b scan) \<Rightarrow> 'b scan" where
  "then_scan f g st = Option.bind (f st) (\<lambda>(st, r). case r of
     Returns v \<Rightarrow> g v st | Throws e \<Rightarrow> Some (st, Throws e) | Blocks \<Rightarrow> Some (st, Blocks))"

definition pure_scan :: "'a call \<Rightarrow> 'a scan" where
  "pure_scan r st = Some (st, r)"

definition adjust :: "(resources \<Rightarrow> resources) \<Rightarrow> unit scan" where
  "adjust f st = Some (f st, Returns ())"

definition attempt :: "(resources \<Rightarrow> resources defined) \<Rightarrow> unit scan" where
  "attempt f st = map_option (\<lambda>st. (st, Returns ())) (f st)"

fun scan_each :: "('a \<Rightarrow> unit scan) \<Rightarrow> 'a list \<Rightarrow> unit scan" where
  "scan_each f [] = done_scan ()"
| "scan_each f (x # xs) = then_scan (f x) (\<lambda>_. scan_each f xs)"

text \<open>A loop with \<open>detection_is_required.load()\<close> in its condition.\<close>

fun while_required :: "('a \<Rightarrow> unit scan) \<Rightarrow> 'a list \<Rightarrow> unit scan" where
  "while_required f [] = done_scan ()"
| "while_required f (x # xs) = (\<lambda>st. if detection_is_required st
     then then_scan (f x) (\<lambda>_. while_required f xs) st else done_scan () st)"

definition only_if :: "bool \<Rightarrow> unit scan \<Rightarrow> unit scan" where
  "only_if b f = (if b then f else done_scan ())"

section \<open>Running a detector\<close>

definition create_controller :: "res_env \<Rightarrow> nat \<times> controller \<Rightarrow> resources \<Rightarrow> resources defined" where
  "create_controller env pd st = RegisterRGBController (resize_zone env) (fst pd)
     (st\<lparr>controllers_at := (controllers_at st)(fst pd \<mapsto> snd pd)\<rparr>)"

definition call_detector :: "res_env \<Rightarrow> detector_call \<Rightarrow> unit scan" where
  "call_detector env c st = (let r = run_detector env c st in
     then_scan (adjust (emit [Ev_call c])) (\<lambda>_. then_scan (attempt (fold_def (create_controller env) (new_controllers r)))
     (\<lambda>_. then_scan (adjust (\<lambda>st. st\<lparr>busses := busses st @ (case c of Call_bus i \<Rightarrow> new_busses r | _ \<Rightarrow> []),
          detection_is_required := detection_is_required st \<and> \<not> stop_asked r\<rparr>))
     (\<lambda>_. pure_scan (case thrown r of None \<Rightarrow> Returns () | Some e \<Rightarrow> Throws e)))) st)"

text \<open>Whether a detector is enabled: it is, unless the settings say otherwise.\<close>

definition detector_enabled :: "json \<Rightarrow> string \<Rightarrow> bool converted" where
  "detector_enabled j n = (if contains ''detectors'' j \<and> contains n (field ''detectors'' j)
     then get_bool (field n (field ''detectors'' j)) else Inr True)"

definition if_enabled :: "json \<Rightarrow> string \<Rightarrow> unit scan \<Rightarrow> unit scan" where
  "if_enabled j n f = then_scan (pure_scan (call_of (detector_enabled j n)))
     (\<lambda>b. only_if b (then_scan (adjust (emit [Ev_progress])) (\<lambda>_. f)))"

section \<open>The kinds of detectors\<close>

definition detect_busses :: "res_env \<Rightarrow> detectors \<Rightarrow> unit scan" where
  "detect_busses env ds = while_required (\<lambda>i. then_scan (call_detector env (Call_bus i)) (\<lambda>_. adjust (emit [Ev_bus_list])))
     [0..<i2c_bus_detectors ds]"

definition detect_i2c :: "res_env \<Rightarrow> detectors \<Rightarrow> json \<Rightarrow> unit scan" where
  "detect_i2c env ds j = while_required (\<lambda>n. if_enabled j n (\<lambda>st. call_detector env (Call_i2c n (busses st)) st))
     (i2c_device_detectors ds)"

definition IsAnyDimmDetectorEnabled :: "detectors \<Rightarrow> json \<Rightarrow> resources \<Rightarrow> bool" where
  "IsAnyDimmDetectorEnabled ds j st \<longleftrightarrow> detection_is_required st \<and>
     (\<exists>b \<in> set (i2c_dimm_device_detectors ds). contains ''detectors'' j \<and> contains (dimm_name b) (field ''detectors'' j) \<and>
        field (dimm_name b) (field ''detectors'' j) = JBool True)"

definition intel_smbus :: "int list" where
  "intel_smbus = [0x3A30, 0xA123, 0x2085, 0xA2A3, 0xA323, 0x06A3, 0xA3A3, 0x43A3, 0x7AA3, 0x7A23, 0x7F23]"

definition dram_smbus :: "i2c_bus \<Rightarrow> bool" where
  "dram_smbus b \<longleftrightarrow> pci_vendor b = 0x1022 \<and> pci_device b = 0x790B \<or>
     pci_vendor b = 0x8086 \<and> pci_device b \<in> set intel_smbus"

fun read_slots :: "(byte \<Rightarrow> byte \<Rightarrow> (byte \<times> u16) option) \<Rightarrow> byte \<Rightarrow> byte list \<Rightarrow> byte \<times> slots" where
  "read_slots rd ty [] = (ty, [])"
| "read_slots rd ty (a # as) = (case rd a ty of
     None \<Rightarrow> read_slots rd ty as
   | Some (ty, jedec) \<Rightarrow> (let (ty, ss) = read_slots rd ty as in (ty, (a, jedec) # ss)))"

definition spd_addresses :: "byte list" where
  "spd_addresses = [0x50, 0x51, 0x52, 0x53, 0x54, 0x55, 0x56, 0x57]"

definition is_jedec_in_slots :: "slots \<Rightarrow> u16 \<Rightarrow> bool" where
  "is_jedec_in_slots ss jedec \<longleftrightarrow> (\<exists>s \<in> set ss. snd s = jedec)"

definition slots_with_jedec :: "slots \<Rightarrow> u16 \<Rightarrow> slots" where
  "slots_with_jedec ss jedec = filter (\<lambda>s. snd s = jedec) ss"

definition detect_dimm_bus :: "res_env \<Rightarrow> detectors \<Rightarrow> json \<Rightarrow> i2c_bus \<Rightarrow> unit scan" where
  "detect_dimm_bus env ds j b = only_if (dram_smbus b) (let (ty, ss) = read_slots (read_spd env b) 0 spd_addresses in
     while_required (\<lambda>blk. only_if (dimm_type blk = ty \<and> is_jedec_in_slots ss (jedec_id blk))
         (if_enabled j (dimm_name blk)
            (call_detector env (Call_dimm (dimm_name blk) b (slots_with_jedec ss (jedec_id blk))))))
       (i2c_dimm_device_detectors ds))"

fun detect_dimms_on :: "res_env \<Rightarrow> detectors \<Rightarrow> json \<Rightarrow> i2c_bus list \<Rightarrow> unit scan" where
  "detect_dimms_on env ds j [] = done_scan ()"
| "detect_dimms_on env ds j (b # bs) = (\<lambda>st. if IsAnyDimmDetectorEnabled ds j st
     then then_scan (detect_dimm_bus env ds j b) (\<lambda>_. detect_dimms_on env ds j bs) st else done_scan () st)"

definition detect_dimms :: "res_env \<Rightarrow> detectors \<Rightarrow> json \<Rightarrow> unit scan" where
  "detect_dimms env ds j = then_scan (adjust (emit [Ev_progress])) (\<lambda>_ st. detect_dimms_on env ds j (busses st) st)"

definition pci_matches :: "pci_block \<Rightarrow> i2c_bus \<Rightarrow> bool" where
  "pci_matches blk b \<longleftrightarrow> pci_vendor b = uint (ven_id blk) \<and> pci_device b = uint (dev_id blk) \<and>
     pci_subsystem_vendor b = uint (subven_id blk) \<and> pci_subsystem_device b = uint (subdev_id blk)"

definition detect_pci :: "res_env \<Rightarrow> detectors \<Rightarrow> json \<Rightarrow> unit scan" where
  "detect_pci env ds j = while_required (\<lambda>blk. if_enabled j (pci_name blk)
     (\<lambda>st. scan_each (\<lambda>b. only_if (pci_matches blk b) (call_detector env (Call_pci (pci_name blk) b (i2c_addr blk)))) (busses st) st))
     (i2c_pci_device_detectors ds)"

text \<open>One HID device against one detector; \<open>call\<close> tells how the detector is called.\<close>

definition try_hid :: "res_env \<Rightarrow> json \<Rightarrow> (string \<Rightarrow> hid_device_info \<Rightarrow> detector_call) \<Rightarrow> hid_device_info \<Rightarrow> hid_block
    \<Rightarrow> unit scan" where
  "try_hid env j call info blk = only_if (compare_block blk info)
     (if_enabled j (block_name blk) (call_detector env (call (block_name blk) info)))"

definition detect_hid_safe :: "res_env \<Rightarrow> detectors \<Rightarrow> json \<Rightarrow> unit scan" where
  "detect_hid_safe env ds j = while_required (\<lambda>blk. scan_each (\<lambda>info. try_hid env j Call_hid info blk)
     (hid_enumerate env (vid blk) (pid blk))) (hid_device_detectors ds)"

definition detect_hid_all :: "res_env \<Rightarrow> detectors \<Rightarrow> json \<Rightarrow> unit scan" where
  "detect_hid_all env ds j = scan_each (\<lambda>info. then_scan (adjust (emit [Ev_progress]))
     (\<lambda>_. then_scan (while_required (try_hid env j Call_hid info) (hid_device_detectors ds))
     (\<lambda>_. while_required (try_hid env j Call_wrapped info) (hid_wrapped_device_detectors ds)))) (hid_enumerate env 0 0)"

definition detect_libusb :: "res_env \<Rightarrow> detectors \<Rightarrow> json \<Rightarrow> unit scan" where
  "detect_libusb env ds j = scan_each (\<lambda>info. then_scan (adjust (emit [Ev_progress]))
     (\<lambda>_. while_required (try_hid env j Call_libusb info) (hid_wrapped_device_detectors ds))) (libusb_devices env)"

definition detect_others :: "res_env \<Rightarrow> detectors \<Rightarrow> json \<Rightarrow> unit scan" where
  "detect_others env ds j = while_required (\<lambda>n. if_enabled j n (call_detector env (Call_device n))) (device_detectors ds)"

section \<open>A scan\<close>

text \<open>\<open>if(j.contains(k)) x = j[k]\<close>.\<close>

definition optional_setting :: "(json \<Rightarrow> 'a converted) \<Rightarrow> string \<Rightarrow> 'a \<Rightarrow> json \<Rightarrow> 'a converted" where
  "optional_setting get k d j = (if contains k j then get (field k j) else Inr d)"

definition run_detectors :: "res_env \<Rightarrow> detectors \<Rightarrow> json \<Rightarrow> bool \<Rightarrow> unit scan" where
  "run_detectors env ds j safe = then_scan (detect_busses env ds)
     (\<lambda>_. then_scan (detect_i2c env ds j)
     (\<lambda>_. then_scan (detect_dimms env ds j)
     (\<lambda>_. then_scan (detect_pci env ds j)
     (\<lambda>_. then_scan (if safe then detect_hid_safe env ds j else detect_hid_all env ds j)
     (\<lambda>_. then_scan (detect_libusb env ds j)
     (\<lambda>_. detect_others env ds j))))))"

definition reset_sizes_used :: "resources \<Rightarrow> resources" where
  "reset_sizes_used st = st\<lparr>detection_size_entry_used := replicate (length (rgb_controllers_sizes st)) False\<rparr>"

text \<open>The delay of the first detection is read and waited for; 0 stands for the number a \<open>double\<close> out of range becomes.\<close>

definition scan_with :: "res_env \<Rightarrow> detectors \<Rightarrow> json \<Rightarrow> unit scan" where
  "scan_with env ds j = then_scan (pure_scan (call_of (optional_setting get_bool ''hid_safe_mode'' False j)))
     (\<lambda>safe. then_scan (pure_scan (call_of (optional_setting (get_u32 (\<lambda>_. 0)) ''initial_detection_delay_ms'' 0 j)))
     (\<lambda>_. then_scan (adjust (\<lambda>st. reset_sizes_used (st\<lparr>initial_detection := False\<rparr>)))
     (\<lambda>_. then_scan (run_detectors env ds j safe)
     (\<lambda>_. attempt ProcessPostDetection))))"

definition scan_body :: "res_env \<Rightarrow> detectors \<Rightarrow> unit scan" where
  "scan_body env ds st = then_scan (pure_scan (GetSettings ''Detectors'' (settings st))) (scan_with env ds) st"

definition DetectDevicesCoroutine :: "res_env \<Rightarrow> detectors \<Rightarrow> unit scan" where
  "DetectDevicesCoroutine env ds st = (if detect_locked st then Some (st, Blocks) else
     then_scan (scan_body env ds) (\<lambda>_. adjust (\<lambda>st. st\<lparr>detect_locked := False\<rparr>)) (st\<lparr>detect_locked := True\<rparr>))"

definition StopDeviceDetection :: "resources \<Rightarrow> resources" where
  "StopDeviceDetection st = st\<lparr>detection_is_required := False\<rparr>"

text \<open>Whether the last scan found another set of devices than the one before; only the log depends on it.\<close>

definition devices_changed :: "resources \<Rightarrow> bool" where
  "devices_changed st \<longleftrightarrow> length (rgb_controllers_hw st) \<noteq> length (rgb_controllers_hw_cleanup_pending st) \<or>
     length (rgb_controllers_hw_matched st) \<noteq> length (rgb_controllers_hw st)"

section \<open>Before a scan\<close>

text \<open>A detector without an entry is entered as enabled.\<close>

definition add_detector_setting :: "string \<Rightarrow> json \<times> bool \<Rightarrow> (json \<times> bool) converted" where
  "add_detector_setting n js = (let (j, save) = js in
     if contains ''detectors'' j \<and> contains n (field ''detectors'' j) then Inr (j, save) else
       conv_bind (json_set n (JBool True) (field ''detectors'' j)) (\<lambda>ds.
       conv_bind (json_set ''detectors'' ds j) (\<lambda>j. Inr (j, True))))"

fun add_detector_settings :: "string list \<Rightarrow> json \<times> bool \<Rightarrow> (json \<times> bool) converted" where
  "add_detector_settings [] js = Inr js"
| "add_detector_settings (n # ns) js = conv_bind (add_detector_setting n js) (add_detector_settings ns)"

definition detector_names :: "detectors \<Rightarrow> string list" where
  "detector_names ds = i2c_device_detectors ds @ map dimm_name (i2c_dimm_device_detectors ds) @
     map pci_name (i2c_pci_device_detectors ds) @ map block_name (hid_device_detectors ds) @
     map block_name (hid_wrapped_device_detectors ds) @ device_detectors ds"

definition save_detector_settings :: "res_env \<Rightarrow> json \<Rightarrow> unit scan" where
  "save_detector_settings env j st = (let (s, r) = SetSettings ''Detectors'' j (settings st); st = st\<lparr>settings := s\<rparr>
     in case r of
       Returns u \<Rightarrow> (case SaveSettings (dump_settings env) s (config_files st) of
           Returns f \<Rightarrow> Some (st\<lparr>config_files := f\<rparr>, Returns ())
         | Throws e \<Rightarrow> Some (st, Throws e) | Blocks \<Rightarrow> Some (st, Blocks))
     | _ \<Rightarrow> Some (st, r))"

definition UpdateDetectorSettings :: "res_env \<Rightarrow> detectors \<Rightarrow> unit scan" where
  "UpdateDetectorSettings env ds st = then_scan (pure_scan (GetSettings ''Detectors'' (settings st)))
     (\<lambda>j. then_scan (pure_scan (call_of (add_detector_settings (detector_names ds) (j, False))))
     (\<lambda>js. only_if (snd js) (save_detector_settings env (fst js)))) st"

definition ProcessPreDetectionHooks :: "res_env \<Rightarrow> detectors \<Rightarrow> unit scan" where
  "ProcessPreDetectionHooks env ds = scan_each (\<lambda>i. call_detector env (Call_hook i)) [0..<pre_detection_hooks ds]"

definition ProcessDynamicDetectors :: "res_env \<Rightarrow> detectors \<Rightarrow> unit scan" where
  "ProcessDynamicDetectors env ds = then_scan (scan_each (\<lambda>i. call_detector env (Call_dynamic i)) [0..<dynamic_detectors ds])
     (\<lambda>_. adjust (\<lambda>st. st\<lparr>dynamic_detectors_processed := True\<rparr>))"

definition pre_clean :: "bool \<Rightarrow> bool scan" where
  "pre_clean bg = then_scan (adjust (emit [Ev_progress]))
     (\<lambda>_. then_scan (\<lambda>st. Some (Cleanup bg st))
     (\<lambda>_. then_scan (attempt UpdateDeviceList)
     (\<lambda>_. then_scan (adjust (\<lambda>st. emit [Ev_hid_init] (st\<lparr>detection_is_required := True\<rparr>))) (\<lambda>_. done_scan True))))"

definition prepare_scan :: "res_env \<Rightarrow> detectors \<Rightarrow> unit scan" where
  "prepare_scan env ds = then_scan (ProcessPreDetectionHooks env ds)
     (\<lambda>_. then_scan (\<lambda>st. only_if (\<not> dynamic_detectors_processed st) (ProcessDynamicDetectors env ds) st)
     (\<lambda>_. then_scan (adjust (emit [Ev_detection_start]))
     (\<lambda>_. UpdateDetectorSettings env ds)))"

definition ProcessPreDetection :: "res_env \<Rightarrow> detectors \<Rightarrow> bool \<Rightarrow> bool scan" where
  "ProcessPreDetection env ds bg = then_scan (prepare_scan env ds)
     (\<lambda>_ st. if detection_enabled st \<and> \<not> detection_is_required st then pre_clean bg st else done_scan False st)"

text \<open>\<open>DetectDevices\<close> and \<open>RescanDevices\<close> run on the thread of the caller; the scan is scheduled.\<close>

definition DetectDevices :: "res_env \<Rightarrow> detectors \<Rightarrow> unit scan" where
  "DetectDevices env ds = then_scan (ProcessPreDetection env ds False)
     (\<lambda>b. then_scan (only_if b (adjust (schedule_coroutine Co_detect)))
     (\<lambda>_ st. only_if (\<not> detection_enabled st) (attempt ProcessPostDetection) st))"

definition forward_rescan :: "resources \<Rightarrow> resources" where
  "forward_rescan st = (case (auto_connection_active st, auto_connection_client st) of
     (True, Some c) \<Rightarrow> emit [Ev_client_rescan c] st
   | _ \<Rightarrow> if \<not> detection_enabled st \<and> length (network_clients st) = 1
          then emit [Ev_client_rescan (hd (network_clients st))] st else st)"

definition RescanDevices_res :: "res_env \<Rightarrow> detectors \<Rightarrow> unit scan" where
  "RescanDevices_res env ds = then_scan (adjust forward_rescan) (\<lambda>_. DetectDevices env ds)"

end
