(* ===== verification/Res_Start.thy ===== *)
theory Res_Start
  imports Res_Detect
begin

text \<open>
  \<open>ResourceManager.cpp\<close>, continued: the start of the program and the background thread, which runs the start,
  the scans and the release of the HID library one at a time and swallows their exceptions. Then the runs of the
  resource manager, in which all of this is interleaved with requests for scans, with plugins that
  withdraw controllers, and with network clients.
\<close>

section \<open>Start\<close>

definition new_resources :: "settings_manager \<Rightarrow> storage \<Rightarrow> controller list \<Rightarrow> resources" where
  "new_resources s fs sizes = \<lparr>controllers_at = Map.empty, rgb_controllers_sizes = sizes, rgb_controllers_hw = [],
     rgb_controllers = [], rgb_controllers_hw_cleanup_pending = [], rgb_controllers_hw_matched = [],
     detection_prev_size = 0, detection_size_entry_used = [], detection_enabled = True, detection_is_required = False,
     dynamic_detectors_processed = False, initial_detection = True, try_auto_connect = False, start_server = False,
     apply_post_options = False,
     init_finished = False, auto_connection_active = False, auto_connection_client = None, network_clients = [],
     busses = [], detect_locked = False, scheduled = None, background_stuck = False, settings = s, config_files = fs,
     res_events = []\<rparr>"

definition Initialize :: "bool \<Rightarrow> bool \<Rightarrow> bool \<Rightarrow> bool \<Rightarrow> resources \<Rightarrow> resources" where
  "Initialize auto detect server post st = schedule_coroutine Co_init
     (st\<lparr>try_auto_connect := auto, detection_enabled := detect, start_server := server, apply_post_options := post\<rparr>)"

definition AttemptLocalConnection :: "res_env \<Rightarrow> resources \<Rightarrow> resources \<times> bool" where
  "AttemptLocalConnection env st = (case local_client env st of
     None \<Rightarrow> (emit [Ev_progress] (st\<lparr>auto_connection_client := None\<rparr>), False)
   | Some c \<Rightarrow> (RegisterNetworkClient c (emit [Ev_progress] (st\<lparr>auto_connection_client := Some c\<rparr>)), True))"

definition auto_connect :: "res_env \<Rightarrow> resources \<Rightarrow> resources" where
  "auto_connect env st = (if try_auto_connect st then
     let (st, ok) = AttemptLocalConnection env (emit [Ev_progress] st) in
     (if ok then st\<lparr>auto_connection_active := True, detection_enabled := False\<rparr> else st)\<lparr>try_auto_connect := False\<rparr>
     else st)"

text \<open>\<open>j[k]\<close> on a value that need not be an object.\<close>

definition json_at :: "string \<Rightarrow> json \<Rightarrow> json converted" where
  "json_at k j = (case j of JNull \<Rightarrow> Inr JNull | JObject fs \<Rightarrow> Inr (field k j)
     | _ \<Rightarrow> type_error ''305'' ''cannot use operator[] with a string argument with '' j)"

text \<open>The passes of the loop over the saved clients; a value that is no array is indexed by a number, which throws.\<close>

definition saved_clients :: "json \<Rightarrow> json converted list" where
  "saved_clients j = (case j of JNull \<Rightarrow> [] | JArray js \<Rightarrow> map Inr js
     | JObject fs \<Rightarrow> map (\<lambda>_. type_error ''305'' ''cannot use operator[] with a numeric argument with '' j) fs
     | _ \<Rightarrow> [type_error ''305'' ''cannot use operator[] with a numeric argument with '' j])"

definition client_address :: "json \<Rightarrow> (cstring \<times> u16) converted" where
  "client_address j = conv_bind (conv_bind (json_at ''ip'' j) get_string) (\<lambda>ip.
     conv_bind (conv_bind (json_at ''port'' j) (get_u32 (\<lambda>_. 0))) (\<lambda>port. Inr (ip, ucast port)))"

definition connect_saved_clients :: "res_env \<Rightarrow> json \<Rightarrow> unit scan" where
  "connect_saved_clients env j = only_if (contains ''clients'' j)
     (scan_each (\<lambda>c. then_scan (pure_scan (call_of (conv_bind c client_address)))
        (\<lambda>_. adjust (\<lambda>st. RegisterNetworkClient (new_client env st) st))) (saved_clients (field ''clients'' j)))"

definition start_detection :: "res_env \<Rightarrow> detectors \<Rightarrow> unit scan" where
  "start_detection env ds st = (if detection_enabled st
     then then_scan (ProcessPreDetection env ds True) (\<lambda>b. only_if b (DetectDevicesCoroutine env ds)) st
     else attempt ProcessPostDetection st)"

definition start_servers :: "res_env \<Rightarrow> resources \<Rightarrow> resources" where
  "start_servers env st = (let st = (if start_server st then emit [Ev_progress, Ev_start_server] st else st)
     in if websocket_enabled env then emit [Ev_progress, Ev_start_websocket] st else st)"

text \<open>The options of the command line that are processed after detection are recorded as one event.\<close>

definition finish_init :: "resources \<Rightarrow> resources" where
  "finish_init st = (if apply_post_options st then emit [Ev_post_options] st else st)\<lparr>init_finished := True\<rparr>"

definition InitCoroutine :: "res_env \<Rightarrow> detectors \<Rightarrow> unit scan" where
  "InitCoroutine env ds = then_scan (adjust (auto_connect env))
     (\<lambda>_. then_scan (\<lambda>st. pure_scan (GetSettings ''Client'' (settings st)) st)
     (\<lambda>j. then_scan (connect_saved_clients env j)
     (\<lambda>_. then_scan (adjust (start_servers env))
     (\<lambda>_. then_scan (start_detection env ds)
     (\<lambda>_. adjust finish_init)))))"

section \<open>The background thread\<close>

fun coroutine_of :: "res_env \<Rightarrow> detectors \<Rightarrow> coroutine \<Rightarrow> unit scan" where
  "coroutine_of env ds Co_init = InitCoroutine env ds"
| "coroutine_of env ds Co_detect = DetectDevicesCoroutine env ds"
| "coroutine_of env ds Co_hid_exit = adjust HidExitCoroutine"

text \<open>One turn of \<open>BackgroundThreadFunction\<close>.\<close>

definition background_turn :: "res_env \<Rightarrow> detectors \<Rightarrow> resources \<Rightarrow> resources defined" where
  "background_turn env ds st = (if background_stuck st then Some st else (case scheduled st of
     None \<Rightarrow> Some st
   | Some co \<Rightarrow> map_option (\<lambda>(st, r). if r = Blocks then st\<lparr>background_stuck := True\<rparr> else st)
       (coroutine_of env ds co (st\<lparr>scheduled := None\<rparr>))))"

section \<open>Runs\<close>

text \<open>
  What happens from outside: a program asks for a rescan, the background thread takes a turn, a scan is stopped,
  a controller is withdrawn, its owner deletes it, a client lists the controllers of its server or takes them back.
\<close>

datatype res_input = Rescan | Turn | Stop | Unregister nat | Delete nat | Client_lists "(nat \<times> controller) list" | Client_gone nat "nat list"

definition list_remote :: "(nat \<times> controller) list \<Rightarrow> resources \<Rightarrow> resources" where
  "list_remote pds st = client_lists (map fst pds) (st\<lparr>controllers_at := controllers_at st ++ map_of pds\<rparr>)"

fun res_step :: "res_env \<Rightarrow> detectors \<Rightarrow> res_input \<Rightarrow> resources \<Rightarrow> resources defined" where
  "res_step env ds Rescan st = map_option fst (RescanDevices_res env ds st)"
| "res_step env ds Turn st = background_turn env ds st"
| "res_step env ds Stop st = Some (StopDeviceDetection st)"
| "res_step env ds (Unregister p) st = UnregisterRGBController p st"
| "res_step env ds (Delete p) st = Some (st\<lparr>controllers_at := (controllers_at st)(p := None)\<rparr>)"
| "res_step env ds (Client_lists pds) st = Some (list_remote pds st)"
| "res_step env ds (Client_gone c ps) st = UnregisterNetworkClient c ps st"

text \<open>
  What is assumed of the inputs: a client lists controllers it has just created, and takes back those that are not
  the program's own. Any controller may be withdrawn, also during a rescan. Its owner deletes it once it has withdrawn
  it, but not if that was during a rescan: it then stays pending, and the end of the scan deletes it
  (\<open>deleted_pending_twice\<close>).
\<close>

fun res_input_ok :: "res_input \<Rightarrow> resources \<Rightarrow> bool" where
  "res_input_ok (Client_lists pds) st \<longleftrightarrow> distinct (map fst pds) \<and> set (map fst pds) \<inter> dom (controllers_at st) = {}"
| "res_input_ok (Client_gone c ps) st \<longleftrightarrow> set ps \<inter> (set (rgb_controllers_hw st) \<union> set (rgb_controllers_hw_cleanup_pending st)) = {}"
| "res_input_ok (Unregister p) st \<longleftrightarrow> p \<in> dom (controllers_at st)"
| "res_input_ok (Delete p) st \<longleftrightarrow> p \<notin> set (rgb_controllers_hw st) \<union> set (rgb_controllers st) \<union> set (rgb_controllers_hw_cleanup_pending st)"
| "res_input_ok i st \<longleftrightarrow> True"

inductive res_runs :: "res_env \<Rightarrow> detectors \<Rightarrow> resources \<Rightarrow> resources \<Rightarrow> bool" for env ds s0 where
  start: "res_runs env ds s0 s0"
| step: "res_runs env ds s0 s \<Longrightarrow> res_input_ok i s \<Longrightarrow> res_step env ds i s = Some s' \<Longrightarrow> res_runs env ds s0 s'"

end
