(* ===== verification/Res_Lists.thy ===== *)
theory Res_Lists
  imports Res_Start
begin

text \<open>
  What \<open>UpdateDeviceList\<close> and registering do to the lists: the exact result and the exact notifications, for lists
  without duplicates, and what they do otherwise.
\<close>

section \<open>Building the list\<close>

lemma first_index_eq_Some:
  "p \<notin> set pre \<Longrightarrow> first_index (\<lambda>q. q = p) k (pre @ p # post) = Some (k + length pre)"
  by (induction pre arbitrary: k) auto

lemma first_index_eq_None: "p \<notin> set xs \<Longrightarrow> first_index (\<lambda>q. q = p) k xs = None"
  by (induction xs arbitrary: k) auto

lemma place_controller_split:
  assumes "p \<notin> set pre"
  shows "place_controller (length pre) p (pre @ ys) = Some (pre @ p # remove1 p ys, p \<notin> set ys)"
proof (cases "p \<in> set ys")
  case False
  then have "first_index (\<lambda>q. q = p) 0 (pre @ ys) = None" using assms by (intro first_index_eq_None) simp
  then show ?thesis using False
    by (auto simp: place_controller_def insert_index_def remove1_idem nth_append)
next
  case True
  then obtain as bs where ys: "ys = as @ p # bs" "p \<notin> set as" by (meson split_list_first)
  then have "first_index (\<lambda>q. q = p) 0 ((pre @ as) @ p # bs) = Some (0 + length (pre @ as))"
    using assms by (intro first_index_eq_Some) simp
  then show ?thesis using True ys
    by (cases as) (auto simp: place_controller_def insert_index_def erase_index_def remove1_append nth_append)
qed

lemma insert_hw_split:
  assumes "distinct ps" "set pre \<inter> set ps = {}"
  shows "insert_hw (length pre) ps (pre @ ys) =
    Some (pre @ ps @ fold remove1 ps ys, filter (\<lambda>(i, p). p \<notin> set ys) (enumerate (length pre) ps))"
  using assms
proof (induction ps arbitrary: pre ys)
  case Nil
  then show ?case by simp
next
  case (Cons p ps)
  have "insert_hw (length (pre @ [p])) ps ((pre @ [p]) @ remove1 p ys) = Some ((pre @ [p]) @ ps @ fold remove1 ps (remove1 p ys),
      filter (\<lambda>(i, q). q \<notin> set (remove1 p ys)) (enumerate (length (pre @ [p])) ps))"
    using Cons.prems by (intro Cons.IH) auto
  moreover have "filter (\<lambda>(i, q). q \<notin> set (remove1 p ys)) (enumerate n ps) = filter (\<lambda>(i, q). q \<notin> set ys) (enumerate n ps)" for n
  proof (rule filter_cong)
    fix x assume "x \<in> set (enumerate n ps)"
    then have "snd x \<in> set ps" using nth_mem [of "fst x - n" ps] by (auto simp: in_set_enumerate_eq)
    then have "snd x \<noteq> p" using Cons.prems(1) by auto
    then show "(case x of (i, q) \<Rightarrow> q \<notin> set (remove1 p ys)) = (case x of (i, q) \<Rightarrow> q \<notin> set ys)"
      by (cases x) (simp add: in_set_remove1)
  qed simp
  ultimately show ?case using Cons.prems by (simp add: place_controller_split)
qed

lemma set_fold_remove1: "distinct ys \<Longrightarrow> set (fold remove1 ps ys) = set ys - set ps"
  by (induction ps arbitrary: ys) (auto simp: distinct_remove1)

lemma distinct_fold_remove1: "distinct ys \<Longrightarrow> distinct (fold remove1 ps ys)"
  by (induction ps arbitrary: ys) (auto simp: distinct_remove1)

lemma fold_remove1_append: "set ps \<inter> set xs = {} \<Longrightarrow> fold remove1 ps (xs @ ys) = xs @ fold remove1 ps ys"
  by (induction ps arbitrary: ys) (auto simp: remove1_append)

lemma fold_remove1_self [simp]: "fold remove1 ps ps = []"
  by (induction ps) auto

lemma remove_gone_append: "set ys \<inter> set hw = {} \<Longrightarrow> remove_gone hw (hw @ ys) = hw"
proof -
  assume ys: "set ys \<inter> set hw = {}"
  then have "filter (\<lambda>p. p \<notin> set hw) ys = ys" by (auto simp: filter_id_conv)
  then show ?thesis using ys by (simp add: remove_gone_def fold_remove1_append)
qed

lemma removed_indices_append:
  "set ys \<inter> set hw = {} \<Longrightarrow> removed_indices hw (hw @ ys) = [length hw..<length hw + length ys]"
proof -
  assume ys: "set ys \<inter> set hw = {}"
  have "filter (\<lambda>i. (hw @ ys) ! i \<notin> set hw) [0..<length hw] = []"
    by (simp add: filter_empty_conv nth_append)
  moreover have "filter (\<lambda>i. (hw @ ys) ! i \<notin> set hw) [length hw..<length hw + length ys] = [length hw..<length hw + length ys]"
  proof (rule filter_True, rule ballI)
    fix i assume "i \<in> set [length hw..<length hw + length ys]"
    then have "ys ! (i - length hw) \<in> set ys" "\<not> i < length hw" by (auto intro: nth_mem)
    then show "(hw @ ys) ! i \<notin> set hw" using ys by (auto simp: nth_append)
  qed
  ultimately show ?thesis
    by (simp add: removed_indices_def upt_add_eq_append [of 0 "length hw" "length ys", simplified])
qed

section \<open>UpdateDeviceList\<close>

lemma those_defined:
  "snd ` set xs \<subseteq> dom h \<Longrightarrow>
    those (map (\<lambda>(i, p). map_option (f i) (h p)) xs) = Some (map (\<lambda>(i, p). f i (the (h p))) xs)"
  by (induction xs) auto

text \<open>The notifications: what is new by its place, then what is gone by its place behind the new list.\<close>

definition connected_events :: "resources \<Rightarrow> res_event list" where
  "connected_events st = map (\<lambda>(i, p). Ev_connected i (name (the (controllers_at st p))))
     (filter (\<lambda>(i, p). p \<notin> set (rgb_controllers st)) (enumerate 0 (rgb_controllers_hw st)))"

definition update_events :: "resources \<Rightarrow> res_event list" where
  "update_events st = [Ev_device_list, Ev_server_list] @ connected_events st @
     map Ev_disconnected [length (rgb_controllers_hw st)..<length (rgb_controllers_hw st) +
       length (fold remove1 (rgb_controllers_hw st) (rgb_controllers st))] @ [Ev_list_changed (length (rgb_controllers_hw st))]"

lemma UpdateDeviceList_eq:
  assumes "distinct (rgb_controllers_hw st)" "distinct (rgb_controllers st)"
    "set (rgb_controllers_hw st) \<subseteq> dom (controllers_at st)"
  shows "UpdateDeviceList st = Some (emit (update_events st) (st\<lparr>rgb_controllers := rgb_controllers_hw st\<rparr>))"
proof -
  let ?hw = "rgb_controllers_hw st" and ?rest = "fold remove1 (rgb_controllers_hw st) (rgb_controllers st)"
  let ?added = "filter (\<lambda>(i, p). p \<notin> set (rgb_controllers st)) (enumerate 0 ?hw)"
  have ins: "insert_hw 0 ?hw (rgb_controllers st) = Some (?hw @ ?rest, ?added)"
    using insert_hw_split [of ?hw "[]" "rgb_controllers st"] assms(1) by simp
  have rest: "set ?rest \<inter> set ?hw = {}" using assms(2) by (auto simp: set_fold_remove1)
  have "snd ` set ?added \<subseteq> set ?hw"
    using nth_mem [of _ ?hw] by (auto simp: in_set_enumerate_eq)
  then have "snd ` set ?added \<subseteq> dom (controllers_at st)" using assms(3) by simp
  then have "those (map (\<lambda>(i, p). map_option (\<lambda>d. Ev_connected i (name d)) (controllers_at st p)) ?added) =
      Some (connected_events st)"
    unfolding connected_events_def by (rule those_defined)
  then show ?thesis
    using rest by (simp add: UpdateDeviceList_def ins remove_gone_append removed_indices_append update_events_def Let_def)
qed

lemma UpdateDeviceList_lists:
  assumes "distinct (rgb_controllers_hw st)" "distinct (rgb_controllers st)"
    "set (rgb_controllers_hw st) \<subseteq> dom (controllers_at st)" "UpdateDeviceList st = Some st'"
  shows "rgb_controllers st' = rgb_controllers_hw st" "rgb_controllers_hw st' = rgb_controllers_hw st"
    "controllers_at st' = controllers_at st"
  using assms(4) unfolding UpdateDeviceList_eq [OF assms(1-3)] emit_def by auto

section \<open>Registering\<close>

lemma find_existing_in:
  "find_existing h ms d es = Some (Some e) \<Longrightarrow> e \<in> set es \<and> e \<notin> set ms \<and> (\<exists>old. h e = Some old \<and> same_device old d)"
  by (induction es) (auto split: if_splits Option.bind_splits)

lemma find_existing_defined: "set es \<subseteq> dom h \<Longrightarrow> find_existing h ms d es \<noteq> None"
  by (induction es) auto

text \<open>The calls of detectors among the events, in their order.\<close>

fun calls_of :: "res_event list \<Rightarrow> detector_call list" where
  "calls_of [] = []"
| "calls_of (Ev_call c # es) = c # calls_of es"
| "calls_of (_ # es) = calls_of es"

lemma calls_of_append [simp]: "calls_of (es @ es') = calls_of es @ calls_of es'"
  by (induction es rule: calls_of.induct) simp_all

lemma calls_of_none: "(\<And>c. Ev_call c \<notin> set es) \<Longrightarrow> calls_of es = []"
  by (induction es rule: calls_of.induct) auto

lemma calls_of_disconnected [simp]: "calls_of (map Ev_disconnected is) = []"
  by (rule calls_of_none) auto

text \<open>What registering, withdrawing and updating the list leave alone.\<close>

definition lists_only :: "resources \<Rightarrow> resources \<Rightarrow> bool" where
  "lists_only st st' \<longleftrightarrow> rgb_controllers_hw_cleanup_pending st' = rgb_controllers_hw_cleanup_pending st \<and>
     detect_locked st' = detect_locked st \<and> detection_is_required st' = detection_is_required st \<and>
     rgb_controllers_sizes st' = rgb_controllers_sizes st \<and> settings st' = settings st \<and>
     config_files st' = config_files st \<and> scheduled st' = scheduled st \<and> busses st' = busses st \<and>
     detection_enabled st' = detection_enabled st \<and> init_finished st' = init_finished st \<and>
     background_stuck st' = background_stuck st \<and> length (detection_size_entry_used st') = length (detection_size_entry_used st) \<and>
     calls_of (res_events st') = calls_of (res_events st)"

lemmas lists_onlyD = lists_only_def [THEN iffD1]

lemma lists_only_refl [simp]: "lists_only st st"
  by (simp add: lists_only_def)

lemma lists_only_trans: "lists_only st st' \<Longrightarrow> lists_only st' st'' \<Longrightarrow> lists_only st st''"
  by (simp add: lists_only_def)

lemma those_images:
  "those (map (\<lambda>(i, p). map_option (f i) (h p)) xs) = Some es \<Longrightarrow> set es \<subseteq> range (\<lambda>(i, d). f i d)"
proof (induction xs arbitrary: es)
  case (Cons x xs)
  then show ?case by (cases x) (force split: option.splits)
qed simp

lemma UpdateDeviceList_only:
  assumes "UpdateDeviceList st = Some st'"
  shows "lists_only st st' \<and> controllers_at st' = controllers_at st \<and> rgb_controllers_hw st' = rgb_controllers_hw st"
proof -
  from assms obtain ys added es where "those (map (\<lambda>(i, p). map_option (\<lambda>d. Ev_connected i (name d)) (controllers_at st p)) added) = Some es"
    and st': "st' = emit ([Ev_device_list, Ev_server_list] @ es @ map Ev_disconnected (removed_indices (rgb_controllers_hw st) ys) @
      [Ev_list_changed (length (remove_gone (rgb_controllers_hw st) ys))]) (st\<lparr>rgb_controllers := remove_gone (rgb_controllers_hw st) ys\<rparr>)"
    by (auto simp: UpdateDeviceList_def Let_def split: Option.bind_splits)
  then have "calls_of es = []"
    using those_images [of "\<lambda>i d. Ev_connected i (name d)" "controllers_at st" added es] by (intro calls_of_none) auto
  then show ?thesis
    unfolding st' by (auto simp: emit_def lists_only_def)
qed

lemma carry_over_only:
  assumes "carry_over p st = Some st'"
  shows "lists_only st st' \<and> dom (controllers_at st') = dom (controllers_at st) \<and>
    rgb_controllers_hw st' = rgb_controllers_hw st \<and> rgb_controllers st' = rgb_controllers st"
  using assms
  by (auto simp: carry_over_def lists_only_def dom_def split: Option.bind_splits option.splits if_splits)

lemma LoadDeviceFromListWithOptions_length:
  "LoadDeviceFromListWithOptions rz temps ls se used d = Some (b, used', d') \<Longrightarrow> length used' = length used"
  by (auto simp: LoadDeviceFromListWithOptions_def split: option.splits Option.bind_splits)

lemma load_sizes_of_only:
  assumes "load_sizes_of rz p st = Some st'"
  shows "lists_only st st' \<and> dom (controllers_at st') = dom (controllers_at st) \<and>
    rgb_controllers_hw st' = rgb_controllers_hw st \<and> rgb_controllers st' = rgb_controllers st"
  using assms
  by (auto simp: load_sizes_of_def lists_only_def Let_def LoadDeviceFromListWithOptions_length dom_def
    split: Option.bind_splits if_splits)

lemma load_all_sizes_only:
  "fold_def (load_sizes_of rz) ps st = Some st' \<Longrightarrow> lists_only st st' \<and> dom (controllers_at st') = dom (controllers_at st) \<and>
    rgb_controllers_hw st' = rgb_controllers_hw st \<and> rgb_controllers st' = rgb_controllers st"
proof (induction ps arbitrary: st)
  case Nil
  then show ?case by (simp add: lists_only_refl)
next
  case (Cons p ps)
  then obtain s1 where "load_sizes_of rz p st = Some s1" "fold_def (load_sizes_of rz) ps s1 = Some st'"
    by (auto split: Option.bind_splits)
  with Cons.IH [of s1] load_sizes_of_only [of rz p st s1] show ?case using lists_only_trans by auto
qed

lemma own_device_only:
  assumes "own_device p st = Some st'"
  shows "lists_only st st' \<and> dom (controllers_at st') = dom (controllers_at st) \<and>
    rgb_controllers_hw st' = rgb_controllers_hw st @ [p] \<and> rgb_controllers st' = rgb_controllers st \<and> p \<in> dom (controllers_at st)"
  using assms
  by (auto simp: own_device_def lists_only_def dom_def split: Option.bind_splits if_splits)

lemma list_new_devices_only:
  assumes "list_new_devices rz st = Some st'"
  shows "lists_only st st' \<and> dom (controllers_at st') = dom (controllers_at st) \<and> rgb_controllers_hw st' = rgb_controllers_hw st"
proof (cases "length (rgb_controllers_hw st) \<noteq> detection_prev_size st")
  case True
  with assms obtain s1 where s1: "fold_def (load_sizes_of rz) (drop (detection_prev_size st) (rgb_controllers_hw st)) st = Some s1"
    "UpdateDeviceList s1 = Some st'"
    by (auto simp: list_new_devices_def split: Option.bind_splits)
  from load_all_sizes_only [OF s1(1)] UpdateDeviceList_only [OF s1(2)] show ?thesis using lists_only_trans by auto
next
  case False
  with assms show ?thesis by (simp add: list_new_devices_def lists_only_refl)
qed

lemma list_new_devices_distinct:
  assumes "list_new_devices rz st = Some st'" "distinct (rgb_controllers_hw st)" "distinct (rgb_controllers st)"
    "set (rgb_controllers_hw st) \<subseteq> dom (controllers_at st)"
  shows "distinct (rgb_controllers st')"
proof (cases "length (rgb_controllers_hw st) \<noteq> detection_prev_size st")
  case True
  with assms(1) obtain s1 where s1: "fold_def (load_sizes_of rz) (drop (detection_prev_size st) (rgb_controllers_hw st)) st = Some s1"
    "UpdateDeviceList s1 = Some st'"
    by (auto simp: list_new_devices_def split: Option.bind_splits)
  note same = load_all_sizes_only [OF s1(1)]
  then show ?thesis using UpdateDeviceList_lists(1) [OF _ _ _ s1(2)] assms by simp
next
  case False
  with assms show ?thesis by (simp add: list_new_devices_def)
qed

lemma lists_only_prev: "lists_only st (st\<lparr>detection_prev_size := n\<rparr>)"
  by (simp add: lists_only_def)

lemma RegisterRGBController_steps:
  assumes "RegisterRGBController rz p st = Some st'"
  obtains s1 s2 s3 where "(if rgb_controllers_hw_cleanup_pending st \<noteq> [] then carry_over p st else Some st) = Some s1"
    "own_device p s1 = Some s2" "list_new_devices rz s2 = Some s3"
    "UpdateDeviceList (s3\<lparr>detection_prev_size := length (rgb_controllers_hw s3)\<rparr>) = Some st'"
  using assms unfolding RegisterRGBController_def bind_eq_Some_conv by blast

lemma RegisterRGBController_only:
  assumes "RegisterRGBController rz p st = Some st'"
  shows "lists_only st st' \<and> dom (controllers_at st') = dom (controllers_at st) \<and>
    rgb_controllers_hw st' = rgb_controllers_hw st @ [p] \<and> p \<in> dom (controllers_at st)"
  using assms
proof (rule RegisterRGBController_steps)
  fix s1 s2 s3 :: resources
  let ?s3 = "s3\<lparr>detection_prev_size := length (rgb_controllers_hw s3)\<rparr>"
  assume s: "(if rgb_controllers_hw_cleanup_pending st \<noteq> [] then carry_over p st else Some st) = Some s1"
    "own_device p s1 = Some s2" "list_new_devices rz s2 = Some s3" "UpdateDeviceList ?s3 = Some st'"
  have s1: "lists_only st s1 \<and> dom (controllers_at s1) = dom (controllers_at st) \<and> rgb_controllers_hw s1 = rgb_controllers_hw st"
    using s(1) carry_over_only [of p st s1] by (cases "rgb_controllers_hw_cleanup_pending st = []") simp_all
  note only = conjunct1 [OF s1] conjunct1 [OF own_device_only [OF s(2)]] conjunct1 [OF list_new_devices_only [OF s(3)]]
    lists_only_prev [of s3 "length (rgb_controllers_hw s3)"] conjunct1 [OF UpdateDeviceList_only [OF s(4)]]
  have "lists_only st st'" by (intro only [THEN lists_only_trans] only(5))
  then show ?thesis
    using s1 own_device_only [OF s(2)] list_new_devices_only [OF s(3)] UpdateDeviceList_only [OF s(4)] by simp
qed

lemma RegisterRGBController_list:
  assumes "RegisterRGBController rz p st = Some st'" "distinct (rgb_controllers_hw st)" "distinct (rgb_controllers st)"
    "set (rgb_controllers_hw st) \<subseteq> dom (controllers_at st)" "p \<notin> set (rgb_controllers_hw st)"
  shows "rgb_controllers st' = rgb_controllers_hw st @ [p]"
  using assms(1)
proof (rule RegisterRGBController_steps)
  fix s1 s2 s3 :: resources
  let ?s3 = "s3\<lparr>detection_prev_size := length (rgb_controllers_hw s3)\<rparr>"
  assume s: "(if rgb_controllers_hw_cleanup_pending st \<noteq> [] then carry_over p st else Some st) = Some s1"
    "own_device p s1 = Some s2" "list_new_devices rz s2 = Some s3" "UpdateDeviceList ?s3 = Some st'"
  have "dom (controllers_at s1) = dom (controllers_at st) \<and> rgb_controllers_hw s1 = rgb_controllers_hw st \<and>
      rgb_controllers s1 = rgb_controllers st"
    using s(1) carry_over_only [of p st s1] by (cases "rgb_controllers_hw_cleanup_pending st = []") simp_all
  then have s2: "distinct (rgb_controllers_hw s2)" "distinct (rgb_controllers s2)"
      "set (rgb_controllers_hw s2) \<subseteq> dom (controllers_at s2)" "rgb_controllers_hw s2 = rgb_controllers_hw st @ [p]"
    using own_device_only [OF s(2)] assms by auto
  with list_new_devices_only [OF s(3)] list_new_devices_distinct [OF s(3)]
  show ?thesis using UpdateDeviceList_lists(1) [OF _ _ _ s(4)] by simp
qed

end
