(* ===== verification/Res_Frame.thy ===== *)
theory Res_Frame
  imports Res_Lists
begin

text \<open>
  Invariants of the resource manager. \<open>scan_calls\<close> is the interface of what the calls of detectors that a scan may make
  keep; \<open>res_invariant\<close> extends it to the start, the rescans and everything else that happens between them. With
  \<open>U\<close> false, keeping an invariant includes that nothing undefined is done.
\<close>

section \<open>Parts that keep an invariant\<close>

definition holds :: "bool \<Rightarrow> (resources \<Rightarrow> bool) \<Rightarrow> 'a scan \<Rightarrow> bool" where
  "holds U P f \<longleftrightarrow> (\<forall>st. P st \<longrightarrow> (case f st of None \<Rightarrow> U | Some (st', r) \<Rightarrow> P st'))"

lemma holdsD: "holds U P f \<Longrightarrow> P st \<Longrightarrow> f st = Some (st', r) \<Longrightarrow> P st'"
  by (fastforce simp: holds_def)

lemma holds_defined: "holds False P f \<Longrightarrow> P st \<Longrightarrow> \<exists>st' r. f st = Some (st', r) \<and> P st'"
  by (fastforce simp: holds_def split: option.splits)

lemma holds_done [simp]: "holds U P (done_scan v)"
  by (simp add: holds_def done_scan_def)

lemma holds_pure [simp]: "holds U P (pure_scan r)"
  by (simp add: holds_def pure_scan_def)

lemma holds_then: "holds U P f \<Longrightarrow> (\<And>v. holds U P (g v)) \<Longrightarrow> holds U P (then_scan f g)"
  unfolding holds_def
proof (intro allI impI)
  fix st
  assume f: "\<forall>st. P st \<longrightarrow> (case f st of None \<Rightarrow> U | Some (st', r) \<Rightarrow> P st')" and P: "P st"
    and g: "\<And>v. \<forall>st. P st \<longrightarrow> (case g v st of None \<Rightarrow> U | Some (st', r) \<Rightarrow> P st')"
  show "case then_scan f g st of None \<Rightarrow> U | Some (st', r) \<Rightarrow> P st'"
  proof (cases "f st")
    case None
    then show ?thesis using f P by (auto simp: then_scan_def)
  next
    case (Some a)
    obtain s r where a: "a = (s, r)" by fastforce
    then have "P s" using f [rule_format, OF P] Some by simp
    then show ?thesis using Some a g by (cases r) (simp_all add: then_scan_def)
  qed
qed

lemma holds_pure_then: "(\<And>v. r = Returns v \<Longrightarrow> holds U P (g v)) \<Longrightarrow> holds U P (then_scan (pure_scan r) g)"
  by (auto simp: holds_def then_scan_def pure_scan_def split: call.splits)

lemma holds_state: "(\<And>st. holds U P (f st)) \<Longrightarrow> holds U P (\<lambda>st. f st st)"
  by (simp add: holds_def)

lemma holds_adjust: "(\<And>st. P st \<Longrightarrow> P (f st)) \<Longrightarrow> holds U P (adjust f)"
  by (simp add: holds_def adjust_def)

lemma holds_attempt:
  "(\<And>st. P st \<Longrightarrow> case f st of None \<Rightarrow> U | Some st' \<Rightarrow> P st') \<Longrightarrow> holds U P (attempt f)"
  by (fastforce simp: holds_def attempt_def split: option.splits)

lemma holds_only_if: "(b \<Longrightarrow> holds U P f) \<Longrightarrow> holds U P (only_if b f)"
  by (simp add: only_if_def)

lemma holds_each: "(\<And>x. x \<in> set xs \<Longrightarrow> holds U P (f x)) \<Longrightarrow> holds U P (scan_each f xs)"
  by (induction xs) (simp_all add: holds_then)

lemma holds_while: "(\<And>x. x \<in> set xs \<Longrightarrow> holds U P (f x)) \<Longrightarrow> holds U P (while_required f xs)"
proof (induction xs)
  case (Cons x xs)
  then have "holds U P (then_scan (f x) (\<lambda>_. while_required f xs))" by (intro holds_then) auto
  then show ?case by (simp add: holds_def done_scan_def)
qed simp

section \<open>The calls of a scan\<close>

text \<open>A detector is switched on unless the settings name it with something else than true.\<close>

definition switched_on :: "json \<Rightarrow> string \<Rightarrow> bool" where
  "switched_on j n = (case j of
     JObject fs \<Rightarrow> (case map_of fs (str8 ''detectors'') of
         Some (JObject es) \<Rightarrow> (case map_of es (str8 n) of None \<Rightarrow> True | Some v \<Rightarrow> v = JBool True)
       | _ \<Rightarrow> True)
   | _ \<Rightarrow> True)"

lemma detector_enabled_iff: "detector_enabled j n = Inr True \<longleftrightarrow> switched_on j n"
  by (auto simp: detector_enabled_def switched_on_def contains_def field_def get_bool_def type_error_def
    split: json.splits option.splits)

text \<open>
  The calls a scan may make: of detectors that are not switched off, with hardware that is there and that matches. For
  memory modules this is the type of the modules on the bus, and all those with the JEDEC number of the detector.
\<close>

definition modules_on :: "res_env \<Rightarrow> i2c_bus \<Rightarrow> byte \<times> slots" where
  "modules_on env b = read_slots (read_spd env b) 0 spd_addresses"

fun permitted :: "res_env \<Rightarrow> detectors \<Rightarrow> json \<Rightarrow> detector_call \<Rightarrow> bool" where
  "permitted env ds j (Call_bus i) \<longleftrightarrow> i < i2c_bus_detectors ds"
| "permitted env ds j (Call_i2c n bs) \<longleftrightarrow> n \<in> set (i2c_device_detectors ds) \<and> switched_on j n"
| "permitted env ds j (Call_dimm n b ss) \<longleftrightarrow> dram_smbus b \<and> ss \<noteq> [] \<and> switched_on j n \<and>
     (\<exists>blk \<in> set (i2c_dimm_device_detectors ds). dimm_name blk = n \<and> dimm_type blk = fst (modules_on env b) \<and>
        ss = filter (\<lambda>s. snd s = jedec_id blk) (snd (modules_on env b)))"
| "permitted env ds j (Call_pci n b a) \<longleftrightarrow> switched_on j n \<and>
     (\<exists>blk \<in> set (i2c_pci_device_detectors ds). pci_name blk = n \<and> pci_matches blk b \<and> i2c_addr blk = a)"
| "permitted env ds j (Call_hid n info) \<longleftrightarrow> switched_on j n \<and> (\<exists>v p. info \<in> set (hid_enumerate env v p)) \<and>
     (\<exists>blk \<in> set (hid_device_detectors ds). block_name blk = n \<and> compare_block blk info)"
| "permitted env ds j (Call_wrapped n info) \<longleftrightarrow> switched_on j n \<and> info \<in> set (hid_enumerate env 0 0) \<and>
     (\<exists>blk \<in> set (hid_wrapped_device_detectors ds). block_name blk = n \<and> compare_block blk info)"
| "permitted env ds j (Call_libusb n info) \<longleftrightarrow> switched_on j n \<and> info \<in> set (libusb_devices env) \<and>
     (\<exists>blk \<in> set (hid_wrapped_device_detectors ds). block_name blk = n \<and> compare_block blk info)"
| "permitted env ds j (Call_device n) \<longleftrightarrow> n \<in> set (device_detectors ds) \<and> switched_on j n"
| "permitted env ds j _ \<longleftrightarrow> False"

lemma call_of_Returns: "call_of x = Returns v \<longleftrightarrow> x = Inr v"
  by (simp add: call_of_def split: sum.splits)

locale scan_calls =
  fixes U :: bool and P :: "resources \<Rightarrow> bool" and env :: res_env and ds :: detectors and j :: json
  assumes call: "permitted env ds j c \<Longrightarrow> holds U P (call_detector env c)"
    and progress: "P st \<Longrightarrow> P (emit [Ev_progress] st)"
    and bus_list: "P st \<Longrightarrow> P (emit [Ev_bus_list] st)"
begin

lemma enabled_holds: "(switched_on j n \<Longrightarrow> holds U P f) \<Longrightarrow> holds U P (if_enabled j n f)"
  unfolding if_enabled_def
  by (rule holds_pure_then)
    (auto simp: call_of_Returns detector_enabled_iff intro!: holds_only_if holds_then holds_adjust progress)

lemma busses_hold: "holds U P (detect_busses env ds)"
  unfolding detect_busses_def by (intro holds_while holds_then holds_adjust bus_list call) auto

lemma i2c_hold: "holds U P (detect_i2c env ds j)"
proof -
  have "holds U P (\<lambda>st. call_detector env (Call_i2c n (busses st)) st)"
    if "n \<in> set (i2c_device_detectors ds)" "switched_on j n" for n
    using that by (intro holds_state [of U P "\<lambda>st. call_detector env (Call_i2c n (busses st))"] call) simp
  then show ?thesis unfolding detect_i2c_def by (intro holds_while enabled_holds) auto
qed

lemma dimm_bus_hold: "holds U P (detect_dimm_bus env ds j b)"
proof -
  obtain ty ss where rs: "read_slots (read_spd env b) 0 spd_addresses = (ty, ss)" by fastforce
  have "permitted env ds j (Call_dimm (dimm_name blk) b (slots_with_jedec ss (jedec_id blk)))"
    if "blk \<in> set (i2c_dimm_device_detectors ds)" "dram_smbus b" "dimm_type blk = ty" "is_jedec_in_slots ss (jedec_id blk)"
      "switched_on j (dimm_name blk)" for blk
    using that rs by (auto simp: slots_with_jedec_def is_jedec_in_slots_def filter_empty_conv modules_on_def)
  then show ?thesis
    unfolding detect_dimm_bus_def rs by (auto intro!: holds_only_if holds_while enabled_holds call)
qed

lemma dimms_on_hold: "holds U P (detect_dimms_on env ds j bs)"
proof (induction bs)
  case (Cons b bs)
  then have "holds U P (then_scan (detect_dimm_bus env ds j b) (\<lambda>_. detect_dimms_on env ds j bs))"
    by (intro holds_then dimm_bus_hold)
  then show ?case by (simp add: holds_def done_scan_def)
qed simp

lemma dimms_hold: "holds U P (detect_dimms env ds j)"
  unfolding detect_dimms_def
  using holds_state [of U P "\<lambda>st. detect_dimms_on env ds j (busses st)"] dimms_on_hold
  by (intro holds_then holds_adjust progress) simp_all

lemma pci_hold: "holds U P (detect_pci env ds j)"
proof -
  let ?f = "\<lambda>blk b. only_if (pci_matches blk b) (call_detector env (Call_pci (pci_name blk) b (i2c_addr blk)))"
  have "holds U P (\<lambda>st. scan_each (?f blk) (busses st) st)"
    if "blk \<in> set (i2c_pci_device_detectors ds)" "switched_on j (pci_name blk)" for blk
    using that by (intro holds_state [of U P "\<lambda>st. scan_each (?f blk) (busses st)"] holds_each holds_only_if call) auto
  then show ?thesis unfolding detect_pci_def by (intro holds_while enabled_holds) auto
qed

lemma try_hid_holds:
  "(compare_block blk info \<Longrightarrow> switched_on j (block_name blk) \<Longrightarrow> permitted env ds j (k (block_name blk) info)) \<Longrightarrow>
   holds U P (try_hid env j k info blk)"
  unfolding try_hid_def by (intro holds_only_if enabled_holds call) auto

lemma hid_hold: "holds U P (detect_hid_safe env ds j)" "holds U P (detect_hid_all env ds j)" "holds U P (detect_libusb env ds j)"
  unfolding detect_hid_safe_def detect_hid_all_def detect_libusb_def
  by (intro holds_while holds_each holds_then holds_adjust progress try_hid_holds; auto)+

lemma others_hold: "holds U P (detect_others env ds j)"
  unfolding detect_others_def by (intro holds_while enabled_holds call) auto

lemma run_detectors_holds: "holds U P (run_detectors env ds j safe)"
  unfolding run_detectors_def
  by (intro holds_then busses_hold i2c_hold dimms_hold pci_hold hid_hold others_hold) (simp add: hid_hold)

lemma scan_with_holds:
  assumes "\<And>st. P st \<Longrightarrow> P (reset_sizes_used (st\<lparr>initial_detection := False\<rparr>))" "holds U P (attempt ProcessPostDetection)"
  shows "holds U P (scan_with env ds j)"
  unfolding scan_with_def by (intro holds_then holds_pure holds_adjust run_detectors_holds assms)

end

lemma scan_body_with:
  assumes "GetSettings ''Detectors'' (settings st) = Returns j"
  shows "scan_body env ds st = scan_with env ds j st"
  using assms by (simp add: scan_body_def then_scan_def pure_scan_def)

lemma scan_body_holds: "(\<And>j. holds U P (scan_with env ds j)) \<Longrightarrow> holds U P (scan_body env ds)"
proof -
  assume scans: "\<And>j. holds U P (scan_with env ds j)"
  have "holds U P (\<lambda>st. then_scan (pure_scan (GetSettings ''Detectors'' (settings st))) (scan_with env ds) st)"
    by (rule holds_state) (rule holds_then [OF holds_pure scans])
  then show ?thesis by (simp add: scan_body_def [abs_def])
qed

end
