(* ===== verification/Res_Alive.thy ===== *)
theory Res_Alive
  imports Res_Frame
begin

text \<open>
  The invariant of the device lists: what is listed or pending is allocated, the detected devices come first, in
  the order of detection. Every part of the resource manager keeps it, and a scan does nothing undefined.
\<close>

section \<open>The invariant\<close>

definition devices_ok :: "resources \<Rightarrow> bool" where
  "devices_ok st \<longleftrightarrow> distinct (rgb_controllers_hw st) \<and> distinct (rgb_controllers_hw_cleanup_pending st) \<and>
     set (rgb_controllers_hw st) \<inter> set (rgb_controllers_hw_cleanup_pending st) = {} \<and>
     distinct (rgb_controllers st) \<and> (\<exists>rs. rgb_controllers st = rgb_controllers_hw st @ rs) \<and>
     set (rgb_controllers_hw_cleanup_pending st) \<subseteq> dom (controllers_at st) \<and> set (rgb_controllers st) \<subseteq> dom (controllers_at st)"

text \<open>Detectors allocate: the controllers they create are at new addresses. \<open>ResizeZone\<close> keeps the zones.\<close>

definition fresh_env :: "res_env \<Rightarrow> bool" where
  "fresh_env env \<longleftrightarrow> (\<forall>c st. distinct (map fst (new_controllers (run_detector env c st))) \<and>
     set (map fst (new_controllers (run_detector env c st))) \<inter> dom (controllers_at st) = {})"

definition keeps_zones :: "res_env \<Rightarrow> bool" where
  "keeps_zones env \<longleftrightarrow> (\<forall>p i n d. \<exists>d'. resize_zone env p i n d = Some d' \<and> length (zones d') = length (zones d))"

definition sizes_ready :: "resources \<Rightarrow> bool" where
  "sizes_ready st \<longleftrightarrow> length (rgb_controllers_sizes st) \<le> length (detection_size_entry_used st)"

lemma devices_okD:
  assumes "devices_ok st"
  shows "distinct (rgb_controllers_hw st)" "distinct (rgb_controllers_hw_cleanup_pending st)"
    "set (rgb_controllers_hw st) \<inter> set (rgb_controllers_hw_cleanup_pending st) = {}" "distinct (rgb_controllers st)"
    "set (rgb_controllers_hw_cleanup_pending st) \<subseteq> dom (controllers_at st)" "set (rgb_controllers st) \<subseteq> dom (controllers_at st)"
    "set (rgb_controllers_hw st) \<subseteq> dom (controllers_at st)"
  using assms by (auto simp: devices_ok_def)

lemma update_ok:
  assumes "devices_ok st"
  shows "\<exists>st'. UpdateDeviceList st = Some st' \<and> devices_ok st' \<and> rgb_controllers st' = rgb_controllers_hw st'"
  using assms UpdateDeviceList_eq [OF devices_okD(1) devices_okD(4) devices_okD(7), OF assms assms assms]
  by (auto simp: devices_ok_def emit_def)

section \<open>Registering\<close>

lemma create_controller_ok:
  assumes "devices_ok st" "p \<notin> dom (controllers_at st)" "create_controller env (p, d) st = Some st'"
  shows "devices_ok st'" "dom (controllers_at st') = insert p (dom (controllers_at st))" "lists_only st st'"
    "rgb_controllers_hw st' = rgb_controllers_hw st @ [p]"
proof -
  let ?s = "st\<lparr>controllers_at := (controllers_at st)(p \<mapsto> d)\<rparr>"
  note reg = assms(3) [unfolded create_controller_def fst_conv snd_conv]
  note only = RegisterRGBController_only [OF reg]
  have "rgb_controllers st' = rgb_controllers_hw st @ [p]"
  proof -
    have "p \<notin> set (rgb_controllers_hw st)" "set (rgb_controllers_hw st) \<subseteq> dom (controllers_at ?s)"
      using assms(2) devices_okD(7) [OF assms(1)] by auto
    then show ?thesis using RegisterRGBController_list [OF reg] devices_okD(1,4) [OF assms(1)] by simp
  qed
  moreover have "rgb_controllers_hw_cleanup_pending st' = rgb_controllers_hw_cleanup_pending st"
    using only by (simp add: lists_only_def)
  ultimately show "devices_ok st'"
    using only devices_okD [OF assms(1)] assms(2) by (auto simp: devices_ok_def)
  show "dom (controllers_at st') = insert p (dom (controllers_at st))" using only by simp
  have "lists_only st ?s" by (simp add: lists_only_def)
  then show "lists_only st st'" using only lists_only_trans by blast
  show "rgb_controllers_hw st' = rgb_controllers_hw st @ [p]" using only by simp
qed

lemma load_sizes_defined:
  assumes "\<And>i n d. \<exists>d'. rz i n d = Some d' \<and> length (zones d') = length (zones d)"
  shows "\<exists>d'. load_sizes rz tmp d = Some d'"
proof -
  have step: "\<exists>d'. load_zone_size rz tmp i d = Some d' \<and> length (zones d') = length (zones d)"
    if "i < length (zones tmp)" "length (zones tmp) = length (zones d)" for i d
  proof -
    obtain d1 where "rz (of_nat i) (zone_leds_count (zones tmp ! i)) d = Some d1" "length (zones d1) = length (zones d)"
      using assms by blast
    then show ?thesis using that by (simp add: load_zone_size_def)
  qed
  have "\<exists>d'. fold_def (load_zone_size rz tmp) is d = Some d' \<and> length (zones tmp) = length (zones d')"
    if "length (zones tmp) = length (zones d)" "set is \<subseteq> {..<length (zones tmp)}" for "is"
    using that(1) by (rule fold_def_invariant) (use step that(2) in force)
  from this [of "[0..<length (zones tmp)]"] show ?thesis by (auto simp: load_sizes_def atLeast0LessThan)
qed

lemma load_sizes_of_defined:
  assumes "sizes_ready st" "p \<in> dom (controllers_at st)"
    "\<And>i n d. \<exists>d'. rz p i n d = Some d' \<and> length (zones d') = length (zones d)"
  shows "\<exists>st'. load_sizes_of rz p st = Some st'"
proof -
  obtain d where d: "controllers_at st p = Some d" using assms(2) by blast
  let ?temps = "rgb_controllers_sizes st" and ?used = "detection_size_entry_used st"
  have "\<exists>b us d'. LoadDeviceFromListWithOptions (rz p) ?temps True False ?used d = Some (b, us, d')"
  proof (cases "first_match ?temps ?used d")
    case (Some i)
    obtain d' where "load_sizes (rz p) (?temps ! i) d = Some d'" using load_sizes_defined [of "rz p", OF assms(3)] by blast
    then show ?thesis using Some by (auto simp: LoadDeviceFromListWithOptions_def)
  qed (auto simp: LoadDeviceFromListWithOptions_def)
  then obtain b us d' where "LoadDeviceFromListWithOptions (rz p) ?temps True False ?used d = Some (b, us, d')" by blast
  then show ?thesis using assms(1) d by (simp add: load_sizes_of_def sizes_ready_def)
qed

lemma load_all_sizes_defined:
  assumes "\<And>p i n d. \<exists>d'. rz p i n d = Some d' \<and> length (zones d') = length (zones d)"
  shows "sizes_ready st \<Longrightarrow> set ps \<subseteq> dom (controllers_at st) \<Longrightarrow> \<exists>st'. fold_def (load_sizes_of rz) ps st = Some st'"
proof (induction ps arbitrary: st)
  case (Cons p ps)
  obtain s1 where s1: "load_sizes_of rz p st = Some s1"
    using load_sizes_of_defined [of st p rz] Cons.prems assms by auto
  have "sizes_ready s1" "set ps \<subseteq> dom (controllers_at s1)"
    using load_sizes_of_only [OF s1] Cons.prems by (auto simp: sizes_ready_def lists_only_def)
  then show ?case using Cons.IH s1 by simp
qed simp

lemma carry_over_defined:
  assumes "devices_ok st" "p \<in> dom (controllers_at st)"
  shows "\<exists>s. carry_over p st = Some s"
proof -
  obtain d where d: "controllers_at st p = Some d" using assms(2) by blast
  obtain f where f: "find_existing (controllers_at st) (rgb_controllers_hw_matched st) d
      (rgb_controllers_hw_cleanup_pending st) = Some f"
    using find_existing_defined [OF devices_okD(5) [OF assms(1)]] by blast
  show ?thesis
  proof (cases f)
    case (Some e)
    then show ?thesis using d f find_existing_in f by (fastforce simp: carry_over_def)
  qed (use d f in \<open>simp add: carry_over_def\<close>)
qed

lemma create_controller_defined:
  assumes "devices_ok st" "sizes_ready st" "keeps_zones env" "p \<notin> dom (controllers_at st)"
  shows "\<exists>st'. create_controller env (p, d) st = Some st'"
proof -
  let ?s = "st\<lparr>controllers_at := (controllers_at st)(p \<mapsto> d)\<rparr>"
  have ok: "devices_ok ?s" using assms(1) by (auto simp: devices_ok_def)
  have p: "p \<notin> set (rgb_controllers_hw st)" using assms(4) devices_okD(7) [OF assms(1)] by auto
  obtain s1 where s1: "(if rgb_controllers_hw_cleanup_pending ?s \<noteq> [] then carry_over p ?s else Some ?s) = Some s1"
    using carry_over_defined [OF ok, of p] by (cases "rgb_controllers_hw_cleanup_pending ?s = []") auto
  then have same1: "lists_only ?s s1 \<and> dom (controllers_at s1) = dom (controllers_at ?s) \<and>
      rgb_controllers_hw s1 = rgb_controllers_hw ?s \<and> rgb_controllers s1 = rgb_controllers ?s"
    using carry_over_only [of p ?s s1] by (cases "rgb_controllers_hw_cleanup_pending ?s = []") simp_all
  then have "p \<in> dom (controllers_at s1)" by simp
  then obtain s2 where s2: "own_device p s1 = Some s2" by (auto simp: own_device_def)
  note same2 = own_device_only [OF s2]
  have hw2: "distinct (rgb_controllers_hw s2)" "distinct (rgb_controllers s2)" "set (rgb_controllers_hw s2) \<subseteq> dom (controllers_at s2)"
    using same1 same2 devices_okD [OF ok] p by auto
  have "sizes_ready s2" using same1 same2 assms(2) by (simp add: sizes_ready_def lists_only_def)
  have "\<exists>s3. list_new_devices (resize_zone env) s2 = Some s3"
  proof (cases "length (rgb_controllers_hw s2) \<noteq> detection_prev_size s2")
    case True
    have "set (drop (detection_prev_size s2) (rgb_controllers_hw s2)) \<subseteq> dom (controllers_at s2)"
      using hw2(3) set_drop_subset by fast
    then obtain s where s: "fold_def (load_sizes_of (resize_zone env)) (drop (detection_prev_size s2) (rgb_controllers_hw s2)) s2 = Some s"
      using load_all_sizes_defined [of "resize_zone env"] assms(3) \<open>sizes_ready s2\<close> by (fastforce simp: keeps_zones_def)
    then show ?thesis
      using True UpdateDeviceList_eq [of s] load_all_sizes_only [OF s] hw2 by (simp add: list_new_devices_def)
  qed (simp add: list_new_devices_def)
  then obtain s3 where s3: "list_new_devices (resize_zone env) s2 = Some s3" by blast
  let ?s3 = "s3\<lparr>detection_prev_size := length (rgb_controllers_hw s3)\<rparr>"
  have "\<exists>st'. UpdateDeviceList ?s3 = Some st'"
    using UpdateDeviceList_eq [of ?s3] list_new_devices_only [OF s3] list_new_devices_distinct [OF s3 hw2] hw2 by simp
  then show ?thesis
    using s1 s2 s3 by (simp add: create_controller_def RegisterRGBController_def)
qed

section \<open>Calls of detectors\<close>

definition alive :: "bool \<Rightarrow> res_env \<Rightarrow> resources \<Rightarrow> bool" where
  "alive U env st \<longleftrightarrow> fresh_env env \<and> devices_ok st \<and> (U \<or> keeps_zones env \<and> sizes_ready st)"

lemma alive_cong:
  assumes "alive U env st" "controllers_at st' = controllers_at st" "rgb_controllers_hw st' = rgb_controllers_hw st"
    "rgb_controllers st' = rgb_controllers st"
    "rgb_controllers_hw_cleanup_pending st' = rgb_controllers_hw_cleanup_pending st"
    "rgb_controllers_sizes st' = rgb_controllers_sizes st" "detection_size_entry_used st' = detection_size_entry_used st"
  shows "alive U env st'"
  using assms by (simp add: alive_def devices_ok_def sizes_ready_def)

lemma alive_create:
  assumes "alive U env st" "p \<notin> dom (controllers_at st)"
  shows "case create_controller env (p, d) st of None \<Rightarrow> U
    | Some st' \<Rightarrow> alive U env st' \<and> dom (controllers_at st') = insert p (dom (controllers_at st))"
proof (cases "create_controller env (p, d) st")
  case None
  then show ?thesis using assms create_controller_defined [of st env p d] by (auto simp: alive_def)
next
  case (Some st')
  with assms show ?thesis
    using create_controller_ok [of st p env d st'] by (auto simp: alive_def sizes_ready_def lists_only_def)
qed

lemma alive_create_all:
  "alive U env st \<Longrightarrow> distinct (map fst pds) \<Longrightarrow> set (map fst pds) \<inter> dom (controllers_at st) = {} \<Longrightarrow>
    case fold_def (create_controller env) pds st of None \<Rightarrow> U | Some st' \<Rightarrow> alive U env st'"
proof (induction pds arbitrary: st)
  case (Cons pd pds)
  obtain p d where pd: "pd = (p, d)" by fastforce
  have new: "case create_controller env (p, d) st of None \<Rightarrow> U
      | Some st' \<Rightarrow> alive U env st' \<and> dom (controllers_at st') = insert p (dom (controllers_at st))"
    using Cons.prems pd by (intro alive_create) auto
  show ?case
  proof (cases "create_controller env (p, d) st")
    case (Some s)
    with new have s: "alive U env s" "dom (controllers_at s) = insert p (dom (controllers_at st))" by simp_all
    then have "case fold_def (create_controller env) pds s of None \<Rightarrow> U | Some st' \<Rightarrow> alive U env st'"
      using Cons.prems pd by (intro Cons.IH) auto
    then show ?thesis using Some pd by simp
  qed (use new pd in simp)
qed simp

lemma alive_call: "holds U (alive U env) (call_detector env c)"
  unfolding holds_def
proof (intro allI impI)
  fix st assume st: "alive U env st"
  let ?r = "run_detector env c st"
  have "alive U env (emit [Ev_call c] st)" by (rule alive_cong [OF st]) (simp_all add: emit_def)
  moreover have "distinct (map fst (new_controllers ?r))"
    "set (map fst (new_controllers ?r)) \<inter> dom (controllers_at (emit [Ev_call c] st)) = {}"
    using st by (simp_all add: alive_def fresh_env_def emit_def)
  ultimately have created: "case fold_def (create_controller env) (new_controllers ?r) (emit [Ev_call c] st) of
      None \<Rightarrow> U | Some st' \<Rightarrow> alive U env st'" by (rule alive_create_all)
  show "case call_detector env c st of None \<Rightarrow> U | Some (st', r) \<Rightarrow> alive U env st'"
  proof (cases "fold_def (create_controller env) (new_controllers ?r) (emit [Ev_call c] st)")
    case None
    then show ?thesis using created
      by (simp add: call_detector_def then_scan_def adjust_def attempt_def)
  next
    case (Some s)
    then have "alive U env (s\<lparr>busses := bs, detection_is_required := b\<rparr>)" for bs b
      using created by (auto intro: alive_cong)
    then show ?thesis using Some
      by (simp add: call_detector_def then_scan_def adjust_def attempt_def pure_scan_def Let_def)
  qed
qed

interpretation alive: scan_calls U "alive U env" env ds j for U env ds j
  by unfold_locales (auto intro: alive_call alive_cong simp: emit_def)

lemma post_ok:
  assumes "devices_ok st"
  shows "\<exists>st'. ProcessPostDetection st = Some st' \<and> devices_ok st' \<and> rgb_controllers_hw_cleanup_pending st' = [] \<and>
    rgb_controllers_hw st' = rgb_controllers_hw st \<and> rgb_controllers st' = rgb_controllers st \<and>
    (\<forall>p. controllers_at st' p = (if p \<in> set (rgb_controllers_hw_cleanup_pending st) - set (rgb_controllers st) then None
      else controllers_at st p))"
proof -
  have del: "distinct ps \<Longrightarrow> set ps \<subseteq> dom h \<Longrightarrow>
      delete_unlisted ls ps h = Some (\<lambda>p. if p \<in> set ps - set ls then None else h p)" for ls ps h
  proof (induction ps arbitrary: h)
    case (Cons p ps)
    then have "set ps \<subseteq> dom (h(p := None))" by auto
    with Cons show ?case by (auto simp: fun_eq_iff)
  qed simp
  show ?thesis
    using del [OF devices_okD(2,5) [OF assms], of "rgb_controllers st"] assms
    by (auto simp: ProcessPostDetection_def emit_def devices_ok_def)
qed

end
