(* ===== verification/Res_Runs.thy ===== *)
theory Res_Runs
  imports Res_Alive
begin

text \<open>
  From the calls of detectors to whole runs: what the start, the scans and everything between them keep.
\<close>

section \<open>The interface of an invariant\<close>

text \<open>What the parts of the resource manager that do not touch devices leave as it is.\<close>

definition same_devices :: "resources \<Rightarrow> resources \<Rightarrow> bool" where
  "same_devices st st' \<longleftrightarrow> controllers_at st' = controllers_at st \<and> rgb_controllers_hw st' = rgb_controllers_hw st \<and>
     rgb_controllers st' = rgb_controllers st \<and>
     rgb_controllers_hw_cleanup_pending st' = rgb_controllers_hw_cleanup_pending st \<and>
     detect_locked st' = detect_locked st"

locale res_quiet =
  fixes P :: "resources \<Rightarrow> bool" and env :: res_env and ds :: detectors
  assumes quiet: "P st \<Longrightarrow> same_devices st st' \<Longrightarrow> P st'"
    and any_call: "holds True P (call_detector env dc)"
begin

lemma quiet_holds: "(\<And>st. same_devices st (f st)) \<Longrightarrow> holds True P (adjust f)"
  by (rule holds_adjust) (rule quiet)

lemma save_holds: "holds True P (save_detector_settings env j)"
  unfolding holds_def
  by (auto simp: save_detector_settings_def Let_def same_devices_def elim!: quiet split: prod.splits call.splits)

lemma settings_hold: "holds True P (UpdateDetectorSettings env ds)"
proof -
  have "holds True P (\<lambda>st. then_scan (pure_scan (GetSettings ''Detectors'' (settings st)))
     (\<lambda>j. then_scan (pure_scan (call_of (add_detector_settings (detector_names ds) (j, False))))
     (\<lambda>js. only_if (snd js) (save_detector_settings env (fst js)))) st)"
    by (rule holds_state) (intro holds_then holds_pure holds_only_if save_holds)
  then show ?thesis by (simp add: UpdateDetectorSettings_def [abs_def])
qed

lemma prepare_holds: "holds True P (prepare_scan env ds)"
proof -
  have dynamic: "holds True P (ProcessDynamicDetectors env ds)"
    unfolding ProcessDynamicDetectors_def
    by (intro holds_then holds_each any_call quiet_holds) (simp add: same_devices_def)
  have "holds True P (\<lambda>st. only_if (\<not> dynamic_detectors_processed st) (ProcessDynamicDetectors env ds) st)"
    by (rule holds_state) (intro holds_only_if dynamic)
  then show ?thesis
    unfolding prepare_scan_def ProcessPreDetectionHooks_def
    by (intro holds_then holds_each any_call quiet_holds settings_hold) (simp_all add: same_devices_def emit_def)
qed

end

locale res_invariant = res_quiet +
  assumes scan: "holds True P (DetectDevicesCoroutine env ds)"
    and clean: "P st \<Longrightarrow> P (fst (Cleanup bg st))"
    and update: "P st \<Longrightarrow> UpdateDeviceList st = Some st' \<Longrightarrow> P st'"
    and post: "P st \<Longrightarrow> ProcessPostDetection st = Some st' \<Longrightarrow> P st'"
    and unregister: "P st \<Longrightarrow> res_input_ok (Unregister p) st \<Longrightarrow> UnregisterRGBController p st = Some st' \<Longrightarrow> P st'"
    and delete: "P st \<Longrightarrow> res_input_ok (Delete p) st \<Longrightarrow> P (st\<lparr>controllers_at := (controllers_at st)(p := None)\<rparr>)"
    and lists: "P st \<Longrightarrow> res_input_ok (Client_lists pds) st \<Longrightarrow> P (list_remote pds st)"
    and gone: "P st \<Longrightarrow> res_input_ok (Client_gone c ps) st \<Longrightarrow> UnregisterNetworkClient c ps st = Some st' \<Longrightarrow> P st'"
begin

lemma attempt_holds: "(\<And>st st'. P st \<Longrightarrow> f st = Some st' \<Longrightarrow> P st') \<Longrightarrow> holds True P (attempt f)"
  by (rule holds_attempt) (auto split: option.splits)

lemma clean_holds: "holds True P (\<lambda>st. Some (Cleanup bg st))"
  unfolding holds_def
proof (intro allI impI)
  fix st assume "P st"
  then show "case Some (Cleanup bg st) of None \<Rightarrow> True | Some (st', r) \<Rightarrow> P st'" using clean [of st bg] by (simp add: split_beta)
qed

lemma pre_clean_holds: "holds True P (pre_clean bg)"
  unfolding pre_clean_def
  by (intro holds_then quiet_holds clean_holds attempt_holds holds_done) (auto simp: same_devices_def emit_def elim: update)

lemma pre_holds: "holds True P (ProcessPreDetection env ds bg)"
proof -
  have "holds True P (\<lambda>st. if detection_enabled st \<and> \<not> detection_is_required st then pre_clean bg st else done_scan False st)"
    using pre_clean_holds [of bg] by (simp add: holds_def done_scan_def)
  then show ?thesis unfolding ProcessPreDetection_def by (intro holds_then prepare_holds)
qed

lemma post_holds: "holds True P (attempt ProcessPostDetection)"
  by (rule attempt_holds) (rule post)

lemma detect_holds: "holds True P (DetectDevices env ds)"
proof -
  have "holds True P (\<lambda>st. only_if (\<not> detection_enabled st) (attempt ProcessPostDetection) st)"
    by (rule holds_state) (intro holds_only_if post_holds)
  then show ?thesis
    unfolding DetectDevices_def
    by (intro holds_then holds_only_if pre_holds quiet_holds) (simp_all add: same_devices_def schedule_coroutine_def)
qed

lemma rescan_holds: "holds True P (RescanDevices_res env ds)"
  unfolding RescanDevices_res_def
  by (intro holds_then quiet_holds detect_holds)
    (simp add: same_devices_def forward_rescan_def emit_def split: bool.splits option.splits)

lemma init_holds: "holds True P (InitCoroutine env ds)"
proof -
  have start: "holds True P (start_detection env ds)"
    using holds_then [OF pre_holds [of True], of "\<lambda>b. only_if b (DetectDevicesCoroutine env ds)"] scan post_holds
    by (simp add: holds_def start_detection_def [abs_def] only_if_def done_scan_def)
  have settings: "holds True P (\<lambda>st. pure_scan (GetSettings ''Client'' (settings st)) st)"
    by (rule holds_state) (rule holds_pure)
  have saved: "holds True P (connect_saved_clients env j)" for j
    unfolding connect_saved_clients_def
    by (intro holds_only_if holds_each holds_then holds_pure quiet_holds) (simp add: same_devices_def RegisterNetworkClient_def)
  have "same_devices st (auto_connect env st)" for st
    by (auto simp: same_devices_def auto_connect_def AttemptLocalConnection_def RegisterNetworkClient_def emit_def Let_def
      split: prod.splits option.splits)
  then show ?thesis
    unfolding InitCoroutine_def
    by (intro holds_then quiet_holds settings saved start) (simp_all add: same_devices_def emit_def start_servers_def finish_init_def Let_def)
qed

lemma coroutine_holds: "holds True P (coroutine_of env ds co)"
  by (cases co) (auto intro!: init_holds scan quiet_holds simp: same_devices_def HidExitCoroutine_def emit_def)

lemma turn: "P st \<Longrightarrow> background_turn env ds st = Some st' \<Longrightarrow> P st'"
proof -
  assume P: "P st" and turn: "background_turn env ds st = Some st'"
  show "P st'"
  proof (cases "background_stuck st \<or> scheduled st = None")
    case True
    then show ?thesis using P turn by (auto simp: background_turn_def split: if_splits)
  next
    case False
    then obtain co s r where "coroutine_of env ds co (st\<lparr>scheduled := None\<rparr>) = Some (s, r)"
        "st' = (if r = Blocks then s\<lparr>background_stuck := True\<rparr> else s)"
      using turn by (auto simp: background_turn_def)
    moreover have "P (st\<lparr>scheduled := None\<rparr>)" by (rule quiet [OF P]) (simp add: same_devices_def)
    ultimately have "P s" "same_devices s st'" using holdsD [OF coroutine_holds] by (auto simp: same_devices_def)
    then show ?thesis by (rule quiet)
  qed
qed

lemma step: "P st \<Longrightarrow> res_input_ok i st \<Longrightarrow> res_step env ds i st = Some st' \<Longrightarrow> P st'"
proof (cases i)
  case Rescan
  then show "P st \<Longrightarrow> res_step env ds i st = Some st' \<Longrightarrow> P st'" using holdsD [OF rescan_holds] by auto
next
  case (Unregister p)
  then show "P st \<Longrightarrow> res_input_ok i st \<Longrightarrow> res_step env ds i st = Some st' \<Longrightarrow> P st'" using unregister [of st p st'] by simp
next
  case (Delete p)
  then show "P st \<Longrightarrow> res_input_ok i st \<Longrightarrow> res_step env ds i st = Some st' \<Longrightarrow> P st'" using delete [of st p] by auto
qed (auto intro: turn lists gone quiet simp: StopDeviceDetection_def same_devices_def)

lemma runs: "res_runs env ds s0 s \<Longrightarrow> P s0 \<Longrightarrow> P s"
  by (induction rule: res_runs.induct) (auto intro: step)

end

section \<open>The devices\<close>

lemma clean_ok:
  assumes "devices_ok st"
  shows "devices_ok (fst (Cleanup bg st))"
  using assms by (auto simp: Cleanup_def devices_ok_def Let_def HidExitCoroutine_def emit_def schedule_coroutine_def)

lemma devices_ok_locked: "devices_ok st \<Longrightarrow> devices_ok (st\<lparr>detect_locked := b\<rparr>)"
  by (simp add: devices_ok_def)

lemma scan_body_alive:
  "holds U (\<lambda>st. fresh_env env \<and> devices_ok st \<and> (U \<or> keeps_zones env)) (scan_body env ds)"
  (is "holds U ?P _")
proof (rule scan_body_holds)
  fix j
  have run: "holds U (alive U env) (then_scan (run_detectors env ds j safe) (\<lambda>_. attempt ProcessPostDetection))" for safe
  proof (intro holds_then alive.run_detectors_holds holds_attempt)
    fix s assume s: "alive U env s"
    then show "case ProcessPostDetection s of None \<Rightarrow> U | Some s' \<Rightarrow> alive U env s'"
      using post_ok [of s] by (auto simp: alive_def ProcessPostDetection_def emit_def sizes_ready_def split: Option.bind_splits)
  qed
  have "holds U ?P (then_scan (adjust (\<lambda>st. reset_sizes_used (st\<lparr>initial_detection := False\<rparr>)))
      (\<lambda>_. then_scan (run_detectors env ds j safe) (\<lambda>_. attempt ProcessPostDetection)))" for safe
    unfolding holds_def
  proof (intro allI impI)
    fix st assume P: "?P st"
    then have "alive U env (reset_sizes_used (st\<lparr>initial_detection := False\<rparr>))"
      by (auto simp: alive_def devices_ok_def reset_sizes_used_def sizes_ready_def)
    with run [of safe] show "case then_scan (adjust (\<lambda>st. reset_sizes_used (st\<lparr>initial_detection := False\<rparr>)))
        (\<lambda>_. then_scan (run_detectors env ds j safe) (\<lambda>_. attempt ProcessPostDetection)) st of
      None \<Rightarrow> U | Some (st', r) \<Rightarrow> ?P st'"
      by (auto simp: holds_def then_scan_def adjust_def alive_def split: option.splits)
  qed
  note tail = this
  show "holds U ?P (scan_with env ds j)"
    unfolding scan_with_def by (intro holds_then [OF holds_pure] tail)
qed

lemma scan_alive: "holds U (\<lambda>st. fresh_env env \<and> devices_ok st \<and> (U \<or> keeps_zones env)) (DetectDevicesCoroutine env ds)"
  (is "holds U ?P _")
proof -
  have body: "holds U ?P (then_scan (scan_body env ds) (\<lambda>_. adjust (\<lambda>st. st\<lparr>detect_locked := False\<rparr>)))"
    by (intro holds_then scan_body_alive holds_adjust) (simp add: devices_ok_locked)
  show ?thesis
    using body by (simp add: holds_def DetectDevicesCoroutine_def devices_ok_locked)
qed

lemma unregister_ok:
  assumes "devices_ok st" "UnregisterRGBController p st = Some st'"
  shows "devices_ok st'"
proof -
  let ?s = "st\<lparr>rgb_controllers_hw := remove1 p (rgb_controllers_hw st), rgb_controllers := remove1 p (rgb_controllers st)\<rparr>"
  from assms have "devices_ok ?s"
    by (auto simp: devices_ok_def remove1_append remove1_idem dest: notin_set_remove1)
  with assms(2) show ?thesis
    using update_ok [of ?s] by (auto simp: UnregisterRGBController_def split: Option.bind_splits)
qed

lemma lists_ok: "devices_ok st \<Longrightarrow> res_input_ok (Client_lists pds) st \<Longrightarrow> devices_ok (list_remote pds st)"
  by (auto simp: devices_ok_def list_remote_def client_lists_def emit_def dom_map_of_conv_image_fst)

lemma gone_ok:
  assumes "devices_ok st" "res_input_ok (Client_gone c ps) st" "UnregisterNetworkClient c ps st = Some st'"
  shows "devices_ok st'"
proof -
  have ps: "set ps \<inter> set (rgb_controllers_hw st) = {}" "set ps \<inter> set (rgb_controllers_hw_cleanup_pending st) = {}"
    using assms(2) by auto
  obtain rs where rs: "rgb_controllers st = rgb_controllers_hw st @ rs" using assms(1) by (auto simp: devices_ok_def)
  have "fold remove1 ps (rgb_controllers st) = rgb_controllers_hw st @ fold remove1 ps rs"
    unfolding rs by (rule fold_remove1_append) (rule ps(1))
  then have "devices_ok (client_withdraws ps (st\<lparr>network_clients := remove1 c (network_clients st)\<rparr>))"
    using assms(1) ps set_fold_remove1 [OF devices_okD(4) [OF assms(1)], of ps]
      distinct_fold_remove1 [OF devices_okD(4) [OF assms(1)], of ps]
    by (auto simp: devices_ok_def client_withdraws_def dom_def subset_iff)
  then show ?thesis using update_ok assms(3) by (fastforce simp: UnregisterNetworkClient_def)
qed

definition sound :: "res_env \<Rightarrow> resources \<Rightarrow> bool" where
  "sound env st \<longleftrightarrow> fresh_env env \<and> devices_ok st"

lemma sound_alive: "sound env = alive True env"
  by (simp add: fun_eq_iff alive_def sound_def)

lemma sound_call: "holds True (sound env) (call_detector env c)"
  unfolding sound_alive by (rule alive_call)

lemma sound_scan: "holds True (sound env) (DetectDevicesCoroutine env ds)"
  using scan_alive [of True env ds] by (simp add: sound_def [abs_def])

interpretation devices: res_invariant "sound env" env ds for env ds
proof
  show "sound env st \<Longrightarrow> same_devices st st' \<Longrightarrow> sound env st'" for st st'
    by (simp add: sound_def devices_ok_def same_devices_def)
  show "holds True (sound env) (call_detector env dc)" for dc by (rule sound_call)
  show "holds True (sound env) (DetectDevicesCoroutine env ds)" by (rule sound_scan)
  show "sound env st \<Longrightarrow> sound env (fst (Cleanup bg st))" for st bg by (simp add: sound_def clean_ok)
  show "sound env st \<Longrightarrow> UpdateDeviceList st = Some st' \<Longrightarrow> sound env st'" for st st'
    using update_ok [of st] by (auto simp: sound_def)
  show "sound env st \<Longrightarrow> ProcessPostDetection st = Some st' \<Longrightarrow> sound env st'" for st st'
    using post_ok [of st] by (auto simp: sound_def)
  show "sound env st \<Longrightarrow> res_input_ok (Unregister p) st \<Longrightarrow> UnregisterRGBController p st = Some st' \<Longrightarrow> sound env st'" for st p st'
    using unregister_ok [of st p st'] by (simp add: sound_def)
  show "sound env st \<Longrightarrow> res_input_ok (Delete p) st \<Longrightarrow> sound env (st\<lparr>controllers_at := (controllers_at st)(p := None)\<rparr>)" for st p
    by (auto simp: sound_def devices_ok_def)
  show "sound env st \<Longrightarrow> res_input_ok (Client_lists pds) st \<Longrightarrow> sound env (list_remote pds st)" for st pds
    using lists_ok by (simp add: sound_def)
  show "sound env st \<Longrightarrow> res_input_ok (Client_gone c ps) st \<Longrightarrow> UnregisterNetworkClient c ps st = Some st' \<Longrightarrow> sound env st'" for st c ps st'
    using gone_ok [of st c ps st'] by (simp add: sound_def)
qed

section \<open>The lock of a scan\<close>

lemma call_only:
  assumes "call_detector env c st = Some (st', r)"
  shows "detect_locked st' = detect_locked st"
proof -
  have create: "create_controller env pd s = Some s' \<Longrightarrow> detect_locked s' = detect_locked s" for pd s s'
    using RegisterRGBController_only by (fastforce simp: create_controller_def lists_only_def)
  have "fold_def (create_controller env) pds s = Some s' \<Longrightarrow> detect_locked s' = detect_locked s" for pds s s'
    by (induction pds arbitrary: s) (auto dest: create split: Option.bind_splits)
  then show ?thesis
    using assms by (fastforce simp: call_detector_def then_scan_def adjust_def attempt_def pure_scan_def emit_def Let_def
      split: Option.bind_splits call.splits)
qed

lemma then_scan_locked:
  "detect_locked st \<Longrightarrow> DetectDevicesCoroutine env ds st = Some (st, Blocks)"
  by (simp add: DetectDevicesCoroutine_def)

lemma lists_only_locked: "lists_only st st' \<Longrightarrow> detect_locked st' = detect_locked st"
  by (simp add: lists_only_def)

interpretation locked: res_invariant detect_locked env ds for env ds
proof
  show "holds True detect_locked (call_detector env dc)" for dc
    using call_only [of env dc] by (auto simp: holds_def split: option.splits)
  show "holds True detect_locked (DetectDevicesCoroutine env ds)"
    by (simp add: holds_def then_scan_locked)
  show "detect_locked st \<Longrightarrow> UpdateDeviceList st = Some st' \<Longrightarrow> detect_locked st'" for st st'
    using UpdateDeviceList_only lists_only_locked by blast
  show "detect_locked st \<Longrightarrow> res_input_ok (Unregister p) st \<Longrightarrow> UnregisterRGBController p st = Some st' \<Longrightarrow> detect_locked st'" for st p st'
    using UpdateDeviceList_only by (fastforce simp: UnregisterRGBController_def lists_only_def split: Option.bind_splits)
  show "detect_locked st \<Longrightarrow> res_input_ok (Client_gone c ps) st \<Longrightarrow> UnregisterNetworkClient c ps st = Some st' \<Longrightarrow> detect_locked st'" for st c ps st'
    using UpdateDeviceList_only by (fastforce simp: UnregisterNetworkClient_def client_withdraws_def lists_only_def)
qed (auto simp: same_devices_def Cleanup_def ProcessPostDetection_def list_remote_def client_lists_def emit_def
    split: Option.bind_splits)

end
