(* ===== verification/Res_Props.thy ===== *)
theory Res_Props
  imports Res_Runs
begin

text \<open>
  Properties of the settings and of the resource manager: what a scan may call and what it leaves, how a device keeps its
  settings over a rescan, and where a scan or a device is lost.
\<close>

section \<open>Settings\<close>

text \<open>C31: a setting that is stored and saved is read back by the next start of the program, and the others are kept.\<close>

theorem settings_survive:
  assumes "SetSettings k v s = (s', Returns ())" "SaveSettings dump s' st = Returns st'"
    "dump (settings_data s') = Some bs" "parse bs = Inr (settings_data s')" "writable st (c_str (settings_filename s))"
    "LoadSettings parse st' (settings_filename s) new_settings = (s'', Returns ())"
  shows "GetSettings k s'' = Returns v \<and> (\<forall>k'. str8 k' = str8 k \<or> GetSettings k' s'' = GetSettings k' s)"
proof -
  from assms(1) obtain j where j: "json_set k v (settings_data s) = Inr j" "s' = s\<lparr>settings_data := j\<rparr>" "\<not> settings_locked s"
    by (auto simp: SetSettings_def split: if_splits sum.splits)
  with assms(2,3) have "st' = write_file (settings_filename s) bs st" by (simp add: SaveSettings_def)
  then have "read_file st' (settings_filename s) = Some bs" using assms(5) by (simp add: read_write_file)
  with assms(4,6) j have "settings_data s'' = j" "\<not> settings_locked s''" by (auto simp: LoadSettings_def new_settings_def)
  then have "GetSettings k' s'' = GetSettings k' s" if "str8 k' \<noteq> str8 k" for k'
    using json_set_other [OF j(1) that] j(3) by (simp add: GetSettings_def)
  moreover have "GetSettings k s'' = Returns v"
    using json_set_get [OF j(1)] \<open>settings_data s'' = j\<close> \<open>\<not> settings_locked s''\<close> by (simp add: GetSettings_def)
  ultimately show ?thesis by blast
qed

text \<open>Saving settings that cannot be written as text leaves an empty file.\<close>

lemma failed_save_empties_file:
  assumes "dump (settings_data s) = None" "writable st (c_str (settings_filename s))" "\<not> settings_locked s"
  shows "\<exists>st'. SaveSettings dump s st = Returns st' \<and> read_file st' (settings_filename s) = Some []"
  using assms by (simp add: SaveSettings_def read_write_file)

text \<open>A file whose value is an array or a number makes the next change of a setting throw with the mutex locked.\<close>

lemma array_of_settings_blocks:
  assumes "parse bs = Inr (JArray js)" "read_file st p = Some bs" "\<not> settings_locked s"
    "LoadSettings parse st p s = (s1, r)" "SetSettings k v s1 = (s2, r')"
  shows "(\<exists>e. r' = Throws e) \<and> GetSettings k' s2 = Blocks"
  using assms by (auto simp: LoadSettings_def SetSettings_def json_set_def type_error_def GetSettings_def)

section \<open>The list of devices\<close>

lemma length_fold_remove1_filter:
  assumes "distinct ls"
  shows "length (fold remove1 hw ls) = length (filter (\<lambda>p. p \<notin> set hw) ls)"
proof -
  have "set (filter (\<lambda>p. p \<notin> set hw) ls) = set (fold remove1 hw ls)" by (auto simp: set_fold_remove1 [OF assms])
  then show ?thesis
    using assms distinct_card [OF distinct_fold_remove1 [OF assms, of hw]] distinct_card [OF distinct_filter [OF assms]] by metis
qed

text \<open>C25: rebuilding the list of devices makes it the list of detected devices, in their order. It notifies of the list, of
  every device that was not listed before, by its place in the new list and its name, once for each device that is not
  detected any more, and of the new length; nothing else changes.
\<close>

theorem device_list_is_hardware:
  assumes "distinct (rgb_controllers_hw st)" "distinct (rgb_controllers st)"
    "set (rgb_controllers_hw st) \<subseteq> dom (controllers_at st)"
  shows "\<exists>gone. length gone = length (filter (\<lambda>p. p \<notin> set (rgb_controllers_hw st)) (rgb_controllers st)) \<and>
    UpdateDeviceList st = Some (emit ([Ev_device_list, Ev_server_list] @
        map (\<lambda>(i, p). Ev_connected i (name (the (controllers_at st p))))
          (filter (\<lambda>(i, p). p \<notin> set (rgb_controllers st)) (enumerate 0 (rgb_controllers_hw st))) @
        map Ev_disconnected gone @ [Ev_list_changed (length (rgb_controllers_hw st))])
      (st\<lparr>rgb_controllers := rgb_controllers_hw st\<rparr>))"
  using UpdateDeviceList_eq [OF assms] length_fold_remove1_filter [OF assms(2), of "rgb_controllers_hw st"]
  unfolding update_events_def connected_events_def
  by (intro exI [of _ "[length (rgb_controllers_hw st)..<length (rgb_controllers_hw st) +
       length (fold remove1 (rgb_controllers_hw st) (rgb_controllers st))]"]) simp

text \<open>C8: however rescans, scans, stops, withdrawals and network clients follow each other, every listed or pending
  controller is allocated, none is listed twice, and the detected devices come first, in order. Any controller may
  be withdrawn at any time; its owner deletes it afterwards, but not one that was withdrawn during a rescan and
  that the end of the scan still has to delete.
\<close>

theorem devices_alive:
  assumes "fresh_env env" "res_runs env ds (Initialize auto detect server post (new_resources s fs sizes)) st"
  shows "devices_ok st"
proof -
  have "sound env (Initialize auto detect server post (new_resources s fs sizes))"
    using assms(1) by (simp add: sound_def devices_ok_def Initialize_def schedule_coroutine_def new_resources_def)
  with devices.runs [OF assms(2)] show ?thesis by (simp add: sound_def)
qed

text \<open>C32: a scan does nothing undefined, whatever the detectors find, and keeps the lists in order.\<close>

theorem scan_stays_defined:
  assumes "fresh_env env" "keeps_zones env" "devices_ok st"
  shows "\<exists>st' r. DetectDevicesCoroutine env ds st = Some (st', r) \<and> devices_ok st'"
  using holds_defined [OF scan_alive [of False env ds], of st] assms by blast

text \<open>The controllers a client has listed are gone as soon as the list is rebuilt.\<close>

lemma remote_controllers_dropped:
  assumes "devices_ok st" "p \<in> set (rgb_controllers st)" "p \<notin> set (rgb_controllers_hw st)" "UpdateDeviceList st = Some st'"
  shows "p \<notin> set (rgb_controllers st')"
  using assms(3) UpdateDeviceList_lists(1) [OF devices_okD(1) devices_okD(4) devices_okD(7) assms(4), OF assms(1) assms(1) assms(1)]
  by simp

text \<open>A controller that is withdrawn is not announced as disconnected.\<close>

lemma unregister_unannounced:
  assumes "devices_ok st" "rgb_controllers st = rgb_controllers_hw st" "p \<in> set (rgb_controllers_hw st)"
    "UnregisterRGBController p st = Some st'"
  shows "rgb_controllers st' = remove1 p (rgb_controllers st) \<and>
    res_events st' = res_events st @ [Ev_device_list, Ev_server_list, Ev_list_changed (length (rgb_controllers st) - 1)]"
proof -
  let ?s = "st\<lparr>rgb_controllers_hw := remove1 p (rgb_controllers_hw st), rgb_controllers := remove1 p (rgb_controllers st)\<rparr>"
  have ok: "distinct (rgb_controllers_hw ?s)" "distinct (rgb_controllers ?s)" "set (rgb_controllers_hw ?s) \<subseteq> dom (controllers_at ?s)"
    using devices_okD [OF assms(1)] by (auto dest: notin_set_remove1)
  from assms(4) have "UpdateDeviceList ?s = Some st'" by (auto simp: UnregisterRGBController_def split: Option.bind_splits)
  moreover have "connected_events ?s = []"
    using assms(2) by (auto simp: connected_events_def filter_empty_conv in_set_enumerate_eq)
  ultimately show ?thesis
    using UpdateDeviceList_eq [OF ok] assms(2,3) by (auto simp: update_events_def emit_def length_remove1)
qed

text \<open>A controller that is registered twice is inserted behind the end of the list.\<close>

lemma place_behind_end:
  assumes "p \<in> set xs" "distinct xs"
  shows "place_controller (length xs) p xs = None"
proof -
  obtain as bs where xs: "xs = as @ p # bs" "p \<notin> set as" by (metis assms(1) split_list_first)
  then have "first_index (\<lambda>q. q = p) 0 xs = Some (length as)" using first_index_eq_Some [of p as 0 bs] by simp
  then show ?thesis using xs by (simp add: place_controller_def insert_index_def erase_index_def)
qed

text \<open>
  A pending controller that its owner has deleted, after withdrawing it during a rescan, is deleted once more: nothing takes
  it out of the pending ones.
\<close>

lemma deleted_pending_twice:
  assumes "p \<in> set (rgb_controllers_hw_cleanup_pending st)" "p \<notin> set (rgb_controllers st)" "controllers_at st p = None"
  shows "ProcessPostDetection st = None"
proof -
  have "h p = None \<Longrightarrow> p \<in> set ps \<Longrightarrow> p \<notin> set ls \<Longrightarrow> delete_unlisted ls ps h = None" for ps ls h
    by (induction ps arbitrary: h) auto
  then show ?thesis using assms by (simp add: ProcessPostDetection_def)
qed

lemma insert_hw_append:
  "insert_hw i (ps @ qs) xs = do { (ys, a) \<leftarrow> insert_hw i ps xs; (zs, b) \<leftarrow> insert_hw (i + length ps) qs ys; Some (zs, a @ b) }"
proof (induction ps arbitrary: i xs)
  case Nil
  then show ?case by (simp add: case_prod_beta)
next
  case (Cons p ps)
  show ?case
  proof (cases "place_controller i p xs")
    case (Some a)
    then show ?thesis using Cons.IH [of "Suc i" "fst a"]
      by (cases a) (auto simp: case_prod_beta bind_assoc split: Option.bind_splits)
  qed simp
qed

lemma update_twice:
  assumes "distinct hw" "p \<in> set hw" "rgb_controllers_hw st = hw @ [p]" "rgb_controllers st = hw"
  shows "UpdateDeviceList st = None"
proof -
  have "insert_hw 0 hw hw = Some (hw, [])"
    using insert_hw_split [of hw "[]" hw] assms(1) by (auto simp: filter_empty_conv in_set_enumerate_eq)
  then have "insert_hw 0 (hw @ [p]) hw = None" using place_behind_end [OF assms(2,1)] by (simp add: insert_hw_append)
  then show ?thesis using assms(3,4) by (simp add: UpdateDeviceList_def)
qed

lemma registered_twice_undefined:
  assumes "distinct (rgb_controllers_hw st)" "rgb_controllers st = rgb_controllers_hw st" "p \<in> set (rgb_controllers_hw st)"
  shows "RegisterRGBController rz p st = None"
proof (rule ccontr)
  assume "RegisterRGBController rz p st \<noteq> None"
  then obtain st' where "RegisterRGBController rz p st = Some st'" by blast
  then show False
  proof (rule RegisterRGBController_steps)
    fix s1 s2 s3 :: resources
    let ?s3 = "s3\<lparr>detection_prev_size := length (rgb_controllers_hw s3)\<rparr>"
    assume s: "(if rgb_controllers_hw_cleanup_pending st \<noteq> [] then carry_over p st else Some st) = Some s1"
      "own_device p s1 = Some s2" "list_new_devices rz s2 = Some s3" "UpdateDeviceList ?s3 = Some st'"
    have "rgb_controllers_hw s1 = rgb_controllers_hw st \<and> rgb_controllers s1 = rgb_controllers st"
      using s(1) carry_over_only [of p st s1] by (cases "rgb_controllers_hw_cleanup_pending st = []") simp_all
    then have s2: "rgb_controllers_hw s2 = rgb_controllers_hw st @ [p]" "rgb_controllers s2 = rgb_controllers_hw st"
      using own_device_only [OF s(2)] assms(2) by simp_all
    note twice = update_twice [OF assms(1,3)]
    show False
    proof (cases "length (rgb_controllers_hw s2) \<noteq> detection_prev_size s2")
      case True
      with s(3) obtain s where "fold_def (load_sizes_of rz) (drop (detection_prev_size s2) (rgb_controllers_hw s2)) s2 = Some s"
          "UpdateDeviceList s = Some s3"
        by (auto simp: list_new_devices_def split: Option.bind_splits)
      then show False using load_all_sizes_only twice [of s] s2 by fastforce
    next
      case False
      with s(3) have "s3 = s2" by (simp add: list_new_devices_def)
      then show False using s(4) twice [of ?s3] s2 by simp
    qed
  qed
qed

section \<open>A device that is found again\<close>

definition mode_settings :: "mode \<Rightarrow> u32 \<times> u32 \<times> u32 \<times> u32 \<times> RGBColor list" where
  "mode_settings m = (mode_speed m, mode_brightness m, mode_direction m, mode_color_mode m, mode_colors m)"

text \<open>The modes agree in order, name, value and number of colors, and no two have the same name and value.\<close>

definition same_shape :: "controller \<Rightarrow> controller \<Rightarrow> bool" where
  "same_shape old d \<longleftrightarrow> length (colors old) = length (colors d) \<and> unat (active_mode old) < length (modes old) \<and>
     length (modes old) < 2 ^ 31 \<and>
     map (\<lambda>m. (mode_name m, mode_value m, length (mode_colors m))) (modes old) =
     map (\<lambda>m. (mode_name m, mode_value m, length (mode_colors m))) (modes d) \<and>
     distinct (map (\<lambda>m. (mode_name m, mode_value m)) (modes d))"

lemma first_index_nth:
  "i < length xs \<Longrightarrow> P (xs ! i) \<Longrightarrow> (\<And>j. j < i \<Longrightarrow> \<not> P (xs ! j)) \<Longrightarrow> first_index P k xs = Some (k + i)"
proof (induction xs arbitrary: i k)
  case (Cons x xs)
  show ?case
  proof (cases i)
    case 0
    then show ?thesis using Cons.prems by simp
  next
    case (Suc n)
    have "\<not> P x" using Cons.prems(3) [of 0] Suc by simp
    moreover have "\<not> P (xs ! j)" if "j < n" for j using Cons.prems(3) [of "Suc j"] Suc that by simp
    then have "first_index P (Suc k) xs = Some (Suc k + n)" using Cons.prems Suc by (intro Cons.IH) auto
    ultimately show ?thesis using Suc by simp
  qed
qed simp

lemma find_nth:
  "i < length xs \<Longrightarrow> P (xs ! i) \<Longrightarrow> (\<And>j. j < i \<Longrightarrow> \<not> P (xs ! j)) \<Longrightarrow> find P xs = Some (xs ! i)"
  by (auto simp: find_Some_iff)

lemma restore_state_settings:
  assumes "same_shape old d"
  shows "active_mode (restore_state old d) = active_mode old" "colors (restore_state old d) = colors old"
    "map mode_settings (modes (restore_state old d)) = map mode_settings (modes old)"
proof -
  let ?a = "unat (active_mode old)" and ?key = "\<lambda>m. (mode_name m, mode_value m, length (mode_colors m))"
  have len: "length (modes old) = length (modes d)" using assms map_eq_imp_length_eq by (fastforce simp: same_shape_def)
  have key: "?key (modes old ! i) = ?key (modes d ! i)" if "i < length (modes d)" for i
    using assms that len nth_map [of i "modes old" ?key] nth_map [of i "modes d" ?key] by (simp add: same_shape_def)
  have neq: "\<not> named_mode (modes d ! i) (modes d ! k)" if "i < length (modes d)" "k < length (modes d)" "i \<noteq> k" for i k
  proof -
    let ?nv = "\<lambda>m. (mode_name m, mode_value m)"
    have "map ?nv (modes d) ! i \<noteq> map ?nv (modes d) ! k"
      using assms that nth_eq_iff_index_eq [of "map ?nv (modes d)" i k] by (simp add: same_shape_def)
    then show ?thesis using that by (auto simp: named_mode_def)
  qed
  have a: "?a < length (modes d)" "length (modes d) < 2 ^ 31" using assms len by (simp_all add: same_shape_def)
  have ua: "uint (active_mode old) = int ?a" by (rule uint_nat)
  then have small: "uint (active_mode old) < int (length (modes d))" using a(1) by linarith
  moreover note ua
  moreover have "length (modes d) < 2147483648" using a(2) by simp
  ultimately have "uint (active_mode old) < 2147483648" using a(1) by linarith
  then have sint: "sint (active_mode old) = int ?a"
    by (simp add: sint_uint signed_take_bit_int_eq_self_iff order_trans [of "- 2147483648" 0])
  have "first_index (\<lambda>m. named_mode m (modes old ! ?a)) 0 (modes d) = Some (0 + ?a)"
  proof (rule first_index_nth)
    show "named_mode (modes d ! ?a) (modes old ! ?a)" using key [OF a(1)] by (simp add: named_mode_def)
    show "\<not> named_mode (modes d ! j) (modes old ! ?a)" if "j < ?a" for j
      using neq [of j ?a] key [OF a(1)] that a(1) by (auto simp: named_mode_def)
  qed (rule a(1))
  then have active: "restore_active old d = d\<lparr>active_mode := active_mode old\<rparr>"
    using sint small len by (simp add: restore_active_def)
  have modes: "mode_settings (restore_mode (modes old) (modes d ! i)) = mode_settings (modes old ! i)" if i: "i < length (modes d)" for i
  proof -
    have "find (\<lambda>y. named_mode (modes d ! i) y) (modes old) = Some (modes old ! i)"
    proof (rule find_nth)
      show "\<not> named_mode (modes d ! i) (modes old ! j)" if "j < i" for j
        using neq [of i j] key [of j] that i by (auto simp: named_mode_def)
    qed (use i len key [OF i] in \<open>simp_all add: named_mode_def\<close>)
    then show ?thesis using key [OF i] by (simp add: restore_mode_def mode_settings_def)
  qed
  have cols: "length (colors d) = length (colors old)" using assms by (simp add: same_shape_def)
  show "active_mode (restore_state old d) = active_mode old" "colors (restore_state old d) = colors old"
    using active cols by (simp_all add: restore_state_def Let_def)
  show "map mode_settings (modes (restore_state old d)) = map mode_settings (modes old)"
  proof -
    have "modes (restore_state old d) = map (restore_mode (modes old)) (modes d)"
      using active by (simp add: restore_state_def Let_def)
    then show ?thesis using modes len by (intro nth_equalityI) simp_all
  qed
qed

lemma no_match: "\<forall>t \<in> set temps. \<not> same_device t d \<Longrightarrow> first_match temps used d = None"
  by (auto simp: first_match_def find_None_iff)

text \<open>Loading the stored sizes of some devices leaves a device alone for which none are stored.\<close>

lemma load_all_other_sizes:
  "controllers_at st p = Some d \<Longrightarrow> \<forall>t \<in> set (rgb_controllers_sizes st). \<not> same_device t d \<Longrightarrow>
    fold_def (load_sizes_of rz) ps st = Some st' \<Longrightarrow> controllers_at st' p = Some d"
proof (induction ps arbitrary: st)
  case (Cons q ps)
  then obtain s1 where s1: "load_sizes_of rz q st = Some s1" "fold_def (load_sizes_of rz) ps s1 = Some st'"
    by (auto split: Option.bind_splits)
  have "controllers_at s1 p = Some d"
    using s1(1) Cons.prems(1,2) no_match [OF Cons.prems(2)]
    by (cases "q = p") (auto simp: load_sizes_of_def LoadDeviceFromListWithOptions_def Let_def split: Option.bind_splits if_splits)
  moreover have "rgb_controllers_sizes s1 = rgb_controllers_sizes st" using load_sizes_of_only [OF s1(1)] by (simp add: lists_only_def)
  ultimately show ?case using Cons.IH [OF _ _ s1(2)] Cons.prems(2) by simp
qed simp

text \<open>C17: a device that a rescan finds again shows its old colors in its old mode with the settings of all its modes, if it has
  the shape it had (as many colors, the same modes in the same order, with as many mode colors, each with its own
  name and value) and no sizes of zones are stored for it.
\<close>

theorem replugged_device_restored:
  assumes "RegisterRGBController rz p st = Some st'" "controllers_at st p = Some d"
    "\<forall>t \<in> set (rgb_controllers_sizes st). \<not> same_device t d"
    "find_existing (controllers_at st) (rgb_controllers_hw_matched st) d (rgb_controllers_hw_cleanup_pending st) = Some (Some e)"
    "controllers_at st e = Some old" "same_shape old d"
  shows "\<exists>d'. controllers_at st' p = Some d' \<and> active_mode d' = active_mode old \<and> colors d' = colors old \<and>
    map mode_settings (modes d') = map mode_settings (modes old)"
  using assms(1)
proof (rule RegisterRGBController_steps)
  fix s1 s2 s3 :: resources
  let ?s3 = "s3\<lparr>detection_prev_size := length (rgb_controllers_hw s3)\<rparr>"
  assume s: "(if rgb_controllers_hw_cleanup_pending st \<noteq> [] then carry_over p st else Some st) = Some s1"
    "own_device p s1 = Some s2" "list_new_devices rz s2 = Some s3" "UpdateDeviceList ?s3 = Some st'"
  have "rgb_controllers_hw_cleanup_pending st \<noteq> []" using assms(4) by auto
  then have "controllers_at s1 p = Some (restore_state old d)" "rgb_controllers_sizes s1 = rgb_controllers_sizes st"
    using s(1) assms(2,4,5) by (auto simp: carry_over_def)
  then have s2: "controllers_at s2 p = Some (mark_local (restore_state old d))" "rgb_controllers_sizes s2 = rgb_controllers_sizes st"
    using s(2) by (auto simp: own_device_def)
  have "same_device t (mark_local (restore_state old d)) = same_device t d" for t
    by (simp add: same_device_def location_check_def mark_local_def restore_state_def restore_active_def Let_def split: option.split)
  then have none: "\<forall>t \<in> set (rgb_controllers_sizes s2). \<not> same_device t (mark_local (restore_state old d))"
    using assms(3) s2(2) by simp
  have "controllers_at s3 p = controllers_at s2 p"
  proof (cases "length (rgb_controllers_hw s2) \<noteq> detection_prev_size s2")
    case True
    with s(3) obtain s where "fold_def (load_sizes_of rz) (drop (detection_prev_size s2) (rgb_controllers_hw s2)) s2 = Some s"
        "UpdateDeviceList s = Some s3"
      by (auto simp: list_new_devices_def split: Option.bind_splits)
    then show ?thesis using load_all_other_sizes [OF s2(1) none] UpdateDeviceList_only [of s s3] s2(1) by simp
  qed (use s(3) in \<open>simp add: list_new_devices_def\<close>)
  then have "controllers_at st' p = Some (mark_local (restore_state old d))"
    using s2(1) UpdateDeviceList_only [OF s(4)] by simp
  then show ?thesis using restore_state_settings [OF assms(6)] by (simp add: mark_local_def)
qed

section \<open>Which detectors run\<close>

text \<open>The calls made after those in \<open>before\<close> are permitted.\<close>

definition calls_permitted :: "res_env \<Rightarrow> detectors \<Rightarrow> json \<Rightarrow> detector_call list \<Rightarrow> resources \<Rightarrow> bool" where
  "calls_permitted env ds j before st \<longleftrightarrow> (\<exists>cs. calls_of (res_events st) = before @ cs \<and> list_all (permitted env ds j) cs)"

lemma calls_permitted_same:
  "calls_permitted env ds j before st \<Longrightarrow> calls_of (res_events st') = calls_of (res_events st) \<Longrightarrow> calls_permitted env ds j before st'"
  by (simp add: calls_permitted_def)

lemma calls_permitted_more:
  assumes "calls_permitted env ds j before st" "permitted env ds j c" "calls_of (res_events st') = calls_of (res_events st) @ [c]"
  shows "calls_permitted env ds j before st'"
proof -
  obtain cs where "calls_of (res_events st) = before @ cs" "list_all (permitted env ds j) cs"
    using assms(1) by (auto simp: calls_permitted_def)
  then show ?thesis using assms(2,3) unfolding calls_permitted_def by (intro exI [of _ "cs @ [c]"]) simp
qed

lemma create_all_calls:
  "fold_def (create_controller env) pds st = Some st' \<Longrightarrow> calls_of (res_events st') = calls_of (res_events st)"
proof (induction pds arbitrary: st)
  case (Cons pd pds)
  then obtain s where s: "create_controller env pd st = Some s" "fold_def (create_controller env) pds s = Some st'"
    by (auto split: Option.bind_splits)
  from s(1) have "calls_of (res_events s) = calls_of (res_events st)"
    using RegisterRGBController_only by (fastforce simp: create_controller_def lists_only_def)
  with Cons.IH [OF s(2)] show ?case by simp
qed simp

lemma call_detector_calls:
  assumes "call_detector env c st = Some (st', r)"
  shows "calls_of (res_events st') = calls_of (res_events st) @ [c]"
  using assms
  by (auto simp: call_detector_def then_scan_def adjust_def attempt_def pure_scan_def emit_def Let_def
    split: Option.bind_splits dest!: create_all_calls)

interpretation permitted: scan_calls True "calls_permitted env ds j before" env ds j for ds j before env
proof
  show "holds True (calls_permitted env ds j before) (call_detector env c)" if "permitted env ds j c" for c
    unfolding holds_def
  proof (intro allI impI)
    fix st assume st: "calls_permitted env ds j before st"
    show "case call_detector env c st of None \<Rightarrow> True | Some (st', r) \<Rightarrow> calls_permitted env ds j before st'"
      using calls_permitted_more [OF st that] call_detector_calls [of env c st] by (auto split: option.splits)
  qed
qed (auto simp: calls_permitted_def emit_def)

lemma post_events:
  "ProcessPostDetection st = Some st' \<Longrightarrow> calls_of (res_events st') = calls_of (res_events st)"
  by (auto simp: ProcessPostDetection_def emit_def split: Option.bind_splits)


section \<open>A scan that fails\<close>

interpretation locked_calls: scan_calls True detect_locked env ds j for env ds j
  by unfold_locales (auto simp: emit_def locked.any_call)

lemma scan_body_locked: "holds True detect_locked (scan_body env ds)"
  by (intro scan_body_holds locked_calls.scan_with_holds locked.post_holds) (simp add: reset_sizes_used_def)

lemma failed_scan_locked:
  assumes "DetectDevicesCoroutine env ds st = Some (st', Throws e)"
  shows "detect_locked st'"
proof -
  from assms have "\<not> detect_locked st" by (auto simp: DetectDevicesCoroutine_def)
  with assms have run: "then_scan (scan_body env ds) (\<lambda>_. adjust (\<lambda>st. st\<lparr>detect_locked := False\<rparr>)) (st\<lparr>detect_locked := True\<rparr>) = Some (st', Throws e)"
    by (simp add: DetectDevicesCoroutine_def)
  show ?thesis
  proof (cases "scan_body env ds (st\<lparr>detect_locked := True\<rparr>)")
    case None
    with run show ?thesis by (simp add: then_scan_def)
  next
    case (Some a)
    obtain s r where a: "a = (s, r)" by fastforce
    with Some holdsD [OF scan_body_locked, of "st\<lparr>detect_locked := True\<rparr>" env ds s r] have "detect_locked s" by simp
    with run Some a show ?thesis by (cases r) (auto simp: then_scan_def adjust_def)
  qed
qed

text \<open>C24: a scan that ends with an exception (of a detector, or of a setting of the wrong type) is the last one: whatever
  happens afterwards, every further scan waits for its lock forever.
\<close>

theorem failed_scan_is_final:
  assumes "DetectDevicesCoroutine env ds st = Some (st', Throws e)" "res_runs env ds st' st''"
  shows "DetectDevicesCoroutine env ds st'' = Some (st'', Blocks)"
proof -
  have "detect_locked st''" using locked.runs [OF assms(2)] failed_scan_locked [OF assms(1)] .
  then show ?thesis by (simp add: DetectDevicesCoroutine_def)
qed

section \<open>What a scan leaves\<close>

text \<open>
  \<open>D\<close> are the addresses in use when the scan was asked for, \<open>H\<close> the devices listed then. Before the old devices are set aside
  \<open>growing\<close> holds, afterwards \<open>replacing\<close>.
\<close>

definition growing :: "nat set \<Rightarrow> nat set \<Rightarrow> res_env \<Rightarrow> resources \<Rightarrow> bool" where
  "growing D H env st \<longleftrightarrow> fresh_env env \<and> devices_ok st \<and> D \<subseteq> dom (controllers_at st) \<and> H \<subseteq> set (rgb_controllers_hw st) \<and>
     rgb_controllers_hw_cleanup_pending st = [] \<and> dom (controllers_at st) \<subseteq> D \<union> set (rgb_controllers_hw st)"

definition replacing :: "nat set \<Rightarrow> nat set \<Rightarrow> res_env \<Rightarrow> resources \<Rightarrow> bool" where
  "replacing D H env st \<longleftrightarrow> fresh_env env \<and> devices_ok st \<and> D \<subseteq> dom (controllers_at st) \<and>
     H \<subseteq> set (rgb_controllers_hw_cleanup_pending st) \<and> set (rgb_controllers_hw st) \<inter> D = {} \<and>
     rgb_controllers st = rgb_controllers_hw st \<and>
     dom (controllers_at st) \<subseteq> D \<union> set (rgb_controllers_hw st) \<union> set (rgb_controllers_hw_cleanup_pending st)"

lemma create_all_holds:
  assumes create: "\<And>s s' p d. P s \<Longrightarrow> devices_ok s \<Longrightarrow> p \<notin> dom (controllers_at s) \<Longrightarrow> create_controller env (p, d) s = Some s' \<Longrightarrow> P s'"
  shows "P s \<Longrightarrow> devices_ok s \<Longrightarrow> distinct (map fst pds) \<Longrightarrow> set (map fst pds) \<inter> dom (controllers_at s) = {} \<Longrightarrow>
    fold_def (create_controller env) pds s = Some s' \<Longrightarrow> P s' \<and> devices_ok s'"
proof (induction pds arbitrary: s)
  case (Cons pd pds)
  obtain p d where pd: "pd = (p, d)" by fastforce
  from Cons.prems pd obtain s1 where s1: "create_controller env (p, d) s = Some s1" "fold_def (create_controller env) pds s1 = Some s'"
    by (auto split: Option.bind_splits)
  have p: "p \<notin> dom (controllers_at s)" using Cons.prems pd by auto
  note ok = create_controller_ok [OF Cons.prems(2) p s1(1)]
  have "P s1" using create Cons.prems p s1(1) by blast
  then show ?case using Cons.prems pd ok by (intro Cons.IH [OF _ _ _ _ s1(2)]) auto
qed simp

lemma call_holds:
  assumes quiet: "\<And>s s'. P s \<Longrightarrow> same_devices s s' \<Longrightarrow> P s'" and ok: "\<And>s. P s \<Longrightarrow> fresh_env env \<and> devices_ok s"
    and create: "\<And>s s' p d. P s \<Longrightarrow> devices_ok s \<Longrightarrow> p \<notin> dom (controllers_at s) \<Longrightarrow> create_controller env (p, d) s = Some s' \<Longrightarrow> P s'"
  shows "holds True P (call_detector env c)"
  unfolding holds_def
proof (intro allI impI)
  fix st assume st: "P st"
  let ?r = "run_detector env c st" and ?s = "emit [Ev_call c] st"
  have s: "P ?s" using quiet [OF st] by (simp add: same_devices_def emit_def)
  have new: "distinct (map fst (new_controllers ?r))" "set (map fst (new_controllers ?r)) \<inter> dom (controllers_at ?s) = {}"
    using ok [OF st] by (auto simp: fresh_env_def emit_def)
  show "case call_detector env c st of None \<Rightarrow> True | Some (st', r) \<Rightarrow> P st'"
  proof (cases "fold_def (create_controller env) (new_controllers ?r) ?s")
    case None
    then show ?thesis by (simp add: call_detector_def then_scan_def adjust_def attempt_def)
  next
    case (Some s')
    have "P s' \<and> devices_ok s'"
      by (rule create_all_holds) (fact create, fact s, use ok [OF s] in blast, fact new(1), fact new(2), fact Some)
    then have "P s'" ..
    then have "P (s'\<lparr>busses := bs, detection_is_required := b\<rparr>)" for bs b
      by (rule quiet) (simp add: same_devices_def)
    then show ?thesis using Some
      by (simp add: call_detector_def then_scan_def adjust_def attempt_def pure_scan_def Let_def)
  qed
qed

lemma growing_call: "holds True (growing D H env) (call_detector env c)"
proof (rule call_holds)
  show "growing D H env s'" if "growing D H env s" "devices_ok s" "p \<notin> dom (controllers_at s)" "create_controller env (p, d) s = Some s'"
    for s s' p d
    using that create_controller_ok [OF that(2-4)] by (auto simp: growing_def lists_only_def)
qed (auto simp: growing_def same_devices_def devices_ok_def)

lemma replacing_call: "holds True (replacing D H env) (call_detector env c)"
proof (rule call_holds)
  show "replacing D H env s'" if "replacing D H env s" "devices_ok s" "p \<notin> dom (controllers_at s)" "create_controller env (p, d) s = Some s'"
    for s s' p d
  proof -
    note ok = create_controller_ok [OF that(2-4)]
    have "rgb_controllers s' = rgb_controllers_hw s'"
    proof -
      have "p \<notin> set (rgb_controllers_hw s)" "set (rgb_controllers_hw s) \<subseteq> dom ((controllers_at s)(p \<mapsto> d))"
        using that(3) devices_okD(7) [OF that(2)] by auto
      then show ?thesis
        using RegisterRGBController_list [OF that(4) [unfolded create_controller_def fst_conv snd_conv]] ok(4) devices_okD(1,4) [OF that(2)]
        by simp
    qed
    then show ?thesis using that ok by (auto simp: replacing_def lists_only_def)
  qed
qed (auto simp: replacing_def same_devices_def devices_ok_def)

interpretation replacing: scan_calls True "replacing D H env" env ds j for D H env ds j
  by unfold_locales (auto intro: replacing_call simp: replacing_def emit_def devices_ok_def)

interpretation growing: res_quiet "growing D H env" env ds for D H env ds
  by unfold_locales (auto intro: growing_call simp: growing_def same_devices_def devices_ok_def)

lemma then_scan_Returns:
  assumes "then_scan f g st = Some (s', Returns v)"
  obtains s u where "f st = Some (s, Returns u)" "g u s = Some (s', Returns v)"
proof (cases "f st")
  case (Some a)
  obtain s r where "a = (s, r)" by fastforce
  with Some assms that show ?thesis by (cases r) (auto simp: then_scan_def)
qed (use assms in \<open>simp add: then_scan_def\<close>)

lemma pre_clean_replacing:
  assumes "pre_clean bg s = Some (s1, Returns b)" "growing D H env s"
  shows "replacing D H env s1"
proof -
  have s: "devices_ok s" "rgb_controllers_hw_cleanup_pending s = []" "D \<subseteq> dom (controllers_at s)" "H \<subseteq> set (rgb_controllers_hw s)"
    "fresh_env env" "dom (controllers_at s) \<subseteq> D \<union> set (rgb_controllers_hw s)" using assms(2) by (simp_all add: growing_def)
  let ?e = "emit [Ev_progress] s"
  have e: "devices_ok ?e" using s(1) by (simp add: devices_ok_def emit_def)
  obtain c where c: "Cleanup bg ?e = (c, Returns ())" "UpdateDeviceList c \<noteq> None"
    "s1 = emit [Ev_hid_init] ((the (UpdateDeviceList c))\<lparr>detection_is_required := True\<rparr>)"
    using assms(1) unfolding pre_clean_def
    by (elim then_scan_Returns) (auto simp: adjust_def attempt_def done_scan_def)
  then have ok: "devices_ok c" using clean_ok [OF e, of bg] by simp
  have lists: "rgb_controllers_hw c = []" "rgb_controllers_hw_cleanup_pending c = rgb_controllers_hw s"
    "controllers_at c = controllers_at s"
    using c(1) s(2) by (auto simp: Cleanup_def emit_def Let_def HidExitCoroutine_def schedule_coroutine_def split: if_splits)
  obtain u where u: "UpdateDeviceList c = Some u" using c(2) by blast
  have "devices_ok u" "rgb_controllers u = rgb_controllers_hw u" using update_ok [OF ok] u by auto
  moreover have "controllers_at u = controllers_at s" "rgb_controllers_hw u = []"
      "rgb_controllers_hw_cleanup_pending u = rgb_controllers_hw s"
    using lists UpdateDeviceList_only [OF u] by (simp_all add: lists_only_def)
  moreover have "s1 = emit [Ev_hid_init] (u\<lparr>detection_is_required := True\<rparr>)" using c(3) u by simp
  ultimately show ?thesis using s by (simp add: replacing_def emit_def devices_ok_def)
qed

text \<open>C9: after a rescan that ends normally, the listed devices are exactly the detected ones and exactly the controllers
  that are allocated now and were not before the rescan, so that every controller that the scan has created is
  listed; every device that was detected before is deleted. (Controllers of network clients are only dropped from
  the list.)
\<close>

theorem scan_replaces_devices:
  assumes "fresh_env env" "devices_ok st" "rgb_controllers_hw_cleanup_pending st = []"
    "ProcessPreDetection env ds bg st = Some (st1, Returns True)" "DetectDevicesCoroutine env ds st1 = Some (st2, Returns ())"
  shows "rgb_controllers st2 = rgb_controllers_hw st2 \<and> distinct (rgb_controllers st2) \<and>
    set (rgb_controllers st2) = dom (controllers_at st2) - dom (controllers_at st) \<and>
    (\<forall>p. p \<in> set (rgb_controllers_hw st) \<longrightarrow> controllers_at st2 p = None)"
proof -
  let ?D = "dom (controllers_at st)" and ?H = "set (rgb_controllers_hw st)"
  have "growing ?D ?H env st" using assms(1-3) by (simp add: growing_def)
  moreover obtain s where s: "prepare_scan env ds st = Some (s, Returns ())"
    "(if detection_enabled s \<and> \<not> detection_is_required s then pre_clean bg s else done_scan False s) = Some (st1, Returns True)"
    using assms(4) unfolding ProcessPreDetection_def by (elim then_scan_Returns) auto
  ultimately have "growing ?D ?H env s" using holdsD [OF growing.prepare_holds] by blast
  then have st1: "replacing ?D ?H env st1"
    using s(2) pre_clean_replacing by (auto simp: done_scan_def split: if_splits)
  then have lock: "replacing ?D ?H env (st1\<lparr>detect_locked := True\<rparr>)" by (simp add: replacing_def devices_ok_locked)
  obtain s2 where s2: "scan_body env ds (st1\<lparr>detect_locked := True\<rparr>) = Some (s2, Returns ())" "st2 = s2\<lparr>detect_locked := False\<rparr>"
    using assms(5) unfolding DetectDevicesCoroutine_def
    by (cases "detect_locked st1") (auto elim!: then_scan_Returns simp: adjust_def)
  then obtain j where "scan_with env ds j (st1\<lparr>detect_locked := True\<rparr>) = Some (s2, Returns ())"
    unfolding scan_body_def by (auto elim!: then_scan_Returns simp: pure_scan_def)
  then obtain safe s3 s4 where s4: "run_detectors env ds j safe s3 = Some (s4, Returns ())" "ProcessPostDetection s4 = Some s2"
    "s3 = reset_sizes_used (st1\<lparr>detect_locked := True, initial_detection := False\<rparr>)"
    unfolding scan_with_def by (auto elim!: then_scan_Returns simp: pure_scan_def adjust_def attempt_def)
  have "replacing ?D ?H env s3" using lock s4(3) by (auto simp: replacing_def devices_ok_def reset_sizes_used_def)
  then have "replacing ?D ?H env s4" using holdsD [OF replacing.run_detectors_holds _ s4(1)] by blast
  then have r: "devices_ok s4" "?D \<subseteq> dom (controllers_at s4)" "?H \<subseteq> set (rgb_controllers_hw_cleanup_pending s4)"
      "set (rgb_controllers_hw s4) \<inter> ?D = {}" "rgb_controllers s4 = rgb_controllers_hw s4"
      "dom (controllers_at s4) \<subseteq> ?D \<union> set (rgb_controllers_hw s4) \<union> set (rgb_controllers_hw_cleanup_pending s4)"
    by (simp_all add: replacing_def)
  let ?hw = "set (rgb_controllers_hw s4)" and ?old = "set (rgb_controllers_hw_cleanup_pending s4)"
  have disjoint: "?hw \<inter> ?old = {}" "?hw \<subseteq> dom (controllers_at s4)" by (rule devices_okD(3,7) [OF r(1)])+
  have post: "rgb_controllers_hw st2 = rgb_controllers_hw s4" "rgb_controllers st2 = rgb_controllers_hw s4"
      "\<And>p. controllers_at st2 p = (if p \<in> ?old - ?hw then None else controllers_at s4 p)"
    using post_ok [OF r(1)] s4(2) s2(2) r(5) by auto
  have dom2: "dom (controllers_at st2) = dom (controllers_at s4) - ?old"
    using disjoint(1) by (auto simp: dom_def post(3) split: if_splits)
  have "?hw = dom (controllers_at st2) - ?D" using r(4,6) disjoint dom2 by blast
  moreover have "controllers_at st2 p = None" if "p \<in> ?H" for p using that r(3) disjoint(1) by (auto simp: post(3))
  ultimately show ?thesis using post(1,2) devices_okD(1) [OF r(1)] by simp
qed

end
