(* ===== verification/Res_Samples.thy ===== *)
theory Res_Samples
  imports Res_Props Prof_Props
begin

text \<open>
  The properties of the settings and of the resource manager at concrete runs: a program with one detector, which finds
  a lamp in every scan.
\<close>

section \<open>A program with one lamp\<close>

definition lamp :: controller where
  "lamp = sample_device\<lparr>location := str8 ''HID: lamp''\<rparr>"

definition nothing_found :: detected where
  "nothing_found = \<lparr>new_controllers = [], new_busses = [], stop_asked = False, thrown = None\<rparr>"

definition lamp_detector :: "detector_call \<Rightarrow> resources \<Rightarrow> detected" where
  "lamp_detector c st = (case c of
     Call_device n \<Rightarrow> (case find (\<lambda>p. controllers_at st p = None) [0..<10] of
        None \<Rightarrow> nothing_found | Some p \<Rightarrow> nothing_found\<lparr>new_controllers := [(p, lamp)]\<rparr>)
   | _ \<Rightarrow> nothing_found)"

definition lamp_env :: res_env where
  "lamp_env = \<lparr>run_detector = lamp_detector, hid_enumerate = \<lambda>v p. [], libusb_devices = [], read_spd = \<lambda>b a t. None,
     resize_zone = \<lambda>p i n d. Some d, dump_settings = \<lambda>j. Some [], local_client = \<lambda>st. None, new_client = \<lambda>st. 0,
     websocket_enabled = True\<rparr>"

definition lamp_detectors :: detectors where
  "lamp_detectors = \<lparr>pre_detection_hooks = 0, dynamic_detectors = 0, i2c_bus_detectors = 0, i2c_device_detectors = [],
     i2c_dimm_device_detectors = [], i2c_pci_device_detectors = [], hid_device_detectors = [],
     hid_wrapped_device_detectors = [], device_detectors = [''lamp'']\<rparr>"

definition lamp_start :: resources where
  "lamp_start = Initialize False True False False (new_resources new_settings sample_storage [])"

definition lamp_found :: resources where
  "lamp_found = the (background_turn lamp_env lamp_detectors lamp_start)"

lemma lamp_fresh: "fresh_env lamp_env" "keeps_zones lamp_env"
  by (auto simp: fresh_env_def keeps_zones_def lamp_env_def lamp_detector_def nothing_found_def find_Some_iff
      split: detector_call.splits option.splits)

lemma lamp_turn: "background_turn lamp_env lamp_detectors lamp_start \<noteq> None"
  by code_simp

lemma lamp_found_lists:
  "rgb_controllers lamp_found = [0]" "rgb_controllers_hw lamp_found = [0]"
  "rgb_controllers_hw_cleanup_pending lamp_found = []" "detect_locked lamp_found = False"
  by code_simp+

lemma lamp_runs: "res_runs lamp_env lamp_detectors lamp_start lamp_found"
proof (rule res_runs.step [where i = Turn])
  show "res_runs lamp_env lamp_detectors lamp_start lamp_start" by (rule res_runs.start)
  show "res_step lamp_env lamp_detectors Turn lamp_start = Some lamp_found"
    using lamp_turn by (auto simp: lamp_found_def)
qed simp

lemma lamp_ok: "devices_ok lamp_found"
proof -
  have "sound lamp_env lamp_start"
    using lamp_fresh(1) by (simp add: sound_def devices_ok_def lamp_start_def Initialize_def schedule_coroutine_def new_resources_def)
  with devices.runs [OF lamp_runs] show ?thesis by (simp add: sound_def)
qed

theorem devices_alive_witness: "devices_ok lamp_found"
  using devices_alive [OF lamp_fresh(1), of lamp_detectors False True False False new_settings sample_storage "[]" lamp_found] lamp_runs
  by (simp add: lamp_start_def)

theorem device_list_is_hardware_witness:
  "UpdateDeviceList lamp_found = Some (emit [Ev_device_list, Ev_server_list, Ev_list_changed 1] (lamp_found\<lparr>rgb_controllers := [0]\<rparr>))"
proof -
  have "set (rgb_controllers_hw lamp_found) \<subseteq> dom (controllers_at lamp_found)" by (rule devices_okD(7) [OF lamp_ok])
  then show ?thesis
    using device_list_is_hardware [of lamp_found] by (simp add: lamp_found_lists)
qed

theorem scan_stays_defined_witness:
  "\<exists>st' r. DetectDevicesCoroutine lamp_env lamp_detectors (new_resources new_settings sample_storage []) = Some (st', r) \<and> devices_ok st'"
  by (rule scan_stays_defined [OF lamp_fresh]) (simp add: devices_ok_def new_resources_def)

section \<open>A rescan\<close>

definition lamp_cleared :: resources where
  "lamp_cleared = fst (the (ProcessPreDetection lamp_env lamp_detectors False lamp_found))"

definition lamp_rescanned :: resources where
  "lamp_rescanned = fst (the (DetectDevicesCoroutine lamp_env lamp_detectors lamp_cleared))"

lemma lamp_rescan:
  "map_option snd (ProcessPreDetection lamp_env lamp_detectors False lamp_found) = Some (Returns True)"
  "map_option snd (DetectDevicesCoroutine lamp_env lamp_detectors lamp_cleared) = Some (Returns ())"
  by code_simp+

lemma result_of: "map_option snd x = Some r \<Longrightarrow> x = Some (fst (the x), r)"
  by auto

theorem scan_replaces_devices_witness:
  "rgb_controllers lamp_found = [0] \<and> rgb_controllers lamp_rescanned = rgb_controllers_hw lamp_rescanned \<and>
    distinct (rgb_controllers lamp_rescanned) \<and>
    set (rgb_controllers lamp_rescanned) = dom (controllers_at lamp_rescanned) - dom (controllers_at lamp_found) \<and>
    controllers_at lamp_rescanned 0 = None"
proof -
  note pre = result_of [OF lamp_rescan(1), folded lamp_cleared_def]
  note scan = result_of [OF lamp_rescan(2), folded lamp_rescanned_def]
  have "0 \<in> set (rgb_controllers_hw lamp_found)" by (simp add: lamp_found_lists)
  then show ?thesis
    using scan_replaces_devices [OF lamp_fresh(1) lamp_ok lamp_found_lists(3) pre scan] lamp_found_lists(1) by blast
qed

text \<open>The same scan where the settings name the detector.\<close>

definition named_detectors :: json where
  "named_detectors = jobject [(''detectors'', jobject [(''lamp'', JBool True)])]"

definition named_start :: resources where
  "named_start = (new_resources (new_settings\<lparr>settings_data := jobject [(''Detectors'', named_detectors)]\<rparr>) sample_storage [])\<lparr>detection_is_required := True\<rparr>"

definition named_end :: resources where
  "named_end = fst (the (DetectDevicesCoroutine lamp_env lamp_detectors named_start))"

lemma named_scan: "DetectDevicesCoroutine lamp_env lamp_detectors named_start = Some (named_end, Returns ())"
proof -
  have "map_option snd (DetectDevicesCoroutine lamp_env lamp_detectors named_start) = Some (Returns ())" by code_simp
  then show ?thesis unfolding named_end_def by (rule result_of)
qed

lemma named_calls: "calls_of (res_events named_end) = [Call_device ''lamp'']"
  by code_simp


definition old_lamp :: controller where
  "old_lamp = lamp\<lparr>colors := [7, 8, 9]\<rparr>"

definition replugging :: resources where
  "replugging = (new_resources new_settings sample_storage [])\<lparr>controllers_at := [0 \<mapsto> old_lamp, 1 \<mapsto> lamp],
     rgb_controllers_hw_cleanup_pending := [0], rgb_controllers_sizes := [lamp\<lparr>serial := str8 ''2''\<rparr>],
     detection_size_entry_used := [False]\<rparr>"

definition replugged :: resources where
  "replugged = the (RegisterRGBController (\<lambda>p i n d. Some d) 1 replugging)"

theorem replugged_device_restored_witness:
  "\<exists>d. controllers_at replugged 1 = Some d \<and> colors d = [7, 8, 9]"
proof -
  have "RegisterRGBController (\<lambda>p i n d. Some d) 1 replugging \<noteq> None" by code_simp
  then have reg: "RegisterRGBController (\<lambda>p i n d. Some d) 1 replugging = Some replugged" by (auto simp: replugged_def)
  have old: "controllers_at replugging 1 = Some lamp" "controllers_at replugging 0 = Some old_lamp"
    by (simp_all add: replugging_def new_resources_def)
  have none: "\<forall>t \<in> set (rgb_controllers_sizes replugging). \<not> same_device t lamp"
    by (simp add: replugging_def same_device_def lamp_def sample_defs str8_def)
  have found: "find_existing (controllers_at replugging) (rgb_controllers_hw_matched replugging) lamp
      (rgb_controllers_hw_cleanup_pending replugging) = Some (Some 0)" by code_simp
  have "same_shape old_lamp lamp"
    by (simp add: same_shape_def old_lamp_def lamp_def sample_defs)
  then show ?thesis
    using replugged_device_restored [OF reg old(1) none found old(2)] by (auto simp: old_lamp_def)
qed

section \<open>A scan that fails\<close>

text \<open>A file of settings in which \<open>hid_safe_mode\<close> is a text.\<close>

definition bad_settings :: settings_manager where
  "bad_settings = new_settings\<lparr>settings_data := jobject [(''Detectors'', jobject [(''hid_safe_mode'', jstr ''yes'')])]\<rparr>"

definition bad_start :: resources where
  "bad_start = new_resources bad_settings sample_storage []"

definition bad_end :: resources where
  "bad_end = fst (the (DetectDevicesCoroutine lamp_env lamp_detectors bad_start))"

theorem failed_scan_is_final_witness:
  "DetectDevicesCoroutine lamp_env lamp_detectors (StopDeviceDetection bad_end) = Some (StopDeviceDetection bad_end, Blocks)"
proof -
  have "map_option snd (DetectDevicesCoroutine lamp_env lamp_detectors bad_start) =
      Some (Throws (str8 ''[json.exception.type_error.302] type must be boolean, but is string''))" by code_simp
  then have scan: "DetectDevicesCoroutine lamp_env lamp_detectors bad_start =
      Some (bad_end, Throws (str8 ''[json.exception.type_error.302] type must be boolean, but is string''))"
    unfolding bad_end_def by (rule result_of)
  have "res_runs lamp_env lamp_detectors bad_end (StopDeviceDetection bad_end)"
    by (rule res_runs.step [where i = Stop, OF res_runs.start]) simp_all
  then show ?thesis by (rule failed_scan_is_final [OF scan])
qed

section \<open>Settings\<close>

definition kept_settings :: settings_manager where
  "kept_settings = new_settings\<lparr>settings_data := jobject [(''a'', JBool True)], settings_filename := str8 ''/c/s''\<rparr>"

definition changed_settings :: json where
  "changed_settings = jobject [(''a'', JBool True), (''b'', JBool False)]"

theorem settings_survive_witness:
  "GetSettings ''b'' (fst (LoadSettings (\<lambda>bs. Inr changed_settings) (write_file (str8 ''/c/s'') [1] sample_storage) (str8 ''/c/s'') new_settings))
    = Returns (JBool False)"
proof -
  let ?s = "kept_settings\<lparr>settings_data := changed_settings\<rparr>"
  have set: "SetSettings ''b'' (JBool False) kept_settings = (?s, Returns ())"
    by (simp add: SetSettings_def kept_settings_def new_settings_def json_set_def jobject_def changed_settings_def str8_def)
  have saved: "SaveSettings (\<lambda>j. Some [1]) ?s sample_storage = Returns (write_file (str8 ''/c/s'') [1] sample_storage)"
    by (simp add: SaveSettings_def kept_settings_def new_settings_def)
  have loaded: "LoadSettings (\<lambda>bs. Inr changed_settings) st p new_settings =
      (fst (LoadSettings (\<lambda>bs. Inr changed_settings) st p new_settings), Returns ())" for st p
    by (simp add: LoadSettings_def new_settings_def)
  have name: "settings_filename kept_settings = str8 ''/c/s''" by (simp add: kept_settings_def)
  show ?thesis
    using settings_survive [OF set saved _ _ _ loaded] by (simp add: name sample_storage_def)
qed

end
