(* ===== verification/Spec2Isabelle.thy ===== *)
theory Spec2Isabelle
  imports Rgb_Properties Rgb_Thread Vm_Driver_Props Prof_Remote Ws_Samples Res_Samples
begin

text \<open>
  Verification of MiraBox SyncRGB: the RGB lighting server (\<open>src/RGBServer\<close>) and the kernel driver through which it
  reaches the hardware (\<open>src/PawnIO\<close>).

  \<^bold>\<open>The program.\<close> Every lighting device is an \<open>RGBController\<close>: modes, LEDs, zones laid over one buffer of colors, and
  a thread that sends changes to the hardware. The devices are offered to other programs in two ways. The network
  protocol (\<open>NetworkServer.cpp\<close>, \<open>NetworkClient.cpp\<close>) sends binary descriptions of whole devices; a client
  keeps a copy of each device of the server, and what it does to the copy is sent as packets. The JSON-RPC interface
  (\<open>JSONRPCHandler.cpp\<close>) is text, behind a WebSocket (\<open>WebSocketServer.cpp\<close>). Profiles (\<open>ProfileManager.cpp\<close>) are files
  of the same binary descriptions. The resource manager (\<open>ResourceManager.cpp\<close>) finds the devices at start and on every
  rescan and keeps the list of them all other parts work on. The driver loads signed modules of Pawn bytecode (\<open>amx_loader.h\<close>), runs their
  functions on an abstract machine (\<open>PawnPP/amx.h\<close>) in the kernel, and gives them natives that touch the
  hardware (\<open>vm.cpp\<close>); a program talks to it by requests on a file (\<open>driver.cpp\<close>).

  \<^bold>\<open>How the theories read.\<close> A definition carries the name of the function it translates, and takes the state
  that function works on. Undefined behaviour (an index outside a vector, a null or freed pointer, a read
  behind a buffer, a signed overflow) is \<open>None\<close> in the type \<open>'a defined\<close>; errors the code reports are values. Integers
  are words of their width. Pointers are indices or addresses into an explicit store wherever sharing or freeing
  matters. A proof that a result is \<open>Some\<close> is a proof that the code stays inside its memory.

  \<^bold>\<open>Shared.\<close> \<open>Prelude\<close>: undefined behaviour, checked list access, words as little-endian bytes, C strings, and the
  collections of rewrite rules the proofs use. \<open>Wire\<close>: writers as lists of copies into a buffer, sequential
  readers, and the interface \<open>codec\<close> between an item and its bytes, which every item of a packet provides.

  \<^bold>\<open>Devices\<close> (\<open>RGBController.cpp\<close>).
  \<^item> \<open>Rgb_Controller\<close>: the records \<open>controller\<close>, \<open>zone\<close>, \<open>mode\<close> and the operations on them.
  \<^item> \<open>Rgb_Layout\<close>: \<open>SetupColors\<close> lays the zones over the buffer without gap or overlap. \<open>color_view\<close> and \<open>exact_view\<close> are
    the interfaces of a target of consecutive colors, provided by the buffer, its tail and the slice of a zone.
  \<^item> \<open>Rgb_Protocol\<close>, \<open>Rgb_Roundtrip\<close>: descriptions of devices for each protocol version; the size computed first is the
    size written, and the reader gives back the device up to the fields the version has (\<open>norm_\<close> functions).
  \<^item> \<open>Rgb_Packets\<close>, \<open>Rgb_Properties\<close>: the packets that change a device, and what each one checks or fails to check.
  \<^item> \<open>Rgb_Thread\<close>: the update thread as a step relation over its atomic accesses, the initialisation, the callbacks.
    \<open>reachable\<close> and \<open>init_reachable\<close> are the reachable states; the lemmas are invariants by rule induction.

  \<^bold>\<open>Driver\<close> (\<open>src/PawnIO\<close>).
  \<^item> \<open>Amx_Memory\<close>: address space backings. \<open>memory_backing\<close> states what mapping, unmapping and translating promise; the
    pages of the data (\<open>pages\<close>) and the contiguous code (\<open>code_buffer\<close>) are its interpretations. Their laws hold
    for buffers of at most \<open>2 ^ 56\<close> cells, which no address of the machine exceeds.
  \<^item> \<open>Amx_Machine\<close>: the machine, one definition per opcode, \<open>run\<close> and the calls. \<open>run\<close> is a partial function: a
    script that never returns gives \<open>None\<close>. The loops inside an opcode end by measures, except that a block operation whose
    length is within a cell of \<open>2 ^ 64\<close> is \<open>Diverges\<close>, where the counter of the code wraps around without end.
  \<^item> \<open>Amx_Safety\<close>: \<open>confined\<close>, the relation every opcode, run and call keeps. \<open>Amx_Ops\<close>: what the opcodes compute, and
    exactly when one is undefined.
  \<^item> \<open>Amx_Loader\<close>: reading a module from bytes, its tables, the mapped image.
  \<^item> \<open>Vm_Natives\<close>, \<open>Vm_Natives_Props\<close>: arguments of natives, printing, calls between natives, callbacks. The bodies of
    the natives see and give back all memory of the host, as \<open>virtual_write_byte\<close> needs.
  \<^item> \<open>Vm_Driver\<close>, \<open>Vm_Driver_Props\<close>: loading, executing, destroying, and the requests of a file.

  \<^bold>\<open>Network.\<close>
  \<^item> \<open>Net_Frame\<close>: packets from a stream in arbitrary pieces; the listener refines the list of complete packets.
  \<^item> \<open>Net_Server\<close>, \<open>Net_Server_Props\<close>: clients, requests, replies, and the life of the records of connections.
  \<^item> \<open>Net_Client\<close>, \<open>Net_Client_Props\<close>: connection and listener threads and the list of controllers, whose objects are
    addresses in a store; no controller in the list is ever a deleted one.
  \<^item> \<open>Net_Session\<close>, \<open>Net_Remote\<close>: both ends together over the bytes on the wire.

  \<^bold>\<open>Profiles.\<close> \<open>Prof_Manager\<close>, \<open>Prof_Props\<close>: saving, loading, matching of saved devices, over a file system of
  paths and contents. \<open>Prof_Remote\<close>: loading a profile on the request of a network client.

  \<^bold>\<open>JSON-RPC and WebSocket.\<close>
  \<^item> \<open>Rpc_Json\<close>: JSON values and their conversions. \<open>Rpc_Handler\<close>, \<open>Rpc_Methods\<close>: every method and the dispatch; a method
    returns a value or throws, and what it did before it throws stays done.
  \<^item> \<open>Rpc_Frame\<close>, \<open>Rpc_Runs\<close>: the interface \<open>step_relation\<close>, what a relation must satisfy so that every method obeys it, and
    its five interpretations (which devices, shutdown, lists, files, scans); runs of the handler.
  \<^item> \<open>Rpc_Props\<close>, \<open>Rpc_Colors\<close>, \<open>Rpc_Zones\<close>: the properties; \<open>Rpc_Samples\<close>: the same at concrete requests.
  \<^item> \<open>Ws_Server\<close>: connections, messages, notifications, starting and stopping. \<open>Ws_Props\<close>: \<open>ws_quiet\<close> and \<open>ws_invariant\<close>
    carry an invariant of the server through its operations; interpreted for the life of the client infos, the
    scheduled shutdown, authentication, the dead service and a leaked info. \<open>Ws_Samples\<close>: concrete events.

  \<^bold>\<open>Settings and resource manager.\<close>
  \<^item> \<open>Settings\<close>: the file of settings (\<open>SettingsManager.cpp\<close>), what is stored under a key, and the mutex an exception
    leaves locked.
  \<^item> \<open>Res_Devices\<close>: the lists of devices, registering and withdrawing a controller, how a device that is found again gets
    back its state, \<open>UpdateDeviceList\<close>, and the phases around a scan. Controllers are addresses in a store.
  \<^item> \<open>Res_Detect\<close>: one definition per family of detectors, in the order of \<open>DetectDevicesCoroutine\<close>. A detector is a
    \<open>scan\<close>, a computation that returns, throws or waits forever; what it did before it throws stays done.
  \<^item> \<open>Res_Start\<close>: initialisation, the background thread and its single slot for scheduled work, saved network clients, and
    runs of the program (\<open>res_runs\<close>).
  \<^item> \<open>Res_Lists\<close>: \<open>UpdateDeviceList\<close> edits the list in place; it equals making the list that of the detected devices.
  \<^item> \<open>Res_Frame\<close>: the interface \<open>scan_calls\<close>, what must hold of one call of a detector so that it holds of a whole scan.
    \<open>Res_Alive\<close>: its interpretation for controllers that are alive, with the invariant \<open>devices_ok\<close>.
  \<^item> \<open>Res_Runs\<close>: \<open>res_quiet\<close> and \<open>res_invariant\<close> carry a property of the program through all its operations; interpreted for
    sound lists and for the mutex of a failed scan.
  \<^item> \<open>Res_Props\<close>: the properties, with further interpretations for permitted detectors, devices that are replaced, and
    growing stores; \<open>Res_Samples\<close>: the same at concrete detectors.

  \<^bold>\<open>Loops.\<close> Each loop of the code is structural recursion, a function with a measure (\<open>listen\<close> and \<open>recv_all\<close> consume their
  input, \<open>load_devices\<close> the file, \<open>fmt_loop\<close> fills a message of fixed size), or a partial function. No property is
  stated only for runs that end unless it says so; the wait for the version of the server is shown to take at most
  201 passes, the 200 of its counter and the one that sees it.

  \<^bold>\<open>Outside code\<close> enters as parameters: the wrapped bodies of natives, the kernel allocator and the system
  cryptography of the driver; the virtual functions of the vendors' devices; the network, the clock and the
  allocator's fresh addresses; \<open>websocketpp\<close>, the text form of JSON, and the texts of exceptions of the standard library; what
  an uninitialised variable or a fresh buffer holds; the detectors of the vendors' devices, the enumeration of HID devices and the
  memory modules' identification. What is assumed of them is stated by named predicates
  (\<open>keeps_host\<close>: the wrapped body of a native stores nothing in memory by itself; \<open>confined_native\<close>: a native keeps to the
  data the script has mapped; \<open>alloc_ok\<close>: a new controller of a client has an address no other has; \<open>fresh_env\<close>: so has a controller a detector
  creates; \<open>keeps_zones\<close>: \<open>ResizeZone\<close> of a device keeps the number of its zones), which the witnesses discharge at concrete instances.

  \<^bold>\<open>Assumptions.\<close> The machines are little-endian and 64-bit. A request of the driver owns the mutex of its context; the
  buffer of a request (\<open>METHOD_BUFFERED\<close>) is not cleared by the system; destructors of a tuple run in the order of the
  indices. A packet, a pass of the client's connection thread and a method of the JSON-RPC handler are atomic, as the
  locks make them for one connection. Paths are POSIX paths, files are shorter than 4 GiB. A \<open>double\<close> in JSON is the
  rational it stands for. A scan is one step of the background thread, and requests to stop it take effect at the calls
  of detectors; only the detectors of buses register buses. The map of a matrix zone is never \<open>NULL\<close>.

  \<^bold>\<open>Not modelled.\<close> The protocols of the vendors' devices (\<open>Controllers\<close>) and the bodies of their detectors, keyboard layouts,
  access to buses (hardware and system calls), the progress display, the dialogs and the lists of callbacks of the
  resource manager, the choice of its directory, the graphical interface, start of the program and suspending, logging, the
  command line; sockets below the bytes they deliver; the signature check; the kernel's lists; vendored libraries.
  Two connections that change the same device inside one packet each are not interleaved.
\<close>

end
